(* ===== verification/Gura_Prelude.thy ===== *)
theory Gura_Prelude
  imports Main "HOL-Library.Word" "HOL-Library.Monad_Syntax" "HOL-Library.State_Monad"
begin

section \<open>Shared vocabulary of the Gura development\<close>

text \<open>
  Machine integers, the model of \<^verbatim>\<open>std::unordered_map\<close>, decimal printing as
  \<^verbatim>\<open>fmt::format("{}", n)\<close> does it, and an interface for transition systems with
  an invariant. Every other theory of the development imports this one.
\<close>

type_synonym u32 = "32 word"
type_synonym u64 = "64 word"

text \<open>
  The collections that carry the component proofs: \<open>um_simps\<close> for the map operations,
  \<open>frame_simps\<close> for ``this operation leaves that field alone''.
\<close>

named_theorems um_simps
named_theorems frame_simps


lemma in_set_tl: "x \<in> set (tl xs) \<Longrightarrow> x \<in> set xs"
  by (cases xs) auto


subsection \<open>Hash maps\<close>

text \<open>
  A \<^verbatim>\<open>std::unordered_map\<close> is an association list with distinct keys. C++ leaves the
  iteration order open; the list order is one such order, and only the order in which
  diagnostics are appended depends on it.
\<close>

type_synonym ('k, 'v) unordered_map = "('k \<times> 'v) list"

abbreviation um_find :: "('k, 'v) unordered_map \<Rightarrow> 'k \<Rightarrow> 'v option" where
  "um_find \<equiv> map_of"

definition um_contains :: "('k, 'v) unordered_map \<Rightarrow> 'k \<Rightarrow> bool" where
  "um_contains m k = (case map_of m k of None \<Rightarrow> False | Some _ \<Rightarrow> True)"

definition um_emplace :: "'k \<Rightarrow> 'v \<Rightarrow> ('k, 'v) unordered_map \<Rightarrow> ('k, 'v) unordered_map" where
  "um_emplace k v m = (if um_contains m k then m else m @ [(k, v)])"

fun um_set :: "'k \<Rightarrow> 'v \<Rightarrow> ('k, 'v) unordered_map \<Rightarrow> ('k, 'v) unordered_map" where
  "um_set k v [] = [(k, v)]"
| "um_set k v ((k', v') # m) = (if k' = k then (k, v) # m else (k', v') # um_set k v m)"

fun um_modify :: "'k \<Rightarrow> ('v \<Rightarrow> 'v) \<Rightarrow> ('k, 'v) unordered_map \<Rightarrow> ('k, 'v) unordered_map" where
  "um_modify k f [] = []"
| "um_modify k f ((k', v') # m) = (if k' = k then (k', f v') # m else (k', v') # um_modify k f m)"

abbreviation um_keys :: "('k, 'v) unordered_map \<Rightarrow> 'k list" where
  "um_keys m \<equiv> map fst m"

lemma um_contains_iff [um_simps]: "um_contains m k \<longleftrightarrow> k \<in> set (um_keys m)"
  by (induction m) (auto simp: um_contains_def)

lemma um_contains_find: "um_contains m k \<longleftrightarrow> um_find m k \<noteq> None"
  by (simp add: um_contains_def split: option.splits)

lemma um_find_emplace [um_simps]:
  "um_find (um_emplace k v m) x =
     (if x = k \<and> \<not> um_contains m k then Some v else um_find m x)"
  by (auto simp: um_emplace_def um_contains_def map_add_def
           split: option.splits)

lemma um_find_set [um_simps]: "um_find (um_set k v m) x = (if x = k then Some v else um_find m x)"
  by (induction m) auto

lemma um_find_modify [um_simps]:
  "um_find (um_modify k f m) x = (if x = k then map_option f (um_find m x) else um_find m x)"
  by (induction m) auto

lemma um_keys_modify [simp]: "um_keys (um_modify k f m) = um_keys m"
  by (induction m) auto

lemma um_keys_emplace: "set (um_keys (um_emplace k v m)) = insert k (set (um_keys m))"
  by (auto simp: um_emplace_def um_contains_iff)

lemma distinct_um_emplace [simp]:
  "distinct (um_keys m) \<Longrightarrow> distinct (um_keys (um_emplace k v m))"
  by (auto simp: um_emplace_def um_contains_iff)

lemma um_keys_set: "um_keys (um_set k v m) = (if k \<in> set (um_keys m) then um_keys m else um_keys m @ [k])"
  by (induction m) (force simp del: set_map)+

lemma distinct_um_set [simp]: "distinct (um_keys m) \<Longrightarrow> distinct (um_keys (um_set k v m))"
  by (simp add: um_keys_set)


subsection \<open>Stateful code\<close>

text \<open>
  A method that changes the members of its object is a computation of the state monad over a record of the
  members; the loops over containers are \<open>for_each\<close>.
\<close>

abbreviation ret :: "'a \<Rightarrow> ('s, 'a) state" where
  "ret \<equiv> State_Monad.return"

definition gets :: "('s \<Rightarrow> 'a) \<Rightarrow> ('s, 'a) state" where
  "gets f = State (\<lambda>s. (f s, s))"

definition update :: "('s \<Rightarrow> 's) \<Rightarrow> ('s, unit) state" where
  "update f = State (\<lambda>s. ((), f s))"

primrec for_each :: "'a list \<Rightarrow> ('a \<Rightarrow> ('s, unit) state) \<Rightarrow> ('s, unit) state" where
  "for_each [] body = ret ()"
| "for_each (x # xs) body = do {body x; for_each xs body}"

lemma run_gets [simp]: "run_state (gets f) s = (f s, s)"
  by (simp add: gets_def)

lemma run_update [simp]: "run_state (update f) s = ((), f s)"
  by (simp add: update_def)

lemma for_each_cong [fundef_cong]:
  "xs = ys \<Longrightarrow> (\<And>x. x \<in> set ys \<Longrightarrow> f x = g x) \<Longrightarrow> for_each xs f = for_each ys g"
  by (induction xs arbitrary: ys) auto


subsection \<open>Decimal numbers\<close>

definition digit_char :: "nat \<Rightarrow> char" where
  "digit_char d = char_of (48 + d)"

fun nat_to_dec :: "nat \<Rightarrow> string" where
  "nat_to_dec n = (if n < 10 then [digit_char n] else nat_to_dec (n div 10) @ [digit_char (n mod 10)])"

declare nat_to_dec.simps [simp del]

definition dec_value :: "string \<Rightarrow> nat" where
  "dec_value s = foldl (\<lambda>acc c. 10 * acc + (of_char c - 48)) 0 s"

lemma dec_value_snoc: "dec_value (s @ [c]) = 10 * dec_value s + (of_char c - 48)"
  by (simp add: dec_value_def)

lemma of_char_digit_char [simp]: "d < 10 \<Longrightarrow> of_char (digit_char d) = 48 + d"
  by (simp add: digit_char_def)

text \<open>Printing a number and reading the digits back gives the number.\<close>

lemma dec_value_nat_to_dec: "dec_value (nat_to_dec n) = n"
proof (induction n rule: nat_to_dec.induct)
  case (1 n)
  show ?case
  proof (cases "n < 10")
    case True
    then show ?thesis
      by (subst nat_to_dec.simps) (simp add: dec_value_def)
  next
    case False
    then have "dec_value (nat_to_dec n) = 10 * dec_value (nat_to_dec (n div 10)) + n mod 10"
      by (subst nat_to_dec.simps) (simp add: dec_value_snoc)
    with 1 False show ?thesis by simp
  qed
qed

lemma nat_to_dec_inj: "nat_to_dec m = nat_to_dec n \<longleftrightarrow> m = n"
  by (metis dec_value_nat_to_dec)


subsection \<open>Transition systems with an invariant\<close>

text \<open>
  The components with state are step functions or step relations. What holds initially and
  is kept by every step holds in every state a run reaches; the components instantiate this
  interface with their own initial state, step relation and invariant.
\<close>

locale invariant_system =
  fixes initial :: "'s \<Rightarrow> bool"
    and step :: "'s \<Rightarrow> 's \<Rightarrow> bool"
    and inv :: "'s \<Rightarrow> bool"
  assumes initial_inv: "initial s \<Longrightarrow> inv s"
    and step_inv: "inv s \<Longrightarrow> step s t \<Longrightarrow> inv t"
begin

lemma run_inv: "step\<^sup>*\<^sup>* s t \<Longrightarrow> inv s \<Longrightarrow> inv t"
  by (induction rule: rtranclp_induct) (auto intro: step_inv)

lemma reachable_inv: "initial s \<Longrightarrow> step\<^sup>*\<^sup>* s t \<Longrightarrow> inv t"
  by (blast intro: initial_inv run_inv)

end

end
