(* ===== verification/Gura_Basic.thy ===== *)
theory Gura_Basic
  imports Gura_Prelude
begin

section \<open>Source locations, diagnostics and source files\<close>

text \<open>
  The model of \<^verbatim>\<open>include/gura/basic\<close> and \<^verbatim>\<open>src/basic\<close>: positions and
  spans with their 32-bit fields, the diagnostic engine that every phase reports to, and the
  source manager. Exceptions are values of \<open>source_error\<close>. The file system that
  \<^verbatim>\<open>loadFile\<close> reads is an argument: the contents of a path, or \<open>None\<close> where
  opening it fails.
\<close>

subsection \<open>Positions\<close>

record source_location =
  loc_offset :: u32
  loc_line :: u32
  loc_column :: u32

definition default_location :: source_location where
  "default_location = \<lparr>loc_offset = 0, loc_line = 1, loc_column = 1\<rparr>"

definition SourceLocation_isValid :: "source_location \<Rightarrow> bool" where
  "SourceLocation_isValid l = (loc_line l \<noteq> 0 \<and> loc_column l \<noteq> 0)"

record span =
  span_begin :: source_location
  span_end :: source_location

definition default_span :: span where
  "default_span = \<lparr>span_begin = default_location, span_end = default_location\<rparr>"


subsection \<open>Diagnostics\<close>

datatype diagnostic_severity = Note | Warning | Error

record diagnostic =
  diag_severity :: diagnostic_severity
  diag_span :: span
  diag_message :: string

record diagnostic_engine =
  diagnostics :: "diagnostic list"

definition DiagnosticEngine_report ::
    "diagnostic_severity \<Rightarrow> span \<Rightarrow> string \<Rightarrow> diagnostic_engine \<Rightarrow> diagnostic_engine" where
  "DiagnosticEngine_report sev sp msg e =
     e\<lparr>diagnostics := diagnostics e @ [\<lparr>diag_severity = sev, diag_span = sp, diag_message = msg\<rparr>]\<rparr>"

definition DiagnosticEngine_error :: "span \<Rightarrow> string \<Rightarrow> diagnostic_engine \<Rightarrow> diagnostic_engine" where
  "DiagnosticEngine_error sp msg e = DiagnosticEngine_report Error sp msg e"

fun hasError_loop :: "diagnostic list \<Rightarrow> bool" where
  "hasError_loop [] = False"
| "hasError_loop (d # ds) = (if diag_severity d = Error then True else hasError_loop ds)"

definition DiagnosticEngine_hasError :: "diagnostic_engine \<Rightarrow> bool" where
  "DiagnosticEngine_hasError e = hasError_loop (diagnostics e)"

definition severity_label :: "diagnostic_severity \<Rightarrow> string" where
  "severity_label sev =
     (if sev = Warning then ''warning'' else if sev = Note then ''note'' else ''error'')"

definition format_diagnostic :: "diagnostic \<Rightarrow> string" where
  "format_diagnostic d =
     nat_to_dec (unat (loc_line (span_begin (diag_span d)))) @ '':'' @
     nat_to_dec (unat (loc_column (span_begin (diag_span d)))) @ '':'' @
     nat_to_dec (unat (loc_column (span_end (diag_span d)))) @ '': '' @
     severity_label (diag_severity d) @ '': '' @ diag_message d @ [CHR 0x0A]"

fun format_loop :: "string \<Rightarrow> diagnostic list \<Rightarrow> string" where
  "format_loop output [] = output"
| "format_loop output (d # ds) = format_loop (output @ format_diagnostic d) ds"

definition DiagnosticEngine_format :: "diagnostic_engine \<Rightarrow> string" where
  "DiagnosticEngine_format e = format_loop '''' (diagnostics e)"

text \<open>
  What a phase relies on when it reports: entries are only appended, and whether there is an
  error is a function of the entries. The parser and the checker are clients of this
  interface.
\<close>

locale diagnostic_sink =
  fixes report :: "diagnostic_severity \<Rightarrow> span \<Rightarrow> string \<Rightarrow> 'e \<Rightarrow> 'e"
    and has_error :: "'e \<Rightarrow> bool"
    and entries :: "'e \<Rightarrow> diagnostic list"
  assumes entries_report:
      "\<exists>d. entries (report sev sp msg e) = entries e @ [d] \<and> diag_severity d = sev"
    and has_error_entries: "has_error e \<longleftrightarrow> (\<exists>d \<in> set (entries e). diag_severity d = Error)"
begin

definition extends :: "'e \<Rightarrow> 'e \<Rightarrow> bool" where
  "extends e e' \<longleftrightarrow> (\<exists>ds. entries e' = entries e @ ds)"

lemma extends_refl: "extends e e"
  by (simp add: extends_def)

lemma extends_trans: "extends a b \<Longrightarrow> extends b c \<Longrightarrow> extends a c"
  by (auto simp: extends_def)

lemma extends_report: "extends e (report sev sp msg e)"
  using entries_report [of sev sp msg e] by (auto simp: extends_def)

lemma report_error_has_error: "has_error (report Error sp msg e)"
  using entries_report [of Error sp msg e] by (auto simp: has_error_entries)

lemma report_changes: "report sev sp msg e \<noteq> e"
  using entries_report [of sev sp msg e] by auto

lemma has_error_mono: "extends e e' \<Longrightarrow> has_error e \<Longrightarrow> has_error e'"
  by (auto simp: extends_def has_error_entries)

end

lemma hasError_loop_iff: "hasError_loop ds \<longleftrightarrow> (\<exists>d \<in> set ds. diag_severity d = Error)"
  by (induction ds) auto

interpretation engine: diagnostic_sink DiagnosticEngine_report DiagnosticEngine_hasError diagnostics
  by unfold_locales
     (auto simp: DiagnosticEngine_report_def DiagnosticEngine_hasError_def hasError_loop_iff)

lemma format_loop_append: "format_loop out ds = out @ concat (map format_diagnostic ds)"
  by (induction ds arbitrary: out) auto

lemma format_report:
  "DiagnosticEngine_format (DiagnosticEngine_report sev sp msg e) =
   DiagnosticEngine_format e @
   format_diagnostic \<lparr>diag_severity = sev, diag_span = sp, diag_message = msg\<rparr>"
  by (simp add: DiagnosticEngine_format_def DiagnosticEngine_report_def format_loop_append)


subsection \<open>Source files\<close>

record source_file =
  sf_path :: string
  sf_contents :: string

record source_manager =
  sm_files :: "source_file list"

datatype source_error =
    Runtime_error string
  | Out_of_range

definition addVirtualFile :: "string \<Rightarrow> string \<Rightarrow> source_manager \<Rightarrow> nat \<times> source_manager" where
  "addVirtualFile path contents m =
     (let fs = sm_files m @ [\<lparr>sf_path = path, sf_contents = contents\<rparr>]
      in (length fs - 1, m\<lparr>sm_files := fs\<rparr>))"

definition loadFile ::
    "(string \<Rightarrow> string option) \<Rightarrow> string \<Rightarrow> source_manager \<Rightarrow> (source_error + nat) \<times> source_manager" where
  "loadFile read_file path m =
     (case read_file path of
        None \<Rightarrow> (Inl (Runtime_error (''failed to open source file: '' @ path)), m)
      | Some contents \<Rightarrow> (case addVirtualFile path contents m of (i, m') \<Rightarrow> (Inr i, m')))"

definition SourceManager_file :: "source_manager \<Rightarrow> nat \<Rightarrow> source_error + source_file" where
  "SourceManager_file m i = (if i < length (sm_files m) then Inr (sm_files m ! i) else Inl Out_of_range)"

definition SourceManager_contents :: "source_manager \<Rightarrow> nat \<Rightarrow> source_error + string" where
  "SourceManager_contents m i =
     (case SourceManager_file m i of Inl e \<Rightarrow> Inl e | Inr f \<Rightarrow> Inr (sf_contents f))"

lemma SourceManager_contents_add:
  "SourceManager_contents (snd (addVirtualFile p c m)) (fst (addVirtualFile p c m)) = Inr c"
  by (simp add: SourceManager_contents_def SourceManager_file_def addVirtualFile_def Let_def nth_append)

lemma SourceManager_file_stable:
  "SourceManager_file m i = Inr f \<Longrightarrow> SourceManager_file (snd (addVirtualFile p c m)) i = Inr f"
  by (auto simp: SourceManager_file_def addVirtualFile_def Let_def nth_append split: if_splits)

text \<open>Loading a file that can be read returns an identifier under which exactly the bytes that
  were read are found, and every identifier handed out before still names the same file.
\<close>

lemma loadFile_roundtrip:
  assumes "read_file path = Some c"
  shows "\<exists>i m'. loadFile read_file path m = (Inr i, m') \<and> SourceManager_contents m' i = Inr c \<and>
           (\<forall>j f. SourceManager_file m j = Inr f \<longrightarrow> SourceManager_file m' j = Inr f)"
  using assms SourceManager_contents_add [of path c m] SourceManager_file_stable [of m _ _ path c]
  by (auto simp: loadFile_def split: prod.splits)

end
