(* ===== verification/Gura_Region_IR.thy ===== *)
theory Gura_Region_IR
  imports Gura_Prelude
begin

section \<open>Region IR and its verifier\<close>

text \<open>
  The model of \<^verbatim>\<open>include/gura/region\<close> and \<^verbatim>\<open>src/region\<close>. The verifier is one
  pass with a nesting counter; its specification is the language of balanced brackets.
  The counter is a C++ \<^verbatim>\<open>int\<close>; \<open>verify_loop_depth\<close> bounds it by the number of
  instructions, so it cannot overflow below \<open>2 ^ 31\<close> of them.
\<close>

datatype opcode =
    Op_Load | Op_Swap | Op_Move | Op_AllocMut | Op_AllocTmp | Op_AllocIso
  | Op_Enter | Op_Exit | Op_ExploreEnter | Op_ExploreExit | Op_Freeze | Op_Merge
  | Op_CownNew | Op_CownAcquire | Op_CownRelease | Op_Spawn | Op_TopologyAssert

record instruction =
  ins_opcode :: opcode
  ins_operands :: "string list"

record ir_module =
  instructions :: "instruction list"

fun opcodeName :: "opcode \<Rightarrow> string" where
  "opcodeName Op_Load = ''load''"
| "opcodeName Op_Swap = ''swap''"
| "opcodeName Op_Move = ''move''"
| "opcodeName Op_AllocMut = ''alloc_mut''"
| "opcodeName Op_AllocTmp = ''alloc_tmp''"
| "opcodeName Op_AllocIso = ''alloc_iso''"
| "opcodeName Op_Enter = ''enter''"
| "opcodeName Op_Exit = ''exit''"
| "opcodeName Op_ExploreEnter = ''explore_enter''"
| "opcodeName Op_ExploreExit = ''explore_exit''"
| "opcodeName Op_Freeze = ''freeze''"
| "opcodeName Op_Merge = ''merge''"
| "opcodeName Op_CownNew = ''cown_new''"
| "opcodeName Op_CownAcquire = ''cown_acquire''"
| "opcodeName Op_CownRelease = ''cown_release''"
| "opcodeName Op_Spawn = ''spawn''"
| "opcodeName Op_TopologyAssert = ''topology_assert''"

fun verify_loop :: "instruction list \<Rightarrow> int \<Rightarrow> string list \<Rightarrow> int \<times> string list" where
  "verify_loop [] depth errors = (depth, errors)"
| "verify_loop (i # is) depth errors =
     (if ins_opcode i = Op_Enter \<or> ins_opcode i = Op_ExploreEnter then
        verify_loop is (depth + 1) errors
      else if ins_opcode i = Op_Exit \<or> ins_opcode i = Op_ExploreExit then
        (let depth' = depth - 1 in
         if depth' < 0 then verify_loop is 0 (errors @ [''region exit without matching enter''])
         else verify_loop is depth' errors)
      else verify_loop is depth errors)"

definition RegionVerifier_verify :: "ir_module \<Rightarrow> bool \<times> string list" where
  "RegionVerifier_verify m =
     (case verify_loop (instructions m) 0 [] of
        (depth, errors) \<Rightarrow>
          (let errors' = (if depth \<noteq> 0 then errors @ [''unclosed region enter''] else errors)
           in (errors' = [], errors')))"


subsection \<open>The specification: balanced brackets\<close>

inductive balanced :: "bool list \<Rightarrow> bool" where
  empty: "balanced []"
| nest: "balanced xs \<Longrightarrow> balanced ys \<Longrightarrow> balanced (True # xs @ False # ys)"

fun bracket :: "opcode \<Rightarrow> bool option" where
  "bracket Op_Enter = Some True"
| "bracket Op_ExploreEnter = Some True"
| "bracket Op_Exit = Some False"
| "bracket Op_ExploreExit = Some False"
| "bracket _ = None"

definition brackets :: "instruction list \<Rightarrow> bool list" where
  "brackets is = List.map_filter (\<lambda>i. bracket (ins_opcode i)) is"

fun closes :: "nat \<Rightarrow> bool list \<Rightarrow> bool" where
  "closes d [] = (d = 0)"
| "closes d (True # bs) = closes (Suc d) bs"
| "closes 0 (False # bs) = False"
| "closes (Suc d) (False # bs) = closes d bs"

lemma closes_balanced_append: "balanced xs \<Longrightarrow> closes d (xs @ ys) = closes d ys"
  by (induction arbitrary: d ys rule: balanced.induct) auto

fun closing_word :: "nat \<Rightarrow> bool list \<Rightarrow> bool" where
  "closing_word 0 bs = balanced bs"
| "closing_word (Suc d) bs = (\<exists>xs ys. balanced xs \<and> bs = xs @ False # ys \<and> closing_word d ys)"

lemma closing_word_open: "closing_word (Suc d) bs \<Longrightarrow> closing_word d (True # bs)"
proof -
  assume "closing_word (Suc d) bs"
  then obtain xs ys where xs: "balanced xs" "bs = xs @ False # ys" and ys: "closing_word d ys"
    by auto
  show "closing_word d (True # bs)"
  proof (cases d)
    case 0
    with xs ys show ?thesis by (auto intro: balanced.nest)
  next
    case (Suc k)
    with ys obtain us vs where u: "balanced us" "ys = us @ False # vs" "closing_word k vs"
      by auto
    from xs(1) u(1) have "balanced (True # xs @ False # us)" by (rule balanced.nest)
    moreover have "True # bs = (True # xs @ False # us) @ False # vs" using xs u by simp
    ultimately show ?thesis using u(3) Suc closing_word.simps(2) by blast
  qed
qed

lemma closes_closing_word: "closes d bs \<Longrightarrow> closing_word d bs"
proof (induction d bs rule: closes.induct)
  case (4 d bs)
  then have "balanced [] \<and> False # bs = [] @ False # bs \<and> closing_word d bs"
    by (auto intro: balanced.empty)
  then show ?case by (intro closing_word.simps(2) [THEN iffD2] exI)
qed (auto intro: balanced.empty closing_word_open simp del: closing_word.simps(2))

lemma closes_iff_balanced: "closes 0 bs \<longleftrightarrow> balanced bs"
  using closes_closing_word [of 0 bs] closes_balanced_append [of bs 0 "[]"] by auto

lemma brackets_Cons [simp]:
  "brackets (i # is) = (case bracket (ins_opcode i) of None \<Rightarrow> brackets is | Some b \<Rightarrow> b # brackets is)"
  by (simp add: brackets_def List.map_filter_simps split: option.splits)

lemma brackets_Nil [simp]: "brackets [] = []"
  by (simp add: brackets_def List.map_filter_simps)

lemma verify_loop_keeps_errors: "\<exists>es'. snd (verify_loop is d es) = es @ es'"
proof (induction "is" d es rule: verify_loop.induct)
  case (2 i "is" depth errors)
  then show ?case by (auto simp: Let_def)
qed simp

lemma verify_loop_closes:
  "(verify_loop is (int d) [] = (0, [])) = closes d (brackets is)"
proof (induction "is" arbitrary: d)
  case Nil
  then show ?case by simp
next
  case (Cons i "is")
  have err: "verify_loop is 0 [e] \<noteq> (0, [])" for e
    using verify_loop_keeps_errors [of "is" 0 "[e]"] by auto
  show ?case
  proof (cases "bracket (ins_opcode i)")
    case None
    then show ?thesis using Cons by (cases "ins_opcode i") auto
  next
    case (Some b)
    show ?thesis
    proof (cases b)
      case True
      with Some Cons [of "Suc d"] show ?thesis
        by (cases "ins_opcode i") (auto simp: add.commute)
    next
      case False
      with Some have op: "ins_opcode i = Op_Exit \<or> ins_opcode i = Op_ExploreExit"
        by (cases "ins_opcode i") auto
      show ?thesis
      proof (cases d)
        case 0
        with op Some False err show ?thesis by (auto simp: Let_def)
      next
        case (Suc k)
        with op Some False Cons [of k] show ?thesis by (auto simp: Let_def)
      qed
    qed
  qed
qed

text \<open>C30. The verifier accepts a module exactly when the enter and exit instructions (of both kinds)
  form a balanced bracket sequence.
\<close>

theorem verify_iff_balanced:
  "fst (RegionVerifier_verify m) \<longleftrightarrow> balanced (brackets (instructions m))"
proof -
  obtain d es where v: "verify_loop (instructions m) 0 [] = (d, es)" by fastforce
  then have "fst (RegionVerifier_verify m) \<longleftrightarrow> verify_loop (instructions m) (int 0) [] = (0, [])"
    by (auto simp: RegionVerifier_verify_def Let_def)
  then show ?thesis using verify_loop_closes [of _ 0] by (simp add: closes_iff_balanced)
qed

text \<open>The nesting counter stays between its start and start plus the number of instructions
  read, so a 32-bit counter is wide enough for fewer than \<open>2 ^ 31\<close> instructions.
\<close>

lemma verify_loop_depth:
  "0 \<le> d \<Longrightarrow> 0 \<le> fst (verify_loop is d es) \<and> fst (verify_loop is d es) \<le> d + int (length is)"
proof (induction "is" d es rule: verify_loop.induct)
  case (2 i "is" depth errors)
  consider "ins_opcode i = Op_Enter \<or> ins_opcode i = Op_ExploreEnter"
    | "ins_opcode i = Op_Exit \<or> ins_opcode i = Op_ExploreExit"
    | "bracket (ins_opcode i) = None"
    by (cases "ins_opcode i") auto
  then show ?case
  proof cases
    case 1
    then show ?thesis using "2.IH"(1) "2.prems" by auto
  next
    case 2
    then show ?thesis using "2.IH"(2,3) "2.prems" by (auto simp: Let_def)
  next
    case 3
    then show ?thesis using "2.IH"(4) "2.prems" by (cases "ins_opcode i") auto
  qed
qed simp

end
