(* ===== verification/Gura_Runtime.thy ===== *)
theory Gura_Runtime
  imports Gura_Prelude
begin

unbundle bit_operations_syntax

section \<open>The region runtime\<close>

text \<open>
  The model of \<^verbatim>\<open>runtime/include/gura/runtime\<close> and \<^verbatim>\<open>runtime/src\<close> (regions,
  freeze and merge). Pointers are 64-bit addresses with \<open>0\<close> for \<^verbatim>\<open>nullptr\<close>. The heap
  is explicit: \<open>regions\<close> holds the live \<^verbatim>\<open>Region\<close> objects and \<open>blocks\<close> the live
  blocks of \<^verbatim>\<open>calloc\<close>, each with the \<^verbatim>\<open>ObjectHeader\<close> at its start. The head of
  a thread's \<open>regionStack\<close> is \<^verbatim>\<open>regionStack.back()\<close>.

  An operation returns an outcome and the next state: a value, a C++ exception, or
  undefined behaviour (\<open>UB\<close>: a dereference of an address that is not live, a double
  free). The addresses that \<^verbatim>\<open>new\<close> and \<^verbatim>\<open>calloc\<close> return are arguments. Each
  operation is one atomic step: the C++ code takes no lock, and regions reach another
  thread only through a cown or a transfer.
\<close>

type_synonym addr = u64
type_synonym thread = nat

datatype region_state = Active | Paused | Closed

datatype region_strategy = Arena | RC | GC | Manual

datatype bridge_state = ExternalIso | ActiveMut | PausedRead | Frozen | Merged

abbreviation ObjectFlagNone :: u32 where "ObjectFlagNone \<equiv> 0"
abbreviation ObjectFlagFrozen :: u32 where "ObjectFlagFrozen \<equiv> push_bit 0 1"

record object_header =
  oh_regionId :: u64
  oh_typeId :: u64
  oh_flags :: u32
  oh_reserved :: u32

record bridge_token =
  bt_regionId :: u64
  bt_object :: addr
  bt_typeId :: u64
  bt_state :: bridge_state

record boundary_metadata =
  bm_regionId :: u64
  bm_bridgeTypeId :: u64
  bm_bridgeSize :: u64

record region =
  rg_id :: u64
  rg_state :: region_state
  rg_strategy :: region_strategy
  rg_bridge :: addr
  rg_bridgeTypeId :: u64
  rg_bridgeSize :: u64
  rg_bridgeToken :: bridge_token
  rg_boundary :: boundary_metadata
  rg_allocations :: "addr list"

record block =
  blk_size :: u64
  blk_header :: object_header

record runtime =
  nextRegionId :: u64
  regionStack :: "thread \<Rightarrow> addr list"
  regions :: "addr \<rightharpoonup> region"
  blocks :: "addr \<rightharpoonup> block"

datatype exn = RuntimeError string | BadAlloc

datatype 'a outcome = Ret 'a | Throw exn | UB

text \<open>The process at start: no region, no block, every thread's stack empty.\<close>

definition initial_runtime :: runtime where
  "initial_runtime =
     \<lparr>nextRegionId = 1, regionStack = (\<lambda>_. []), regions = Map.empty, blocks = Map.empty\<rparr>"

abbreviation upd_region :: "addr \<Rightarrow> (region \<Rightarrow> region) \<Rightarrow> runtime \<Rightarrow> runtime" where
  "upd_region r f rt \<equiv> rt\<lparr>regions := (regions rt)(r := map_option f (regions rt r))\<rparr>"

abbreviation upd_header :: "addr \<Rightarrow> (object_header \<Rightarrow> object_header) \<Rightarrow> runtime \<Rightarrow> runtime" where
  "upd_header h f rt \<equiv>
     rt\<lparr>blocks := (blocks rt)(h := map_option (\<lambda>b. b\<lparr>blk_header := f (blk_header b)\<rparr>) (blocks rt h))\<rparr>"

abbreviation delete_region :: "addr \<Rightarrow> runtime \<Rightarrow> runtime" where
  "delete_region r rt \<equiv> rt\<lparr>regions := (regions rt)(r := None)\<rparr>"

abbreviation throw_error :: "string \<Rightarrow> runtime \<Rightarrow> 'a outcome \<times> runtime" where
  "throw_error msg rt \<equiv> (Throw (RuntimeError msg), rt)"


subsection \<open>Headers and payloads\<close>

text \<open>\<^verbatim>\<open>sizeof(ObjectHeader)\<close>: two 8-byte and two 4-byte fields.\<close>

definition sizeof_ObjectHeader :: u64 where
  "sizeof_ObjectHeader = 24"

definition gura_header_for_payload :: "addr \<Rightarrow> addr" where
  "gura_header_for_payload payload = (if payload = 0 then 0 else payload - sizeof_ObjectHeader)"

definition gura_payload_for_header :: "addr \<Rightarrow> addr" where
  "gura_payload_for_header header = (if header = 0 then 0 else header + sizeof_ObjectHeader)"


subsection \<open>Region operations\<close>

text \<open>
  The \<^verbatim>\<open>Region\<close> object and the block as \<^verbatim>\<open>__gura_region_new_iso\<close> leaves them; the size
  of the block is computed in \<^verbatim>\<open>size_t\<close>, so it wraps.
\<close>

definition new_region_object :: "u64 \<Rightarrow> addr \<Rightarrow> u64 \<Rightarrow> region_strategy \<Rightarrow> region" where
  "new_region_object i allocation bridgeSize strategy =
     (let bridge = gura_payload_for_header allocation in
      \<lparr>rg_id = i, rg_state = Closed, rg_strategy = strategy,
       rg_bridge = bridge, rg_bridgeTypeId = 0, rg_bridgeSize = bridgeSize,
       rg_bridgeToken = \<lparr>bt_regionId = i, bt_object = bridge, bt_typeId = 0, bt_state = ExternalIso\<rparr>,
       rg_boundary = \<lparr>bm_regionId = i, bm_bridgeTypeId = 0, bm_bridgeSize = bridgeSize\<rparr>,
       rg_allocations = [allocation]\<rparr>)"

definition new_block :: "u64 \<Rightarrow> u64 \<Rightarrow> block" where
  "new_block i bridgeSize =
     \<lparr>blk_size = sizeof_ObjectHeader + bridgeSize,
      blk_header = \<lparr>oh_regionId = i, oh_typeId = 0, oh_flags = ObjectFlagNone, oh_reserved = 0\<rparr>\<rparr>"

definition gura_region_new_iso ::
    "u64 \<Rightarrow> region_strategy \<Rightarrow> addr option \<Rightarrow> addr \<Rightarrow> runtime \<Rightarrow> addr outcome \<times> runtime" where
  "gura_region_new_iso bridgeSize strategy new_region calloc_result rt =
     (case new_region of
        None \<Rightarrow> (Throw BadAlloc, rt)
      | Some region \<Rightarrow>
          let i = nextRegionId rt; rt1 = rt\<lparr>nextRegionId := i + 1\<rparr>; allocation = calloc_result
          in if allocation = 0 then (Throw BadAlloc, rt1)
             else (Ret region,
                   rt1\<lparr>regions := (regions rt1)(region \<mapsto> new_region_object i allocation bridgeSize strategy),
                       blocks := (blocks rt1)(allocation \<mapsto> new_block i bridgeSize)\<rparr>))"

definition gura_region_bridge :: "addr \<Rightarrow> runtime \<Rightarrow> addr outcome \<times> runtime" where
  "gura_region_bridge region rt =
     (if region = 0 then throw_error ''region bridge requires a region'' rt
      else case regions rt region of
             None \<Rightarrow> (UB, rt)
           | Some rg \<Rightarrow> (Ret (rg_bridge rg), rt))"

definition gura_region_set_bridge_type :: "addr \<Rightarrow> u64 \<Rightarrow> runtime \<Rightarrow> unit outcome \<times> runtime" where
  "gura_region_set_bridge_type region typeId rt =
     (if region = 0 then throw_error ''region bridge type requires a region'' rt
      else case regions rt region of
             None \<Rightarrow> (UB, rt)
           | Some rg \<Rightarrow>
               let rt1 = upd_region region
                     (\<lambda>rg. rg\<lparr>rg_bridgeTypeId := typeId,
                              rg_bridgeToken := (rg_bridgeToken rg)\<lparr>bt_typeId := typeId\<rparr>,
                              rg_boundary := (rg_boundary rg)\<lparr>bm_bridgeTypeId := typeId\<rparr>\<rparr>) rt;
                   header = gura_header_for_payload (rg_bridge rg)
               in if header = 0 then (Ret (), rt1)
                  else case blocks rt1 header of
                         None \<Rightarrow> (UB, rt1)
                       | Some _ \<Rightarrow> (Ret (), upd_header header (\<lambda>h. h\<lparr>oh_typeId := typeId\<rparr>) rt1))"

text \<open>
  \<^verbatim>\<open>if (!regionStack.empty() && regionStack.back()->state == from) back()->state = to\<close>:
  the pause on entry and the resume on exit; \<open>None\<close> where \<^verbatim>\<open>back()\<close> dangles.
\<close>

definition switch_top :: "thread \<Rightarrow> region_state \<Rightarrow> region_state \<Rightarrow> runtime \<Rightarrow> runtime option" where
  "switch_top t from to rt =
     (case regionStack rt t of
        [] \<Rightarrow> Some rt
      | back # _ \<Rightarrow>
          (case regions rt back of
             None \<Rightarrow> None
           | Some rg \<Rightarrow>
               Some (if rg_state rg = from then upd_region back (\<lambda>rg. rg\<lparr>rg_state := to\<rparr>) rt else rt)))"

text \<open>The common body of \<^verbatim>\<open>__gura_region_enter\<close> and \<^verbatim>\<open>__gura_region_explore\<close>.\<close>

definition open_region ::
    "string \<Rightarrow> region_state \<Rightarrow> bridge_state \<Rightarrow> thread \<Rightarrow> addr \<Rightarrow> runtime \<Rightarrow> unit outcome \<times> runtime" where
  "open_region msg st bst t region rt =
     (if region = 0 then throw_error msg rt
      else case regions rt region of
             None \<Rightarrow> (UB, rt)
           | Some rg \<Rightarrow>
               if rg_state rg \<noteq> Closed then throw_error msg rt
               else case switch_top t Active Paused rt of
                      None \<Rightarrow> (UB, rt)
                    | Some rt1 \<Rightarrow>
                        let rt2 = rt1\<lparr>regionStack := (regionStack rt1)(t := region # regionStack rt1 t)\<rparr>
                        in (Ret (), upd_region region
                              (\<lambda>rg. rg\<lparr>rg_state := st,
                                       rg_bridgeToken := (rg_bridgeToken rg)\<lparr>bt_state := bst\<rparr>\<rparr>) rt2))"

definition gura_region_enter :: "thread \<Rightarrow> addr \<Rightarrow> runtime \<Rightarrow> unit outcome \<times> runtime" where
  "gura_region_enter = open_region ''cannot enter non-closed region'' Active ActiveMut"

definition gura_region_explore :: "thread \<Rightarrow> addr \<Rightarrow> runtime \<Rightarrow> unit outcome \<times> runtime" where
  "gura_region_explore = open_region ''cannot explore non-closed region'' Paused PausedRead"

definition requireStackTop :: "thread \<Rightarrow> addr \<Rightarrow> runtime \<Rightarrow> bool" where
  "requireStackTop t region rt =
     (case regionStack rt t of [] \<Rightarrow> False | back # _ \<Rightarrow> back = region)"

text \<open>The common tail of both exits: fresh token, \<^verbatim>\<open>Closed\<close>, pop, resume.\<close>

definition close_region :: "thread \<Rightarrow> addr \<Rightarrow> runtime \<Rightarrow> unit outcome \<times> runtime" where
  "close_region t region rt =
     (let rt1 = upd_region region
            (\<lambda>rg. rg\<lparr>rg_bridgeToken := \<lparr>bt_regionId = rg_id rg, bt_object = rg_bridge rg,
                                          bt_typeId = rg_bridgeTypeId rg, bt_state = ExternalIso\<rparr>,
                     rg_state := Closed\<rparr>) rt;
          rt2 = rt1\<lparr>regionStack := (regionStack rt1)(t := tl (regionStack rt1 t))\<rparr>
      in case switch_top t Paused Active rt2 of
           None \<Rightarrow> (UB, rt2)
         | Some rt3 \<Rightarrow> (Ret (), rt3))"

definition gura_region_exit :: "thread \<Rightarrow> addr \<Rightarrow> addr \<Rightarrow> runtime \<Rightarrow> unit outcome \<times> runtime" where
  "gura_region_exit t region newBridge rt =
     (if region = 0 then throw_error ''cannot exit non-active region'' rt
      else case regions rt region of
        None \<Rightarrow> (UB, rt)
      | Some rg \<Rightarrow>
          if rg_state rg \<noteq> Active then throw_error ''cannot exit non-active region'' rt
          else if \<not> requireStackTop t region rt then
            throw_error ''cannot exit region that is not on top of the region stack'' rt
          else if newBridge \<noteq> 0 then
            (let header = gura_header_for_payload newBridge in
             if header = 0 then throw_error ''new bridge must belong to the exiting region'' rt
             else case blocks rt header of
               None \<Rightarrow> (UB, rt)
             | Some b \<Rightarrow>
                 let h = blk_header b in
                 if oh_regionId h \<noteq> rg_id rg then
                   throw_error ''new bridge must belong to the exiting region'' rt
                 else if oh_flags h AND ObjectFlagFrozen \<noteq> 0 then
                   throw_error ''new bridge must not be frozen'' rt
                 else close_region t region
                        (upd_region region
                           (\<lambda>rg. rg\<lparr>rg_bridge := newBridge, rg_bridgeTypeId := oh_typeId h,
                                    rg_boundary := (rg_boundary rg)\<lparr>bm_bridgeTypeId := oh_typeId h\<rparr>\<rparr>) rt))
          else close_region t region rt)"

definition gura_region_explore_exit :: "thread \<Rightarrow> addr \<Rightarrow> runtime \<Rightarrow> unit outcome \<times> runtime" where
  "gura_region_explore_exit t region rt =
     (if region = 0 then throw_error ''cannot exit non-paused region'' rt
      else case regions rt region of
        None \<Rightarrow> (UB, rt)
      | Some rg \<Rightarrow>
          if rg_state rg \<noteq> Paused then throw_error ''cannot exit non-paused region'' rt
          else if \<not> requireStackTop t region rt then
            throw_error ''cannot exit explored region that is not on top of the region stack'' rt
          else close_region t region rt)"

text \<open>\<^verbatim>\<open>std::free\<close> of each allocation: \<open>None\<close> where a block is not live (double free).\<close>

fun free_all :: "addr list \<Rightarrow> (addr \<rightharpoonup> block) \<Rightarrow> (addr \<rightharpoonup> block) option" where
  "free_all [] bs = Some bs"
| "free_all (a # as) bs =
     (if a = 0 then free_all as bs
      else case bs a of None \<Rightarrow> None | Some _ \<Rightarrow> free_all as (bs(a := None)))"

definition gura_region_destroy :: "addr \<Rightarrow> runtime \<Rightarrow> unit outcome \<times> runtime" where
  "gura_region_destroy region rt =
     (if region = 0 then (Ret (), rt)
      else case regions rt region of
        None \<Rightarrow> (UB, rt)
      | Some rg \<Rightarrow>
          (case free_all (rg_allocations rg) (blocks rt) of
             None \<Rightarrow> (UB, rt)
           | Some bs \<Rightarrow> (Ret (), delete_region region (rt\<lparr>blocks := bs\<rparr>))))"


subsection \<open>Freeze and merge\<close>

definition gura_region_freeze :: "addr \<Rightarrow> runtime \<Rightarrow> addr outcome \<times> runtime" where
  "gura_region_freeze region rt =
     (if region = 0 then throw_error ''freeze requires a closed region'' rt
      else case regions rt region of
        None \<Rightarrow> (UB, rt)
      | Some rg \<Rightarrow>
          if rg_state rg \<noteq> Closed then throw_error ''freeze requires a closed region'' rt
          else
            (let header = gura_header_for_payload (rg_bridge rg);
                 finish = upd_region region
                   (\<lambda>rg. rg\<lparr>rg_bridgeToken := (rg_bridgeToken rg)\<lparr>bt_state := Frozen\<rparr>\<rparr>)
             in if header = 0 then (Ret (rg_bridge rg), finish rt)
                else case blocks rt header of
                  None \<Rightarrow> (UB, rt)
                | Some _ \<Rightarrow>
                    (Ret (rg_bridge rg),
                     finish (upd_header header
                       (\<lambda>h. h\<lparr>oh_flags := oh_flags h OR ObjectFlagFrozen\<rparr>) rt))))"

definition gura_region_merge :: "addr \<Rightarrow> addr \<Rightarrow> runtime \<Rightarrow> addr outcome \<times> runtime" where
  "gura_region_merge target source rt =
     (if target = 0 then throw_error ''merge target must be active'' rt
      else case regions rt target of
        None \<Rightarrow> (UB, rt)
      | Some tg \<Rightarrow>
          if rg_state tg \<noteq> Active then throw_error ''merge target must be active'' rt
          else if source = 0 then throw_error ''merge source must be closed'' rt
          else case regions rt source of
            None \<Rightarrow> (UB, rt)
          | Some sg \<Rightarrow>
              if rg_state sg \<noteq> Closed then throw_error ''merge source must be closed'' rt
              else
                (let rt1 = upd_region source (\<lambda>rg. rg\<lparr>rg_allocations := []\<rparr>)
                             (upd_region target
                               (\<lambda>rg. rg\<lparr>rg_allocations := rg_allocations rg @ rg_allocations sg\<rparr>) rt);
                     bridge = rg_bridge sg;
                     header = gura_header_for_payload bridge;
                     finish = (\<lambda>rt'. delete_region source (upd_region target
                        (\<lambda>rg. rg\<lparr>rg_bridgeToken := (rg_bridgeToken rg)\<lparr>bt_state := Merged\<rparr>\<rparr>) rt'))
                 in if header = 0 then (Ret bridge, finish rt1)
                    else case blocks rt1 header of
                      None \<Rightarrow> (UB, rt1)
                    | Some _ \<Rightarrow>
                        (Ret bridge, finish (upd_header header (\<lambda>h. h\<lparr>oh_regionId := rg_id tg\<rparr>) rt1))))"

definition gura_topology_assert :: "addr \<Rightarrow> runtime \<Rightarrow> unit outcome \<times> runtime" where
  "gura_topology_assert region rt = (Ret (), rt)"

end
