(* ===== verification/Gura_Runtime_Inv.thy ===== *)
theory Gura_Runtime_Inv
  imports Gura_Runtime
begin

unbundle bit_operations_syntax

section \<open>The open-region stack: abstract machine and refinement\<close>

text \<open>
  The discipline of \<^verbatim>\<open>docs/memory-safety.md\<close>, section 1: every thread has a stack of
  open regions, only the top can be active, the ones below it are paused, and what is on no
  stack is closed. \<open>stack_ok\<close> states it on the stacks and the region states alone; the
  abstract operations below push, pop, create and delete; \<open>state_of\<close> is the abstraction
  function, and every runtime operation refines the abstract one.
\<close>

type_synonym stacks = "thread \<Rightarrow> addr list"
type_synonym states = "addr \<rightharpoonup> region_state"

definition states_of :: "(addr \<rightharpoonup> region) \<Rightarrow> states" where
  "states_of R r = map_option rg_state (R r)"

abbreviation state_of :: "runtime \<Rightarrow> states" where
  "state_of rt \<equiv> states_of (regions rt)"

definition stack_ok :: "stacks \<Rightarrow> states \<Rightarrow> bool" where
  "stack_ok S s \<longleftrightarrow>
     (\<forall>t. distinct (S t)) \<and>
     (\<forall>t u r. r \<in> set (S t) \<longrightarrow> r \<in> set (S u) \<longrightarrow> t = u) \<and>
     (\<forall>t r. r \<in> set (S t) \<longrightarrow> s r = Some Active \<or> s r = Some Paused) \<and>
     (\<forall>r. (\<forall>t. r \<notin> set (S t)) \<longrightarrow> s r = None \<or> s r = Some Closed) \<and>
     (\<forall>t r. r \<in> set (tl (S t)) \<longrightarrow> s r = Some Paused)"

definition abs_switch :: "addr list \<Rightarrow> region_state \<Rightarrow> region_state \<Rightarrow> states \<Rightarrow> states" where
  "abs_switch rs from to s =
     (case rs of [] \<Rightarrow> s | r # _ \<Rightarrow> if s r = Some from then s(r \<mapsto> to) else s)"

definition abs_open :: "thread \<Rightarrow> addr \<Rightarrow> region_state \<Rightarrow> stacks \<times> states \<Rightarrow> stacks \<times> states" where
  "abs_open t r x = (\<lambda>(S, s). (S(t := r # S t), (abs_switch (S t) Active Paused s)(r \<mapsto> x)))"

definition abs_close :: "thread \<Rightarrow> stacks \<times> states \<Rightarrow> stacks \<times> states" where
  "abs_close t = (\<lambda>(S, s). (S(t := tl (S t)),
     abs_switch (tl (S t)) Paused Active (s(hd (S t) \<mapsto> Closed))))"

definition view :: "runtime \<Rightarrow> stacks \<times> states" where
  "view rt = (regionStack rt, state_of rt)"

lemma stack_okD:
  assumes "stack_ok S s"
  shows "distinct (S t)"
    and "r \<in> set (S t) \<Longrightarrow> r \<in> set (S u) \<Longrightarrow> t = u"
    and "r \<in> set (S t) \<Longrightarrow> s r = Some Active \<or> s r = Some Paused"
    and "s r = Some Active \<or> s r = Some Paused \<Longrightarrow> \<exists>t. r \<in> set (S t)"
    and "r \<in> set (tl (S t)) \<Longrightarrow> s r = Some Paused"
  using assms by (auto simp: stack_ok_def)

lemma stack_ok_closed_notin: "stack_ok S s \<Longrightarrow> s r = Some Closed \<Longrightarrow> r \<notin> set (S t)"
  by (fastforce dest: stack_okD(3))

lemma stack_ok_push:
  assumes ok: "stack_ok S s" and cl: "s r = Some Closed" and x: "x = Active \<or> x = Paused"
  shows "stack_ok (S(t := r # S t)) ((abs_switch (S t) Active Paused s)(r \<mapsto> x))"
proof -
  let ?s = "(abs_switch (S t) Active Paused s)(r \<mapsto> x)"
  have notin: "r \<notin> set (S u)" for u
    using ok cl by (rule stack_ok_closed_notin)
  have paused: "?s q = Some Paused" if "q \<in> set (S t)" for q
  proof (cases "S t")
    case (Cons a as)
    with that have "q = a \<or> q \<in> set (tl (S t))" by auto
    then show ?thesis
      using stack_okD(3,5) [OF ok, of _ t] notin [of t] that Cons
      by (auto simp: abs_switch_def)
  qed (use that in simp)
  have other: "?s q = s q" if "q \<notin> set (S t)" "q \<noteq> r" for q
    using that by (cases "S t") (auto simp: abs_switch_def)
  have dist: "\<forall>u. distinct ((S(t := r # S t)) u)"
    using stack_okD(1) [OF ok] notin by auto
  have disj: "\<forall>u v q. q \<in> set ((S(t := r # S t)) u) \<longrightarrow> q \<in> set ((S(t := r # S t)) v) \<longrightarrow> u = v"
    using stack_okD(2) [OF ok] notin by auto
  have opens: "?s q = Some Active \<or> ?s q = Some Paused" if "q \<in> set ((S(t := r # S t)) u)" for u q
  proof (cases "q = r \<or> q \<in> set (S t)")
    case True
    then show ?thesis using paused [of q] x by auto
  next
    case False
    with that have "q \<in> set (S u)" by (auto split: if_splits)
    then show ?thesis using other [of q] False stack_okD(3) [OF ok] by auto
  qed
  have closed: "?s q = None \<or> ?s q = Some Closed" if "\<forall>u. q \<notin> set ((S(t := r # S t)) u)" for q
  proof -
    from that have "q \<noteq> r" "\<forall>u. q \<notin> set (S u)"
      by (metis fun_upd_same list.set_intros(1), metis fun_upd_apply list.set_intros(2))
    then show ?thesis using other [of q] ok by (auto simp: stack_ok_def)
  qed
  have below: "?s q = Some Paused" if "q \<in> set (tl ((S(t := r # S t)) u))" for u q
  proof (cases "u = t")
    case True
    with that paused [of q] show ?thesis by simp
  next
    case False
    with that have q: "q \<in> set (tl (S u))" "q \<in> set (S u)" by (auto dest: in_set_tl)
    then have "q \<notin> set (S t)" "q \<noteq> r" using False stack_okD(2) [OF ok] notin by auto
    then show ?thesis using other q stack_okD(5) [OF ok] by simp
  qed
  show ?thesis
    unfolding stack_ok_def using dist disj opens closed below by blast
qed

lemma stack_ok_pop:
  assumes ok: "stack_ok S s" and S: "S t = r # rs"
  shows "stack_ok (S(t := rs)) (abs_switch rs Paused Active (s(r \<mapsto> Closed)))"
proof -
  let ?s = "abs_switch rs Paused Active (s(r \<mapsto> Closed))"
  have nr: "r \<notin> set rs" using stack_okD(1) [OF ok, of t] S by simp
  have rs: "s q = Some Paused" if "q \<in> set rs" for q
    using stack_okD(5) [OF ok, of q t] S that by simp
  have r: "r \<notin> set (S u)" if "u \<noteq> t" for u
    using stack_okD(2) [OF ok, of r t u] S that by auto
  have other: "?s q = s q" if "q \<noteq> r" "q \<notin> set rs" for q
    using that by (cases rs) (auto simp: abs_switch_def)
  have r_closed: "?s r = Some Closed"
    using nr by (cases rs) (auto simp: abs_switch_def)
  have opens: "?s q = Some Active \<or> ?s q = Some Paused" if "q \<in> set ((S(t := rs)) u)" for u q
  proof (cases "q \<in> set rs")
    case True
    then show ?thesis using rs [of q] nr by (cases rs) (auto simp: abs_switch_def)
  next
    case False
    with that have "u \<noteq> t" "q \<in> set (S u)" by (auto split: if_splits)
    then show ?thesis using other [of q] r [of u] False stack_okD(3) [OF ok] by metis
  qed
  have closed: "?s q = None \<or> ?s q = Some Closed" if "\<forall>u. q \<notin> set ((S(t := rs)) u)" for q
  proof (cases "q = r")
    case True
    then show ?thesis using r_closed by simp
  next
    case False
    with that S have "\<forall>u. q \<notin> set (S u)" "q \<notin> set rs"
      by (metis fun_upd_apply set_ConsD, metis fun_upd_same)
    then show ?thesis using other [of q] False ok by (auto simp: stack_ok_def)
  qed
  have below: "?s q = Some Paused" if "q \<in> set (tl ((S(t := rs)) u))" for u q
  proof (cases "u = t")
    case True
    with that have q: "q \<in> set (tl rs)" by simp
    moreover have "distinct rs" using stack_okD(1) [OF ok, of t] S by simp
    ultimately show ?thesis using rs [of q] nr by (cases rs) (auto simp: abs_switch_def)
  next
    case False
    with that have q: "q \<in> set (tl (S u))" "q \<in> set (S u)" by (auto dest: in_set_tl)
    with False S have "q \<notin> set rs" "q \<noteq> r"
      using stack_okD(2) [OF ok, of q t u] r [of u] by auto
    then show ?thesis using other q stack_okD(5) [OF ok] by simp
  qed
  have "\<forall>u. distinct ((S(t := rs)) u)"
    using stack_okD(1) [OF ok] S by (metis distinct.simps(2) fun_upd_apply)
  moreover have "\<forall>u v q. q \<in> set ((S(t := rs)) u) \<longrightarrow> q \<in> set ((S(t := rs)) v) \<longrightarrow> u = v"
    using stack_okD(2) [OF ok, of _ t] stack_okD(2) [OF ok, of _ _ t] stack_okD(2) [OF ok] S
    by (auto split: if_splits)
  ultimately show ?thesis
    unfolding stack_ok_def using opens closed below by blast
qed

lemma stack_ok_new: "stack_ok S s \<Longrightarrow> s r = None \<Longrightarrow> stack_ok S (s(r \<mapsto> Closed))"
  unfolding stack_ok_def by (auto dest: in_set_tl) (metis option.distinct(1))+

lemma stack_ok_delete: "stack_ok S s \<Longrightarrow> s r = Some Closed \<Longrightarrow> stack_ok S (s(r := None))"
proof -
  assume ok: "stack_ok S s" and cl: "s r = Some Closed"
  then have "r \<notin> set (S t)" for t by (rule stack_ok_closed_notin)
  with ok show ?thesis unfolding stack_ok_def by (auto dest: in_set_tl)
qed

text \<open>The abstract operations keep the discipline.\<close>

lemma abs_open_ok:
  "stack_ok S s \<Longrightarrow> s r = Some Closed \<Longrightarrow> x = Active \<or> x = Paused \<Longrightarrow>
   (case abs_open t r x (S, s) of (S', s') \<Rightarrow> stack_ok S' s')"
  by (simp add: abs_open_def stack_ok_push)

lemma abs_close_ok:
  "stack_ok S s \<Longrightarrow> S t \<noteq> [] \<Longrightarrow> (case abs_close t (S, s) of (S', s') \<Rightarrow> stack_ok S' s')"
  using stack_ok_pop [of S s t "hd (S t)" "tl (S t)"] by (simp add: abs_close_def)


subsection \<open>The runtime operations refine the abstract ones\<close>

lemma states_of_upd [simp]: "states_of (R(r := x)) = (states_of R)(r := map_option rg_state x)"
  by (auto simp: states_of_def fun_eq_iff)

lemma states_of_map_option [simp]:
  "map_option rg_state (map_option f x) = map_option (rg_state \<circ> f) x"
  by (simp add: option.map_comp)

lemma states_of_None [simp]: "states_of R r = None \<longleftrightarrow> R r = None"
  by (simp add: states_of_def)

lemma states_of_Some: "states_of R r = Some x \<longleftrightarrow> (\<exists>rg. R r = Some rg \<and> rg_state rg = x)"
  by (auto simp: states_of_def)

lemma switch_top_view:
  "switch_top t a b rt = Some rt' \<Longrightarrow>
     regionStack rt' = regionStack rt \<and> state_of rt' = abs_switch (regionStack rt t) a b (state_of rt)"
  by (auto simp: switch_top_def abs_switch_def states_of_Some
      split: list.splits option.splits if_splits)

lemma switch_top_total:
  "(\<And>r. r \<in> set (regionStack rt t) \<Longrightarrow> regions rt r \<noteq> None) \<Longrightarrow> \<exists>rt'. switch_top t a b rt = Some rt'"
  by (cases "regionStack rt t") (fastforce simp: switch_top_def)+

text \<open>An operation that opens a region either throws without effect or refines \<open>abs_open\<close>.\<close>

lemma open_region_cases:
  assumes "open_region msg x bst t r rt = (out, rt')" and "out \<noteq> UB"
  obtains (throw) "out = Throw (RuntimeError msg)" "rt' = rt" "r = 0 \<or> state_of rt r \<noteq> Some Closed"
  | (ret) "out = Ret ()" "r \<noteq> 0" "state_of rt r = Some Closed" "view rt' = abs_open t r x (view rt)"
proof (cases "r = 0 \<or> state_of rt r \<noteq> Some Closed")
  case True
  with assms show ?thesis
    by (intro throw) (auto simp: open_region_def states_of_Some split: option.splits if_splits)
next
  case False
  then obtain rg where rg: "regions rt r = Some rg" "rg_state rg = Closed" "r \<noteq> 0"
    by (auto simp: states_of_Some)
  with assms obtain rt1 where sw: "switch_top t Active Paused rt = Some rt1"
    by (auto simp: open_region_def split: option.splits)
  note v = switch_top_view [OF sw]
  have "regions rt1 r \<noteq> None"
  proof -
    have "state_of rt1 r \<noteq> None"
      using v rg by (auto simp: abs_switch_def states_of_Some split: list.splits)
    then show ?thesis by simp
  qed
  then have "out = Ret ()" "view rt' = abs_open t r x (view rt)"
    using assms(1) rg sw v
    by (auto simp: open_region_def Let_def view_def abs_open_def)
  then show ?thesis using ret rg False by auto
qed

lemma close_region_view:
  assumes "close_region t r rt = (out, rt')" and "out \<noteq> UB"
    and "regionStack rt t = r # rs" and "regions rt r \<noteq> None"
  shows "out = Ret ()" and "view rt' = abs_close t (view rt)"
  using assms switch_top_view [of t Paused Active]
  by (auto simp: close_region_def Let_def view_def abs_close_def
      split: option.splits)


lemma exit_cases:
  assumes "gura_region_exit t r nb rt = (out, rt')" and "out \<noteq> UB"
  obtains (throw) e where "out = Throw e" "rt' = rt"
  | (ret) "out = Ret ()" "state_of rt r = Some Active" "hd (regionStack rt t) = r"
      "regionStack rt t \<noteq> []" "view rt' = abs_close t (view rt)"
proof (cases out)
  case (Throw e)
  with assms show ?thesis
    by (intro throw) (auto simp: gura_region_exit_def Let_def close_region_def
        split: option.splits if_splits)
next
  case (Ret u)
  with assms obtain rg rs f where rg: "regions rt r = Some rg" "rg_state rg = Active"
    and st: "regionStack rt t = r # rs"
    and cl: "close_region t r (upd_region r f rt) = (out, rt')"
    and f: "\<And>g. rg_state (f g) = rg_state g"
  proof -
    from assms Ret have c: "regions rt r \<noteq> None" "rg_state (the (regions rt r)) = Active"
      "requireStackTop t r rt"
      by (auto simp: gura_region_exit_def Let_def split: option.splits if_splits)
    moreover from c have "regionStack rt t = r # tl (regionStack rt t)"
      by (cases "regionStack rt t") (auto simp: requireStackTop_def)
    moreover have "\<exists>f. close_region t r (upd_region r f rt) = (out, rt') \<and> (\<forall>g. rg_state (f g) = rg_state g)"
    proof (cases "nb = 0")
      case True
      with assms Ret c show ?thesis
        by (intro exI [of _ id])
           (auto simp: gura_region_exit_def option.map_id fun_upd_idem split: option.splits if_splits)
    next
      case False
      with assms Ret c show ?thesis
        by (intro exI [of _ "\<lambda>rg. rg\<lparr>rg_bridge := nb,
              rg_bridgeTypeId := oh_typeId (blk_header (the (blocks rt (gura_header_for_payload nb)))),
              rg_boundary := (rg_boundary rg)\<lparr>bm_bridgeTypeId :=
                oh_typeId (blk_header (the (blocks rt (gura_header_for_payload nb))))\<rparr>\<rparr>"])
           (auto simp: gura_region_exit_def Let_def split: option.splits if_splits)
    qed
    ultimately show ?thesis using that by (metis option.exhaust_sel)
  qed
  have "view rt' = abs_close t (view (upd_region r f rt))"
    using cl assms(2) st rg by (intro close_region_view) auto
  moreover have "view (upd_region r f rt) = view rt"
    using rg f by (auto simp: view_def fun_eq_iff states_of_def)
  ultimately show ?thesis using ret Ret rg st by (auto simp: states_of_Some)
qed (use assms in simp)

lemma explore_exit_cases:
  assumes "gura_region_explore_exit t r rt = (out, rt')" and "out \<noteq> UB"
  obtains (throw) e where "out = Throw e" "rt' = rt"
  | (ret) "out = Ret ()" "state_of rt r = Some Paused" "hd (regionStack rt t) = r"
      "regionStack rt t \<noteq> []" "view rt' = abs_close t (view rt)"
proof (cases out)
  case (Throw e)
  with assms show ?thesis
    by (intro throw) (auto simp: gura_region_explore_exit_def Let_def close_region_def
        split: option.splits if_splits)
next
  case (Ret u)
  with assms obtain rg where rg: "regions rt r = Some rg" "rg_state rg = Paused"
    "requireStackTop t r rt" "close_region t r rt = (out, rt')"
    by (auto simp: gura_region_explore_exit_def split: option.splits if_splits)
  then obtain rs where st: "regionStack rt t = r # rs"
    by (cases "regionStack rt t") (auto simp: requireStackTop_def)
  have "view rt' = abs_close t (view rt)"
    using rg st assms(2) by (intro close_region_view) auto
  with ret Ret rg st show ?thesis by (auto simp: states_of_Some)
qed (use assms in simp)

end
