(* ===== verification/Gura_Runtime_Heap.thy ===== *)
theory Gura_Runtime_Heap
  imports Gura_Runtime_Inv
begin

unbundle bit_operations_syntax

section \<open>Ownership and metadata on the region heap\<close>

text \<open>
  \<open>region_ok\<close> is what one region keeps about its own blocks: the allocations are live and
  listed once, the bridge is one of them, and the copies of identifier and type in the
  token, the boundary record and the bridge's header agree. \<open>heap_ok\<close> adds what holds
  between regions: identifiers are unique, no block has two owners, and a block whose header
  names a live region is owned by it.
\<close>

definition token_ok :: "region \<Rightarrow> bool" where
  "token_ok rg \<longleftrightarrow>
     bt_regionId (rg_bridgeToken rg) = rg_id rg \<and> bt_object (rg_bridgeToken rg) = rg_bridge rg \<and>
     bt_typeId (rg_bridgeToken rg) = rg_bridgeTypeId rg \<and>
     bm_regionId (rg_boundary rg) = rg_id rg \<and> bm_bridgeTypeId (rg_boundary rg) = rg_bridgeTypeId rg \<and>
     bm_bridgeSize (rg_boundary rg) = rg_bridgeSize rg"

definition bridge_ok :: "(addr \<rightharpoonup> block) \<Rightarrow> region \<Rightarrow> bool" where
  "bridge_ok B rg \<longleftrightarrow>
     rg_bridge rg \<noteq> 0 \<and> gura_header_for_payload (rg_bridge rg) \<in> set (rg_allocations rg) \<and>
     (\<exists>b. B (gura_header_for_payload (rg_bridge rg)) = Some b \<and>
          oh_regionId (blk_header b) = rg_id rg \<and> oh_typeId (blk_header b) = rg_bridgeTypeId rg)"

definition region_ok :: "(addr \<rightharpoonup> block) \<Rightarrow> region \<Rightarrow> bool" where
  "region_ok B rg \<longleftrightarrow>
     distinct (rg_allocations rg) \<and> (\<forall>a \<in> set (rg_allocations rg). a \<noteq> 0 \<and> B a \<noteq> None) \<and>
     token_ok rg \<and> bridge_ok B rg"

definition heap_ok :: "(addr \<rightharpoonup> region) \<Rightarrow> (addr \<rightharpoonup> block) \<Rightarrow> u64 \<Rightarrow> bool" where
  "heap_ok R B n \<longleftrightarrow>
     (\<forall>r rg. R r = Some rg \<longrightarrow> r \<noteq> 0 \<and> region_ok B rg \<and> rg_id rg < n) \<and>
     (\<forall>r r' rg rg'. R r = Some rg \<longrightarrow> R r' = Some rg' \<longrightarrow> r \<noteq> r' \<longrightarrow>
        set (rg_allocations rg) \<inter> set (rg_allocations rg') = {} \<and> rg_id rg \<noteq> rg_id rg') \<and>
     (\<forall>a b. B a = Some b \<longrightarrow> oh_regionId (blk_header b) < n) \<and>
     (\<forall>r rg a b. R r = Some rg \<longrightarrow> B a = Some b \<longrightarrow> oh_regionId (blk_header b) = rg_id rg \<longrightarrow>
        a \<in> set (rg_allocations rg))"

lemma heap_okD:
  assumes "heap_ok R B n" "R r = Some rg"
  shows "r \<noteq> 0" "region_ok B rg" "rg_id rg < n"
    and "R r' = Some rg' \<Longrightarrow> r \<noteq> r' \<Longrightarrow> set (rg_allocations rg) \<inter> set (rg_allocations rg') = {}"
    and "R r' = Some rg' \<Longrightarrow> r \<noteq> r' \<Longrightarrow> rg_id rg \<noteq> rg_id rg'"
    and "B a = Some b \<Longrightarrow> oh_regionId (blk_header b) = rg_id rg \<Longrightarrow> a \<in> set (rg_allocations rg)"
  using assms unfolding heap_ok_def by blast+

lemma heap_ok_block: "heap_ok R B n \<Longrightarrow> B a = Some b \<Longrightarrow> oh_regionId (blk_header b) < n"
  unfolding heap_ok_def by blast

text \<open>The heap part does not see region states and token states.\<close>

definition core :: "region \<Rightarrow> region" where
  "core rg = rg\<lparr>rg_state := Closed, rg_bridgeToken := (rg_bridgeToken rg)\<lparr>bt_state := ExternalIso\<rparr>\<rparr>"

lemma core_eqD:
  assumes "core a = core b"
  shows "rg_id a = rg_id b" "rg_allocations a = rg_allocations b" "rg_bridge a = rg_bridge b"
    "rg_bridgeTypeId a = rg_bridgeTypeId b" "rg_boundary a = rg_boundary b"
    "rg_bridgeSize a = rg_bridgeSize b"
    "bt_regionId (rg_bridgeToken a) = bt_regionId (rg_bridgeToken b)"
    "bt_object (rg_bridgeToken a) = bt_object (rg_bridgeToken b)"
    "bt_typeId (rg_bridgeToken a) = bt_typeId (rg_bridgeToken b)"
proof -
  from assms have t: "(rg_bridgeToken a)\<lparr>bt_state := ExternalIso\<rparr> = (rg_bridgeToken b)\<lparr>bt_state := ExternalIso\<rparr>"
    and "rg_id a = rg_id b \<and> rg_allocations a = rg_allocations b \<and> rg_bridge a = rg_bridge b \<and>
      rg_bridgeTypeId a = rg_bridgeTypeId b \<and> rg_boundary a = rg_boundary b \<and> rg_bridgeSize a = rg_bridgeSize b"
    unfolding core_def by (cases a; cases b; simp)+
  then show "rg_id a = rg_id b" "rg_allocations a = rg_allocations b" "rg_bridge a = rg_bridge b"
    "rg_bridgeTypeId a = rg_bridgeTypeId b" "rg_boundary a = rg_boundary b"
    "rg_bridgeSize a = rg_bridgeSize b" by simp_all
  from t show "bt_regionId (rg_bridgeToken a) = bt_regionId (rg_bridgeToken b)"
    "bt_object (rg_bridgeToken a) = bt_object (rg_bridgeToken b)"
    "bt_typeId (rg_bridgeToken a) = bt_typeId (rg_bridgeToken b)"
    by (cases "rg_bridgeToken a"; cases "rg_bridgeToken b"; simp)+
qed

lemma region_ok_core: "core a = core b \<Longrightarrow> region_ok B a = region_ok B b"
  by (simp add: region_ok_def token_ok_def bridge_ok_def core_eqD [of a b])

definition cores :: "(addr \<rightharpoonup> region) \<Rightarrow> (addr \<rightharpoonup> region)" where
  "cores R r = map_option core (R r)"

lemma cores_upd_same:
  "R r = Some rg \<Longrightarrow> core rg' = core rg \<Longrightarrow> cores (R(r \<mapsto> rg')) = cores R"
  by (auto simp: cores_def fun_eq_iff)

lemma cores_SomeD: "cores R = cores R' \<Longrightarrow> R r = Some rg \<Longrightarrow> \<exists>rg'. R' r = Some rg' \<and> core rg = core rg'"
  by (auto simp: cores_def fun_eq_iff) (metis option.map_disc_iff option.map_sel option.sel option.collapse)

lemma heap_ok_cores:
  assumes "heap_ok R B n" and "cores R' = cores R"
  shows "heap_ok R' B n"
proof -
  have A: "r \<noteq> 0 \<and> region_ok B rg \<and> rg_id rg < n" if "R' r = Some rg" for r rg
    using cores_SomeD [OF assms(2) that] heap_okD(1-3) [OF assms(1), of r]
    by (metis core_eqD(1) region_ok_core)
  have B: "set (rg_allocations rg) \<inter> set (rg_allocations rg') = {} \<and> rg_id rg \<noteq> rg_id rg'"
    if "R' r = Some rg" "R' r' = Some rg'" "r \<noteq> r'" for r r' rg rg'
    using cores_SomeD [OF assms(2) that(1)] cores_SomeD [OF assms(2) that(2)]
      heap_okD(4,5) [OF assms(1), of r _ r'] that(3) by (metis core_eqD(1,2))
  have C: "a \<in> set (rg_allocations rg)"
    if "R' r = Some rg" "B a = Some b" "oh_regionId (blk_header b) = rg_id rg" for r rg a b
    using cores_SomeD [OF assms(2) that(1)] heap_okD(6) [OF assms(1), of r _ a b] that(2,3)
    by (metis core_eqD(1,2))
  show ?thesis
    unfolding heap_ok_def using A B C heap_ok_block [OF assms(1)] by blast
qed

text \<open>
  Replacing a region and one of its own blocks at once: covers every operation that keeps the
  identifier and the allocations of a region.
\<close>

lemma heap_ok_replace:
  assumes ok: "heap_ok R B n" and R: "R r = Some rg" and h: "h \<in> set (rg_allocations rg)"
    and b: "B h = Some b" "oh_regionId (blk_header b') = oh_regionId (blk_header b)"
    and same: "rg_id rg' = rg_id rg" "rg_allocations rg' = rg_allocations rg"
    and new: "region_ok (B(h \<mapsto> b')) rg'"
  shows "heap_ok (R(r \<mapsto> rg')) (B(h \<mapsto> b')) n"
proof -
  have other: "region_ok (B(h \<mapsto> b')) rg2" if "R r2 = Some rg2" "r2 \<noteq> r" for r2 rg2
  proof -
    have "h \<notin> set (rg_allocations rg2)" using heap_okD(4) [OF ok R that(1)] that(2) h by auto
    moreover have "region_ok B rg2" using heap_okD(2) [OF ok that(1)] .
    ultimately show ?thesis by (auto simp: region_ok_def bridge_ok_def)
  qed
  have A: "q \<noteq> 0 \<and> region_ok (B(h \<mapsto> b')) rg2 \<and> rg_id rg2 < n" if "(R(r \<mapsto> rg')) q = Some rg2" for q rg2
    using that other [of q rg2] new same heap_okD(1,3) [OF ok R] heap_okD(1,3) [OF ok, of q]
    by (cases "q = r") auto
  have B: "set (rg_allocations g1) \<inter> set (rg_allocations g2) = {} \<and> rg_id g1 \<noteq> rg_id g2"
    if "(R(r \<mapsto> rg')) q1 = Some g1" "(R(r \<mapsto> rg')) q2 = Some g2" "q1 \<noteq> q2" for q1 q2 g1 g2
    using that same heap_okD(4,5) [OF ok R, of q2 g2] heap_okD(4,5) [OF ok R, of q1 g1]
      heap_okD(4,5) [OF ok, of q1 g1 q2 g2]
    by (cases "q1 = r"; cases "q2 = r") auto
  have C: "oh_regionId (blk_header c) < n" if asm: "(B(h \<mapsto> b')) a = Some c" for a c
  proof -
    obtain c0 where c0: "B a = Some c0" "oh_regionId (blk_header c0) = oh_regionId (blk_header c)"
      using asm b by (cases "a = h") auto
    show ?thesis using heap_ok_block [OF ok c0(1)] unfolding c0(2) .
  qed
  have D: "a \<in> set (rg_allocations g)"
    if asm: "(R(r \<mapsto> rg')) q = Some g" "(B(h \<mapsto> b')) a = Some c"
      "oh_regionId (blk_header c) = rg_id g" for q g a c
  proof -
    obtain c0 where c0: "B a = Some c0" "oh_regionId (blk_header c0) = oh_regionId (blk_header c)"
      using asm(2) b by (cases "a = h") auto
    obtain g0 where g0: "R q = Some g0" "rg_id g0 = rg_id g" "rg_allocations g0 = rg_allocations g"
      using asm(1) R same by (cases "q = r") auto
    have "a \<in> set (rg_allocations g0)"
      using heap_okD(6) [OF ok g0(1) c0(1)] c0(2) g0(2) asm(3) by simp
    then show ?thesis using g0(3) by simp
  qed
  show ?thesis unfolding heap_ok_def using A B C D by blast
qed

lemma heap_ok_replace_region:
  assumes ok: "heap_ok R B n" and R: "R r = Some rg"
    and same: "rg_id rg' = rg_id rg" "rg_allocations rg' = rg_allocations rg" and new: "region_ok B rg'"
  shows "heap_ok (R(r \<mapsto> rg')) B n"
proof -
  obtain h b where h: "h \<in> set (rg_allocations rg)" "B h = Some b"
    using heap_okD(2) [OF ok R] by (auto simp: region_ok_def bridge_ok_def)
  then have "B(h \<mapsto> b) = B" by auto
  with heap_ok_replace [OF ok R h refl same] new show ?thesis by simp
qed


lemma region_ok_weaken:
  "region_ok B rg \<Longrightarrow> (\<And>a. a \<in> set (rg_allocations rg) \<Longrightarrow> B' a = B a) \<Longrightarrow> region_ok B' rg"
  by (auto simp: region_ok_def bridge_ok_def)

lemma heap_ok_new:
  assumes ok: "heap_ok R B n" and fresh: "R r = None" "B a = None" and nz: "r \<noteq> 0" and n: "n < n + 1"
    and rg: "rg_id rg = n" "rg_allocations rg = [a]" "oh_regionId (blk_header b) = n"
    and new: "region_ok (B(a \<mapsto> b)) rg"
  shows "heap_ok (R(r \<mapsto> rg)) (B(a \<mapsto> b)) (n + 1)"
proof -
  have lt: "x < n \<Longrightarrow> x < n + 1" for x by (rule order.strict_trans [OF _ n])
  have na: "a \<notin> set (rg_allocations g)" if "R q = Some g" for q g
    using heap_okD(2) [OF ok that] fresh by (auto simp: region_ok_def)
  have A: "q \<noteq> 0 \<and> region_ok (B(a \<mapsto> b)) g \<and> rg_id g < n + 1" if asm: "(R(r \<mapsto> rg)) q = Some g" for q g
  proof (cases "q = r")
    case True
    with asm show ?thesis using nz new n rg by auto
  next
    case False
    with asm have "R q = Some g" by simp
    with na [of q g] heap_okD(1-3) [OF ok this] show ?thesis
      by (auto intro: lt region_ok_weaken)
  qed
  have B: "set (rg_allocations g1) \<inter> set (rg_allocations g2) = {} \<and> rg_id g1 \<noteq> rg_id g2"
    if asm: "(R(r \<mapsto> rg)) q1 = Some g1" "(R(r \<mapsto> rg)) q2 = Some g2" "q1 \<noteq> q2" for q1 q2 g1 g2
    using asm rg na heap_okD(3) [OF ok] heap_okD(4,5) [OF ok, of q1 g1 q2 g2]
    by (cases "q1 = r"; cases "q2 = r") fastforce+
  have C: "oh_regionId (blk_header c) < n + 1" if "(B(a \<mapsto> b)) x = Some c" for x c
  proof (cases "x = a")
    case True
    with that rg n show ?thesis by auto
  next
    case False
    with that have "B x = Some c" by simp
    then show ?thesis by (intro lt heap_ok_block [OF ok])
  qed
  have D: "x \<in> set (rg_allocations g)"
    if asm: "(R(r \<mapsto> rg)) q = Some g" "(B(a \<mapsto> b)) x = Some c" "oh_regionId (blk_header c) = rg_id g"
    for q g x c
  proof (cases "q = r"; cases "x = a")
    assume "q = r" "x = a"
    with asm rg show ?thesis by auto
  next
    assume "q = r" "x \<noteq> a"
    with asm rg have "B x = Some c" "oh_regionId (blk_header c) = n" by auto
    with heap_ok_block [OF ok] show ?thesis by fastforce
  next
    assume "q \<noteq> r" "x = a"
    with asm rg have "R q = Some g" "rg_id g = n" by auto
    with heap_okD(3) [OF ok] show ?thesis by fastforce
  next
    assume "q \<noteq> r" "x \<noteq> a"
    with asm heap_okD(6) [OF ok, of q g x c] show ?thesis by simp
  qed
  show ?thesis unfolding heap_ok_def using A B C D by blast
qed

lemma heap_ok_delete:
  assumes ok: "heap_ok R B n" and R: "R r = Some rg"
  shows "heap_ok (R(r := None)) (\<lambda>a. if a \<in> set (rg_allocations rg) then None else B a) n"
proof -
  let ?B = "\<lambda>a. if a \<in> set (rg_allocations rg) then None else B a"
  have A: "q \<noteq> 0 \<and> region_ok ?B g \<and> rg_id g < n" if asm: "(R(r := None)) q = Some g" for q g
  proof -
    from asm have q: "R q = Some g" "q \<noteq> r" by (auto split: if_splits)
    have "region_ok ?B g"
      using heap_okD(2) [OF ok q(1)] by (rule region_ok_weaken) (use heap_okD(4) [OF ok R q(1)] q(2) in auto)
    with heap_okD(1,3) [OF ok q(1)] show ?thesis by simp
  qed
  have C: "oh_regionId (blk_header c) < n" if "?B x = Some c" for x c
    using that heap_ok_block [OF ok, of x c] by (simp split: if_splits)
  have D: "x \<in> set (rg_allocations g)"
    if "(R(r := None)) q = Some g" "?B x = Some c" "oh_regionId (blk_header c) = rg_id g" for q g x c
    using that heap_okD(6) [OF ok, of q g x c] by (simp split: if_splits)
  have B: "set (rg_allocations g1) \<inter> set (rg_allocations g2) = {} \<and> rg_id g1 \<noteq> rg_id g2"
    if "(R(r := None)) q1 = Some g1" "(R(r := None)) q2 = Some g2" "q1 \<noteq> q2" for q1 q2 g1 g2
    using that heap_okD(4,5) [OF ok, of q1 g1 q2 g2] by (simp split: if_splits)
  show ?thesis unfolding heap_ok_def using A B C D by blast
qed

lemma heap_ok_merge:
  assumes ok: "heap_ok R B n" and tg: "R t = Some tg" and sg: "R s = Some sg" and ne: "t \<noteq> s"
    and h: "h = gura_header_for_payload (rg_bridge sg)" "B h = Some b"
    and b': "oh_regionId (blk_header b') = rg_id tg"
    and tg': "core tg' = core (tg\<lparr>rg_allocations := rg_allocations tg @ rg_allocations sg\<rparr>)"
  shows "heap_ok ((R(t \<mapsto> tg'))(s := None)) (B(h \<mapsto> b')) n"
proof -
  note otg = heap_okD(2) [OF ok tg] and osg = heap_okD(2) [OF ok sg]
  have disj: "set (rg_allocations tg) \<inter> set (rg_allocations sg) = {}"
    using heap_okD(4) [OF ok tg sg ne] .
  have hs: "h \<in> set (rg_allocations sg)" using osg h(1) by (simp add: region_ok_def bridge_ok_def)
  have al: "rg_allocations tg' = rg_allocations tg @ rg_allocations sg" "rg_id tg' = rg_id tg"
    using core_eqD(1,2) [OF tg'] by simp_all
  have "region_ok (B(h \<mapsto> b')) (tg\<lparr>rg_allocations := rg_allocations tg @ rg_allocations sg\<rparr>)"
    using otg osg disj hs by (auto simp: region_ok_def bridge_ok_def token_ok_def)
  then have new: "region_ok (B(h \<mapsto> b')) tg'" using region_ok_core [OF tg'] by simp
  have old: "R q = Some g \<and> q \<noteq> s \<and> q \<noteq> t \<or> q = t \<and> g = tg'"
    if "((R(t \<mapsto> tg'))(s := None)) q = Some g" for q g
    using that by (auto split: if_splits)
  have A: "q \<noteq> 0 \<and> region_ok (B(h \<mapsto> b')) g \<and> rg_id g < n"
    if "((R(t \<mapsto> tg'))(s := None)) q = Some g" for q g
    using old [OF that]
  proof
    assume q: "R q = Some g \<and> q \<noteq> s \<and> q \<noteq> t"
    then have "h \<notin> set (rg_allocations g)" using heap_okD(4) [OF ok sg, of q g] hs by auto
    with q heap_okD(1-3) [OF ok, of q g] show ?thesis by (auto intro: region_ok_weaken)
  next
    assume "q = t \<and> g = tg'"
    then show ?thesis using new heap_okD(1,3) [OF ok tg] al by simp
  qed
  have sep: "set (rg_allocations g) \<inter> set (rg_allocations tg') = {} \<and> rg_id g \<noteq> rg_id tg'"
    if "R q = Some g" "q \<noteq> s" "q \<noteq> t" for q g
    using heap_okD(4,5) [OF ok that(1) tg] heap_okD(4) [OF ok that(1) sg] that al by auto
  have B: "set (rg_allocations g1) \<inter> set (rg_allocations g2) = {} \<and> rg_id g1 \<noteq> rg_id g2"
    if "((R(t \<mapsto> tg'))(s := None)) q1 = Some g1" "((R(t \<mapsto> tg'))(s := None)) q2 = Some g2" "q1 \<noteq> q2"
    for q1 q2 g1 g2
    using old [OF that(1)] old [OF that(2)] that(3) sep [of q1 g1] sep [of q2 g2]
      heap_okD(4,5) [OF ok, of q1 g1 q2 g2] by auto
  have C: "oh_regionId (blk_header c) < n" if "(B(h \<mapsto> b')) x = Some c" for x c
  proof (cases "x = h")
    case True
    with that have "c = b'" by simp
    with b' heap_okD(3) [OF ok tg] show ?thesis by simp
  next
    case False
    with that have "B x = Some c" by simp
    then show ?thesis by (rule heap_ok_block [OF ok])
  qed
  have D: "x \<in> set (rg_allocations g)"
    if asm: "((R(t \<mapsto> tg'))(s := None)) q = Some g" "(B(h \<mapsto> b')) x = Some c"
      "oh_regionId (blk_header c) = rg_id g" for q g x c
    using old [OF asm(1)]
  proof
    assume q: "R q = Some g \<and> q \<noteq> s \<and> q \<noteq> t"
    with asm b' have "x \<noteq> h" using heap_okD(5) [OF ok tg, of q g] by auto
    with asm q heap_okD(6) [OF ok, of q g x c] show ?thesis by simp
  next
    assume q: "q = t \<and> g = tg'"
    show ?thesis
    proof (cases "x = h")
      case True
      then show ?thesis using q hs al by simp
    next
      case False
      with asm q al heap_okD(6) [OF ok tg, of x c] show ?thesis by simp
    qed
  qed
  show ?thesis unfolding heap_ok_def using A B C D by blast
qed

lemma free_all_Some:
  "distinct as \<Longrightarrow> \<forall>a \<in> set as. a \<noteq> 0 \<and> B a \<noteq> None \<Longrightarrow>
   free_all as B = Some (\<lambda>a. if a \<in> set as then None else B a)"
proof (induction as arbitrary: B)
  case (Cons x as)
  then have "free_all as (B(x := None)) = Some (\<lambda>a. if a \<in> set as then None else (B(x := None)) a)"
    by (intro Cons.IH) auto
  with Cons.prems show ?case by (auto simp: fun_eq_iff)
qed simp

end
