(* ===== verification/Gura_Runtime_Safety.thy ===== *)
theory Gura_Runtime_Safety
  imports Gura_Runtime_Heap
begin

unbundle bit_operations_syntax

section \<open>Safety of the region runtime\<close>

text \<open>
  \<open>rt_inv\<close> joins the stack discipline and the heap invariant. Each operation keeps it, no
  operation has undefined behaviour in a state that satisfies it when its arguments are
  null or live, and an exception leaves the state as it was. \<open>rt_step\<close> is the step
  relation of a client that respects the allocator's contract (fresh, non-null, not
  wrapping around the address space) and destroys only closed regions.
\<close>

definition rt_inv :: "runtime \<Rightarrow> bool" where
  "rt_inv rt \<longleftrightarrow>
     stack_ok (regionStack rt) (state_of rt) \<and> heap_ok (regions rt) (blocks rt) (nextRegionId rt)"

lemma rt_inv_view: "rt_inv rt \<longleftrightarrow>
    (case view rt of (S, s) \<Rightarrow> stack_ok S s) \<and> heap_ok (regions rt) (blocks rt) (nextRegionId rt)"
  by (simp add: rt_inv_def view_def)

lemma rt_inv_stack_live: "rt_inv rt \<Longrightarrow> r \<in> set (regionStack rt t) \<Longrightarrow> regions rt r \<noteq> None"
  using stack_okD(3) [of "regionStack rt" "state_of rt" r t] by (auto simp: rt_inv_def states_of_def)

lemma rt_inv_initial: "rt_inv initial_runtime"
  by (simp add: rt_inv_def initial_runtime_def stack_ok_def heap_ok_def states_of_def)

text \<open>The operations that open and close regions leave the heap part alone.\<close>

definition heap_part :: "runtime \<Rightarrow> (addr \<rightharpoonup> region) \<times> (addr \<rightharpoonup> block) \<times> u64" where
  "heap_part rt = (cores (regions rt), blocks rt, nextRegionId rt)"

lemma heap_ok_part:
  "heap_part rt' = heap_part rt \<Longrightarrow> heap_ok (regions rt) (blocks rt) (nextRegionId rt) \<Longrightarrow>
   heap_ok (regions rt') (blocks rt') (nextRegionId rt')"
  by (auto simp: heap_part_def intro: heap_ok_cores)

lemma cores_upd_map:
  "(\<And>rg. R r = Some rg \<Longrightarrow> core (f rg) = core rg) \<Longrightarrow> cores (R(r := map_option f (R r))) = cores R"
  by (cases "R r") (auto simp: cores_def fun_eq_iff)

lemma switch_top_heap: "switch_top t a b rt = Some rt' \<Longrightarrow> heap_part rt' = heap_part rt"
  by (auto simp: switch_top_def heap_part_def cores_def fun_eq_iff core_def
      split: list.splits option.splits if_splits)

lemma open_region_heap:
  assumes "open_region msg x bst t r rt = (out, rt')"
  shows "heap_part rt' = heap_part rt"
proof -
  let ?f = "\<lambda>rg. rg\<lparr>rg_state := x, rg_bridgeToken := (rg_bridgeToken rg)\<lparr>bt_state := bst\<rparr>\<rparr>"
  have "cores (R(r := map_option ?f (R r))) = cores R" for R
    by (rule cores_upd_map) (simp add: core_def)
  with assms show ?thesis
    by (auto simp: open_region_def Let_def heap_part_def simp del: fun_upd_apply
        dest!: switch_top_heap split: option.splits if_splits)
qed

definition retoken :: "region \<Rightarrow> region" where
  "retoken rg = rg\<lparr>rg_bridgeToken := \<lparr>bt_regionId = rg_id rg, bt_object = rg_bridge rg,
       bt_typeId = rg_bridgeTypeId rg, bt_state = ExternalIso\<rparr>, rg_state := Closed\<rparr>"

lemma close_region_heap:
  assumes "close_region t r rt = (out, rt')" and "regions rt r = Some rg"
    and "heap_ok ((regions rt)(r \<mapsto> retoken rg)) (blocks rt) (nextRegionId rt)"
  shows "heap_ok (regions rt') (blocks rt') (nextRegionId rt')"
proof -
  from assms(1,2) have
    "cores (regions rt') = cores ((regions rt)(r \<mapsto> retoken rg)) \<and> blocks rt' = blocks rt \<and>
     nextRegionId rt' = nextRegionId rt"
    by (auto simp: close_region_def Let_def heap_part_def retoken_def simp del: fun_upd_apply
        dest!: switch_top_heap split: option.splits)
  with heap_ok_cores [OF assms(3)] show ?thesis by simp
qed

lemma open_region_inv:
  assumes inv: "rt_inv rt" and op: "open_region msg x bst t r rt = (out, rt')" "out \<noteq> UB"
    and x: "x = Active \<or> x = Paused"
  shows "rt_inv rt'"
  using op
proof (cases rule: open_region_cases)
  case throw
  with inv show ?thesis by simp
next
  case ret
  then have "case view rt' of (S, s) \<Rightarrow> stack_ok S s"
    using inv x abs_open_ok [of "regionStack rt" "state_of rt" r x t] by (simp add: rt_inv_def view_def)
  then show ?thesis
    using heap_ok_part [OF open_region_heap [OF op(1)]] inv by (simp add: rt_inv_view)
qed

lemma open_region_no_UB:
  assumes "rt_inv rt" and "r = 0 \<or> regions rt r \<noteq> None"
  shows "fst (open_region msg x bst t r rt) \<noteq> UB"
proof -
  obtain rt1 where "switch_top t Active Paused rt = Some rt1"
    using switch_top_total rt_inv_stack_live [OF assms(1)] by metis
  with assms(2) show ?thesis by (auto simp: open_region_def Let_def split: if_splits)
qed

lemma close_region_no_UB:
  assumes "regionStack rt t = r # rs" and "\<forall>q \<in> set rs. regions rt q \<noteq> None"
  shows "fst (close_region t r rt) \<noteq> UB"
  using assms
  by (cases rs) (auto simp: close_region_def Let_def switch_top_def split: option.splits)

lemma requireStackTop_stack: "requireStackTop t r rt \<Longrightarrow> \<exists>rs. regionStack rt t = r # rs"
  by (auto simp: requireStackTop_def split: list.splits)

lemma exit_no_UB:
  assumes inv: "rt_inv rt" and "r = 0 \<or> regions rt r \<noteq> None"
    and "nb = 0 \<or> blocks rt (gura_header_for_payload nb) \<noteq> None"
  shows "fst (gura_region_exit t r nb rt) \<noteq> UB"
proof -
  have close: "fst (close_region t r (rt\<lparr>regions := (regions rt)(r \<mapsto> g)\<rparr>)) \<noteq> UB"
    "fst (close_region t r rt) \<noteq> UB" if req: "requireStackTop t r rt" for g
  proof -
    obtain rs where rs: "regionStack rt t = r # rs" using requireStackTop_stack [OF req] by blast
    then have live: "regions rt q \<noteq> None" if "q \<in> set rs" for q
      using rt_inv_stack_live [OF inv, of q t] that by simp
    show "fst (close_region t r (rt\<lparr>regions := (regions rt)(r \<mapsto> g)\<rparr>)) \<noteq> UB"
      by (rule close_region_no_UB [of _ _ _ rs]) (use rs live in auto)
    show "fst (close_region t r rt) \<noteq> UB"
      using live by (intro close_region_no_UB [OF rs]) blast
  qed
  show ?thesis using assms(2,3) close
    by (auto simp: gura_region_exit_def Let_def split: if_splits)
qed

lemma explore_exit_no_UB:
  assumes inv: "rt_inv rt" and "r = 0 \<or> regions rt r \<noteq> None"
  shows "fst (gura_region_explore_exit t r rt) \<noteq> UB"
proof -
  have "fst (close_region t r rt) \<noteq> UB" if req: "requireStackTop t r rt"
  proof -
    obtain rs where rs: "regionStack rt t = r # rs" using requireStackTop_stack [OF req] by blast
    then show ?thesis
      using rt_inv_stack_live [OF inv, of _ t] by (intro close_region_no_UB [OF rs]) simp
  qed
  then show ?thesis using assms(2) by (auto simp: gura_region_explore_exit_def split: if_splits)
qed

lemma region_ok_retoken:
  "region_ok B rg \<Longrightarrow> region_ok B (retoken rg)"
  by (simp add: region_ok_def token_ok_def bridge_ok_def retoken_def)

lemma retoken_simps [simp]:
  "rg_id (retoken rg) = rg_id rg" "rg_allocations (retoken rg) = rg_allocations rg"
  by (simp_all add: retoken_def)

lemma close_view_ok:
  assumes "rt_inv rt" "regionStack rt t \<noteq> []" "view rt' = abs_close t (view rt)"
  shows "stack_ok (regionStack rt') (state_of rt')"
  using assms abs_close_ok [of "regionStack rt" "state_of rt" t]
  by (auto simp: rt_inv_def view_def split: prod.splits)

lemma exit_inv:
  assumes inv: "rt_inv rt" and op: "gura_region_exit t r nb rt = (out, rt')" "out \<noteq> UB"
  shows "rt_inv rt'"
  using op
proof (cases rule: exit_cases)
  case throw
  with inv show ?thesis by simp
next
  case ret
  then obtain rg where rg: "regions rt r = Some rg" by (auto simp: states_of_Some)
  note hp = inv [unfolded rt_inv_def, THEN conjunct2]
  note ok = heap_okD(2) [OF hp rg]
  have "heap_ok (regions rt') (blocks rt') (nextRegionId rt')"
  proof (cases "nb = 0")
    case True
    with op rg ret have "close_region t r rt = (out, rt')"
      by (auto simp: gura_region_exit_def split: if_splits)
    then show ?thesis
      using rg by (rule close_region_heap) (intro heap_ok_replace_region [OF hp rg] region_ok_retoken ok; simp)
  next
    case False
    with op rg ret obtain b where b: "blocks rt (gura_header_for_payload nb) = Some b"
        "oh_regionId (blk_header b) = rg_id rg"
      and cl: "close_region t r (rt\<lparr>regions := (regions rt)(r \<mapsto>
          rg\<lparr>rg_bridge := nb, rg_bridgeTypeId := oh_typeId (blk_header b),
             rg_boundary := (rg_boundary rg)\<lparr>bm_bridgeTypeId := oh_typeId (blk_header b)\<rparr>\<rparr>)\<rparr>) = (out, rt')"
      by (auto simp: gura_region_exit_def Let_def split: if_splits option.splits)
    let ?rg = "rg\<lparr>rg_bridge := nb, rg_bridgeTypeId := oh_typeId (blk_header b),
             rg_boundary := (rg_boundary rg)\<lparr>bm_bridgeTypeId := oh_typeId (blk_header b)\<rparr>\<rparr>"
    have "region_ok (blocks rt) (retoken ?rg)"
      using ok b False heap_okD(6) [OF hp rg b(1)]
      by (auto simp: region_ok_def token_ok_def bridge_ok_def retoken_def)
    then have "heap_ok ((regions rt)(r \<mapsto> retoken ?rg)) (blocks rt) (nextRegionId rt)"
      by (intro heap_ok_replace_region [OF hp rg]) simp_all
    then show ?thesis by (intro close_region_heap [OF cl]) simp_all
  qed
  with close_view_ok [OF inv] ret show ?thesis by (simp add: rt_inv_def)
qed

lemma explore_exit_inv:
  assumes inv: "rt_inv rt" and op: "gura_region_explore_exit t r rt = (out, rt')" "out \<noteq> UB"
  shows "rt_inv rt'"
  using op
proof (cases rule: explore_exit_cases)
  case throw
  with inv show ?thesis by simp
next
  case ret
  then obtain rg where rg: "regions rt r = Some rg" by (auto simp: states_of_Some)
  note hp = inv [unfolded rt_inv_def, THEN conjunct2]
  from op rg ret have "close_region t r rt = (out, rt')"
    by (auto simp: gura_region_explore_exit_def split: if_splits)
  then have "heap_ok (regions rt') (blocks rt') (nextRegionId rt')"
    using rg by (rule close_region_heap)
      (intro heap_ok_replace_region [OF hp rg] region_ok_retoken heap_okD(2) [OF hp rg]; simp)
  with close_view_ok [OF inv] ret show ?thesis by (simp add: rt_inv_def)
qed


subsection \<open>Creation, typing, freezing, merging, destruction\<close>

lemma rt_invD:
  assumes "rt_inv rt"
  shows "stack_ok (regionStack rt) (state_of rt)" and "heap_ok (regions rt) (blocks rt) (nextRegionId rt)"
  using assms by (simp_all add: rt_inv_def)

lemma bridge_header:
  assumes "heap_ok R B n" "R r = Some rg"
  obtains b where "gura_header_for_payload (rg_bridge rg) \<noteq> 0"
    "gura_header_for_payload (rg_bridge rg) \<in> set (rg_allocations rg)"
    "B (gura_header_for_payload (rg_bridge rg)) = Some b" "oh_regionId (blk_header b) = rg_id rg"
    "oh_typeId (blk_header b) = rg_bridgeTypeId rg"
  using heap_okD(2) [OF assms] that by (auto simp: region_ok_def bridge_ok_def)

lemma new_iso_result:
  assumes "calloc_result \<noteq> 0"
  shows "\<exists>rg b. gura_region_new_iso sz st (Some r) calloc_result rt =
      (Ret r, rt\<lparr>nextRegionId := nextRegionId rt + 1, regions := (regions rt)(r \<mapsto> rg),
                blocks := (blocks rt)(calloc_result \<mapsto> b)\<rparr>) \<and>
    rg_id rg = nextRegionId rt \<and> rg_allocations rg = [calloc_result] \<and> rg_state rg = Closed \<and>
    rg_bridge rg = calloc_result + 24 \<and> token_ok rg \<and> rg_strategy rg = st \<and> rg_bridgeSize rg = sz \<and>
    oh_regionId (blk_header b) = nextRegionId rt \<and> oh_typeId (blk_header b) = rg_bridgeTypeId rg \<and>
    blk_size b = 24 + sz"
  using assms
  by (intro exI [of _ "new_region_object (nextRegionId rt) calloc_result sz st"]
        exI [of _ "new_block (nextRegionId rt) sz"])
     (simp add: gura_region_new_iso_def Let_def token_ok_def gura_payload_for_header_def
      sizeof_ObjectHeader_def new_region_object_def new_block_def)

lemma heap_ok_mono:
  assumes ok: "heap_ok R B n" and n: "n < m"
  shows "heap_ok R B m"
proof -
  have A: "r \<noteq> 0 \<and> region_ok B rg \<and> rg_id rg < m" if "R r = Some rg" for r rg
    using heap_okD(1-3) [OF ok that] order.strict_trans [OF _ n] by blast
  have C: "oh_regionId (blk_header b) < m" if "B a = Some b" for a b
    using heap_ok_block [OF ok that] n by (rule order.strict_trans)
  show ?thesis unfolding heap_ok_def using A C heap_okD(4-6) [OF ok] by blast
qed

lemma new_iso_inv:
  assumes inv: "rt_inv rt" and fresh: "regions rt r = None" "blocks rt c = None"
    and r: "r \<noteq> 0" and c: "c + 24 \<noteq> 0" and n: "nextRegionId rt < nextRegionId rt + 1"
    and op: "gura_region_new_iso sz st (Some r) c rt = (out, rt')"
  shows "rt_inv rt'"
proof (cases "c = 0")
  case True
  from inv have "heap_ok (regions rt) (blocks rt) (nextRegionId rt + 1)"
    using n by (auto simp: rt_inv_def intro: heap_ok_mono)
  with True op inv show ?thesis by (auto simp: gura_region_new_iso_def rt_inv_def Let_def)
next
  case False
  then obtain rg b where rt': "rt' = rt\<lparr>nextRegionId := nextRegionId rt + 1,
        regions := (regions rt)(r \<mapsto> rg), blocks := (blocks rt)(c \<mapsto> b)\<rparr>"
    and rg: "rg_id rg = nextRegionId rt" "rg_allocations rg = [c]" "rg_state rg = Closed"
      "rg_bridge rg = c + 24" "token_ok rg"
    and b: "oh_regionId (blk_header b) = nextRegionId rt" "oh_typeId (blk_header b) = rg_bridgeTypeId rg"
    using new_iso_result [of c sz st r rt] op by auto
  have "region_ok ((blocks rt)(c \<mapsto> b)) rg"
    using rg b False c
    by (simp add: region_ok_def bridge_ok_def gura_header_for_payload_def sizeof_ObjectHeader_def)
  then have "heap_ok ((regions rt)(r \<mapsto> rg)) ((blocks rt)(c \<mapsto> b)) (nextRegionId rt + 1)"
    using rt_invD(2) [OF inv] fresh r n rg b by (intro heap_ok_new) auto
  moreover have "stack_ok (regionStack rt) ((state_of rt)(r \<mapsto> Closed))"
    using rt_invD(1) [OF inv] fresh by (intro stack_ok_new) auto
  ultimately show ?thesis using rg(3) by (simp add: rt' rt_inv_def)
qed

lemma set_bridge_type_inv:
  assumes inv: "rt_inv rt" and live: "r = 0 \<or> regions rt r \<noteq> None"
    and op: "gura_region_set_bridge_type r ty rt = (out, rt')"
  shows "out \<noteq> UB \<and> rt_inv rt'"
proof (cases "r = 0")
  case False
  with live obtain rg where rg: "regions rt r = Some rg" by auto
  note hp = rt_invD(2) [OF inv]
  obtain b where h: "gura_header_for_payload (rg_bridge rg) \<noteq> 0"
    "gura_header_for_payload (rg_bridge rg) \<in> set (rg_allocations rg)"
    "blocks rt (gura_header_for_payload (rg_bridge rg)) = Some b" "oh_regionId (blk_header b) = rg_id rg"
    by (rule bridge_header [OF hp rg]) blast
  let ?rg = "rg\<lparr>rg_bridgeTypeId := ty, rg_bridgeToken := (rg_bridgeToken rg)\<lparr>bt_typeId := ty\<rparr>,
               rg_boundary := (rg_boundary rg)\<lparr>bm_bridgeTypeId := ty\<rparr>\<rparr>"
  let ?b = "b\<lparr>blk_header := (blk_header b)\<lparr>oh_typeId := ty\<rparr>\<rparr>"
  let ?h = "gura_header_for_payload (rg_bridge rg)"
  have "region_ok ((blocks rt)(?h \<mapsto> ?b)) ?rg"
    using heap_okD(2) [OF hp rg] h by (auto simp: region_ok_def token_ok_def bridge_ok_def)
  then have "heap_ok ((regions rt)(r \<mapsto> ?rg)) ((blocks rt)(?h \<mapsto> ?b)) (nextRegionId rt)"
    using h(4) by (intro heap_ok_replace [OF hp rg h(2,3)]) simp_all
  moreover have "(state_of rt)(r \<mapsto> rg_state rg) = state_of rt"
    using rg by (auto simp: states_of_def fun_eq_iff)
  ultimately show ?thesis
    using op False rg h rt_invD(1) [OF inv]
    by (auto simp: gura_region_set_bridge_type_def Let_def rt_inv_def)
qed (use op inv in \<open>auto simp: gura_region_set_bridge_type_def\<close>)

lemma freeze_inv:
  assumes inv: "rt_inv rt" and live: "r = 0 \<or> regions rt r \<noteq> None"
    and op: "gura_region_freeze r rt = (out, rt')"
  shows "out \<noteq> UB \<and> rt_inv rt'"
proof (cases "r = 0 \<or> state_of rt r \<noteq> Some Closed")
  case True
  with op inv live show ?thesis
    by (auto simp: gura_region_freeze_def states_of_Some split: option.splits if_splits)
next
  case False
  then obtain rg where rg: "regions rt r = Some rg" "rg_state rg = Closed" "r \<noteq> 0"
    by (auto simp: states_of_Some)
  note hp = rt_invD(2) [OF inv]
  obtain b where h: "gura_header_for_payload (rg_bridge rg) \<noteq> 0"
    "gura_header_for_payload (rg_bridge rg) \<in> set (rg_allocations rg)"
    "blocks rt (gura_header_for_payload (rg_bridge rg)) = Some b" "oh_regionId (blk_header b) = rg_id rg"
    by (rule bridge_header [OF hp rg(1)]) blast
  let ?rg = "rg\<lparr>rg_bridgeToken := (rg_bridgeToken rg)\<lparr>bt_state := Frozen\<rparr>\<rparr>"
  let ?b = "b\<lparr>blk_header := (blk_header b)\<lparr>oh_flags := oh_flags (blk_header b) OR ObjectFlagFrozen\<rparr>\<rparr>"
  let ?h = "gura_header_for_payload (rg_bridge rg)"
  have "region_ok ((blocks rt)(?h \<mapsto> ?b)) ?rg"
    using heap_okD(2) [OF hp rg(1)] h by (auto simp: region_ok_def token_ok_def bridge_ok_def)
  then have "heap_ok ((regions rt)(r \<mapsto> ?rg)) ((blocks rt)(?h \<mapsto> ?b)) (nextRegionId rt)"
    using h(4) by (intro heap_ok_replace [OF hp rg(1) h(2,3)]) simp_all
  moreover have "(state_of rt)(r \<mapsto> Closed) = state_of rt"
    using rg by (auto simp: states_of_def fun_eq_iff)
  ultimately show ?thesis
    using op rg h rt_invD(1) [OF inv]
    by (auto simp: gura_region_freeze_def Let_def rt_inv_def)
qed

lemma merge_throw:
  assumes "t = 0 \<or> state_of rt t \<noteq> Some Active \<or> s = 0 \<or> state_of rt s \<noteq> Some Closed"
    and "t = 0 \<or> regions rt t \<noteq> None" "s = 0 \<or> regions rt s \<noteq> None"
  shows "\<exists>e. gura_region_merge t s rt = (Throw e, rt)"
proof (cases "t = 0 \<or> state_of rt t \<noteq> Some Active")
  case True
  with assms(2) show ?thesis
    by (cases "regions rt t") (auto simp: gura_region_merge_def states_of_def)
next
  case False
  then obtain tg where "regions rt t = Some tg" "rg_state tg = Active" "t \<noteq> 0"
    by (auto simp: states_of_Some)
  moreover from False assms(1) have "s = 0 \<or> state_of rt s \<noteq> Some Closed" by blast
  ultimately show ?thesis using assms(3)
    by (cases "regions rt s") (auto simp: gura_region_merge_def states_of_def)
qed

text \<open>A merge that succeeds: what it returns and what it leaves.\<close>

lemma merge_result:
  assumes inv: "rt_inv rt" and t: "regions rt t = Some tg" "rg_state tg = Active"
    and s: "regions rt s = Some sg" "rg_state sg = Closed"
    and h: "h = gura_header_for_payload (rg_bridge sg)"
  obtains b tg' where "blocks rt h = Some b" "h \<in> set (rg_allocations sg)"
    "core tg' = core (tg\<lparr>rg_allocations := rg_allocations tg @ rg_allocations sg\<rparr>)" "rg_state tg' = Active"
    "gura_region_merge t s rt =
       (Ret (rg_bridge sg),
        rt\<lparr>regions := (regions rt)(t \<mapsto> tg', s := None),
           blocks := (blocks rt)(h \<mapsto> b\<lparr>blk_header := (blk_header b)\<lparr>oh_regionId := rg_id tg\<rparr>\<rparr>)\<rparr>)"
proof -
  note hp = rt_invD(2) [OF inv]
  obtain b where b: "h \<noteq> 0" "h \<in> set (rg_allocations sg)" "blocks rt h = Some b"
    unfolding h by (rule bridge_header [OF hp s(1)]) blast
  have ne: "t \<noteq> s" "s \<noteq> t" "t \<noteq> 0" "s \<noteq> 0" using t s heap_okD(1) [OF hp] by auto
  let ?tg = "tg\<lparr>rg_allocations := rg_allocations tg @ rg_allocations sg,
               rg_bridgeToken := (rg_bridgeToken tg)\<lparr>bt_state := Merged\<rparr>\<rparr>"
  have "gura_region_merge t s rt =
       (Ret (rg_bridge sg),
        rt\<lparr>regions := (regions rt)(t \<mapsto> ?tg, s := None),
           blocks := (blocks rt)(h \<mapsto> b\<lparr>blk_header := (blk_header b)\<lparr>oh_regionId := rg_id tg\<rparr>\<rparr>)\<rparr>)"
    using t s b ne by (simp add: gura_region_merge_def Let_def h [symmetric] fun_upd_twist)
  then show ?thesis
    using that [of b ?tg] b t by (simp add: core_def)
qed

lemma merge_inv:
  assumes inv: "rt_inv rt" and live: "t = 0 \<or> regions rt t \<noteq> None" "s = 0 \<or> regions rt s \<noteq> None"
    and op: "gura_region_merge t s rt = (out, rt')"
  shows "out \<noteq> UB \<and> rt_inv rt'"
proof (cases "t = 0 \<or> state_of rt t \<noteq> Some Active \<or> s = 0 \<or> state_of rt s \<noteq> Some Closed")
  case True
  with merge_throw [OF True live] op inv show ?thesis by auto
next
  case False
  then obtain tg sg where t: "regions rt t = Some tg" "rg_state tg = Active"
    and s: "regions rt s = Some sg" "rg_state sg = Closed" by (auto simp: states_of_Some)
  obtain b tg' where r: "blocks rt (gura_header_for_payload (rg_bridge sg)) = Some b"
    "core tg' = core (tg\<lparr>rg_allocations := rg_allocations tg @ rg_allocations sg\<rparr>)" "rg_state tg' = Active"
    "gura_region_merge t s rt =
       (Ret (rg_bridge sg),
        rt\<lparr>regions := (regions rt)(t \<mapsto> tg', s := None),
           blocks := (blocks rt)(gura_header_for_payload (rg_bridge sg) \<mapsto>
              b\<lparr>blk_header := (blk_header b)\<lparr>oh_regionId := rg_id tg\<rparr>\<rparr>)\<rparr>)"
    by (rule merge_result [OF inv t s refl]) blast
  have ne: "t \<noteq> s" using t s by auto
  have "heap_ok ((regions rt)(t \<mapsto> tg', s := None))
      ((blocks rt)(gura_header_for_payload (rg_bridge sg) \<mapsto>
         b\<lparr>blk_header := (blk_header b)\<lparr>oh_regionId := rg_id tg\<rparr>\<rparr>)) (nextRegionId rt)"
    by (rule heap_ok_merge [OF rt_invD(2) [OF inv] t(1) s(1) ne refl r(1) _ r(2)]) simp
  moreover have "stack_ok (regionStack rt) ((state_of rt)(s := None))"
    using rt_invD(1) [OF inv] s by (intro stack_ok_delete) (simp_all add: states_of_Some)
  moreover have "(state_of rt)(t \<mapsto> Active, s := None) = (state_of rt)(s := None)"
    using t by (auto simp: states_of_def fun_eq_iff)
  ultimately show ?thesis using op r(3,4) by (auto simp: rt_inv_def)
qed

lemma destroy_result:
  assumes inv: "rt_inv rt" and rg: "regions rt r = Some rg"
  shows "gura_region_destroy r rt =
     (Ret (), rt\<lparr>regions := (regions rt)(r := None),
                 blocks := (\<lambda>a. if a \<in> set (rg_allocations rg) then None else blocks rt a)\<rparr>)"
proof -
  have "free_all (rg_allocations rg) (blocks rt) =
      Some (\<lambda>a. if a \<in> set (rg_allocations rg) then None else blocks rt a)"
    using heap_okD(2) [OF rt_invD(2) [OF inv] rg] by (intro free_all_Some) (auto simp: region_ok_def)
  with rg heap_okD(1) [OF rt_invD(2) [OF inv] rg] show ?thesis by (simp add: gura_region_destroy_def)
qed

lemma destroy_inv:
  assumes inv: "rt_inv rt" and cl: "r = 0 \<or> state_of rt r = Some Closed"
    and op: "gura_region_destroy r rt = (out, rt')"
  shows "out \<noteq> UB \<and> rt_inv rt'"
proof (cases "r = 0")
  case True
  with op inv show ?thesis by (auto simp: gura_region_destroy_def)
next
  case False
  with cl obtain rg where rg: "regions rt r = Some rg" "state_of rt r = Some Closed"
    by (auto simp: states_of_Some)
  have "stack_ok (regionStack rt) ((state_of rt)(r := None))"
    using rt_invD(1) [OF inv] rg(2) by (rule stack_ok_delete)
  with heap_ok_delete [OF rt_invD(2) [OF inv] rg(1)] op destroy_result [OF inv rg(1)]
  show ?thesis by (auto simp: rt_inv_def)
qed


subsection \<open>Runs of a client\<close>

text \<open>
  One call into the runtime. Addresses a call is given are null or live (the compiler passes
  what earlier calls returned), a new bridge is a payload of a live block, \<^verbatim>\<open>new\<close> and
  \<^verbatim>\<open>calloc\<close> return fresh addresses, the 64-bit region counter does not wrap, and a region
  is destroyed only while closed.
\<close>

abbreviation live_region :: "runtime \<Rightarrow> addr \<Rightarrow> bool" where
  "live_region rt r \<equiv> r = 0 \<or> regions rt r \<noteq> None"

abbreviation live_payload :: "runtime \<Rightarrow> addr \<Rightarrow> bool" where
  "live_payload rt p \<equiv> p = 0 \<or> blocks rt (gura_header_for_payload p) \<noteq> None"

inductive rt_step :: "runtime \<Rightarrow> runtime \<Rightarrow> bool" where
  step_new: "regions rt r = None \<Longrightarrow> blocks rt c = None \<Longrightarrow> r \<noteq> 0 \<Longrightarrow> c + 24 \<noteq> 0 \<Longrightarrow>
     nextRegionId rt < nextRegionId rt + 1 \<Longrightarrow>
     rt_step rt (snd (gura_region_new_iso sz st (Some r) c rt))"
| step_new_fails: "rt_step rt (snd (gura_region_new_iso sz st None c rt))"
| step_bridge: "live_region rt r \<Longrightarrow> rt_step rt (snd (gura_region_bridge r rt))"
| step_set_type: "live_region rt r \<Longrightarrow> rt_step rt (snd (gura_region_set_bridge_type r ty rt))"
| step_enter: "live_region rt r \<Longrightarrow> rt_step rt (snd (gura_region_enter t r rt))"
| step_exit: "live_region rt r \<Longrightarrow> live_payload rt p \<Longrightarrow> rt_step rt (snd (gura_region_exit t r p rt))"
| step_explore: "live_region rt r \<Longrightarrow> rt_step rt (snd (gura_region_explore t r rt))"
| step_explore_exit: "live_region rt r \<Longrightarrow> rt_step rt (snd (gura_region_explore_exit t r rt))"
| step_freeze: "live_region rt r \<Longrightarrow> rt_step rt (snd (gura_region_freeze r rt))"
| step_merge: "live_region rt r \<Longrightarrow> live_region rt s \<Longrightarrow> rt_step rt (snd (gura_region_merge r s rt))"
| step_topology: "rt_step rt (snd (gura_topology_assert r rt))"
| step_destroy: "r = 0 \<or> state_of rt r = Some Closed \<Longrightarrow> rt_step rt (snd (gura_region_destroy r rt))"

lemma enter_explore_inv:
  assumes "rt_inv rt" and "live_region rt r"
  shows "rt_inv (snd (gura_region_enter t r rt))" and "rt_inv (snd (gura_region_explore t r rt))"
  unfolding gura_region_enter_def gura_region_explore_def
  by (rule open_region_inv [OF assms(1) prod.collapse [symmetric] open_region_no_UB [OF assms]], simp)+

lemma rt_step_inv: "rt_step rt rt' \<Longrightarrow> rt_inv rt \<Longrightarrow> rt_inv rt'"
proof (induction rule: rt_step.induct)
  case (step_new rt r c sz st)
  then show ?case by (intro new_iso_inv [OF _ _ _ _ _ _ prod.collapse [symmetric]])
next
  case (step_exit rt r p t)
  then show ?case by (intro exit_inv [OF _ prod.collapse [symmetric]] exit_no_UB)
next
  case (step_explore_exit rt r t)
  then show ?case by (intro explore_exit_inv [OF _ prod.collapse [symmetric]] explore_exit_no_UB)
next
  case (step_set_type rt r ty)
  then show ?case using set_bridge_type_inv [OF _ _ prod.collapse [symmetric]] by blast
next
  case (step_freeze rt r)
  then show ?case using freeze_inv [OF _ _ prod.collapse [symmetric]] by blast
next
  case (step_merge rt r s)
  then show ?case using merge_inv [OF _ _ _ prod.collapse [symmetric]] by blast
next
  case (step_destroy r rt)
  then show ?case using destroy_inv [OF _ _ prod.collapse [symmetric]] by blast
qed (auto simp: enter_explore_inv gura_region_new_iso_def gura_region_bridge_def gura_topology_assert_def
     split: option.splits)

interpretation region_runtime: invariant_system "\<lambda>rt. rt = initial_runtime" rt_step rt_inv
  by unfold_locales (auto simp: rt_inv_initial dest: rt_step_inv)

abbreviation rt_reachable :: "runtime \<Rightarrow> bool" where
  "rt_reachable \<equiv> rt_step\<^sup>*\<^sup>* initial_runtime"

lemma rt_reachable_inv: "rt_reachable rt \<Longrightarrow> rt_inv rt"
  using region_runtime.reachable_inv by blast

end
