(* ===== verification/Gura_Runtime_Calls.thy ===== *)
theory Gura_Runtime_Calls
  imports Gura_Runtime_Props
begin

unbundle bit_operations_syntax

section \<open>The behaviour of the runtime's calls\<close>

text \<open>
  Per call: when it succeeds and what it does then (as a refinement of the abstract stack
  machine), what a failing call leaves, the round trips of enter/exit and explore/exit, the
  effect of merge and freeze, and the corner cases in which the code leaves the documented
  discipline.
\<close>

lemmas reachable_specs =
  enter_spec [OF rt_reachable_inv] explore_spec [OF rt_reachable_inv]
  exit_spec [OF rt_reachable_inv] explore_exit_spec [OF rt_reachable_inv]



text \<open>C26. A call that throws a \<open>runtime_error\<close> leaves the whole runtime state as it was, whatever
  the state and the arguments; a failed allocation consumes at most a region identifier.\<close>

theorem failed_call_changes_nothing:
  "(fst (gura_region_bridge r rt) = Throw (RuntimeError m) \<longrightarrow> snd (gura_region_bridge r rt) = rt) \<and>
   (fst (gura_region_set_bridge_type r ty rt) = Throw (RuntimeError m) \<longrightarrow>
      snd (gura_region_set_bridge_type r ty rt) = rt) \<and>
   (fst (gura_region_enter t r rt) = Throw (RuntimeError m) \<longrightarrow> snd (gura_region_enter t r rt) = rt) \<and>
   (fst (gura_region_exit t r p rt) = Throw (RuntimeError m) \<longrightarrow> snd (gura_region_exit t r p rt) = rt) \<and>
   (fst (gura_region_explore t r rt) = Throw (RuntimeError m) \<longrightarrow> snd (gura_region_explore t r rt) = rt) \<and>
   (fst (gura_region_explore_exit t r rt) = Throw (RuntimeError m) \<longrightarrow>
      snd (gura_region_explore_exit t r rt) = rt) \<and>
   (fst (gura_region_freeze r rt) = Throw (RuntimeError m) \<longrightarrow> snd (gura_region_freeze r rt) = rt) \<and>
   (fst (gura_region_merge r s rt) = Throw (RuntimeError m) \<longrightarrow> snd (gura_region_merge r s rt) = rt) \<and>
   (fst (gura_region_new_iso sz st a c rt) = Throw BadAlloc \<longrightarrow>
      snd (gura_region_new_iso sz st a c rt) = rt \<or>
      snd (gura_region_new_iso sz st a c rt) = rt\<lparr>nextRegionId := nextRegionId rt + 1\<rparr>)"
proof -
  note defs = gura_region_bridge_def gura_region_set_bridge_type_def gura_region_enter_def
    gura_region_explore_def open_region_def Let_def
  have close: "fst (close_region t r q) \<noteq> Throw e" for q e
    by (simp add: close_region_def Let_def split: option.splits)
  show ?thesis
    by (intro conjI)
       (auto simp: defs split: option.splits,
        auto simp: gura_region_exit_def gura_region_explore_exit_def Let_def close split: option.splits,
        auto simp: gura_region_freeze_def gura_region_merge_def gura_region_new_iso_def Let_def
          split: option.splits)
qed

theorem failed_call_changes_nothing_witness:
  "snd (gura_region_exit 7 64 0 sample2) = sample2"
proof -
  have "fst (gura_region_exit 7 64 0 sample2) = Throw (RuntimeError ''cannot exit non-active region'')"
    by (simp add: gura_region_exit_def sample2_fields)
  with failed_call_changes_nothing [of _ sample2] show ?thesis by blast
qed


subsection \<open>Round trips\<close>

text \<open>
  The condition under which a pause on entry and the resume on exit cancel: the caller's stack
  is empty or its top is active.
\<close>

abbreviation top_active :: "thread \<Rightarrow> runtime \<Rightarrow> bool" where
  "top_active t rt \<equiv> regionStack rt t = [] \<or> state_of rt (hd (regionStack rt t)) = Some Active"

lemma abs_open_close:
  assumes ok: "stack_ok S s" and r: "s r = Some Closed"
    and act: "S t = [] \<or> s (hd (S t)) = Some Active"
  shows "abs_close t (abs_open t r x (S, s)) = (S, s)"
proof (cases "S t")
  case Nil
  with r show ?thesis by (auto simp: abs_open_def abs_close_def abs_switch_def fun_eq_iff)
next
  case (Cons a as)
  have "a \<noteq> r" using stack_ok_closed_notin [OF ok r, of t] Cons by auto
  with Cons r act show ?thesis by (auto simp: abs_open_def abs_close_def abs_switch_def fun_eq_iff)
qed

lemma abs_open_facts:
  assumes "view rt' = abs_open t r x (view rt)"
  shows "regionStack rt' t = r # regionStack rt t" and "state_of rt' r = Some x"
  using assms by (auto simp: view_def abs_open_def)

text \<open>C25. Entering a closed region and leaving it again restores every stack and every region
  state, and so does exploring it and leaving, when the caller's stack was empty or its top
  active: the enclosing region is paused for the duration and resumed.\<close>

theorem enter_exit_roundtrip:
  assumes reach: "rt_reachable rt" and r: "state_of rt r = Some Closed" and act: "top_active t rt"
  shows "(let rt1 = snd (gura_region_enter t r rt) in
            fst (gura_region_exit t r 0 rt1) = Ret () \<and> view (snd (gura_region_exit t r 0 rt1)) = view rt) \<and>
         (let rt1 = snd (gura_region_explore t r rt) in
            fst (gura_region_explore_exit t r rt1) = Ret () \<and>
            view (snd (gura_region_explore_exit t r rt1)) = view rt)"
proof -
  have live: "live_region rt r" using r by (auto simp: states_of_Some)
  have undo: "abs_close t (abs_open t r x (view rt)) = view rt" for x
    unfolding view_def using rt_invD(1) [OF rt_reachable_inv [OF reach]] r act by (rule abs_open_close)
  have live': "live_region rt' r" if "view rt' = abs_open t r x (view rt)" for rt' x
    using abs_open_facts(2) [OF that] by (auto simp: states_of_Some)
  let ?e = "snd (gura_region_enter t r rt)" and ?x = "snd (gura_region_explore t r rt)"
  have e: "view ?e = abs_open t r Active (view rt)" and x: "view ?x = abs_open t r Paused (view rt)"
    using reachable_specs(1,2) [OF reach live, of t] r by simp_all
  have re: "rt_reachable ?e" and rx: "rt_reachable ?x"
    using step_enter [OF live, of t] step_explore [OF live, of t] reach
    by (auto intro: rtranclp.rtrancl_into_rtrancl)
  show ?thesis
    using reachable_specs(3) [OF re live' [OF e], of t] reachable_specs(4) [OF rx live' [OF x], of t]
      abs_open_facts [OF e] abs_open_facts [OF x] undo e x
    by (simp add: Let_def)
qed

theorem enter_exit_roundtrip_witness:
  "view (snd (gura_region_exit 0 128 0 (snd (gura_region_enter 0 128 sample3)))) = view sample3"
  using enter_exit_roundtrip [OF sample3_reachable, of 128 0] by (simp add: sample3_view Let_def)


subsection \<open>Merge and freeze\<close>

lemma close_region_Ret:
  "fst (close_region t r rt) \<noteq> UB \<Longrightarrow> fst (close_region t r rt) = Ret ()"
  by (auto simp: close_region_def Let_def split: option.splits)

text \<open>The outcome of an exit that installs a new bridge, in a state with the invariant.\<close>

lemma exit_new_bridge:
  assumes inv: "rt_inv rt" and rg: "regions rt r = Some rg" "rg_state rg = Active"
    and st: "regionStack rt t \<noteq> []" "hd (regionStack rt t) = r"
    and p: "p \<noteq> 0" "gura_header_for_payload p \<noteq> 0"
    and b: "blocks rt (gura_header_for_payload p) = Some b"
  shows "fst (gura_region_exit t r p rt) =
    (if oh_regionId (blk_header b) \<noteq> rg_id rg
     then Throw (RuntimeError ''new bridge must belong to the exiting region'')
     else if oh_flags (blk_header b) AND ObjectFlagFrozen \<noteq> 0
     then Throw (RuntimeError ''new bridge must not be frozen'') else Ret ())"
proof -
  have r: "r \<noteq> 0" using heap_okD(1) [OF rt_invD(2) [OF inv] rg(1)] .
  have req: "requireStackTop t r rt" using st by (simp add: requireStackTop_iff)
  have "fst (close_region t r (rt\<lparr>regions := (regions rt)(r \<mapsto> g)\<rparr>)) = Ret ()" for g
  proof -
    have "\<forall>q \<in> set (tl (regionStack rt t)). regions rt q \<noteq> None"
      using rt_inv_stack_live [OF inv] in_set_tl by metis
    then have "fst (close_region t r (rt\<lparr>regions := (regions rt)(r \<mapsto> g)\<rparr>)) \<noteq> UB"
      using st by (intro close_region_no_UB [where rs = "tl (regionStack rt t)"]) (auto simp: list.expand)
    then show ?thesis by (rule close_region_Ret)
  qed
  then show ?thesis using r rg req p b by (simp add: gura_region_exit_def Let_def)
qed

text \<open>C27. Merge: with an active target and a closed source it returns the source's bridge, deletes
  the source, appends the source's allocations to the target's, frees nothing, touches no other
  region, and makes the bridge's header name the target; if the target is on top of a thread's
  stack, that thread can then exit the target with this bridge, unless the bridge was frozen.\<close>

theorem merge_transfers_ownership:
  assumes reach: "rt_reachable rt" and t: "regions rt t = Some tg" "rg_state tg = Active"
    and s: "regions rt s = Some sg" "rg_state sg = Closed"
  shows "\<exists>rt' tg' b. gura_region_merge t s rt = (Ret (rg_bridge sg), rt') \<and>
    regions rt' s = None \<and> regions rt' t = Some tg' \<and> rg_state tg' = Active \<and>
    rg_allocations tg' = rg_allocations tg @ rg_allocations sg \<and>
    (\<forall>q. q \<noteq> t \<and> q \<noteq> s \<longrightarrow> regions rt' q = regions rt q) \<and> dom (blocks rt') = dom (blocks rt) \<and>
    blocks rt' (gura_header_for_payload (rg_bridge sg)) = Some b \<and>
    oh_regionId (blk_header b) = rg_id tg' \<and>
    (\<forall>th. regionStack rt th \<noteq> [] \<longrightarrow> hd (regionStack rt th) = t \<longrightarrow>
       fst (gura_region_exit th t (rg_bridge sg) rt') =
         (if oh_flags (blk_header b) AND ObjectFlagFrozen \<noteq> 0
          then Throw (RuntimeError ''new bridge must not be frozen'') else Ret ()))"
proof -
  note inv = rt_reachable_inv [OF reach]
  let ?h = "gura_header_for_payload (rg_bridge sg)"
  obtain b tg' where m: "blocks rt ?h = Some b" "?h \<in> set (rg_allocations sg)"
    "core tg' = core (tg\<lparr>rg_allocations := rg_allocations tg @ rg_allocations sg\<rparr>)" "rg_state tg' = Active"
    "gura_region_merge t s rt = (Ret (rg_bridge sg), rt\<lparr>regions := (regions rt)(t \<mapsto> tg', s := None),
        blocks := (blocks rt)(?h \<mapsto> b\<lparr>blk_header := (blk_header b)\<lparr>oh_regionId := rg_id tg\<rparr>\<rparr>)\<rparr>)"
    by (rule merge_result [OF inv t s refl])
  let ?b = "b\<lparr>blk_header := (blk_header b)\<lparr>oh_regionId := rg_id tg\<rparr>\<rparr>"
  let ?rt = "rt\<lparr>regions := (regions rt)(t \<mapsto> tg', s := None), blocks := (blocks rt)(?h \<mapsto> ?b)\<rparr>"
  have ne: "t \<noteq> s" using t s by auto
  have tg': "rg_allocations tg' = rg_allocations tg @ rg_allocations sg" "rg_id tg' = rg_id tg"
    using core_eqD(1,2) [OF m(3)] by simp_all
  have inv': "rt_inv ?rt"
    using merge_inv [OF inv _ _ m(5)] t s by simp
  have "?h \<noteq> 0" by (rule bridge_header [OF rt_invD(2) [OF inv] s(1)])
  then have hd: "?h \<noteq> 0" "rg_bridge sg \<noteq> 0" by (auto simp: gura_header_for_payload_def)
  have ex: "fst (gura_region_exit th t (rg_bridge sg) ?rt) =
      (if oh_flags (blk_header ?b) AND ObjectFlagFrozen \<noteq> 0
       then Throw (RuntimeError ''new bridge must not be frozen'') else Ret ())"
    if "regionStack rt th \<noteq> []" "hd (regionStack rt th) = t" for th
    using exit_new_bridge [OF inv', of t tg' th "rg_bridge sg" ?b] that m(4) ne hd tg'(2) by simp
  have "regions ?rt s = None \<and> regions ?rt t = Some tg' \<and> (\<forall>q. q \<noteq> t \<and> q \<noteq> s \<longrightarrow> regions ?rt q = regions rt q) \<and>
      dom (blocks ?rt) = dom (blocks rt) \<and> blocks ?rt ?h = Some ?b \<and> oh_regionId (blk_header ?b) = rg_id tg'"
    using ne m(1) tg'(2) by (simp add: dom_map_upd del: dom_fun_upd)
  with m(4,5) tg'(1) ex show ?thesis by blast
qed

lemma sample3_regions:
  "regions sample3 64 = Some ((new_region_object 1 4096 8 Arena)\<lparr>rg_state := Active,
      rg_bridgeToken := \<lparr>bt_regionId = 1, bt_object = 4120, bt_typeId = 0, bt_state = ActiveMut\<rparr>\<rparr>)"
  "regions sample3 128 = Some (new_region_object 2 8192 16 RC)"
  by (simp_all add: sample3_def gura_region_enter_def open_region_def switch_top_def sample2_fields Let_def
      new_region_object_def gura_payload_for_header_def sizeof_ObjectHeader_def)

theorem merge_transfers_ownership_witness:
  "\<exists>rt'. gura_region_merge 64 128 sample3 = (Ret 8216, rt') \<and> regions rt' 128 = None \<and>
         (\<exists>tg. regions rt' 64 = Some tg \<and> rg_allocations tg = [4096, 8192])"
proof -
  have *: "rg_bridge (new_region_object 2 8192 16 RC) = 8216"
    "rg_allocations (new_region_object 2 8192 16 RC) = [8192]"
    "rg_allocations (new_region_object 1 4096 8 Arena) = [4096]"
    by (simp_all add: new_region_object_def gura_payload_for_header_def sizeof_ObjectHeader_def)
  show ?thesis
    using merge_transfers_ownership [OF sample3_reachable sample3_regions(1) _ sample3_regions(2)]
    unfolding * by (simp add: *) blast
qed


subsection \<open>Corner cases of the stack discipline\<close>

text \<open>C39. Nested exploration: leaving an inner explored region makes the outer explored region,
  which was opened read-only, active, and its own exit-explore then throws.\<close>

theorem nested_explore_activates_outer:
  assumes reach: "rt_reachable rt" and a: "state_of rt a = Some Closed" and b: "state_of rt b = Some Closed"
    and ne: "a \<noteq> b" and st: "regionStack rt t = []"
  shows "let rt1 = snd (gura_region_explore t a rt); rt2 = snd (gura_region_explore t b rt1);
             rt3 = snd (gura_region_explore_exit t b rt2)
         in state_of rt1 a = Some Paused \<and> state_of rt3 a = Some Active \<and> regionStack rt3 t = [a] \<and>
            (\<exists>e. gura_region_explore_exit t a rt3 = (Throw e, rt3))"
proof -
  have live: "live_region rt' q" if "state_of rt' q = Some x" for rt' q x
    using that by (auto simp: states_of_Some)
  let ?rt1 = "snd (gura_region_explore t a rt)" let ?rt2 = "snd (gura_region_explore t b ?rt1)"
  let ?rt3 = "snd (gura_region_explore_exit t b ?rt2)"
  have v1: "view ?rt1 = abs_open t a Paused (view rt)"
    using reachable_specs(2) [OF reach live [OF a], of t] a by simp
  have s1: "regionStack ?rt1 t = [a]" "state_of ?rt1 a = Some Paused" "state_of ?rt1 b = Some Closed"
    using v1 st ne b by (auto simp: view_def abs_open_def abs_switch_def)
  have r1: "rt_reachable ?rt1"
    using reach step_explore [OF live [OF a]] by (rule rtranclp.rtrancl_into_rtrancl)
  have v2: "view ?rt2 = abs_open t b Paused (view ?rt1)"
    using reachable_specs(2) [OF r1 live [OF s1(3)], of t] s1 by simp
  have s2: "regionStack ?rt2 t = [b, a]" "state_of ?rt2 a = Some Paused" "state_of ?rt2 b = Some Paused"
    using v2 s1 ne by (auto simp: view_def abs_open_def abs_switch_def)
  have r2: "rt_reachable ?rt2"
    using r1 step_explore [OF live [OF s1(3)]] by (rule rtranclp.rtrancl_into_rtrancl)
  have v3: "view ?rt3 = abs_close t (view ?rt2)"
    using reachable_specs(4) [OF r2 live [OF s2(3)], of t] s2 by simp
  have s3: "regionStack ?rt3 t = [a]" "state_of ?rt3 a = Some Active"
    using v3 s2 ne by (auto simp: view_def abs_close_def abs_switch_def)
  have r3: "rt_reachable ?rt3"
    using r2 step_explore_exit [OF live [OF s2(3)]] by (rule rtranclp.rtrancl_into_rtrancl)
  show ?thesis
    using reachable_specs(4) [OF r3 live [OF s3(2)], of t] s1 s3 by (simp add: Let_def)
qed

theorem nested_explore_activates_outer_witness:
  "state_of (snd (gura_region_explore_exit 0 128 (snd (gura_region_explore 0 128
     (snd (gura_region_explore 0 64 sample2)))))) 64 = Some Active"
  using nested_explore_activates_outer [OF sample2_reachable, of 64 128 0]
  by (simp add: sample2_states sample2_fields(1) Let_def)

text \<open>C40. Destroying the open region on top of a thread's stack leaves its pointer there: the
  thread's next enter of any other closed region dereferences freed memory.\<close>

theorem destroy_open_region_dangles:
  assumes reach: "rt_reachable rt" and st: "regionStack rt t = r # rs"
    and s: "state_of rt s = Some Closed"
  shows "fst (gura_region_destroy r rt) = Ret () \<and>
         fst (gura_region_enter t s (snd (gura_region_destroy r rt))) = UB"
proof -
  note inv = rt_reachable_inv [OF reach]
  obtain rg where rg: "regions rt r = Some rg" using rt_inv_stack_live [OF inv, of r t] st by auto
  obtain sg where sg: "regions rt s = Some sg" "rg_state sg = Closed" using s by (auto simp: states_of_Some)
  have "s \<noteq> r" using stack_ok_closed_notin [OF rt_invD(1) [OF inv] s, of t] st by auto
  moreover have "s \<noteq> 0" using heap_okD(1) [OF rt_invD(2) [OF inv] sg(1)] .
  ultimately show ?thesis using destroy_result [OF inv rg] st sg
    by (simp add: gura_region_enter_def open_region_def switch_top_def)
qed

theorem destroy_open_region_dangles_witness:
  "fst (gura_region_enter 0 128 (snd (gura_region_destroy 64 sample3))) = UB"
  using destroy_open_region_dangles [OF sample3_reachable, of 0 64 "[]" 128] by (simp add: sample3_view)

text \<open>Merge re-labels only the source's current bridge: every other block the target takes over
  keeps a header that does not name the target, although the target owns it now, so the target
  cannot be exited with that object as its new bridge.\<close>

theorem merge_keeps_stale_headers:
  assumes reach: "rt_reachable rt" and t: "regions rt t = Some tg" "rg_state tg = Active"
    and s: "regions rt s = Some sg" "rg_state sg = Closed"
    and a: "a \<in> set (rg_allocations sg)" "a \<noteq> gura_header_for_payload (rg_bridge sg)"
    and p: "gura_payload_for_header a \<noteq> 0" and st: "regionStack rt th = t # rs"
  shows "\<exists>tg'. regions (snd (gura_region_merge t s rt)) t = Some tg' \<and> a \<in> set (rg_allocations tg') \<and>
    fst (gura_region_exit th t (gura_payload_for_header a) (snd (gura_region_merge t s rt))) =
      Throw (RuntimeError ''new bridge must belong to the exiting region'')"
proof -
  note inv = rt_reachable_inv [OF reach] and hp = rt_invD(2) [OF rt_reachable_inv [OF reach]]
  let ?h = "gura_header_for_payload (rg_bridge sg)"
  obtain b tg' where m: "core tg' = core (tg\<lparr>rg_allocations := rg_allocations tg @ rg_allocations sg\<rparr>)"
    "rg_state tg' = Active"
    "gura_region_merge t s rt = (Ret (rg_bridge sg), rt\<lparr>regions := (regions rt)(t \<mapsto> tg', s := None),
        blocks := (blocks rt)(?h \<mapsto> b\<lparr>blk_header := (blk_header b)\<lparr>oh_regionId := rg_id tg\<rparr>\<rparr>)\<rparr>)"
    by (rule merge_result [OF inv t s refl])
  have ne: "t \<noteq> s" using t s by auto
  obtain c where c: "blocks rt a = Some c" "a \<noteq> 0"
    using heap_okD(2) [OF hp s(1)] a(1) by (fastforce simp: region_ok_def)
  have "oh_regionId (blk_header c) \<noteq> rg_id tg"
    using heap_okD(6) [OF hp t(1) c(1)] heap_okD(4) [OF hp t(1) s(1) ne] a(1) by auto
  moreover have "gura_header_for_payload (gura_payload_for_header a) = a"
    using p c(2) by (simp add: gura_header_for_payload_def gura_payload_for_header_def sizeof_ObjectHeader_def)
  moreover have "rt_inv (snd (gura_region_merge t s rt))"
    using merge_inv [OF inv _ _ m(3)] t(1) s(1) by (simp add: m(3))
  ultimately show ?thesis
    using exit_new_bridge [of "snd (gura_region_merge t s rt)" t tg' th "gura_payload_for_header a" c]
      core_eqD(1,2) [OF m(1)] m(2,3) ne a c p st by simp
qed


definition sample4 :: runtime where
  "sample4 = snd (gura_region_exit 0 64 0 (snd (gura_region_merge 64 128 sample3)))"

definition sample5 :: runtime where
  "sample5 = snd (gura_region_enter 0 192 (snd (gura_region_new_iso 8 GC (Some 192) 12288 sample4)))"

lemma sample3_fields: "regionStack sample3 = (\<lambda>_. [])(0 := [64])" "nextRegionId sample3 = 3"
  "blocks sample3 = [4096 \<mapsto> new_block 1 8, 8192 \<mapsto> new_block 2 16]"
  "regions sample3 192 = None"
  by (simp_all add: sample3_def gura_region_enter_def open_region_def switch_top_def sample2_fields Let_def)

lemma new_region_object_fields [simp]:
  "rg_bridge (new_region_object i a sz st) = gura_payload_for_header a"
  "rg_allocations (new_region_object i a sz st) = [a]" "rg_id (new_region_object i a sz st) = i"
  by (simp_all add: new_region_object_def Let_def)

lemmas address_defs = gura_header_for_payload_def gura_payload_for_header_def sizeof_ObjectHeader_def

lemma sample4_fields: "regionStack sample4 = (\<lambda>_. [])" "nextRegionId sample4 = 3"
  "regions sample4 192 = None" "blocks sample4 12288 = None"
  "\<exists>rg. regions sample4 64 = Some rg \<and> rg_state rg = Closed \<and> rg_allocations rg = [4096, 8192] \<and>
        rg_bridge rg = 4120"
  by (simp_all add: sample4_def gura_region_merge_def gura_region_exit_def close_region_def switch_top_def
      requireStackTop_def sample3_fields sample3_regions address_defs Let_def fun_eq_iff)

lemma sample5_fields: "regionStack sample5 0 = [192]"
  "\<exists>rg. regions sample5 192 = Some rg \<and> rg_state rg = Active"
  "\<exists>rg. regions sample5 64 = Some rg \<and> rg_state rg = Closed \<and> rg_allocations rg = [4096, 8192] \<and>
        rg_bridge rg = 4120"
  using sample4_fields
  by (simp_all add: sample5_def gura_region_new_iso_def gura_region_enter_def open_region_def
      switch_top_def Let_def)

lemma sample5_reachable: "rt_reachable sample5"
proof -
  let ?m = "snd (gura_region_merge 64 128 sample3)"
  let ?n = "snd (gura_region_new_iso 8 GC (Some 192) 12288 sample4)"
  have "rt_step sample3 ?m" by (rule step_merge) (simp_all add: sample3_regions)
  moreover have "rt_step ?m sample4"
    unfolding sample4_def
    by (rule step_exit) (simp_all add: gura_region_merge_def sample3_regions sample3_fields address_defs Let_def)
  moreover have "rt_step sample4 ?n" by (rule step_new) (simp_all add: sample4_fields)
  moreover have "rt_step ?n sample5"
    unfolding sample5_def by (rule step_enter) (simp add: gura_region_new_iso_def Let_def)
  ultimately show ?thesis
    using sample3_reachable by (meson rtranclp.rtrancl_into_rtrancl)
qed

theorem merge_keeps_stale_headers_witness:
  "fst (gura_region_exit 0 192 8216 (snd (gura_region_merge 192 64 sample5))) =
     Throw (RuntimeError ''new bridge must belong to the exiting region'')"
proof -
  obtain tg sg where *: "regions sample5 192 = Some tg" "rg_state tg = Active"
    "regions sample5 64 = Some sg" "rg_state sg = Closed" "rg_allocations sg = [4096, 8192]"
    "rg_bridge sg = 4120"
    using sample5_fields(2,3) by blast
  show ?thesis
    using merge_keeps_stale_headers [OF sample5_reachable *(1-4), of 8192 0 "[]"] *(5,6) sample5_fields(1)
    by (auto simp: address_defs)
qed

end
