(* ===== verification/Gura_Cown.thy ===== *)
theory Gura_Cown
  imports Gura_Runtime
begin

section \<open>Cowns\<close>

text \<open>
  The model of \<^verbatim>\<open>runtime/src/Cown.cpp\<close>: a cown is a region behind a mutex. The mutex is
  its owner (a thread or none). \<^verbatim>\<open>std::mutex\<close> blocks a thread that locks a mutex another
  thread owns; locking it again as its owner, unlocking it as another thread, and destroying
  it while it is owned are undefined behaviour. Blocking is the absence of a step.
\<close>

record cown =
  cw_id :: u64
  cw_region :: addr
  cw_mutex :: "thread option"

record cowns =
  nextCownId :: u64
  cown_at :: "addr \<rightharpoonup> cown"

datatype 'a action = Returns 'a cowns | Blocks | Raises exn cowns | Undefined

definition initial_cowns :: cowns where
  "initial_cowns = \<lparr>nextCownId = 1, cown_at = Map.empty\<rparr>"

definition gura_cown_new :: "addr \<Rightarrow> addr option \<Rightarrow> cowns \<Rightarrow> addr action" where
  "gura_cown_new region new_cown cs =
     (case new_cown of
        None \<Rightarrow> Raises BadAlloc cs
      | Some c \<Rightarrow>
          Returns c (cs\<lparr>nextCownId := nextCownId cs + 1,
                        cown_at := (cown_at cs)(c \<mapsto>
                          \<lparr>cw_id = nextCownId cs, cw_region = region, cw_mutex = None\<rparr>)\<rparr>))"

definition gura_cown_acquire :: "thread \<Rightarrow> addr \<Rightarrow> cowns \<Rightarrow> unit action" where
  "gura_cown_acquire t c cs =
     (case cown_at cs c of
        None \<Rightarrow> Undefined
      | Some cw \<Rightarrow>
          (case cw_mutex cw of
             None \<Rightarrow> Returns () (cs\<lparr>cown_at := (cown_at cs)(c \<mapsto> cw\<lparr>cw_mutex := Some t\<rparr>)\<rparr>)
           | Some u \<Rightarrow> if u = t then Undefined else Blocks))"

definition gura_cown_release :: "thread \<Rightarrow> addr \<Rightarrow> cowns \<Rightarrow> unit action" where
  "gura_cown_release t c cs =
     (case cown_at cs c of
        None \<Rightarrow> Undefined
      | Some cw \<Rightarrow>
          if cw_mutex cw = Some t
          then Returns () (cs\<lparr>cown_at := (cown_at cs)(c \<mapsto> cw\<lparr>cw_mutex := None\<rparr>)\<rparr>)
          else Undefined)"

definition gura_cown_destroy :: "addr \<Rightarrow> cowns \<Rightarrow> unit action" where
  "gura_cown_destroy c cs =
     (if c = 0 then Returns () cs
      else case cown_at cs c of
        None \<Rightarrow> Undefined
      | Some cw \<Rightarrow>
          (case cw_mutex cw of
             None \<Rightarrow> Returns () (cs\<lparr>cown_at := (cown_at cs)(c := None)\<rparr>)
           | Some _ \<Rightarrow> Undefined))"


subsection \<open>Threads that acquire, work and release\<close>

text \<open>
  A client's step, with the cowns each thread holds as the history of its own calls: a thread
  acquires a cown it does not hold, releases one it holds, and a cown is destroyed only when
  nobody holds it. The history is what each thread believes; the mutexes are what the memory
  says.
\<close>

type_synonym cown_client = "cowns \<times> (thread \<Rightarrow> addr set)"

inductive cown_step :: "cown_client \<Rightarrow> cown_client \<Rightarrow> bool" where
  cstep_new: "c \<noteq> 0 \<Longrightarrow> cown_at cs c = None \<Longrightarrow> nextCownId cs < nextCownId cs + 1 \<Longrightarrow>
     gura_cown_new r (Some c) cs = Returns c' cs' \<Longrightarrow> cown_step (cs, held) (cs', held)"
| cstep_acquire: "c \<notin> held t \<Longrightarrow> gura_cown_acquire t c cs = Returns () cs' \<Longrightarrow>
     cown_step (cs, held) (cs', held(t := insert c (held t)))"
| cstep_release: "c \<in> held t \<Longrightarrow> gura_cown_release t c cs = Returns () cs' \<Longrightarrow>
     cown_step (cs, held) (cs', held(t := held t - {c}))"
| cstep_destroy: "\<forall>t. c \<notin> held t \<Longrightarrow> gura_cown_destroy c cs = Returns () cs' \<Longrightarrow>
     cown_step (cs, held) (cs', held)"

definition cown_inv :: "cown_client \<Rightarrow> bool" where
  "cown_inv = (\<lambda>(cs, held).
     (\<forall>t c. c \<in> held t \<longleftrightarrow> (\<exists>cw. cown_at cs c = Some cw \<and> cw_mutex cw = Some t)) \<and>
     cown_at cs 0 = None \<and> (\<forall>c cw. cown_at cs c = Some cw \<longrightarrow> cw_id cw < nextCownId cs) \<and>
     (\<forall>c d cw dw. cown_at cs c = Some cw \<longrightarrow> cown_at cs d = Some dw \<longrightarrow> cw_id cw = cw_id dw \<longrightarrow> c = d))"

lemma cown_invD:
  assumes "cown_inv (cs, held)"
  shows "c \<in> held t \<longleftrightarrow> (\<exists>cw. cown_at cs c = Some cw \<and> cw_mutex cw = Some t)"
    and "cown_at cs 0 = None" and "cown_at cs c = Some cw \<Longrightarrow> cw_id cw < nextCownId cs"
    and "cown_at cs c = Some cw \<Longrightarrow> cown_at cs d = Some dw \<Longrightarrow> cw_id cw = cw_id dw \<Longrightarrow> c = d"
  using assms by (auto simp: cown_inv_def)

lemma cown_step_inv:
  assumes "cown_step s s'" and "cown_inv s"
  shows "cown_inv s'"
  using assms
proof (induction rule: cown_step.induct)
  case (cstep_new c cs r c' cs' held)
  have lt: "x < nextCownId cs \<Longrightarrow> x < nextCownId cs + 1" for x
    using cstep_new(3) by (rule order.strict_trans [rotated])
  have cs': "cs' = cs\<lparr>nextCownId := nextCownId cs + 1, cown_at := (cown_at cs)(c \<mapsto>
      \<lparr>cw_id = nextCownId cs, cw_region = r, cw_mutex = None\<rparr>)\<rparr>"
    using cstep_new(4) by (auto simp: gura_cown_new_def)
  note D = cown_invD [OF cstep_new(5)]
  have 1: "\<forall>t d. d \<in> held t \<longleftrightarrow> (\<exists>cw. cown_at cs' d = Some cw \<and> cw_mutex cw = Some t)"
    using D(1) cstep_new(2) by (auto simp: cs')
  have 2: "cown_at cs' 0 = None" "\<forall>d cw. cown_at cs' d = Some cw \<longrightarrow> cw_id cw < nextCownId cs'"
    using D(2,3) lt cstep_new(1,3) by (auto simp: cs')
  have 3: "\<forall>d e dw ew. cown_at cs' d = Some dw \<longrightarrow> cown_at cs' e = Some ew \<longrightarrow> cw_id dw = cw_id ew \<longrightarrow> d = e"
    using D(3,4) by (auto simp: cs') (metis order.irrefl)+
  show ?case unfolding cown_inv_def using 1 2 3 by simp
next
  case (cstep_acquire c held t cs cs')
  then show ?case
    by (auto simp: gura_cown_acquire_def cown_inv_def split: option.splits if_splits)
next
  case (cstep_release c held t cs cs')
  then show ?case
    by (auto simp: gura_cown_release_def cown_inv_def split: option.splits if_splits)
next
  case (cstep_destroy c held cs cs')
  then show ?case
    by (auto simp: gura_cown_destroy_def cown_inv_def split: option.splits if_splits)
qed

abbreviation cown_initial :: cown_client where
  "cown_initial \<equiv> (initial_cowns, \<lambda>_. {})"

interpretation cown_system: invariant_system "\<lambda>s. s = cown_initial" cown_step cown_inv
proof unfold_locales
  fix s assume "s = cown_initial"
  then show "cown_inv s" by (simp add: cown_inv_def initial_cowns_def)
qed (rule cown_step_inv)

abbreviation cown_reachable :: "cown_client \<Rightarrow> bool" where
  "cown_reachable \<equiv> cown_step\<^sup>*\<^sup>* cown_initial"

lemma cown_reachable_inv: "cown_reachable s \<Longrightarrow> cown_inv s"
  using cown_system.reachable_inv by blast

text \<open>C20. Mutual exclusion: in every reachable state a cown is held by at most one thread; while
  a thread holds it, another thread's acquire blocks, the holder's release returns and frees it,
  and a free live cown is acquired at once. No two live cowns have the same id.\<close>

theorem cown_mutual_exclusion:
  assumes "cown_reachable (cs, held)"
  shows "(\<forall>t u c. c \<in> held t \<longrightarrow> c \<in> held u \<longrightarrow> t = u) \<and>
    (\<forall>t u c. c \<in> held t \<longrightarrow> u \<noteq> t \<longrightarrow> gura_cown_acquire u c cs = Blocks) \<and>
    (\<forall>t c. c \<in> held t \<longrightarrow> (\<exists>cs'. gura_cown_release t c cs = Returns () cs' \<and>
        (\<forall>u. gura_cown_acquire u c cs' \<noteq> Blocks))) \<and>
    (\<forall>t c. cown_at cs c \<noteq> None \<longrightarrow> (\<forall>u. c \<notin> held u) \<longrightarrow>
        (\<exists>cs'. gura_cown_acquire t c cs = Returns () cs')) \<and>
    (\<forall>c d cw dw. cown_at cs c = Some cw \<longrightarrow> cown_at cs d = Some dw \<longrightarrow> cw_id cw = cw_id dw \<longrightarrow> c = d)"
proof -
  note D = cown_invD [OF cown_reachable_inv [OF assms]]
  have rel: "\<exists>cs'. gura_cown_release t c cs = Returns () cs' \<and> (\<forall>u. gura_cown_acquire u c cs' \<noteq> Blocks)"
    if "c \<in> held t" for t c
    using that D(1) by (auto simp: gura_cown_release_def gura_cown_acquire_def)
  have acq: "\<exists>cs'. gura_cown_acquire t c cs = Returns () cs'"
    if asm: "cown_at cs c \<noteq> None" "\<forall>u. c \<notin> held u" for t c
  proof -
    obtain cw where "cown_at cs c = Some cw" using asm(1) by auto
    moreover from this have "cw_mutex cw = None" using asm(2) D(1) by (cases "cw_mutex cw") auto
    ultimately show ?thesis by (simp add: gura_cown_acquire_def)
  qed
  have "gura_cown_acquire u c cs = Blocks" if "c \<in> held t" "u \<noteq> t" for t u c
    using that D(1) [of c t] by (auto simp: gura_cown_acquire_def)
  moreover have "t = u" if "c \<in> held t" "c \<in> held u" for t u c
    using that D(1) [of c t] D(1) [of c u] by auto
  ultimately show ?thesis using rel acq D(4) by blast
qed

definition sample_cowns :: cowns where
  "sample_cowns = \<lparr>nextCownId = 2,
     cown_at = [512 \<mapsto> \<lparr>cw_id = 1, cw_region = 64, cw_mutex = Some 3\<rparr>]\<rparr>"

theorem cown_mutual_exclusion_witness: "gura_cown_acquire 4 512 sample_cowns = Blocks"
proof -
  let ?cs = "initial_cowns\<lparr>nextCownId := 2,
     cown_at := [512 \<mapsto> \<lparr>cw_id = 1, cw_region = 64, cw_mutex = None\<rparr>]\<rparr>"
  have "cown_step cown_initial (?cs, \<lambda>_. {})"
    by (rule cstep_new [of 512 _ 64 512]) (simp_all add: initial_cowns_def gura_cown_new_def)
  moreover have "cown_step (?cs, \<lambda>_. {}) (sample_cowns, (\<lambda>_. {})(3 := insert 512 {}))"
    by (rule cstep_acquire) (simp_all add: initial_cowns_def gura_cown_acquire_def sample_cowns_def)
  ultimately have "cown_reachable (sample_cowns, (\<lambda>_. {})(3 := {512}))"
    by (rule converse_rtranclp_into_rtranclp [OF _ r_into_rtranclp])
  from cown_mutual_exclusion [OF this, THEN conjunct2, THEN conjunct1, rule_format, of 512 3 4] show ?thesis by simp
qed

end
