(* ===== verification/Gura_Lexer.thy ===== *)
theory Gura_Lexer
  imports Gura_Basic
begin

section \<open>The lexer\<close>

text \<open>
  The model of \<^verbatim>\<open>include/gura/lexer\<close> and \<^verbatim>\<open>src/lexer/Lexer.cpp\<close>. The state is
  the class's four members; \<open>offset\<close> is a natural number (it never exceeds the length of the
  source by more than one), the line and the column are 32-bit words and wrap. \<open>lex_oob\<close> is
  a ghost flag: it records that \<^verbatim>\<open>source_[offset_]\<close> was read at or past the end, which is
  undefined behaviour in C++; the value read there is taken to be NUL. The character classes are
  those of the C locale.
\<close>

datatype token_kind =
    EndOfFile | Invalid | Identifier | IntegerLiteral | FloatLiteral | StringLiteral
    | CharLiteral | KwFn | KwModule | KwImport | KwStruct | KwEnum | KwTrait | KwImpl | KwLet
    | KwVar | KwMove | KwNew | KwEnter | KwExplore | KwFreeze | KwMerge | KwCown | KwAcquire
    | KwSpawn | KwUnsafe | KwReturn | KwIf | KwElse | KwWhile | KwMatch | KwCase | KwAs | KwTrue
    | KwFalse | KwNone | KwMut | KwTmp | KwIso | KwImm | KwPau | LParen | RParen | LBrace
    | RBrace | LBracket | RBracket | Comma | Dot | Colon | Semicolon | Arrow | FatArrow
    | Question | Pipe | Plus | Minus | Star | Slash | Percent | Equal | EqualEqual | Bang
    | BangEqual | Less | LessEqual | Greater | GreaterEqual

record token =
  tok_kind :: token_kind
  tok_span :: span
  tok_text :: string

record lexer =
  lex_source :: string
  lex_offset :: nat
  lex_line :: u32
  lex_column :: u32
  lex_oob :: bool

definition code :: "char \<Rightarrow> nat" where
  "code c = of_char c"

definition isalpha :: "char \<Rightarrow> bool" where
  "isalpha c \<longleftrightarrow> 65 \<le> code c \<and> code c \<le> 90 \<or> 97 \<le> code c \<and> code c \<le> 122"

definition isdigit :: "char \<Rightarrow> bool" where
  "isdigit c \<longleftrightarrow> 48 \<le> code c \<and> code c \<le> 57"

definition isspace :: "char \<Rightarrow> bool" where
  "isspace c \<longleftrightarrow> 9 \<le> code c \<and> code c \<le> 13 \<or> code c = 32"

definition isIdentifierStart :: "char \<Rightarrow> bool" where
  "isIdentifierStart c \<longleftrightarrow> isalpha c \<or> c = CHR ''_''"

definition isIdentifierContinue :: "char \<Rightarrow> bool" where
  "isIdentifierContinue c \<longleftrightarrow> isalpha c \<or> isdigit c \<or> c = CHR ''_''"

definition keyword_table :: "(string, token_kind) unordered_map" where
  "keyword_table =
    [(''fn'', KwFn), (''module'', KwModule), (''import'', KwImport), (''struct'', KwStruct)
     , (''enum'', KwEnum), (''trait'', KwTrait), (''impl'', KwImpl), (''let'', KwLet)
     , (''var'', KwVar), (''move'', KwMove), (''new'', KwNew), (''enter'', KwEnter)
     , (''explore'', KwExplore), (''freeze'', KwFreeze), (''merge'', KwMerge)
     , (''cown'', KwCown), (''acquire'', KwAcquire), (''spawn'', KwSpawn)
     , (''unsafe'', KwUnsafe), (''return'', KwReturn), (''if'', KwIf), (''else'', KwElse)
     , (''while'', KwWhile), (''match'', KwMatch), (''case'', KwCase), (''as'', KwAs)
     , (''true'', KwTrue), (''false'', KwFalse), (''none'', KwNone), (''mut'', KwMut)
     , (''tmp'', KwTmp), (''iso'', KwIso), (''imm'', KwImm), (''pau'', KwPau)]"

definition keywordKind :: "string \<Rightarrow> token_kind" where
  "keywordKind text = (case um_find keyword_table text of Some k \<Rightarrow> k | None \<Rightarrow> Identifier)"

fun tokenKindName :: "token_kind \<Rightarrow> string" where
  "tokenKindName EndOfFile = ''eof''"
| "tokenKindName Invalid = ''invalid''"
| "tokenKindName Identifier = ''identifier''"
| "tokenKindName IntegerLiteral = ''integer_literal''"
| "tokenKindName FloatLiteral = ''float_literal''"
| "tokenKindName StringLiteral = ''string_literal''"
| "tokenKindName CharLiteral = ''char_literal''"
| "tokenKindName KwFn = ''fn''"
| "tokenKindName KwModule = ''module''"
| "tokenKindName KwImport = ''import''"
| "tokenKindName KwStruct = ''struct''"
| "tokenKindName KwEnum = ''enum''"
| "tokenKindName KwTrait = ''trait''"
| "tokenKindName KwImpl = ''impl''"
| "tokenKindName KwLet = ''let''"
| "tokenKindName KwVar = ''var''"
| "tokenKindName KwMove = ''move''"
| "tokenKindName KwNew = ''new''"
| "tokenKindName KwEnter = ''enter''"
| "tokenKindName KwExplore = ''explore''"
| "tokenKindName KwFreeze = ''freeze''"
| "tokenKindName KwMerge = ''merge''"
| "tokenKindName KwCown = ''cown''"
| "tokenKindName KwAcquire = ''acquire''"
| "tokenKindName KwSpawn = ''spawn''"
| "tokenKindName KwUnsafe = ''unsafe''"
| "tokenKindName KwReturn = ''return''"
| "tokenKindName KwIf = ''if''"
| "tokenKindName KwElse = ''else''"
| "tokenKindName KwWhile = ''while''"
| "tokenKindName KwMatch = ''match''"
| "tokenKindName KwCase = ''case''"
| "tokenKindName KwAs = ''as''"
| "tokenKindName KwTrue = ''true''"
| "tokenKindName KwFalse = ''false''"
| "tokenKindName KwNone = ''none''"
| "tokenKindName KwMut = ''mut''"
| "tokenKindName KwTmp = ''tmp''"
| "tokenKindName KwIso = ''iso''"
| "tokenKindName KwImm = ''imm''"
| "tokenKindName KwPau = ''pau''"
| "tokenKindName LParen = ''(''"
| "tokenKindName RParen = '')''"
| "tokenKindName LBrace = ''{''"
| "tokenKindName RBrace = ''}''"
| "tokenKindName LBracket = ''[''"
| "tokenKindName RBracket = '']''"
| "tokenKindName Comma = '',''"
| "tokenKindName Dot = ''.''"
| "tokenKindName Colon = '':''"
| "tokenKindName Semicolon = '';''"
| "tokenKindName Arrow = ''->''"
| "tokenKindName FatArrow = ''=>''"
| "tokenKindName Question = ''?''"
| "tokenKindName Pipe = ''|''"
| "tokenKindName Plus = ''+''"
| "tokenKindName Minus = ''-''"
| "tokenKindName Star = ''*''"
| "tokenKindName Slash = ''/''"
| "tokenKindName Percent = ''%''"
| "tokenKindName Equal = ''=''"
| "tokenKindName EqualEqual = ''==''"
| "tokenKindName Bang = ''!''"
| "tokenKindName BangEqual = ''!=''"
| "tokenKindName Less = ''<''"
| "tokenKindName LessEqual = ''<=''"
| "tokenKindName Greater = ''>''"
| "tokenKindName GreaterEqual = ''>=''"


subsection \<open>Reading characters\<close>

abbreviation NUL :: char where
  "NUL \<equiv> CHR 0x00"

abbreviation newline :: char where
  "newline \<equiv> CHR 0x0A"

definition Lexer_init :: "string \<Rightarrow> lexer" where
  "Lexer_init source =
     \<lparr>lex_source = source, lex_offset = 0, lex_line = 1, lex_column = 1, lex_oob = False\<rparr>"

definition isAtEnd :: "lexer \<Rightarrow> bool" where
  "isAtEnd l \<longleftrightarrow> length (lex_source l) \<le> lex_offset l"

definition peek :: "nat \<Rightarrow> lexer \<Rightarrow> char" where
  "peek lookahead l =
     (if length (lex_source l) \<le> lex_offset l + lookahead then NUL
      else lex_source l ! (lex_offset l + lookahead))"

definition advance :: "lexer \<Rightarrow> char \<times> lexer" where
  "advance l =
     (let (c, oob) = (if lex_offset l < length (lex_source l)
                      then (lex_source l ! lex_offset l, lex_oob l) else (NUL, True));
          l1 = l\<lparr>lex_offset := lex_offset l + 1, lex_oob := oob\<rparr>
      in (c, if c = newline then l1\<lparr>lex_line := lex_line l + 1, lex_column := 1\<rparr>
             else l1\<lparr>lex_column := lex_column l + 1\<rparr>))"

abbreviation adv :: "lexer \<Rightarrow> lexer" where
  "adv l \<equiv> snd (advance l)"

definition match_char :: "char \<Rightarrow> lexer \<Rightarrow> bool \<times> lexer" where
  "match_char expected l =
     (if isAtEnd l \<or> lex_source l ! lex_offset l \<noteq> expected then (False, l) else (True, adv l))"

text \<open>The loops \<^verbatim>\<open>while (!isAtEnd() && P) advance();\<close>.\<close>

function advance_while :: "(lexer \<Rightarrow> bool) \<Rightarrow> lexer \<Rightarrow> lexer" where
  "advance_while P l = (if \<not> isAtEnd l \<and> P l then advance_while P (adv l) else l)"
  by auto

lemma advance_frame [simp]:
  "lex_source (adv l) = lex_source l" "lex_offset (adv l) = Suc (lex_offset l)"
  by (simp_all add: advance_def Let_def split: prod.splits)

termination advance_while
  by (relation "measure (\<lambda>(P, l). length (lex_source l) - lex_offset l)") (auto simp: isAtEnd_def)

declare advance_while.simps [simp del]


abbreviation skip_chars :: "(char \<Rightarrow> bool) \<Rightarrow> lexer \<Rightarrow> lexer" where
  "skip_chars Q \<equiv> advance_while (\<lambda>l. Q (peek 0 l))"


subsection \<open>Trivia\<close>

lemma advance_while_frame:
  "lex_source (advance_while P l) = lex_source l \<and> lex_offset l \<le> lex_offset (advance_while P l)"
proof (induction P l rule: advance_while.induct)
  case (1 P l)
  then show ?case by (auto simp: advance_while.simps [of P l])
qed

lemmas advance_while_source [simp] = advance_while_frame [THEN conjunct1]
lemmas advance_while_mono = advance_while_frame [THEN conjunct2]

lemma advance_while_step:
  "\<not> isAtEnd l \<Longrightarrow> P l \<Longrightarrow> lex_offset l < lex_offset (advance_while P l)"
  by (subst advance_while.simps) (use advance_while_mono [of "adv l" P] in simp)

definition line_comment_at :: "lexer \<Rightarrow> bool" where
  "line_comment_at l \<longleftrightarrow> peek 0 l = CHR ''/'' \<and> peek 1 l = CHR ''/''"

definition block_comment_at :: "lexer \<Rightarrow> bool" where
  "block_comment_at l \<longleftrightarrow> peek 0 l = CHR ''/'' \<and> peek 1 l = CHR ''*''"

definition skip_line_comment :: "lexer \<Rightarrow> lexer" where
  "skip_line_comment = skip_chars (\<lambda>c. c \<noteq> newline)"

definition skip_block_comment :: "lexer \<Rightarrow> lexer" where
  "skip_block_comment l =
     (let l1 = advance_while (\<lambda>l. \<not> (peek 0 l = CHR ''*'' \<and> peek 1 l = CHR ''/'')) (adv (adv l))
      in if \<not> isAtEnd l1 then adv (adv l1) else l1)"

function skipTrivia :: "lexer \<Rightarrow> lexer" where
  "skipTrivia l =
     (let l1 = skip_chars isspace l in
      if line_comment_at l1 then skipTrivia (skip_line_comment l1)
      else if block_comment_at l1 then skipTrivia (skip_block_comment l1)
      else l1)"
  by auto

lemma peek_not_end: "peek n l \<noteq> NUL \<Longrightarrow> lex_offset l + n < length (lex_source l)"
  by (simp add: peek_def split: if_splits)

lemma comment_not_end: "line_comment_at l \<or> block_comment_at l \<Longrightarrow> Suc (lex_offset l) < length (lex_source l)"
  using peek_not_end [of 1 l] by (auto simp: line_comment_at_def block_comment_at_def)

lemma skip_comment_frame [simp]:
  "lex_source (skip_line_comment l) = lex_source l" "lex_source (skip_block_comment l) = lex_source l"
  by (simp_all add: skip_line_comment_def skip_block_comment_def Let_def)

lemma skip_line_comment_progress:
  "line_comment_at l \<Longrightarrow> lex_offset l < lex_offset (skip_line_comment l)"
  unfolding skip_line_comment_def
  by (rule advance_while_step)
     (use comment_not_end [of l] in \<open>auto simp: isAtEnd_def line_comment_at_def\<close>)

lemma skip_block_comment_progress: "lex_offset l < lex_offset (skip_block_comment l)"
  using advance_while_mono [of "adv (adv l)" "\<lambda>l. \<not> (peek 0 l = CHR ''*'' \<and> peek 1 l = CHR ''/'')"]
  by (simp add: skip_block_comment_def Let_def)

termination skipTrivia
proof (relation "measure (\<lambda>l. length (lex_source l) - lex_offset l)", goal_cases)
  case (2 l l1)
  with comment_not_end [of l1] skip_line_comment_progress [of l1]
    advance_while_mono [of l "\<lambda>l. isspace (peek 0 l)"]
  show ?case by auto
next
  case (3 l l1)
  with comment_not_end [of l1] skip_block_comment_progress [of l1]
    advance_while_mono [of l "\<lambda>l. isspace (peek 0 l)"]
  show ?case by auto
qed simp

declare skipTrivia.simps [simp del]


subsection \<open>Tokens\<close>

definition location :: "lexer \<Rightarrow> source_location" where
  "location l = \<lparr>loc_offset = of_nat (lex_offset l), loc_line = lex_line l, loc_column = lex_column l\<rparr>"

text \<open>\<^verbatim>\<open>begin\<close> of the specialised lexers, which start after the first character.\<close>

definition location_back :: "lexer \<Rightarrow> source_location" where
  "location_back l =
     \<lparr>loc_offset = of_nat (lex_offset l - 1), loc_line = lex_line l, loc_column = lex_column l - 1\<rparr>"

definition substr :: "string \<Rightarrow> nat \<Rightarrow> nat \<Rightarrow> string" where
  "substr s pos n = take n (drop pos s)"

definition makeToken :: "token_kind \<Rightarrow> source_location \<Rightarrow> nat \<Rightarrow> lexer \<Rightarrow> token" where
  "makeToken kind begin beginOffset l =
     \<lparr>tok_kind = kind, tok_span = \<lparr>span_begin = begin, span_end = location l\<rparr>,
      tok_text = substr (lex_source l) beginOffset (lex_offset l - beginOffset)\<rparr>"

definition lexIdentifierOrKeyword :: "lexer \<Rightarrow> token \<times> lexer" where
  "lexIdentifierOrKeyword l =
     (let beginOffset = lex_offset l - 1;
          l1 = skip_chars isIdentifierContinue l;
          text = substr (lex_source l1) beginOffset (lex_offset l1 - beginOffset)
      in (\<lparr>tok_kind = keywordKind text, tok_span = \<lparr>span_begin = location_back l, span_end = location l1\<rparr>,
           tok_text = text\<rparr>, l1))"

definition lexEscapedIdentifier :: "lexer \<Rightarrow> token \<times> lexer" where
  "lexEscapedIdentifier l =
     (let beginOffset = lex_offset l - 1;
          l1 = skip_chars (\<lambda>c. c \<noteq> CHR 0x60 \<and> c \<noteq> newline) l;
          (matched, l2) = match_char (CHR 0x60) l1
      in if \<not> matched then (makeToken Invalid (location_back l) beginOffset l2, l2)
         else (\<lparr>tok_kind = Identifier, tok_span = \<lparr>span_begin = location_back l, span_end = location l2\<rparr>,
                tok_text = substr (lex_source l2) (beginOffset + 1) (lex_offset l2 - beginOffset - 2)\<rparr>, l2))"

text \<open>The suffix \<^verbatim>\<open>32\<close> or \<^verbatim>\<open>64\<close> after \<^verbatim>\<open>i\<close> or \<^verbatim>\<open>f\<close>.\<close>

definition width_at :: "lexer \<Rightarrow> bool" where
  "width_at l \<longleftrightarrow> peek 0 l = CHR ''3'' \<and> peek 1 l = CHR ''2'' \<or> peek 0 l = CHR ''6'' \<and> peek 1 l = CHR ''4''"

definition lexNumber :: "lexer \<Rightarrow> token \<times> lexer" where
  "lexNumber l =
     (let beginOffset = lex_offset l - 1;
          mk = (\<lambda>kind l'. (makeToken kind (location_back l) beginOffset l', l'));
          l1 = skip_chars isdigit l;
          (kind, l2) = (if peek 0 l1 = CHR ''.'' \<and> isdigit (peek 1 l1)
                        then (FloatLiteral, skip_chars isdigit (adv l1)) else (IntegerLiteral, l1))
      in if peek 0 l2 = CHR ''i'' \<or> peek 0 l2 = CHR ''f'' then
           let suffixKind = peek 0 l2; l3 = adv l2 in
           if width_at l3 then
             let l4 = adv (adv l3) in
             if isIdentifierContinue (peek 0 l4) \<or> kind = IntegerLiteral \<and> suffixKind = CHR ''f'' \<or>
                kind = FloatLiteral \<and> suffixKind = CHR ''i''
             then mk Invalid (skip_chars isIdentifierContinue l4)
             else mk kind l4
           else mk Invalid (skip_chars isIdentifierContinue l3)
         else if isIdentifierStart (peek 0 l2) then mk Invalid (skip_chars isIdentifierContinue l2)
         else mk kind l2)"

text \<open>
  \<^verbatim>\<open>while (!isAtEnd() && peek() != quote && peek() != newline)\<close> with the escape step: a
  backslash followed by a character takes both.
\<close>

function string_loop :: "lexer \<Rightarrow> lexer" where
  "string_loop l =
     (if \<not> isAtEnd l \<and> peek 0 l \<noteq> CHR 0x22 \<and> peek 0 l \<noteq> newline
      then string_loop (adv (if peek 0 l = CHR 0x5C \<and> peek 1 l \<noteq> NUL then adv l else l))
      else l)"
  by auto

termination
  by (relation "measure (\<lambda>l. length (lex_source l) - lex_offset l)") (auto simp: isAtEnd_def)

declare string_loop.simps [simp del]

definition triple_quote_at :: "lexer \<Rightarrow> bool" where
  "triple_quote_at l \<longleftrightarrow> peek 0 l = CHR 0x22 \<and> peek 1 l = CHR 0x22 \<and> peek 2 l = CHR 0x22"

definition lexString :: "lexer \<Rightarrow> token \<times> lexer" where
  "lexString l =
     (let beginOffset = lex_offset l - 1;
          mk = (\<lambda>kind l'. (makeToken kind (location_back l) beginOffset l', l'))
      in if peek 0 l = CHR 0x22 \<and> peek 1 l = CHR 0x22 then
           let l1 = advance_while (\<lambda>l. \<not> triple_quote_at l) (adv (adv l));
               l2 = (if \<not> isAtEnd l1 then adv (adv (adv l1)) else l1)
           in mk StringLiteral l2
         else
           let (matched, l2) = match_char (CHR 0x22) (string_loop l)
           in mk (if \<not> matched then Invalid else StringLiteral) l2)"

definition lexChar :: "lexer \<Rightarrow> token \<times> lexer" where
  "lexChar l =
     (let beginOffset = lex_offset l - 1;
          l1 = (if \<not> isAtEnd l then adv (if peek 0 l = CHR 0x5C then adv l else l) else l);
          (matched, l2) = match_char (CHR 0x27) l1
      in (makeToken (if \<not> matched then Invalid else CharLiteral) (location_back l) beginOffset l2, l2))"

text \<open>The switch on the other characters: the kind, with the lookahead consumed.\<close>

definition lexPunctuation :: "char \<Rightarrow> lexer \<Rightarrow> token_kind \<times> lexer" where
  "lexPunctuation c l =
     (let or_else = (\<lambda>expected k1 k2. case match_char expected l of (m, l') \<Rightarrow> (if m then k1 else k2, l')) in
      if c = CHR ''('' then (LParen, l) else if c = CHR '')'' then (RParen, l)
      else if c = CHR ''{'' then (LBrace, l) else if c = CHR ''}'' then (RBrace, l)
      else if c = CHR ''['' then (LBracket, l) else if c = CHR '']'' then (RBracket, l)
      else if c = CHR '','' then (Comma, l) else if c = CHR ''.'' then (Dot, l)
      else if c = CHR '':'' then (Colon, l) else if c = CHR '';'' then (Semicolon, l)
      else if c = CHR ''?'' then (Question, l) else if c = CHR ''|'' then (Pipe, l)
      else if c = CHR ''+'' then (Plus, l)
      else if c = CHR ''-'' then or_else (CHR ''>'') Arrow Minus
      else if c = CHR ''*'' then (Star, l) else if c = CHR ''/'' then (Slash, l)
      else if c = CHR ''%'' then (Percent, l)
      else if c = CHR ''='' then
        (case match_char (CHR ''='') l of
           (True, l') \<Rightarrow> (EqualEqual, l')
         | (False, l') \<Rightarrow> (case match_char (CHR ''>'') l' of (m, l'') \<Rightarrow> (if m then FatArrow else Equal, l'')))
      else if c = CHR ''!'' then or_else (CHR ''='') BangEqual Bang
      else if c = CHR ''<'' then or_else (CHR ''='') LessEqual Less
      else if c = CHR ''>'' then or_else (CHR ''='') GreaterEqual Greater
      else (Invalid, l))"

definition Lexer_next :: "lexer \<Rightarrow> token \<times> lexer" where
  "Lexer_next l0 =
     (let l = skipTrivia l0; begin = location l; beginOffset = lex_offset l in
      if isAtEnd l then
        (\<lparr>tok_kind = EndOfFile, tok_span = \<lparr>span_begin = begin, span_end = begin\<rparr>, tok_text = []\<rparr>, l)
      else
        let (c, l1) = advance l in
        if isIdentifierStart c then lexIdentifierOrKeyword l1
        else if isdigit c then lexNumber l1
        else if c = CHR 0x60 then lexEscapedIdentifier l1
        else if c = CHR 0x22 then lexString l1
        else if c = CHR 0x27 then lexChar l1
        else let (kind, l2) = lexPunctuation c l1 in (makeToken kind begin beginOffset l2, l2))"


subsection \<open>Progress\<close>

definition progress :: "lexer \<Rightarrow> lexer \<Rightarrow> bool" where
  "progress l l' \<longleftrightarrow> lex_source l' = lex_source l \<and> lex_offset l \<le> lex_offset l'"

lemma progress_refl [simp]: "progress l l"
  and progress_trans: "progress a b \<Longrightarrow> progress b c \<Longrightarrow> progress a c"
  and progress_adv [simp]: "progress l (adv l)"
  by (auto simp: progress_def)

lemma progress_advI [simp]: "progress a b \<Longrightarrow> progress a (adv b)"
  by (rule progress_trans [OF _ progress_adv])

lemma progress_while [simp]: "progress a b \<Longrightarrow> progress a (advance_while P b)"
  using advance_while_frame [of P b] by (auto simp: progress_def)

lemma progress_match [simp]: "progress a b \<Longrightarrow> progress a (snd (match_char c b))"
  by (auto simp: match_char_def)

lemma progress_string_loop: "progress l (string_loop l)"
proof (induction l rule: string_loop.induct)
  case (1 l)
  show ?case
    using 1 progress_trans [of l "adv l"] progress_trans [of l "adv (adv l)"]
    by (subst string_loop.simps) auto
qed

lemma progress_string_loopI [simp]: "progress a b \<Longrightarrow> progress a (string_loop b)"
  by (rule progress_trans [OF _ progress_string_loop])

lemma progress_trivia: "progress l (skipTrivia l)"
proof (induction l rule: skipTrivia.induct)
  case (1 l)
  let ?l1 = "skip_chars isspace l"
  have "progress l (skip_line_comment ?l1)" "progress l (skip_block_comment ?l1)" "progress l ?l1"
    by (simp_all add: skip_line_comment_def skip_block_comment_def Let_def)
  with 1 show ?case
    by (subst skipTrivia.simps) (auto simp: Let_def intro: progress_trans)
qed

lemma progress_lexers:
  "progress l (snd (lexIdentifierOrKeyword l))" "progress l (snd (lexEscapedIdentifier l))"
  "progress l (snd (lexNumber l))" "progress l (snd (lexString l))" "progress l (snd (lexChar l))"
  "progress l (snd (lexPunctuation c l))"
proof -
  show "progress l (snd (lexIdentifierOrKeyword l))"
    by (simp add: lexIdentifierOrKeyword_def Let_def)
  show "progress l (snd (lexEscapedIdentifier l))"
    by (simp add: lexEscapedIdentifier_def Let_def case_prod_beta)
  show "progress l (snd (lexNumber l))"
    by (simp add: lexNumber_def Let_def)
  show "progress l (snd (lexString l))"
    by (simp add: lexString_def Let_def case_prod_beta)
  show "progress l (snd (lexChar l))"
    by (simp add: lexChar_def Let_def case_prod_beta)
  show "progress l (snd (lexPunctuation c l))"
    by (simp add: lexPunctuation_def Let_def case_prod_beta match_char_def)
qed

text \<open>What a call of \<open>next\<close> does when it is not at the end: it consumes at least one character.\<close>

lemma next_cases:
  assumes "Lexer_next l = (t, l')"
  obtains (eof) "isAtEnd (skipTrivia l)" "tok_kind t = EndOfFile" "tok_text t = []" "l' = skipTrivia l"
      "tok_span t = \<lparr>span_begin = location l', span_end = location l'\<rparr>"
  | (tok) "\<not> isAtEnd (skipTrivia l)" "progress (adv (skipTrivia l)) l'"
proof (cases "isAtEnd (skipTrivia l)")
  case True
  then show ?thesis using assms by (intro eof) (auto simp: Lexer_next_def Let_def)
next
  case False
  then have "l' = snd (Lexer_next l)" using assms by simp
  then have "progress (adv (skipTrivia l)) l'"
    using False progress_lexers by (simp add: Lexer_next_def Let_def case_prod_beta)
  with False show ?thesis by (rule tok)
qed


text \<open>\<^verbatim>\<open>do tokens.push_back(next()) while (tokens.back().kind != EndOfFile)\<close>.\<close>

function lexAll_loop :: "lexer \<Rightarrow> token list \<times> lexer" where
  "lexAll_loop l =
     (let (t, l1) = Lexer_next l in
      if tok_kind t \<noteq> EndOfFile then (let (ts, l2) = lexAll_loop l1 in (t # ts, l2)) else ([t], l1))"
  by auto

termination
proof (relation "measure (\<lambda>l. length (lex_source l) - lex_offset l)", goal_cases)
  case (2 l x t l1)
  then have "Lexer_next l = (t, l1)" by simp
  then show ?case
  proof (cases rule: next_cases)
    case tok
    then show ?thesis
      using progress_trivia [of l] by (auto simp: progress_def isAtEnd_def)
  qed (use 2 in simp)
qed simp

declare lexAll_loop.simps [simp del]

definition lexAll :: "string \<Rightarrow> token list" where
  "lexAll source = fst (lexAll_loop (Lexer_init source))"

end
