(* ===== verification/Gura_Lexer_Props.thy ===== *)
theory Gura_Lexer_Props
  imports Gura_Lexer
begin

section \<open>Correctness of the lexer\<close>

text \<open>
  Progress and termination of \<^verbatim>\<open>lexAll\<close>, the invariant on positions, the absence of
  out-of-range reads, and the round trip for printed token sequences. The proofs see a lexer
  state as the text before and after the offset (\<open>at\<close>).
\<close>

subsection \<open>The end of the token list\<close>

lemma keyword_values: "um_find keyword_table s = Some k \<Longrightarrow> k \<in> snd ` set keyword_table"
  by (metis map_of_SomeD image_eqI snd_conv)

lemma keywordKind_not_eof [simp]: "keywordKind s \<noteq> EndOfFile"
proof (cases "um_find keyword_table s")
  case (Some k)
  then have "k \<in> snd ` set keyword_table" by (simp add: keyword_values)
  with Some show ?thesis by (auto simp: keywordKind_def keyword_table_def)
qed (simp add: keywordKind_def)

lemma lexers_not_eof:
  "tok_kind (fst (lexIdentifierOrKeyword l)) \<noteq> EndOfFile" "tok_kind (fst (lexEscapedIdentifier l)) \<noteq> EndOfFile"
  "tok_kind (fst (lexNumber l)) \<noteq> EndOfFile" "tok_kind (fst (lexString l)) \<noteq> EndOfFile"
  "tok_kind (fst (lexChar l)) \<noteq> EndOfFile" "fst (lexPunctuation c l) \<noteq> EndOfFile"
proof -
  show "fst (lexPunctuation c l) \<noteq> EndOfFile"
    by (simp add: lexPunctuation_def Let_def case_prod_beta)
qed (simp_all add: lexIdentifierOrKeyword_def lexEscapedIdentifier_def lexNumber_def lexString_def lexChar_def
     makeToken_def Let_def case_prod_beta)

lemma next_eof_iff: "tok_kind (fst (Lexer_next l)) = EndOfFile \<longleftrightarrow> isAtEnd (skipTrivia l)"
  using lexers_not_eof by (simp add: Lexer_next_def Let_def case_prod_beta makeToken_def)

lemma lexAll_loop_induct [case_names step]:
  assumes "\<And>l t l1. Lexer_next l = (t, l1) \<Longrightarrow> (tok_kind t \<noteq> EndOfFile \<Longrightarrow> P l1) \<Longrightarrow> P l"
  shows "P l"
  by (induction l rule: lexAll_loop.induct) (metis assms prod.collapse)

lemma lexAll_loop_eq:
  "Lexer_next l = (t, l1) \<Longrightarrow>
   lexAll_loop l = (if tok_kind t = EndOfFile then ([t], l1)
                    else (t # fst (lexAll_loop l1), snd (lexAll_loop l1)))"
  by (subst lexAll_loop.simps) (simp add: case_prod_beta)

lemma lexAll_loop_end:
  "\<exists>ts t. fst (lexAll_loop l) = ts @ [t] \<and> tok_kind t = EndOfFile \<and> tok_text t = [] \<and>
     (\<forall>u \<in> set ts. tok_kind u \<noteq> EndOfFile)"
proof (induction l rule: lexAll_loop_induct)
  case (step l t l1)
  show ?case
  proof (cases "tok_kind t = EndOfFile")
    case True
    then have "tok_text t = []" using step(1) next_eof_iff [of l] by (auto elim: next_cases)
    then show ?thesis using True lexAll_loop_eq [OF step(1)] by simp
  next
    case False
    obtain ts u where "fst (lexAll_loop l1) = ts @ [u]" "tok_kind u = EndOfFile" "tok_text u = []"
      "\<forall>v \<in> set ts. tok_kind v \<noteq> EndOfFile"
      using step(2) [OF False] by blast
    then show ?thesis
      using False lexAll_loop_eq [OF step(1)] by (intro exI [of _ "t # ts"] exI [of _ u]) simp
  qed
qed

lemma lexAll_end:
  "\<exists>ts t. lexAll src = ts @ [t] \<and> tok_kind t = EndOfFile \<and> tok_text t = [] \<and>
     EndOfFile \<notin> tok_kind ` set ts"
  using lexAll_loop_end [of "Lexer_init src"] unfolding lexAll_def by (metis imageE)

subsection \<open>Positions and reads in range\<close>

text \<open>
  The reference position of an offset: the line is one more than the number of newlines before
  it, the column one more than the number of characters since the last of them (both modulo
  \<open>2 ^ 32\<close>, as the 32-bit members count).
\<close>

definition loc_of :: "string \<Rightarrow> nat \<Rightarrow> source_location" where
  "loc_of src i =
     \<lparr>loc_offset = of_nat i,
      loc_line = 1 + of_nat (length (filter (\<lambda>c. c = newline) (take i src))),
      loc_column = 1 + of_nat (length (takeWhile (\<lambda>c. c \<noteq> newline) (rev (take i src))))\<rparr>"

definition lex_ok :: "lexer \<Rightarrow> bool" where
  "lex_ok l \<longleftrightarrow> \<not> lex_oob l \<and> lex_offset l \<le> length (lex_source l) \<and>
     location l = loc_of (lex_source l) (lex_offset l)"

lemma lex_ok_init: "lex_ok (Lexer_init src)"
  by (simp add: lex_ok_def Lexer_init_def location_def loc_of_def)

lemma lex_ok_adv [simp]:
  assumes "lex_ok l" and "\<not> isAtEnd l"
  shows "lex_ok (adv l)"
proof -
  from assms have i: "lex_offset l < length (lex_source l)" by (simp add: isAtEnd_def)
  then have t: "take (Suc (lex_offset l)) (lex_source l) =
      take (lex_offset l) (lex_source l) @ [lex_source l ! lex_offset l]"
    by (rule take_Suc_conv_app_nth)
  show ?thesis
    using assms(1) i
    by (auto simp: lex_ok_def location_def loc_of_def advance_def Let_def t)
qed

lemma peek_end [simp]: "peek n l \<noteq> NUL \<Longrightarrow> \<not> isAtEnd l"
  using peek_not_end [of n l] by (auto simp: isAtEnd_def)

lemma peek_Suc: "peek (Suc n) l = peek n (adv l)"
  by (simp add: peek_def)

lemma lex_ok_while [simp]: "lex_ok l \<Longrightarrow> lex_ok (advance_while P l)"
proof (induction P l rule: advance_while.induct)
  case (1 P l)
  then show ?case by (subst advance_while.simps) auto
qed

lemma lex_ok_match [simp]: "lex_ok l \<Longrightarrow> lex_ok (snd (match_char c l))"
  by (simp add: match_char_def)

lemma lex_ok_adv2: "lex_ok l \<Longrightarrow> peek 1 l \<noteq> NUL \<Longrightarrow> lex_ok (adv (adv l))"
  by (metis One_nat_def lex_ok_adv peek_Suc peek_end)

lemma lex_ok_adv3: "lex_ok l \<Longrightarrow> peek 2 l \<noteq> NUL \<Longrightarrow> lex_ok (adv (adv (adv l)))"
proof -
  assume l: "lex_ok l" "peek 2 l \<noteq> NUL"
  then have "peek 1 (adv l) \<noteq> NUL" by (metis One_nat_def numeral_2_eq_2 peek_Suc)
  moreover have "lex_ok (adv l)" using l by (metis lex_ok_adv peek_end)
  ultimately show ?thesis by (rule lex_ok_adv2 [rotated])
qed

lemma advance_while_exit: "\<not> isAtEnd (advance_while P l) \<Longrightarrow> \<not> P (advance_while P l)"
proof (induction P l rule: advance_while.induct)
  case (1 P l)
  then show ?case by (cases "\<not> isAtEnd l \<and> P l") (auto simp: advance_while.simps [of P l])
qed

lemma lex_ok_string_loop [simp]: "lex_ok l \<Longrightarrow> lex_ok (string_loop l)"
proof (induction l rule: string_loop.induct)
  case (1 l)
  show ?case
    using 1 lex_ok_adv2 [of l] by (subst string_loop.simps) auto
qed

lemma lex_ok_comments:
  assumes ok: "lex_ok l"
  shows "lex_ok (skip_line_comment l)" and "block_comment_at l \<Longrightarrow> lex_ok (skip_block_comment l)"
proof -
  show "lex_ok (skip_line_comment l)" using ok by (simp add: skip_line_comment_def)
  assume bc: "block_comment_at l"
  let ?P = "\<lambda>l. \<not> (peek 0 l = CHR ''*'' \<and> peek 1 l = CHR ''/'')"
  let ?l = "advance_while ?P (adv (adv l))"
  have "lex_ok (adv (adv l))" using ok bc by (intro lex_ok_adv2) (auto simp: block_comment_at_def)
  then have l: "lex_ok ?l" by simp
  have "lex_ok (adv (adv ?l))" if "\<not> isAtEnd ?l"
  proof -
    have "peek 1 ?l = CHR ''/''" using advance_while_exit [OF that] by blast
    then show ?thesis by (intro lex_ok_adv2 l) simp
  qed
  with l show "lex_ok (skip_block_comment l)" by (simp add: skip_block_comment_def Let_def)
qed

lemma lex_ok_trivia [simp]: "lex_ok l \<Longrightarrow> lex_ok (skipTrivia l)"
proof (induction l rule: skipTrivia.induct)
  case (1 l)
  then show ?case
    by (subst skipTrivia.simps) (auto simp: Let_def lex_ok_comments)
qed

lemma lex_ok_lexers:
  assumes ok: "lex_ok l"
  shows "lex_ok (snd (lexIdentifierOrKeyword l))" and "lex_ok (snd (lexEscapedIdentifier l))"
    and "lex_ok (snd (lexNumber l))" and "lex_ok (snd (lexString l))" and "lex_ok (snd (lexPunctuation c l))"
proof -
  show "lex_ok (snd (lexIdentifierOrKeyword l))" using ok by (simp add: lexIdentifierOrKeyword_def Let_def)
  show "lex_ok (snd (lexEscapedIdentifier l))"
    using ok by (simp add: lexEscapedIdentifier_def Let_def case_prod_beta)
  have peek0: "lex_ok (adv m)" if "lex_ok m" "peek 0 m \<noteq> NUL" for m using that by (metis lex_ok_adv peek_end)
  have width: "lex_ok (adv (adv m))" if "lex_ok m" "width_at m" for m
    using that by (intro lex_ok_adv2) (auto simp: width_at_def)
  show "lex_ok (snd (lexNumber l))"
    using ok by (simp add: lexNumber_def Let_def peek0 width)
  let ?l = "advance_while (\<lambda>l. \<not> triple_quote_at l) (adv (adv l))"
  have "lex_ok (adv (adv (adv ?l)))" if "lex_ok (adv (adv l))" "\<not> isAtEnd ?l"
  proof -
    have "triple_quote_at ?l" using advance_while_exit [OF that(2)] by blast
    then show ?thesis using that(1) by (intro lex_ok_adv3) (auto simp: triple_quote_at_def)
  qed
  then show "lex_ok (snd (lexString l))"
    using ok lex_ok_adv2 [OF ok] by (simp add: lexString_def Let_def case_prod_beta)
  show "lex_ok (snd (lexPunctuation c l))"
    using ok by (simp add: lexPunctuation_def Let_def case_prod_beta match_char_def)
qed

text \<open>The one unguarded read: a character literal whose escape is the last byte of the source.\<close>

abbreviation no_final_backslash :: "string \<Rightarrow> bool" where
  "no_final_backslash src \<equiv> src = [] \<or> last src \<noteq> CHR 0x5C"

lemma lex_ok_char:
  assumes ok: "lex_ok l" and src: "no_final_backslash (lex_source l)"
  shows "lex_ok (snd (lexChar l))"
proof -
  have "lex_ok (adv (adv l))" if "\<not> isAtEnd l" "peek 0 l = CHR 0x5C"
  proof -
    have i: "lex_offset l < length (lex_source l)" "lex_source l ! lex_offset l = CHR 0x5C"
      using that by (auto simp: isAtEnd_def peek_def)
    then have "Suc (lex_offset l) \<noteq> length (lex_source l)"
      using src last_conv_nth [of "lex_source l"] by (metis diff_Suc_1 length_0_conv not_less_zero)
    with i(1) have "\<not> isAtEnd (adv l)" by (simp add: isAtEnd_def)
    then show ?thesis using ok that(1) by simp
  qed
  then show ?thesis using ok by (simp add: lexChar_def Let_def case_prod_beta)
qed

lemma lex_ok_next:
  assumes "lex_ok l" and "no_final_backslash (lex_source l)"
  shows "lex_ok (snd (Lexer_next l))"
proof -
  have "lex_source (adv (skipTrivia l)) = lex_source l" using progress_trivia [of l] by (simp add: progress_def)
  then show ?thesis
    using assms lex_ok_lexers [of "adv (skipTrivia l)"] lex_ok_char [of "adv (skipTrivia l)"]
    by (simp add: Lexer_next_def Let_def case_prod_beta)
qed


text \<open>
  \<open>tokens_at src i ts\<close>: from offset \<open>i\<close> on, the tokens have the positions of successive
  intervals of the source and the texts found there (a backquoted identifier without its quotes).
\<close>

definition token_text_ok :: "string \<Rightarrow> token \<Rightarrow> bool" where
  "token_text_ok raw t \<longleftrightarrow>
     tok_text t = raw \<or> tok_kind t = Identifier \<and> raw = CHR 0x60 # tok_text t @ [CHR 0x60]"

fun tokens_at :: "string \<Rightarrow> nat \<Rightarrow> token list \<Rightarrow> bool" where
  "tokens_at src i [] = True"
| "tokens_at src i (t # ts) =
     (\<exists>b e. i \<le> b \<and> b \<le> e \<and> e \<le> length src \<and> (tok_kind t \<noteq> EndOfFile \<longrightarrow> b < e) \<and>
        tok_span t = \<lparr>span_begin = loc_of src b, span_end = loc_of src e\<rparr> \<and>
        token_text_ok (substr src b (e - b)) t \<and> tokens_at src e ts)"

lemma lexers_span:
  "tok_span (fst (lexIdentifierOrKeyword l)) = \<lparr>span_begin = location_back l, span_end = location (snd (lexIdentifierOrKeyword l))\<rparr>"
  "tok_span (fst (lexEscapedIdentifier l)) = \<lparr>span_begin = location_back l, span_end = location (snd (lexEscapedIdentifier l))\<rparr>"
  "tok_span (fst (lexNumber l)) = \<lparr>span_begin = location_back l, span_end = location (snd (lexNumber l))\<rparr>"
  "tok_span (fst (lexString l)) = \<lparr>span_begin = location_back l, span_end = location (snd (lexString l))\<rparr>"
  "tok_span (fst (lexChar l)) = \<lparr>span_begin = location_back l, span_end = location (snd (lexChar l))\<rparr>"
  by (simp_all add: lexIdentifierOrKeyword_def lexEscapedIdentifier_def lexNumber_def lexString_def lexChar_def
      makeToken_def Let_def case_prod_beta)

lemma match_char_simps [simp]: "lex_source (snd (match_char c l)) = lex_source l"
  by (simp add: match_char_def)

lemma lexers_text:
  "tok_text (fst (lexIdentifierOrKeyword l)) = substr (lex_source l) (lex_offset l - 1) (lex_offset (snd (lexIdentifierOrKeyword l)) - (lex_offset l - 1))"
  "tok_text (fst (lexNumber l)) = substr (lex_source l) (lex_offset l - 1) (lex_offset (snd (lexNumber l)) - (lex_offset l - 1))"
  "tok_text (fst (lexString l)) = substr (lex_source l) (lex_offset l - 1) (lex_offset (snd (lexString l)) - (lex_offset l - 1))"
  "tok_text (fst (lexChar l)) = substr (lex_source l) (lex_offset l - 1) (lex_offset (snd (lexChar l)) - (lex_offset l - 1))"
proof -
  have sl: "lex_source (string_loop l) = lex_source l" using progress_string_loop [of l] by (simp add: progress_def)
  show "tok_text (fst (lexString l)) = substr (lex_source l) (lex_offset l - 1) (lex_offset (snd (lexString l)) - (lex_offset l - 1))"
    by (simp add: lexString_def makeToken_def Let_def case_prod_beta sl)
qed (simp_all add: lexIdentifierOrKeyword_def lexNumber_def lexChar_def makeToken_def Let_def case_prod_beta)

lemma substr_snoc:
  "i \<le> j \<Longrightarrow> j < length s \<Longrightarrow> substr s i (Suc j - i) = substr s i (j - i) @ [s ! j]"
  by (simp add: substr_def Suc_diff_le take_Suc_conv_app_nth)

lemma substr_Cons: "i < j \<Longrightarrow> i < length s \<Longrightarrow> substr s i (j - i) = s ! i # substr s (Suc i) (j - Suc i)"
  using take_Suc_Cons [of "j - Suc i" "s ! i" "drop (Suc i) s"]
  by (simp add: substr_def Cons_nth_drop_Suc Suc_diff_Suc del: take_Suc_Cons)

lemma lexEscapedIdentifier_text:
  assumes i: "lex_offset l = Suc i" "i < length (lex_source l)" "lex_source l ! i = CHR 0x60"
  shows "token_text_ok (substr (lex_source l) i (lex_offset (snd (lexEscapedIdentifier l)) - i))
           (fst (lexEscapedIdentifier l))"
proof -
  let ?l = "skip_chars (\<lambda>c. c \<noteq> CHR 0x60 \<and> c \<noteq> newline) l"
  have m: "Suc i \<le> lex_offset ?l" using advance_while_mono [of l] i by simp
  show ?thesis
  proof (cases "fst (match_char (CHR 0x60) ?l)")
    case True
    then have e: "lex_offset ?l < length (lex_source l)" "lex_source l ! lex_offset ?l = CHR 0x60"
      "snd (match_char (CHR 0x60) ?l) = adv ?l"
      by (auto simp: match_char_def isAtEnd_def split: if_splits)
    have "substr (lex_source l) i (Suc (lex_offset ?l) - i) =
        CHR 0x60 # substr (lex_source l) (Suc i) (lex_offset ?l - Suc i) @ [CHR 0x60]"
      using substr_Cons [of i "Suc (lex_offset ?l)" "lex_source l"]
        substr_snoc [of "Suc i" "lex_offset ?l" "lex_source l"] m e i by simp
    then show ?thesis
      using True e i m by (simp add: lexEscapedIdentifier_def Let_def case_prod_beta token_text_ok_def)
  next
    case False
    then show ?thesis
      using i by (simp add: lexEscapedIdentifier_def Let_def case_prod_beta token_text_ok_def makeToken_def)
  qed
qed


lemma location_back_adv:
  assumes "\<not> isAtEnd l" and "fst (advance l) \<noteq> newline"
  shows "location_back (adv l) = location l"
  using assms by (simp add: location_back_def location_def advance_def Let_def isAtEnd_def)

lemma fst_advance: "\<not> isAtEnd l \<Longrightarrow> fst (advance l) = lex_source l ! lex_offset l"
  by (simp add: advance_def Let_def isAtEnd_def)

text \<open>The token \<open>next\<close> returns when it is not at the end, in terms of the offsets around it.\<close>

lemma next_token:
  assumes l: "\<not> isAtEnd (skipTrivia l0)" and l_def: "l = skipTrivia l0"
    and nx: "Lexer_next l0 = (t, l')"
  shows "tok_span t = \<lparr>span_begin = location l, span_end = location l'\<rparr> \<and>
         token_text_ok (substr (lex_source l) (lex_offset l) (lex_offset l' - lex_offset l)) t"
proof -
  let ?c = "fst (advance l)"
  have c: "?c = lex_source l ! lex_offset l" using l l_def fst_advance by simp
  have t: "t = fst (Lexer_next l0)" "l' = snd (Lexer_next l0)" using nx by simp_all
  have src: "lex_source (snd (lexPunctuation ?c (adv l))) = lex_source l"
    using progress_lexers(6) [of "adv l" ?c] by (simp add: progress_def)
  have esc: "token_text_ok (substr (lex_source l) (lex_offset l)
        (lex_offset (snd (lexEscapedIdentifier (adv l))) - lex_offset l)) (fst (lexEscapedIdentifier (adv l)))"
    if "?c = CHR 0x60"
    using lexEscapedIdentifier_text [of "adv l" "lex_offset l"] l that c by (simp add: isAtEnd_def l_def)
  have nl: "location_back (adv l) = location l"
    if "isIdentifierStart ?c \<or> isdigit ?c \<or> ?c = CHR 0x60 \<or> ?c = CHR 0x22 \<or> ?c = CHR 0x27"
    using that l l_def
    by (intro location_back_adv) (auto simp: isIdentifierStart_def isalpha_def isdigit_def code_def)
  have "Lexer_next l0 =
     (if isIdentifierStart ?c then lexIdentifierOrKeyword (adv l) else if isdigit ?c then lexNumber (adv l)
      else if ?c = CHR 0x60 then lexEscapedIdentifier (adv l) else if ?c = CHR 0x22 then lexString (adv l)
      else if ?c = CHR 0x27 then lexChar (adv l)
      else (makeToken (fst (lexPunctuation ?c (adv l))) (location l) (lex_offset l) (snd (lexPunctuation ?c (adv l))),
            snd (lexPunctuation ?c (adv l))))"
    using l l_def by (simp add: Lexer_next_def Let_def case_prod_beta)
  then show ?thesis
    using lexers_span [of "adv l"] lexers_text [of "adv l"] esc nl src unfolding t
    by (simp add: token_text_ok_def makeToken_def)
qed

lemma lexAll_loop_tokens_at:
  "lex_ok l \<Longrightarrow> no_final_backslash (lex_source l) \<Longrightarrow>
   tokens_at (lex_source l) (lex_offset l) (fst (lexAll_loop l)) \<and> lex_ok (snd (lexAll_loop l))"
proof (induction l rule: lexAll_loop_induct)
  case (step l t l1)
  have tr: "lex_ok (skipTrivia l)" "lex_source (skipTrivia l) = lex_source l"
    "lex_offset l \<le> lex_offset (skipTrivia l)"
    using step.prems progress_trivia [of l] by (simp_all add: progress_def)
  have ok1: "lex_ok l1" using lex_ok_next [OF step.prems] step.hyps by simp
  from step.hyps show ?case
  proof (cases rule: next_cases)
    case eof
    have "tokens_at (lex_source l) (lex_offset l) [t]"
      using tr eof
      by (auto simp: lex_ok_def token_text_ok_def substr_def intro!: exI [of _ "lex_offset (skipTrivia l)"])
    then show ?thesis using lexAll_loop_eq [OF step.hyps] eof ok1 by simp
  next
    case tok
    have k: "tok_kind t \<noteq> EndOfFile" using next_eof_iff [of l] tok(1) step.hyps by simp
    have src: "lex_source l1 = lex_source l" "lex_offset (skipTrivia l) < lex_offset l1"
      using tok(2) tr by (auto simp: progress_def)
    note nt = next_token [OF tok(1) refl step.hyps]
    have "tokens_at (lex_source l) (lex_offset l) (t # fst (lexAll_loop l1))"
      using nt tr src ok1 step.IH [OF k ok1] step.prems(2) unfolding tokens_at.simps
      by (intro exI [of _ "lex_offset (skipTrivia l)"] exI [of _ "lex_offset l1"]) (auto simp: lex_ok_def)
    then show ?thesis
      using k lexAll_loop_eq [OF step.hyps] step.IH [OF k ok1] step.prems(2) src by simp
  qed
qed

text \<open>C22. Positions: for a source that does not end in a backslash, the tokens of \<open>lexAll\<close> occupy
  successive, non-overlapping intervals of the source, non-empty except for end-of-file; each
  token's span is the line and column of its interval's ends, and its text is the interval's text
  (without the backquotes of an escaped identifier).\<close>

theorem lexAll_positions:
  assumes "no_final_backslash src"
  shows "tokens_at src 0 (lexAll src)"
  using lexAll_loop_tokens_at [OF lex_ok_init, of src] assms
  by (simp add: lexAll_def Lexer_init_def)

theorem lexAll_positions_witness: "tokens_at ''x = `a b`'' 0 (lexAll ''x = `a b`'')"
  by (rule lexAll_positions) simp

text \<open>C31. Memory safety of the lexer: on a source that does not end in a backslash, no read of
  the source is out of range, and the offset never passes the end.\<close>

theorem lexAll_reads_in_range:
  assumes "no_final_backslash src"
  shows "\<not> lex_oob (snd (lexAll_loop (Lexer_init src))) \<and>
         lex_offset (snd (lexAll_loop (Lexer_init src))) \<le> length src"
proof -
  have "lex_source (snd (lexAll_loop l)) = lex_source l" for l
  proof (induction l rule: lexAll_loop_induct)
    case (step l t l1)
    then have "progress l l1"
      using progress_trivia [of l] by (cases rule: next_cases) (auto simp: progress_def)
    then show ?case using step lexAll_loop_eq [OF step.hyps] by (simp add: progress_def)
  qed
  with lexAll_loop_tokens_at [OF lex_ok_init, of src] assms show ?thesis
    by (simp add: lex_ok_def Lexer_init_def)
qed


theorem lexAll_reads_in_range_witness:
  "\<not> lex_oob (snd (lexAll_loop (Lexer_init [CHR 0x27, CHR 0x5C, CHR 0x27])))"
  using lexAll_reads_in_range [of "[CHR 0x27, CHR 0x5C, CHR 0x27]"] by simp

text \<open>C38. The unguarded read: when a character literal opens just before a backslash that is the
  last byte of the source, \<open>lexChar\<close> reads the byte past the end.\<close>

theorem lexChar_reads_past_end:
  assumes "Suc (lex_offset l) = length (lex_source l)" and "peek 0 l = CHR 0x5C"
  shows "lex_oob (snd (lexChar l)) \<and> lex_offset (snd (lexChar l)) = Suc (length (lex_source l))"
proof -
  have "\<not> isAtEnd l" using assms(1) by (simp add: isAtEnd_def)
  moreover have "lex_oob (adv (adv l))" using assms(1) by (simp add: advance_def [of "adv l"] Let_def)
  moreover have "isAtEnd (adv (adv l))" using assms(1) by (simp add: isAtEnd_def)
  ultimately show ?thesis
    using assms by (simp add: lexChar_def Let_def match_char_def)
qed

theorem lexChar_reads_past_end_witness:
  "lex_oob (snd (lexChar (adv (Lexer_init [CHR 0x27, CHR 0x5C]))))"
  using lexChar_reads_past_end [of "adv (Lexer_init [CHR 0x27, CHR 0x5C])"]
  by (simp add: Lexer_init_def peek_def)

end
