(* ===== verification/Gura_Lexer_Roundtrip.thy ===== *)
theory Gura_Lexer_Roundtrip
  imports Gura_Lexer_Props
begin

section \<open>Printing tokens and lexing them back\<close>

text \<open>
  Words (identifiers and keywords, decimal integers, punctuation) printed with a space after
  each lex back to themselves, with the kind the token table gives them.
\<close>

subsection \<open>The text before and after the offset\<close>

definition at :: "lexer \<Rightarrow> string \<Rightarrow> string \<Rightarrow> bool" where
  "at l pre rest \<longleftrightarrow> lex_source l = pre @ rest \<and> lex_offset l = length pre"

lemma at_init: "at (Lexer_init src) [] src"
  by (simp add: at_def Lexer_init_def)

lemma at_end: "at l pre rest \<Longrightarrow> isAtEnd l \<longleftrightarrow> rest = []"
  by (auto simp: at_def isAtEnd_def)

lemma at_adv: "at l pre (c # rest) \<Longrightarrow> fst (advance l) = c \<and> at (adv l) (pre @ [c]) rest"
  by (auto simp: at_def advance_def Let_def nth_append)

lemma at_peek: "at l pre rest \<Longrightarrow> peek 0 l = (case rest of [] \<Rightarrow> NUL | c # _ \<Rightarrow> c)"
  by (auto simp: at_def peek_def nth_append split: list.splits)

lemma at_peek1: "at l pre (c # rest) \<Longrightarrow> peek 1 l = (case rest of [] \<Rightarrow> NUL | d # _ \<Rightarrow> d)"
  by (auto simp: at_def peek_def nth_append split: list.splits)

lemma at_skip_chars: "at l pre rest \<Longrightarrow> at (skip_chars Q l) (pre @ takeWhile Q rest) (dropWhile Q rest)"
proof (induction rest arbitrary: l pre)
  case Nil
  then show ?case using at_end [of l pre "[]"] by (simp add: advance_while.simps [of _ l])
next
  case (Cons c rest)
  show ?case
  proof (cases "Q c")
    case True
    with Cons.IH [of "adv l" "pre @ [c]"] at_adv [OF Cons.prems] at_peek [OF Cons.prems] at_end [OF Cons.prems]
    show ?thesis by (simp add: advance_while.simps [of _ l])
  next
    case False
    with Cons.prems at_peek [OF Cons.prems] show ?thesis by (simp add: advance_while.simps [of _ l])
  qed
qed

lemma at_match:
  "at l pre (c # rest) \<Longrightarrow> match_char d l = (if c = d then (True, adv l) else (False, l))"
  by (auto simp: at_def match_char_def isAtEnd_def nth_append)

lemma at_substr: "at l (pre @ w) rest \<Longrightarrow> substr (lex_source l) (length pre) (lex_offset l - length pre) = w"
  by (simp add: at_def substr_def)


subsection \<open>Words\<close>

abbreviation space :: char where
  "space \<equiv> CHR 0x20"

definition punct_table :: "(string \<times> token_kind) list" where
  "punct_table = map (\<lambda>k. (tokenKindName k, k))
     [LParen, RParen, LBrace, RBrace, LBracket, RBracket, Comma, Dot, Colon, Semicolon, Arrow, FatArrow,
      Question, Pipe, Plus, Minus, Star, Slash, Percent, Equal, EqualEqual, Bang, BangEqual, Less,
      LessEqual, Greater, GreaterEqual]"

definition ident_word :: "string \<Rightarrow> bool" where
  "ident_word w \<longleftrightarrow> w \<noteq> [] \<and> isIdentifierStart (hd w) \<and> list_all isIdentifierContinue w"

definition int_word :: "string \<Rightarrow> bool" where
  "int_word w \<longleftrightarrow> w \<noteq> [] \<and> list_all isdigit w"

definition word_kind :: "string \<Rightarrow> token_kind option" where
  "word_kind w =
     (if ident_word w then Some (keywordKind w) else if int_word w then Some IntegerLiteral
      else um_find punct_table w)"

fun print_words :: "string list \<Rightarrow> string" where
  "print_words [] = []"
| "print_words (w # ws) = w @ space # print_words ws"

lemmas char_class_defs = isIdentifierStart_def isIdentifierContinue_def isalpha_def isdigit_def isspace_def code_def

lemma char_class_space [simp]:
  "isspace space" "\<not> isIdentifierContinue space" "\<not> isIdentifierStart space" "\<not> isdigit space"
  by (simp_all add: char_class_defs)

lemma char_classes_disjoint:
  "isIdentifierStart c \<Longrightarrow> \<not> isspace c \<and> c \<noteq> CHR ''/'' \<and> \<not> isdigit c"
  "isdigit c \<Longrightarrow> \<not> isspace c \<and> c \<noteq> CHR ''/'' \<and> \<not> isIdentifierStart c"
  by (auto simp: char_class_defs)

lemma punct_words:
  assumes "um_find punct_table w = Some k"
  obtains c where "w = [c]" "\<not> isspace c" "\<not> isIdentifierStart c" "\<not> isdigit c"
      "c \<noteq> CHR 0x60" "c \<noteq> CHR 0x22" "c \<noteq> CHR 0x27"
      "\<And>l pre rest. at l pre (space # rest) \<Longrightarrow> lexPunctuation c l = (k, l)"
  | c d where "w = [c, d]" "\<not> isspace c" "\<not> isIdentifierStart c" "\<not> isdigit c"
      "c \<noteq> CHR 0x60" "c \<noteq> CHR 0x22" "c \<noteq> CHR 0x27" "c \<noteq> CHR ''/''"
      "\<And>l pre rest. at l pre (d # rest) \<Longrightarrow> lexPunctuation c l = (k, adv l)"
proof -
  have "(w, k) \<in> set punct_table" using assms by (rule map_of_SomeD)
  then consider "\<exists>c. w = [c]" | "\<exists>c d. w = [c, d]" by (auto simp: punct_table_def)
  then show ?thesis
  proof cases
    case 1
    then obtain c where c: "w = [c]" by blast
    show ?thesis
      using assms unfolding c
      by (intro that(1) [OF c])
         (auto simp: punct_table_def char_class_defs lexPunctuation_def Let_def at_match split: if_splits)
  next
    case 2
    then obtain c d where c: "w = [c, d]" by blast
    show ?thesis
      using assms unfolding c
      by (intro that(2) [OF c])
         (auto simp: punct_table_def char_class_defs lexPunctuation_def Let_def at_match split: if_splits)
  qed
qed

lemma at_trivia:
  assumes l: "at l pre (sp @ rest)" and sp: "list_all isspace sp"
    and rest: "rest = [] \<or> \<not> isspace (hd rest) \<and> \<not> (hd rest = CHR ''/'' \<and> tl rest \<noteq> [] \<and> hd (tl rest) \<in> {CHR ''/'', CHR ''*''})"
  shows "at (skipTrivia l) (pre @ sp) rest"
proof -
  have "takeWhile isspace (sp @ rest) = sp \<and> dropWhile isspace (sp @ rest) = rest"
    using sp rest by (cases rest) (auto simp: list_all_iff takeWhile_append)
  then have a: "at (skip_chars isspace l) (pre @ sp) rest"
    using at_skip_chars [OF l, of isspace] by simp
  have "\<not> line_comment_at (skip_chars isspace l)" "\<not> block_comment_at (skip_chars isspace l)"
    using rest at_peek [OF a] at_peek1 [of _ "pre @ sp"] a
    by (cases rest; cases "tl rest"; force simp: line_comment_at_def block_comment_at_def)+
  with a show ?thesis by (simp add: skipTrivia.simps [of l] Let_def)
qed


subsection \<open>One word\<close>

abbreviation lexes :: "lexer \<Rightarrow> token_kind \<Rightarrow> string \<Rightarrow> string \<Rightarrow> string \<Rightarrow> bool" where
  "lexes l k w pre rest \<equiv> tok_kind (fst (Lexer_next l)) = k \<and> tok_text (fst (Lexer_next l)) = w \<and>
     at (snd (Lexer_next l)) (pre @ w) rest"

lemma next_first_char:
  assumes "at (skipTrivia l) pre (c # rest)"
  shows "Lexer_next l =
     (let l1 = adv (skipTrivia l) in
      if isIdentifierStart c then lexIdentifierOrKeyword l1 else if isdigit c then lexNumber l1
      else if c = CHR 0x60 then lexEscapedIdentifier l1 else if c = CHR 0x22 then lexString l1
      else if c = CHR 0x27 then lexChar l1
      else (makeToken (fst (lexPunctuation c l1)) (location (skipTrivia l)) (length pre) (snd (lexPunctuation c l1)),
            snd (lexPunctuation c l1)))"
  using assms at_adv [OF assms] at_end [OF assms]
  by (simp add: Lexer_next_def Let_def case_prod_beta at_def)

lemma takeWhile_word:
  "list_all Q w \<Longrightarrow> \<not> Q c \<Longrightarrow> takeWhile Q (w @ c # rest) = w \<and> dropWhile Q (w @ c # rest) = c # rest"
  by (induction w) auto

lemma next_ident:
  assumes l: "at (skipTrivia l) pre (w @ space # rest)" and w: "ident_word w"
  shows "lexes l (keywordKind w) w pre (space # rest)"
proof -
  obtain c u where cu: "w = c # u" "isIdentifierStart c" "list_all isIdentifierContinue u"
    using w by (cases w) (auto simp: ident_word_def)
  let ?l1 = "adv (skipTrivia l)"
  have a1: "at ?l1 (pre @ [c]) (u @ space # rest)" using at_adv l cu(1) by simp
  then have a2: "at (skip_chars isIdentifierContinue ?l1) (pre @ w) (space # rest)"
    using at_skip_chars [OF a1, of isIdentifierContinue] takeWhile_word [OF cu(3), of space rest] cu(1) by simp
  have "lex_offset ?l1 - 1 = length pre" using a1 by (simp add: at_def)
  then show ?thesis
    using next_first_char [of l pre c] l cu at_substr [OF a2] a2
    by (simp add: lexIdentifierOrKeyword_def Let_def)
qed

lemma next_int:
  assumes l: "at (skipTrivia l) pre (w @ space # rest)" and w: "int_word w"
  shows "lexes l IntegerLiteral w pre (space # rest)"
proof -
  obtain c u where cu: "w = c # u" "isdigit c" "list_all isdigit u"
    using w by (cases w) (auto simp: int_word_def)
  let ?l1 = "adv (skipTrivia l)"
  have a1: "at ?l1 (pre @ [c]) (u @ space # rest)" using at_adv l cu(1) by simp
  then have a2: "at (skip_chars isdigit ?l1) (pre @ w) (space # rest)"
    using at_skip_chars [OF a1, of isdigit] takeWhile_word [OF cu(3), of space rest] cu(1) by simp
  have off: "lex_offset ?l1 - 1 = length pre" using a1 by (simp add: at_def)
  have "lexNumber ?l1 = (makeToken IntegerLiteral (location_back ?l1) (length pre) (skip_chars isdigit ?l1),
      skip_chars isdigit ?l1)"
    using at_peek [OF a2] off by (simp add: lexNumber_def Let_def)
  then show ?thesis
    using next_first_char [of l pre c] l cu at_substr [OF a2] a2 char_classes_disjoint(2) [OF cu(2)]
    by (simp add: makeToken_def)
qed

lemma next_punct:
  assumes l: "at (skipTrivia l) pre (w @ space # rest)" and w: "um_find punct_table w = Some k"
  shows "lexes l k w pre (space # rest)"
  using w
proof (cases rule: punct_words)
  case (1 c)
  let ?l1 = "adv (skipTrivia l)"
  have a1: "at ?l1 (pre @ w) (space # rest)" using at_adv l 1(1) by simp
  then show ?thesis
    using next_first_char [of l pre c] l 1(1-7) 1(8) [OF a1] at_substr [OF a1] by (simp add: Let_def makeToken_def)
next
  case (2 c d)
  let ?l1 = "adv (skipTrivia l)"
  have a1: "at ?l1 (pre @ [c]) (d # space # rest)" using at_adv l 2(1) by simp
  then have a2: "at (adv ?l1) (pre @ w) (space # rest)" using at_adv [OF a1] 2(1) by simp
  then show ?thesis
    using next_first_char [of l pre c] l 2(1-8) 2(9) [OF a1] at_substr [OF a2] by (simp add: Let_def makeToken_def)
qed

lemma word_start:
  assumes "word_kind w = Some k"
  shows "\<not> isspace (hd (w @ space # rest)) \<and> (hd (w @ space # rest) = CHR ''/'' \<longrightarrow>
      hd (tl (w @ space # rest)) = space)"
proof (cases "ident_word w \<or> int_word w")
  case True
  then show ?thesis
    using char_classes_disjoint by (cases w) (auto simp: ident_word_def int_word_def)
next
  case False
  with assms have "um_find punct_table w = Some k" by (simp add: word_kind_def)
  then show ?thesis by (cases rule: punct_words) auto
qed

lemma next_word:
  assumes l: "at l pre (sp @ w @ space # rest)" and sp: "list_all isspace sp" and w: "word_kind w = Some k"
  shows "lexes l k w (pre @ sp) (space # rest)"
proof -
  have a: "at (skipTrivia l) (pre @ sp) (w @ space # rest)"
    using word_start [OF w, of rest] by (intro at_trivia [OF l sp]) auto
  show ?thesis
    using w next_ident [OF a] next_int [OF a] next_punct [OF a]
    by (auto simp: word_kind_def split: if_splits)
qed

lemma next_end:
  assumes l: "at l pre sp" and sp: "list_all isspace sp"
  shows "tok_kind (fst (Lexer_next l)) = EndOfFile \<and> tok_text (fst (Lexer_next l)) = []"
  using at_trivia [of l pre sp "[]"] l sp at_end [of "skipTrivia l" "pre @ sp" "[]"]
  by (simp add: Lexer_next_def Let_def)


subsection \<open>All words\<close>

lemma word_kind_not_eof: "word_kind w = Some k \<Longrightarrow> k \<noteq> EndOfFile"
  by (auto simp: word_kind_def punct_table_def split: if_splits)

lemma lexAll_loop_words:
  assumes "list_all (\<lambda>w. word_kind w \<noteq> None) ws" and "at l pre (sp @ print_words ws)" and "list_all isspace sp"
  shows "map (\<lambda>t. (tok_kind t, tok_text t)) (fst (lexAll_loop l)) =
         map (\<lambda>w. (the (word_kind w), w)) ws @ [(EndOfFile, [])]"
  using assms
proof (induction ws arbitrary: l pre sp)
  case Nil
  then show ?case
    using next_end [of l pre sp] lexAll_loop_eq [of l "fst (Lexer_next l)" "snd (Lexer_next l)"] by simp
next
  case (Cons w ws)
  then obtain k where k: "word_kind w = Some k" by auto
  let ?l = "snd (Lexer_next l)"
  have nx: "lexes l k w (pre @ sp) ([space] @ print_words ws)"
    using next_word [of l pre sp w "print_words ws" k] Cons.prems k by simp
  then have "map (\<lambda>t. (tok_kind t, tok_text t)) (fst (lexAll_loop ?l)) =
         map (\<lambda>w. (the (word_kind w), w)) ws @ [(EndOfFile, [])]"
    using Cons.prems(1) by (intro Cons.IH [of ?l "pre @ sp @ w" "[space]"]) auto
  then show ?case
    using nx k word_kind_not_eof [OF k] lexAll_loop_eq [of l "fst (Lexer_next l)" ?l] by simp
qed

text \<open>C23. Round trip: a sequence of words (identifiers, keywords, decimal integers, operators and
  delimiters), printed with a space after each, lexes back to exactly those words with their kinds,
  followed by end-of-file.\<close>

theorem lexAll_print_words:
  assumes "list_all (\<lambda>w. word_kind w \<noteq> None) ws"
  shows "map (\<lambda>t. (tok_kind t, tok_text t)) (lexAll (print_words ws)) =
         map (\<lambda>w. (the (word_kind w), w)) ws @ [(EndOfFile, [])]"
  unfolding lexAll_def using lexAll_loop_words [OF assms, of "Lexer_init (print_words ws)" "[]" "[]"] at_init
  by simp

theorem lexAll_print_words_witness:
  "map tok_kind (lexAll (print_words [''let'', ''x1'', ''='', ''42'', ''->'']))
     = [KwLet, Identifier, Equal, IntegerLiteral, Arrow, EndOfFile]"
proof -
  let ?ws = "[''let'', ''x1'', ''='', ''42'', ''->'']"
  have k: "word_kind ''let'' = Some KwLet" "word_kind ''x1'' = Some Identifier" "word_kind ''='' = Some Equal"
    "word_kind ''42'' = Some IntegerLiteral" "word_kind ''->'' = Some Arrow"
    by (simp_all add: word_kind_def ident_word_def int_word_def char_class_defs keywordKind_def
        keyword_table_def punct_table_def)
  have "map fst (map (\<lambda>t. (tok_kind t, tok_text t)) (lexAll (print_words ?ws))) =
        map fst (map (\<lambda>w. (the (word_kind w), w)) ?ws @ [(EndOfFile, [])])"
    by (subst lexAll_print_words) (simp_all add: k)
  then show ?thesis by (simp add: k comp_def)
qed

text \<open>Every spelling in the keyword table is the printed name of its kind, and every kind whose
  name is looked up as a keyword is found: keyword recognition and token names are inverse.\<close>

lemma keywordKind_tokenKindName:
  "keywordKind s \<noteq> Identifier \<longleftrightarrow> (\<exists>k \<in> snd ` set keyword_table. s = tokenKindName k \<and> keywordKind s = k)"
proof
  assume "keywordKind s \<noteq> Identifier"
  then obtain k where k: "um_find keyword_table s = Some k" "keywordKind s = k"
    by (auto simp: keywordKind_def split: option.splits)
  have "(s, k) \<in> set keyword_table" using k(1) by (rule map_of_SomeD)
  then have "s = tokenKindName k" by (auto simp: keyword_table_def)
  with k keyword_values [OF k(1)] show "\<exists>k \<in> snd ` set keyword_table. s = tokenKindName k \<and> keywordKind s = k"
    by blast
qed (auto simp: keyword_table_def)

end
