(* ===== verification/Gura_Ast.thy ===== *)
theory Gura_Ast
  imports Gura_Basic
begin

section \<open>The abstract syntax tree\<close>

text \<open>
  The model of \<^verbatim>\<open>include/gura/ast\<close>. A node carries its identifier and its span. A
  \<^verbatim>\<open>Ptr<T>\<close> may be null and is an option, a \<^verbatim>\<open>List<T>\<close> is a list of options: the parser
  does store null pointers in arrays, arguments and operands after an error. The class hierarchy of
  expressions is one datatype with a constructor per class; a declaration's base class is a record
  that the concrete declarations extend.
\<close>

record node =
  node_id :: u64
  node_span :: span

datatype ast_capability = Cap_None | Cap_Mut | Cap_Tmp | Cap_Iso | Cap_Imm | Cap_Paused | Cap_Cown

datatype type_ref = TypeRef
  (tr_node: node) (tr_capability: ast_capability) (tr_name: string) (tr_path: "string list")
  (tr_optional: bool) (tr_isArray: bool) (tr_elementType: "type_ref option")

datatype literal_kind = Lit_Integer | Lit_Float | Lit_Bool | Lit_None | Lit_String | Lit_Char

datatype region_kind = Region_Enter | Region_Explore

datatype expr =
    LiteralExpr node literal_kind string string
  | NameExpr node string
  | BinaryExpr node string "expr option" "expr option"
  | AssignExpr node "expr option" "expr option"
  | FieldAccessExpr node "expr option" string
  | ArrayLiteralExpr node "expr option list"
  | IndexExpr node "expr option" "expr option"
  | BindingExpr node bool string "type_ref option" "expr option"
  | MoveExpr node "expr option"
  | NewExpr node "type_ref option" string "field_init list"
  | CallExpr node "expr option" "expr option list"
  | FreezeExpr node "expr option"
  | MergeExpr node "expr option"
  | IfExpr node "expr option" "block option" "expr option"
  | WhileExpr node "expr option" "block option"
  | BlockE block
  | RegionExpr node region_kind "expr option" string "block option"
  | ReturnExpr node "expr option"
and block = BlockExpr (blk_node: node) (blk_expressions: "expr option list")
and field_init = FieldInit (fi_node: node) (fi_name: string) (fi_value: "expr option")

fun expr_node :: "expr \<Rightarrow> node" where
  "expr_node (LiteralExpr n _ _ _) = n"
| "expr_node (NameExpr n _) = n"
| "expr_node (BinaryExpr n _ _ _) = n"
| "expr_node (AssignExpr n _ _) = n"
| "expr_node (FieldAccessExpr n _ _) = n"
| "expr_node (ArrayLiteralExpr n _) = n"
| "expr_node (IndexExpr n _ _) = n"
| "expr_node (BindingExpr n _ _ _ _) = n"
| "expr_node (MoveExpr n _) = n"
| "expr_node (NewExpr n _ _ _) = n"
| "expr_node (CallExpr n _ _) = n"
| "expr_node (FreezeExpr n _) = n"
| "expr_node (MergeExpr n _) = n"
| "expr_node (IfExpr n _ _ _) = n"
| "expr_node (WhileExpr n _ _) = n"
| "expr_node (BlockE b) = blk_node b"
| "expr_node (RegionExpr n _ _ _ _) = n"
| "expr_node (ReturnExpr n _) = n"

abbreviation expr_span :: "expr \<Rightarrow> span" where
  "expr_span e \<equiv> node_span (expr_node e)"

type_synonym path = "string list"

record import_decl =
  imp_path :: path
  imp_alias :: "string option"
  imp_span :: span

record decl_base = node +
  d_modulePath :: path
  d_imports :: "import_decl list"

record param =
  pm_name :: string
  pm_type :: "type_ref option"

record trait_bound =
  tb_name :: string
  tb_span :: span

record generic_param =
  gp_name :: string
  gp_bounds :: "trait_bound list"
  gp_span :: span

record fn_decl = decl_base +
  fn_name :: string
  fn_genericParams :: "generic_param list"
  fn_params :: "param list"
  fn_returnType :: "type_ref option"
  fn_body :: "block option"

record field_decl = node +
  fd_isVar :: bool
  fd_name :: string
  fd_type :: "type_ref option"

record struct_decl = decl_base +
  sd_name :: string
  sd_fields :: "field_decl list"
  sd_methods :: "fn_decl option list"

record trait_decl = decl_base +
  td_name :: string
  td_methods :: "fn_decl option list"

record impl_decl = decl_base +
  id_typeName :: string
  id_traitName :: "string option"
  id_methods :: "fn_decl option list"

datatype decl = DFn fn_decl | DStruct struct_decl | DTrait trait_decl | DImpl impl_decl

record ast_file = node +
  sf_explicitModule :: "path option"
  sf_resolvedModule :: path
  sf_imports :: "import_decl list"
  sf_declarations :: "decl option list"

end
