(* ===== verification/Gura_Parser.thy ===== *)
theory Gura_Parser
  imports Gura_Lexer Gura_Ast
begin

section \<open>The parser\<close>

text \<open>
  The model of \<^verbatim>\<open>src/parser/Parser.cpp\<close>. The state is the class's members: the tokens, the
  index, the node counter and the diagnostics. Null pointers are \<open>None\<close> inside the value; the
  outer option is the recursion budget: \<open>None\<close> there means that a loop or the recursion ran out of
  fuel, which \<^verbatim>\<open>Gura_Parser_Total\<close> shows never happens.

  The recursive-descent functions call each other through \<open>self\<close>, the record of the functions one
  recursion level below; every such call happens after a token was consumed (or goes to a block that
  consumes its brace at once), so a budget of one level more than there are tokens left is enough.
  A loop runs at most once per remaining token and once more.
\<close>

record parser =
  ps_tokens :: "token list"
  ps_index :: nat
  ps_nextNodeId :: u64
  ps_diagnostics :: diagnostic_engine

type_synonym 'a presult = "('a \<times> parser) option"

definition Parser_init :: "token list \<Rightarrow> diagnostic_engine \<Rightarrow> parser" where
  "Parser_init tokens de =
     \<lparr>ps_tokens = tokens, ps_index = 0, ps_nextNodeId = 1, ps_diagnostics = de\<rparr>"

fun ends_with :: "string \<Rightarrow> string \<Rightarrow> bool" where
  "ends_with text suffix \<longleftrightarrow>
     length suffix \<le> length text \<and> drop (length text - length suffix) text = suffix"

definition numericSuffix :: "string \<Rightarrow> literal_kind \<Rightarrow> string" where
  "numericSuffix text kind =
     (if kind = Lit_Integer then
        (if ends_with text ''i32'' \<or> ends_with text ''i64'' then drop (length text - 3) text else [])
      else if kind = Lit_Float then
        (if ends_with text ''f32'' \<or> ends_with text ''f64'' then drop (length text - 3) text else [])
      else [])"

definition binaryPrecedence :: "token_kind \<Rightarrow> nat" where
  "binaryPrecedence kind =
     (if kind \<in> {EqualEqual, BangEqual, Less, LessEqual, Greater, GreaterEqual} then 1
      else if kind \<in> {Plus, Minus} then 2
      else if kind \<in> {Star, Slash, Percent} then 3 else 0)"


subsection \<open>Tokens\<close>

definition Parser_peek :: "nat \<Rightarrow> parser \<Rightarrow> token" where
  "Parser_peek lookahead st =
     (let idx = ps_index st + lookahead in
      if length (ps_tokens st) \<le> idx then last (ps_tokens st) else ps_tokens st ! idx)"

abbreviation cur :: "parser \<Rightarrow> token" where
  "cur st \<equiv> Parser_peek 0 st"

abbreviation cur_span :: "parser \<Rightarrow> span" where
  "cur_span st \<equiv> tok_span (cur st)"

abbreviation cur_begin :: "parser \<Rightarrow> source_location" where
  "cur_begin st \<equiv> span_begin (cur_span st)"

abbreviation cur_end :: "parser \<Rightarrow> source_location" where
  "cur_end st \<equiv> span_end (cur_span st)"

definition Parser_at :: "token_kind \<Rightarrow> parser \<Rightarrow> bool" where
  "Parser_at kind st \<longleftrightarrow> tok_kind (cur st) = kind"

definition Parser_advance :: "parser \<Rightarrow> token \<times> parser" where
  "Parser_advance st =
     (cur st, if \<not> Parser_at EndOfFile st then st\<lparr>ps_index := ps_index st + 1\<rparr> else st)"

definition Parser_consume :: "token_kind \<Rightarrow> parser \<Rightarrow> bool \<times> parser" where
  "Parser_consume kind st = (if \<not> Parser_at kind st then (False, st) else (True, snd (Parser_advance st)))"

definition Parser_error :: "span \<Rightarrow> string \<Rightarrow> parser \<Rightarrow> parser" where
  "Parser_error sp msg st = st\<lparr>ps_diagnostics := DiagnosticEngine_error sp msg (ps_diagnostics st)\<rparr>"

abbreviation error_here :: "string \<Rightarrow> parser \<Rightarrow> parser" where
  "error_here msg st \<equiv> Parser_error (cur_span st) msg st"

definition Parser_expect :: "token_kind \<Rightarrow> string \<Rightarrow> parser \<Rightarrow> parser" where
  "Parser_expect kind msg st =
     (let (ok, st1) = Parser_consume kind st in if \<not> ok then error_here msg st1 else st1)"

definition Parser_nextNodeId :: "parser \<Rightarrow> u64 \<times> parser" where
  "Parser_nextNodeId st = (ps_nextNodeId st, st\<lparr>ps_nextNodeId := ps_nextNodeId st + 1\<rparr>)"

abbreviation mk_node :: "u64 \<Rightarrow> source_location \<Rightarrow> source_location \<Rightarrow> node" where
  "mk_node i b e \<equiv> \<lparr>node_id = i, node_span = \<lparr>span_begin = b, span_end = e\<rparr>\<rparr>"

definition remaining :: "parser \<Rightarrow> nat" where
  "remaining st = length (ps_tokens st) - ps_index st"

text \<open>
  A loop of the parser: the body returns the accumulator and whether the loop goes on. It may run
  once per remaining token and once more.
\<close>

primrec ploop_n :: "nat \<Rightarrow> ('a \<Rightarrow> parser \<Rightarrow> ('a \<times> bool) presult) \<Rightarrow> 'a \<Rightarrow> parser \<Rightarrow> 'a presult" where
  "ploop_n 0 body acc st = None"
| "ploop_n (Suc n) body acc st =
     do { ((acc1, more), st1) \<leftarrow> body acc st;
          if more then ploop_n n body acc1 st1 else Some (acc1, st1) }"

definition ploop :: "('a \<Rightarrow> parser \<Rightarrow> ('a \<times> bool) presult) \<Rightarrow> 'a \<Rightarrow> parser \<Rightarrow> 'a presult" where
  "ploop body acc st = ploop_n (Suc (remaining st)) body acc st"

text \<open>The end of a \<^verbatim>\<open>do ... while (consume(kind))\<close> loop.\<close>

definition more_if :: "token_kind \<Rightarrow> 'a \<Rightarrow> parser \<Rightarrow> ('a \<times> bool) presult" where
  "more_if kind acc st = (let (c, st1) = Parser_consume kind st in Some ((acc, c), st1))"


subsection \<open>Paths and types\<close>

definition path_step :: "string \<Rightarrow> path \<Rightarrow> parser \<Rightarrow> (path \<times> bool) presult" where
  "path_step context segments st =
     (let (dot, st1) = Parser_consume Dot st in
      if \<not> dot then Some ((segments, False), st1)
      else if \<not> Parser_at Identifier st1 then
        Some ((segments, False), error_here (''expected identifier in '' @ context @ '' path'') st1)
      else let (t, st2) = Parser_advance st1 in Some ((segments @ [tok_text t], True), st2))"

definition parsePath :: "string \<Rightarrow> parser \<Rightarrow> path presult" where
  "parsePath context st =
     (if \<not> Parser_at Identifier st then Some ([], error_here (''expected '' @ context @ '' path'') st)
      else let (t, st1) = Parser_advance st in ploop (path_step context) [tok_text t] st1)"

text \<open>The capability keyword of a type, with the token consumed if there is one.\<close>

definition parse_capability :: "parser \<Rightarrow> ast_capability \<times> parser" where
  "parse_capability st =
     (let eat = snd (Parser_advance st) in
      case tok_kind (cur st) of
        KwMut \<Rightarrow> (Cap_Mut, eat) | KwTmp \<Rightarrow> (Cap_Tmp, eat) | KwIso \<Rightarrow> (Cap_Iso, eat)
      | KwImm \<Rightarrow> (Cap_Imm, eat) | KwPau \<Rightarrow> (Cap_Paused, eat) | KwCown \<Rightarrow> (Cap_Cown, eat)
      | _ \<Rightarrow> (Cap_None, st))"

text \<open>
  Types nest through array brackets only; the first argument bounds the nesting, one more than the
  tokens left.
\<close>

primrec parseTypeRef_n :: "nat \<Rightarrow> parser \<Rightarrow> type_ref presult" where
  "parseTypeRef_n 0 st = None"
| "parseTypeRef_n (Suc n) st =
     (let (i, st1) = Parser_nextNodeId st;
          begin = cur_begin st1;
          (cap, st2) = parse_capability st1;
          (bracket, st3) = Parser_consume LBracket st2
      in if bracket then
           do { (elem, st4) \<leftarrow> parseTypeRef_n n st3;
                let st5 = Parser_expect RBracket ''expected ']' after array element type'' st4;
                Some (TypeRef (mk_node i begin (cur_begin st5)) cap [] [] False True (Some elem), st5) }
         else if \<not> Parser_at Identifier st3 then
           (if cap \<noteq> Cap_None
            then Some (TypeRef (mk_node i begin (cur_begin st3)) cap [] [] False False None, st3)
            else Some (TypeRef (mk_node i begin (span_end default_span)) cap [] [] False False None,
                       error_here ''expected type name'' st3))
         else
           do { (path, st4) \<leftarrow> parsePath ''type'' st3;
                let name = (if path \<noteq> [] then last path else []);
                let (opt, st5) = Parser_consume Question st4;
                Some (TypeRef (mk_node i begin (cur_begin st5)) cap name path opt False None, st5) })"

definition parseTypeRef :: "parser \<Rightarrow> type_ref presult" where
  "parseTypeRef st = parseTypeRef_n (Suc (remaining st)) st"


subsection \<open>Expressions\<close>

text \<open>The functions one recursion level below.\<close>

record pfuns =
  p_expr :: "parser \<Rightarrow> expr option presult"
  p_assign :: "parser \<Rightarrow> expr option presult"
  p_binary :: "nat \<Rightarrow> parser \<Rightarrow> expr option presult"
  p_primary :: "parser \<Rightarrow> expr option presult"
  p_if :: "parser \<Rightarrow> expr presult"
  p_block :: "parser \<Rightarrow> block presult"

abbreviation end_or :: "expr option \<Rightarrow> source_location \<Rightarrow> source_location" where
  "end_or e loc \<equiv> (case e of Some x \<Rightarrow> span_end (expr_span x) | None \<Rightarrow> loc)"

abbreviation blk_end :: "block \<Rightarrow> source_location" where
  "blk_end b \<equiv> span_end (node_span (blk_node b))"

definition argument_step :: "pfuns \<Rightarrow> expr option list \<Rightarrow> parser \<Rightarrow> (expr option list \<times> bool) presult" where
  "argument_step self es st = do { (e, st1) \<leftarrow> p_expr self st; more_if Comma (es @ [e]) st1 }"

definition parseCallArguments :: "pfuns \<Rightarrow> parser \<Rightarrow> expr option list presult" where
  "parseCallArguments self st =
     do { let st1 = Parser_expect LParen (''expected '('' @ [CHR 0x27]) st;
          (arguments, st2) \<leftarrow> (if \<not> Parser_at RParen st1 then ploop (argument_step self) [] st1 else Some ([], st1));
          Some (arguments, Parser_expect RParen ''expected ')' after arguments'' st2) }"

definition parseMoveExpr :: "pfuns \<Rightarrow> parser \<Rightarrow> expr presult" where
  "parseMoveExpr self st =
     do { let (t, st1) = Parser_advance st;
          let (i, st2) = Parser_nextNodeId st1;
          (v, st3) \<leftarrow> p_primary self st2;
          Some (MoveExpr (mk_node i (span_begin (tok_span t)) (end_or v (cur_end st3))) v, st3) }"

definition parseFieldInit :: "pfuns \<Rightarrow> parser \<Rightarrow> field_init presult" where
  "parseFieldInit self st =
     (let (i, st1) = Parser_nextNodeId st; begin = cur_begin st1 in
      if \<not> Parser_at Identifier st1 then
        Some (FieldInit (mk_node i begin (span_end default_span)) [] None,
              error_here ''expected field name in initializer'' st1)
      else
        do { let (t, st2) = Parser_advance st1;
             let st3 = Parser_expect Colon ''expected ':' after field name'' st2;
             (v, st4) \<leftarrow> p_expr self st3;
             Some (FieldInit (mk_node i begin (end_or v (cur_end st4))) (tok_text t) v, st4) })"

definition field_init_step :: "pfuns \<Rightarrow> field_init list \<Rightarrow> parser \<Rightarrow> (field_init list \<times> bool) presult" where
  "field_init_step self fs st = do { (f, st1) \<leftarrow> parseFieldInit self st; more_if Comma (fs @ [f]) st1 }"

text \<open>The strategy \<^verbatim>\<open><name>\<close> after \<^verbatim>\<open>new iso\<close>.\<close>

definition parse_strategy :: "ast_capability \<Rightarrow> parser \<Rightarrow> string \<times> parser" where
  "parse_strategy cap st =
     (let (less, st1) = Parser_consume Less st in
      if \<not> less then ([], st1)
      else
        let st2 = (if cap \<noteq> Cap_Iso
                   then error_here (''region allocation strategy requires 'iso'' @ [CHR 0x27]) st1 else st1);
            (name, st3) = (if \<not> Parser_at Identifier st2
                           then ([], error_here ''expected region allocation strategy name'' st2)
                           else let (t, st') = Parser_advance st2 in (tok_text t, st'))
        in (name, Parser_expect Greater ''expected '>' after region allocation strategy'' st3))"

definition parse_new_fields :: "pfuns \<Rightarrow> parser \<Rightarrow> field_init list presult" where
  "parse_new_fields self st =
     (let (brace, st1) = Parser_consume LBrace st in
      if \<not> brace then Some ([], st1)
      else
        do { (fs, st2) \<leftarrow> (if \<not> Parser_at RBrace st1 then ploop (field_init_step self) [] st1 else Some ([], st1));
             Some (fs, Parser_expect RBrace ''expected '}' after field initializers'' st2) })"

definition parse_new_name :: "parser \<Rightarrow> string \<times> parser" where
  "parse_new_name st =
     (if \<not> Parser_at Identifier st then ([], error_here ''expected type name'' st)
      else let (n, st1) = Parser_advance st in (tok_text n, st1))"

definition parseNewExpr :: "pfuns \<Rightarrow> parser \<Rightarrow> expr presult" where
  "parseNewExpr self st =
     do { let (t, st1) = Parser_advance st;
          let (i, st2) = Parser_nextNodeId st1;
          let (ti, st3) = Parser_nextNodeId st2;
          let tbegin = cur_begin st3;
          let (cap, st4) = parse_capability st3;
          let (strategy, st5) = parse_strategy cap st4;
          let (name, st6) = parse_new_name st5;
          let (opt, st7) = Parser_consume Question st6;
          let ty = TypeRef (mk_node ti tbegin (cur_begin st7)) cap name [] opt False None;
          (_, st8) \<leftarrow> (if Parser_at LParen st7 then parseCallArguments self st7 else Some ([], st7));
          (fs, st9) \<leftarrow> parse_new_fields self st8;
          Some (NewExpr (mk_node i (span_begin (tok_span t)) (cur_begin st9)) (Some ty) strategy fs, st9) }"

text \<open>The operand of \<^verbatim>\<open>freeze\<close> and \<^verbatim>\<open>merge\<close>, the common part of the two functions.\<close>

definition parse_operand :: "pfuns \<Rightarrow> string \<Rightarrow> parser \<Rightarrow> expr option presult" where
  "parse_operand self msg st =
     (let (paren, st1) = Parser_consume LParen st in
      if paren then do { (v, st2) \<leftarrow> p_expr self st1; Some (v, Parser_expect RParen msg st2) }
      else p_primary self st1)"

definition parseFreezeExpr :: "pfuns \<Rightarrow> parser \<Rightarrow> expr presult" where
  "parseFreezeExpr self st =
     do { let (t, st1) = Parser_advance st;
          let (i, st2) = Parser_nextNodeId st1;
          (v, st3) \<leftarrow> parse_operand self ''expected ')' after freeze operand'' st2;
          Some (FreezeExpr (mk_node i (span_begin (tok_span t)) (end_or v (cur_end st3))) v, st3) }"

definition parseMergeExpr :: "pfuns \<Rightarrow> parser \<Rightarrow> expr presult" where
  "parseMergeExpr self st =
     do { let (t, st1) = Parser_advance st;
          let (i, st2) = Parser_nextNodeId st1;
          (v, st3) \<leftarrow> parse_operand self ''expected ')' after merge operand'' st2;
          Some (MergeExpr (mk_node i (span_begin (tok_span t)) (end_or v (cur_end st3))) v, st3) }"

definition parse_else :: "pfuns \<Rightarrow> parser \<Rightarrow> expr option presult" where
  "parse_else self st =
     (let (els, st1) = Parser_consume KwElse st in
      if \<not> els then Some (None, st1)
      else if Parser_at KwIf st1 then do { (e, st2) \<leftarrow> p_if self st1; Some (Some e, st2) }
      else do { (b, st2) \<leftarrow> p_block self st1; Some (Some (BlockE b), st2) })"

definition parseIfExpr :: "pfuns \<Rightarrow> parser \<Rightarrow> expr presult" where
  "parseIfExpr self st =
     do { let (t, st1) = Parser_advance st;
          let (i, st2) = Parser_nextNodeId st1;
          (c, st3) \<leftarrow> p_expr self st2;
          (b, st4) \<leftarrow> p_block self st3;
          (e, st5) \<leftarrow> parse_else self st4;
          Some (IfExpr (mk_node i (span_begin (tok_span t)) (end_or e (blk_end b))) c (Some b) e, st5) }"

definition parseWhileExpr :: "pfuns \<Rightarrow> parser \<Rightarrow> expr presult" where
  "parseWhileExpr self st =
     do { let (t, st1) = Parser_advance st;
          let (i, st2) = Parser_nextNodeId st1;
          (c, st3) \<leftarrow> p_expr self st2;
          (b, st4) \<leftarrow> p_block self st3;
          Some (WhileExpr (mk_node i (span_begin (tok_span t)) (blk_end b)) c (Some b), st4) }"

definition parse_region_name :: "parser \<Rightarrow> string \<times> parser" where
  "parse_region_name st =
     (let (has_as, st1) = Parser_consume KwAs st in
      if \<not> has_as then ([], error_here ''expected 'as' before region binding name'' st1)
      else if \<not> Parser_at Identifier st1 then ([], error_here ''expected region binding name'' st1)
      else let (n, st2) = Parser_advance st1 in (tok_text n, st2))"

definition parseRegionExpr :: "region_kind \<Rightarrow> pfuns \<Rightarrow> parser \<Rightarrow> expr presult" where
  "parseRegionExpr kind self st =
     do { let (t, st1) = Parser_advance st;
          let (i, st2) = Parser_nextNodeId st1;
          (src, st3) \<leftarrow> p_expr self st2;
          let (name, st4) = parse_region_name st3;
          (b, st5) \<leftarrow> p_block self st4;
          Some (RegionExpr (mk_node i (span_begin (tok_span t)) (blk_end b)) kind src name (Some b), st5) }"

definition literal_of :: "token_kind \<Rightarrow> literal_kind" where
  "literal_of kind =
     (if kind = IntegerLiteral then Lit_Integer else if kind = FloatLiteral then Lit_Float
      else if kind = StringLiteral then Lit_String else if kind = CharLiteral then Lit_Char
      else if kind = KwNone then Lit_None else Lit_Bool)"

definition literal_tokens :: "token_kind list" where
  "literal_tokens = [IntegerLiteral, FloatLiteral, StringLiteral, CharLiteral, KwTrue, KwFalse, KwNone]"

definition parse_array_literal :: "pfuns \<Rightarrow> parser \<Rightarrow> expr presult" where
  "parse_array_literal self st =
     do { let (t, st1) = Parser_advance st;
          let (i, st2) = Parser_nextNodeId st1;
          (es, st3) \<leftarrow> (if \<not> Parser_at RBracket st2 then ploop (argument_step self) [] st2 else Some ([], st2));
          Some (ArrayLiteralExpr (mk_node i (span_begin (tok_span t)) (cur_end st3)) es,
                Parser_expect RBracket ''expected ']' after array literal'' st3) }"

definition some_expr :: "expr presult \<Rightarrow> expr option presult" where
  "some_expr r = do { (e, st) \<leftarrow> r; Some (Some e, st) }"

definition parsePrimaryExpr :: "pfuns \<Rightarrow> parser \<Rightarrow> expr option presult" where
  "parsePrimaryExpr self st =
     (let kind = tok_kind (cur st) in
      if kind = Identifier then
        (let (i, st1) = Parser_nextNodeId st; (t, st2) = Parser_advance st1
         in Some (Some (NameExpr \<lparr>node_id = i, node_span = tok_span t\<rparr> (tok_text t)), st2))
      else if kind \<in> set literal_tokens then
        (let (i, st1) = Parser_nextNodeId st; (t, st2) = Parser_advance st1; k = literal_of (tok_kind t)
         in Some (Some (LiteralExpr \<lparr>node_id = i, node_span = tok_span t\<rparr> k (tok_text t)
                          (numericSuffix (tok_text t) k)), st2))
      else if kind = LBrace then do { (b, st1) \<leftarrow> p_block self st; Some (Some (BlockE b), st1) }
      else if kind = LBracket then some_expr (parse_array_literal self st)
      else if kind = LParen then
        do { (e, st1) \<leftarrow> p_expr self (snd (Parser_advance st));
             Some (e, Parser_expect RParen ''expected ')' after expression'' st1) }
      else if kind = KwMove then some_expr (parseMoveExpr self st)
      else if kind = KwNew then some_expr (parseNewExpr self st)
      else if kind = KwFreeze then some_expr (parseFreezeExpr self st)
      else if kind = KwMerge then some_expr (parseMergeExpr self st)
      else if kind = KwIf then some_expr (parseIfExpr self st)
      else if kind = KwWhile then some_expr (parseWhileExpr self st)
      else if kind = KwEnter then some_expr (parseRegionExpr Region_Enter self st)
      else if kind = KwExplore then some_expr (parseRegionExpr Region_Explore self st)
      else Some (None, error_here ''expected expression'' st))"

text \<open>One round of the postfix loop: a call, an index or a field access around the expression.\<close>

definition postfix_step :: "pfuns \<Rightarrow> expr option \<Rightarrow> parser \<Rightarrow> (expr option \<times> bool) presult" where
  "postfix_step self e st =
     (case e of
        None \<Rightarrow> Some ((None, False), st)
      | Some obj \<Rightarrow>
          let begin = span_begin (expr_span obj) in
          if Parser_at LParen st then
            do { let (i, st1) = Parser_nextNodeId st;
                 (args, st2) \<leftarrow> parseCallArguments self st1;
                 Some ((Some (CallExpr (mk_node i begin (cur_begin st2)) e args), True), st2) }
          else if Parser_at LBracket st then
            do { let (i, st1) = Parser_nextNodeId (snd (Parser_advance st));
                 (index, st2) \<leftarrow> p_expr self st1;
                 Some ((Some (IndexExpr (mk_node i begin (cur_end st2)) e index), True),
                       Parser_expect RBracket ''expected ']' after index expression'' st2) }
          else if Parser_at Dot st then
            (let (i, st1) = Parser_nextNodeId (snd (Parser_advance st));
                 (name, st2) = (if \<not> Parser_at Identifier st1 \<and> \<not> Parser_at KwNew st1
                                then ([], error_here (''expected field name after '.'' @ [CHR 0x27]) st1)
                                else let (n, st') = Parser_advance st1 in (tok_text n, st'))
             in Some ((Some (FieldAccessExpr (mk_node i begin (cur_begin st2)) e name), True), st2))
          else Some ((e, False), st))"

definition parsePostfixExpr :: "pfuns \<Rightarrow> parser \<Rightarrow> expr option presult" where
  "parsePostfixExpr self st = do { (e, st1) \<leftarrow> parsePrimaryExpr self st; ploop (postfix_step self) e st1 }"

definition binary_step :: "pfuns \<Rightarrow> nat \<Rightarrow> expr option \<Rightarrow> parser \<Rightarrow> (expr option \<times> bool) presult" where
  "binary_step self minPrecedence lhs st =
     (case lhs of
        None \<Rightarrow> Some ((None, False), st)
      | Some l \<Rightarrow>
          let precedence = binaryPrecedence (tok_kind (cur st)) in
          if precedence < minPrecedence then Some ((lhs, False), st)
          else
            do { let (op, st1) = Parser_advance st;
                 (rhs, st2) \<leftarrow> p_binary self (precedence + 1) st1;
                 let (i, st3) = Parser_nextNodeId st2;
                 Some ((Some (BinaryExpr (mk_node i (span_begin (expr_span l)) (end_or rhs (span_end (tok_span op))))
                                (tok_text op) lhs rhs), True), st3) })"

definition parseBinaryExpr :: "pfuns \<Rightarrow> nat \<Rightarrow> parser \<Rightarrow> expr option presult" where
  "parseBinaryExpr self minPrecedence st =
     do { (lhs, st1) \<leftarrow> parsePostfixExpr self st; ploop (binary_step self minPrecedence) lhs st1 }"

fun is_assignable :: "expr option \<Rightarrow> bool" where
  "is_assignable (Some (NameExpr _ _)) = True"
| "is_assignable (Some (FieldAccessExpr _ _ _)) = True"
| "is_assignable (Some (IndexExpr _ _ _)) = True"
| "is_assignable _ = False"

definition parseAssignExpr :: "pfuns \<Rightarrow> parser \<Rightarrow> expr option presult" where
  "parseAssignExpr self st =
     do { (lhs, st1) \<leftarrow> parseBinaryExpr self 1 st;
          let (eq, st2) = Parser_consume Equal st1;
          if \<not> eq then Some (lhs, st2)
          else
            do { let st3 = (if \<not> is_assignable lhs
                            then Parser_error (case lhs of Some l \<Rightarrow> expr_span l | None \<Rightarrow> cur_span st2)
                                   ''assignment target must be a binding, field, or index'' st2 else st2);
                 let (i, st4) = Parser_nextNodeId st3;
                 let begin = (case lhs of Some l \<Rightarrow> span_begin (expr_span l) | None \<Rightarrow> cur_begin st4);
                 (v, st5) \<leftarrow> p_assign self st4;
                 Some (Some (AssignExpr (mk_node i begin (end_or v (cur_end st5))) lhs v), st5) } }"

definition parseReturnExpr :: "pfuns \<Rightarrow> parser \<Rightarrow> expr presult" where
  "parseReturnExpr self st =
     do { let (t, st1) = Parser_advance st;
          let (i, st2) = Parser_nextNodeId st1;
          (v, st3) \<leftarrow> p_expr self st2;
          Some (ReturnExpr (mk_node i (span_begin (tok_span t)) (end_or v (cur_end st3))) v, st3) }"

definition parseBindingExpr :: "pfuns \<Rightarrow> parser \<Rightarrow> expr presult" where
  "parseBindingExpr self st =
     (let (kw, st1) = Parser_advance st;
          (i, st2) = Parser_nextNodeId st1;
          isVar = (tok_kind kw = KwVar)
      in if \<not> Parser_at Identifier st2 then
           Some (BindingExpr \<lparr>node_id = i, node_span = default_span\<rparr> isVar [] None None,
                 error_here ''expected binding name'' st2)
         else
           do { let (name, st3) = Parser_advance st2;
                let (colon, st4) = Parser_consume Colon st3;
                (ty, st5) \<leftarrow> (if colon then do { (ty, st') \<leftarrow> parseTypeRef st4; Some (Some ty, st') }
                             else Some (None, st4));
                let st6 = Parser_expect Equal ''expected '=' in binding'' st5;
                (v, st7) \<leftarrow> p_expr self st6;
                Some (BindingExpr (mk_node i (span_begin (tok_span kw)) (end_or v (cur_end st7))) isVar
                        (tok_text name) ty v, st7) })"

definition parseExpr :: "pfuns \<Rightarrow> parser \<Rightarrow> expr option presult" where
  "parseExpr self st =
     (if Parser_at KwLet st \<or> Parser_at KwVar st then some_expr (parseBindingExpr self st)
      else if Parser_at KwReturn st then some_expr (parseReturnExpr self st)
      else parseAssignExpr self st)"

definition block_step :: "pfuns \<Rightarrow> expr option list \<Rightarrow> parser \<Rightarrow> (expr option list \<times> bool) presult" where
  "block_step self es st =
     (if \<not> (\<not> Parser_at RBrace st \<and> \<not> Parser_at EndOfFile st) then Some ((es, False), st)
      else
        do { (e, st1) \<leftarrow> parseExpr self st;
             let (es', st2) =
               (if e \<noteq> None then (es @ [e], st1)
                else (es, if \<not> Parser_at RBrace st1 \<and> \<not> Parser_at EndOfFile st1
                          then snd (Parser_advance st1) else st1));
             Some ((es', True), snd (Parser_consume Semicolon st2)) })"

definition parseBlock :: "pfuns \<Rightarrow> parser \<Rightarrow> block presult" where
  "parseBlock self st =
     do { let begin = cur_begin st;
          let st1 = Parser_expect LBrace ''expected block'' st;
          let (i, st2) = Parser_nextNodeId st1;
          (es, st3) \<leftarrow> ploop (block_step self) [] st2;
          Some (BlockExpr (mk_node i begin (cur_end st3)) es,
                Parser_expect RBrace ''expected '}' after block'' st3) }"

text \<open>The recursion, level by level.\<close>

primrec pfuns_at :: "nat \<Rightarrow> pfuns" where
  "pfuns_at 0 =
     \<lparr>p_expr = (\<lambda>_. None), p_assign = (\<lambda>_. None), p_binary = (\<lambda>_ _. None), p_primary = (\<lambda>_. None),
      p_if = (\<lambda>_. None), p_block = (\<lambda>_. None)\<rparr>"
| "pfuns_at (Suc n) =
     \<lparr>p_expr = parseExpr (pfuns_at n), p_assign = parseAssignExpr (pfuns_at n),
      p_binary = parseBinaryExpr (pfuns_at n), p_primary = parsePrimaryExpr (pfuns_at n),
      p_if = parseIfExpr (pfuns_at n), p_block = parseBlock (pfuns_at n)\<rparr>"


subsection \<open>Declarations\<close>

abbreviation mk_span :: "source_location \<Rightarrow> source_location \<Rightarrow> span" where
  "mk_span b e \<equiv> \<lparr>span_begin = b, span_end = e\<rparr>"

definition bound_step :: "trait_bound list \<Rightarrow> parser \<Rightarrow> (trait_bound list \<times> bool) presult" where
  "bound_step bs st =
     (let begin = cur_begin st in
      if \<not> Parser_at Identifier st then Some ((bs, False), error_here ''expected trait bound name'' st)
      else let (t, st1) = Parser_advance st
           in more_if Plus (bs @ [\<lparr>tb_name = tok_text t, tb_span = mk_span begin (cur_begin st1)\<rparr>]) st1)"

definition parseGenericParam :: "parser \<Rightarrow> generic_param presult" where
  "parseGenericParam st =
     (let begin = cur_begin st in
      if \<not> Parser_at Identifier st then
        Some (\<lparr>gp_name = [], gp_bounds = [], gp_span = mk_span begin (span_end default_span)\<rparr>,
              error_here ''expected generic parameter name'' st)
      else
        do { let (t, st1) = Parser_advance st;
             let st2 = Parser_expect Colon ''expected ':' after generic parameter name'' st1;
             (bs, st3) \<leftarrow> ploop bound_step [] st2;
             Some (\<lparr>gp_name = tok_text t, gp_bounds = bs,
                    gp_span = mk_span begin (if bs = [] then cur_begin st3 else span_end (tb_span (last bs)))\<rparr>,
                   st3) })"

definition generic_step :: "generic_param list \<Rightarrow> parser \<Rightarrow> (generic_param list \<times> bool) presult" where
  "generic_step ps st = do { (p, st1) \<leftarrow> parseGenericParam st; more_if Comma (ps @ [p]) st1 }"

definition parseGenericParams :: "parser \<Rightarrow> generic_param list presult" where
  "parseGenericParams st =
     do { let st1 = Parser_expect Less ''expected '<' before generic parameter list'' st;
          (ps, st2) \<leftarrow> (if \<not> Parser_at Greater st1 then ploop generic_step [] st1 else Some ([], st1));
          Some (ps, Parser_expect Greater ''expected '>' after generic parameter list'' st2) }"

definition param_step :: "param list \<Rightarrow> parser \<Rightarrow> (param list \<times> bool) presult" where
  "param_step ps st =
     (if \<not> Parser_at Identifier st then Some ((ps, False), error_here ''expected parameter name'' st)
      else
        do { let (t, st1) = Parser_advance st;
             let st2 = Parser_expect Colon ''expected ':' after parameter name'' st1;
             (ty, st3) \<leftarrow> parseTypeRef st2;
             more_if Comma (ps @ [\<lparr>pm_name = tok_text t, pm_type = Some ty\<rparr>]) st3 })"

definition empty_fn :: "u64 \<Rightarrow> fn_decl" where
  "empty_fn i = \<lparr>node_id = i, node_span = default_span, d_modulePath = [], d_imports = [], fn_name = [],
     fn_genericParams = [], fn_params = [], fn_returnType = None, fn_body = None\<rparr>"

definition parse_params :: "parser \<Rightarrow> param list presult" where
  "parse_params st = (if \<not> Parser_at RParen st then ploop param_step [] st else Some ([], st))"

definition parse_return_type :: "parser \<Rightarrow> type_ref option presult" where
  "parse_return_type st =
     (let (colon, st1) = Parser_consume Colon st in
      if colon then do { (ty, st2) \<leftarrow> parseTypeRef st1; Some (Some ty, st2) } else Some (None, st1))"

definition parse_body :: "pfuns \<Rightarrow> bool \<Rightarrow> parser \<Rightarrow> block option presult" where
  "parse_body self requireBody st =
     (if requireBody \<or> Parser_at LBrace st
      then do { (b, st1) \<leftarrow> parseBlock self st; Some (Some b, st1) } else Some (None, st))"

text \<open>\<^verbatim>\<open>parseFnDecl\<close> after the name: generics, parameters, return type, body.\<close>

definition parse_fn_rest :: "pfuns \<Rightarrow> bool \<Rightarrow> source_location \<Rightarrow> fn_decl \<Rightarrow> parser \<Rightarrow> fn_decl presult" where
  "parse_fn_rest self requireBody begin fn st =
     do { (gs, st1) \<leftarrow> (if Parser_at Less st then parseGenericParams st else Some ([], st));
          (ps, st2) \<leftarrow> parse_params (Parser_expect LParen ''expected '(' after function name'' st1);
          (ret, st3) \<leftarrow> parse_return_type (Parser_expect RParen ''expected ')' after parameter list'' st2);
          (body, st4) \<leftarrow> parse_body self requireBody st3;
          let end_loc = (case body of Some b \<Rightarrow> blk_end b | None \<Rightarrow> cur_begin st4);
          Some (fn\<lparr>fn_genericParams := gs, fn_params := ps, fn_returnType := ret, fn_body := body,
                   node_span := mk_span begin end_loc\<rparr>, st4) }"

definition parseFnDecl :: "pfuns \<Rightarrow> bool \<Rightarrow> parser \<Rightarrow> fn_decl presult" where
  "parseFnDecl self requireBody st =
     (let (t, st1) = Parser_advance st;
          (i, st2) = Parser_nextNodeId st1
      in if \<not> Parser_at Identifier st2 \<and> \<not> Parser_at KwNew st2 then
           Some (empty_fn i, error_here ''expected function name'' st2)
         else let (name, st3) = Parser_advance st2
              in parse_fn_rest self requireBody (span_begin (tok_span t))
                   ((empty_fn i)\<lparr>fn_name := tok_text name\<rparr>) st3)"

definition parseFieldDecl :: "parser \<Rightarrow> field_decl presult" where
  "parseFieldDecl st =
     (let (i, st1) = Parser_nextNodeId st;
          begin = cur_begin st1;
          mk = (\<lambda>e isVar name ty. \<lparr>node_id = i, node_span = mk_span begin e, fd_isVar = isVar, fd_name = name,
                                   fd_type = ty\<rparr>)
      in if \<not> Parser_at KwLet st1 \<and> \<not> Parser_at KwVar st1 then
           Some (mk (span_end default_span) False [] None,
                 snd (Parser_advance (error_here ''expected field declaration'' st1)))
         else
           let (kw, st2) = Parser_advance st1; isVar = (tok_kind kw = KwVar) in
           if \<not> Parser_at Identifier st2 then
             Some (mk (span_end default_span) isVar [] None, error_here ''expected field name'' st2)
           else
             do { let (name, st3) = Parser_advance st2;
                  let st4 = Parser_expect Colon ''expected ':' after field name'' st3;
                  (ty, st5) \<leftarrow> parseTypeRef st4;
                  Some (mk (span_end (node_span (tr_node ty))) isVar (tok_text name) (Some ty), st5) })"

abbreviation body_ends :: "parser \<Rightarrow> bool" where
  "body_ends st \<equiv> \<not> (\<not> Parser_at RBrace st \<and> \<not> Parser_at EndOfFile st)"

definition struct_step ::
    "pfuns \<Rightarrow> field_decl list \<times> fn_decl option list \<Rightarrow> parser \<Rightarrow>
     ((field_decl list \<times> fn_decl option list) \<times> bool) presult" where
  "struct_step self acc st =
     (if body_ends st then Some ((acc, False), st)
      else if Parser_at KwFn st then
        do { (fn, st1) \<leftarrow> parseFnDecl self True st; Some (((fst acc, snd acc @ [Some fn]), True), st1) }
      else
        do { (f, st1) \<leftarrow> parseFieldDecl st;
             Some (((fst acc @ [f], snd acc), True), snd (Parser_consume Semicolon st1)) })"

definition parseStructDecl :: "pfuns \<Rightarrow> parser \<Rightarrow> struct_decl presult" where
  "parseStructDecl self st =
     (let (t, st1) = Parser_advance st;
          (i, st2) = Parser_nextNodeId st1;
          mk = (\<lambda>sp name fs ms. \<lparr>node_id = i, node_span = sp, d_modulePath = [], d_imports = [],
                                 sd_name = name, sd_fields = fs, sd_methods = ms\<rparr>)
      in if \<not> Parser_at Identifier st2 then
           Some (mk default_span [] [] [], error_here ''expected struct name'' st2)
         else
           do { let (name, st3) = Parser_advance st2;
                let st4 = Parser_expect LBrace ''expected '{' after struct name'' st3;
                ((fs, ms), st5) \<leftarrow> ploop (struct_step self) ([], []) st4;
                Some (mk (mk_span (span_begin (tok_span t)) (cur_end st5)) (tok_text name) fs ms,
                      Parser_expect RBrace ''expected '}' after struct body'' st5) })"

definition trait_step ::
    "pfuns \<Rightarrow> fn_decl option list \<Rightarrow> parser \<Rightarrow> (fn_decl option list \<times> bool) presult" where
  "trait_step self ms st =
     (if body_ends st then Some ((ms, False), st)
      else if \<not> Parser_at KwFn st then
        Some ((ms, True), snd (Parser_advance (error_here ''expected method signature'' st)))
      else
        do { (fn, st1) \<leftarrow> parseFnDecl self False st;
             Some ((ms @ [Some fn], True), snd (Parser_consume Semicolon st1)) })"

definition parseTraitDecl :: "pfuns \<Rightarrow> parser \<Rightarrow> trait_decl presult" where
  "parseTraitDecl self st =
     (let (t, st1) = Parser_advance st;
          (i, st2) = Parser_nextNodeId st1;
          mk = (\<lambda>sp name ms. \<lparr>node_id = i, node_span = sp, d_modulePath = [], d_imports = [],
                              td_name = name, td_methods = ms\<rparr>)
      in if \<not> Parser_at Identifier st2 then
           Some (mk default_span [] [], error_here ''expected trait name'' st2)
         else
           do { let (name, st3) = Parser_advance st2;
                let st4 = Parser_expect LBrace ''expected '{' after trait name'' st3;
                (ms, st5) \<leftarrow> ploop (trait_step self) [] st4;
                Some (mk (mk_span (span_begin (tok_span t)) (cur_end st5)) (tok_text name) ms,
                      Parser_expect RBrace ''expected '}' after trait body'' st5) })"

definition impl_step ::
    "pfuns \<Rightarrow> fn_decl option list \<Rightarrow> parser \<Rightarrow> (fn_decl option list \<times> bool) presult" where
  "impl_step self ms st =
     (if body_ends st then Some ((ms, False), st)
      else if \<not> Parser_at KwFn st then
        Some ((ms, True), snd (Parser_advance (error_here ''expected method declaration'' st)))
      else do { (fn, st1) \<leftarrow> parseFnDecl self True st; Some ((ms @ [Some fn], True), st1) })"

text \<open>
  The header of an \<^verbatim>\<open>impl\<close>: \<open>Inl\<close> is the early return with the trait name read so far,
  \<open>Inr\<close> the trait and type names.
\<close>

definition parse_impl_header :: "parser \<Rightarrow> (string option + (string option \<times> string)) \<times> parser" where
  "parse_impl_header st =
     (let (firstName, st1) = Parser_advance st in
      if Parser_at Identifier st1 \<and> tok_text (cur st1) = ''for'' then
        let st2 = snd (Parser_advance st1) in
        if \<not> Parser_at Identifier st2 then
          (Inl (Some (tok_text firstName)), error_here ''expected impl target type name'' st2)
        else let (ty, st3) = Parser_advance st2
             in (Inr (Some (tok_text firstName), tok_text ty),
                 Parser_expect LBrace ''expected '{' after impl target type name'' st3)
      else (Inr (None, tok_text firstName), Parser_expect LBrace ''expected '{' after impl type name'' st1))"

definition parseImplDecl :: "pfuns \<Rightarrow> parser \<Rightarrow> impl_decl presult" where
  "parseImplDecl self st =
     (let (t, st1) = Parser_advance st;
          (i, st2) = Parser_nextNodeId st1;
          mk = (\<lambda>sp trait ty ms. \<lparr>node_id = i, node_span = sp, d_modulePath = [], d_imports = [],
                                  id_typeName = ty, id_traitName = trait, id_methods = ms\<rparr>)
      in if \<not> Parser_at Identifier st2 then
           Some (mk default_span None [] [], error_here ''expected impl type name'' st2)
         else
           case parse_impl_header st2 of
             (Inl trait, st3) \<Rightarrow> Some (mk default_span trait [] [], st3)
           | (Inr (trait, ty), st3) \<Rightarrow>
               do { (ms, st4) \<leftarrow> ploop (impl_step self) [] st3;
                    Some (mk (mk_span (span_begin (tok_span t)) (cur_end st4)) trait ty ms,
                          Parser_expect RBrace ''expected '}' after impl body'' st4) })"

definition parseDecl :: "pfuns \<Rightarrow> parser \<Rightarrow> decl option presult" where
  "parseDecl self st =
     (if Parser_at KwFn st then do { (d, st1) \<leftarrow> parseFnDecl self True st; Some (Some (DFn d), st1) }
      else if Parser_at KwStruct st then do { (d, st1) \<leftarrow> parseStructDecl self st; Some (Some (DStruct d), st1) }
      else if Parser_at KwTrait st then do { (d, st1) \<leftarrow> parseTraitDecl self st; Some (Some (DTrait d), st1) }
      else if Parser_at KwImpl st then do { (d, st1) \<leftarrow> parseImplDecl self st; Some (Some (DImpl d), st1) }
      else Some (None, error_here ''expected declaration'' st))"


subsection \<open>Files\<close>

definition parseModuleHeader :: "ast_file \<Rightarrow> parser \<Rightarrow> ast_file presult" where
  "parseModuleHeader file st =
     do { let (t, st1) = Parser_advance st;
          (path, st2) \<leftarrow> parsePath ''module'' st1;
          Some (file\<lparr>sf_explicitModule := Some path, sf_resolvedModule := path,
                     node_span := mk_span (span_begin (tok_span t)) (cur_begin st2)\<rparr>, st2) }"

definition parse_alias :: "parser \<Rightarrow> string option \<times> parser" where
  "parse_alias st =
     (let (has_as, st1) = Parser_consume KwAs st in
      if \<not> has_as then (None, st1)
      else if \<not> Parser_at Identifier st1 then (None, error_here (''expected import alias after 'as'' @ [CHR 0x27]) st1)
      else let (t, st2) = Parser_advance st1 in (Some (tok_text t), st2))"

definition parseImport :: "ast_file \<Rightarrow> parser \<Rightarrow> ast_file presult" where
  "parseImport file st =
     do { let (t, st1) = Parser_advance st;
          (path, st2) \<leftarrow> parsePath ''import'' st1;
          let (alias, st3) = parse_alias st2;
          Some (file\<lparr>sf_imports := sf_imports file @
                       [\<lparr>imp_path = path, imp_alias = alias,
                         imp_span = mk_span (span_begin (tok_span t)) (cur_begin st3)\<rparr>]\<rparr>, st3) }"

definition import_step :: "ast_file \<Rightarrow> parser \<Rightarrow> (ast_file \<times> bool) presult" where
  "import_step file st =
     (if \<not> Parser_at KwImport st then Some ((file, False), st)
      else do { (file1, st1) \<leftarrow> parseImport file st; Some ((file1, True), st1) })"

definition decl_step :: "pfuns \<Rightarrow> ast_file \<Rightarrow> parser \<Rightarrow> (ast_file \<times> bool) presult" where
  "decl_step self file st =
     (if Parser_at EndOfFile st then Some ((file, False), st)
      else if Parser_at KwModule st then
        Some ((file, True), snd (Parser_advance
          (error_here ''module declaration must appear before imports and declarations'' st)))
      else if Parser_at KwImport st then
        Some ((file, True), snd (Parser_advance
          (error_here ''import declaration must appear before declarations'' st)))
      else
        do { (d, st1) \<leftarrow> parseDecl self st;
             Some (case d of
                 Some _ \<Rightarrow> ((file\<lparr>sf_declarations := sf_declarations file @ [d]\<rparr>, True), st1)
               | None \<Rightarrow> ((file, True), snd (Parser_advance st1))) })"

definition parseSourceFile :: "parser \<Rightarrow> ast_file presult" where
  "parseSourceFile st =
     do { let self = pfuns_at (Suc (remaining st));
          let (i, st1) = Parser_nextNodeId st;
          let file = \<lparr>node_id = i, node_span = default_span, sf_explicitModule = None, sf_resolvedModule = [],
                      sf_imports = [], sf_declarations = []\<rparr>;
          (file1, st2) \<leftarrow> (if Parser_at KwModule st1 then parseModuleHeader file st1 else Some (file, st1));
          (file2, st3) \<leftarrow> ploop import_step file1 st2;
          ploop (decl_step self) file2 st3 }"

end
