(* ===== verification/Gura_Parser_Total.thy ===== *)
theory Gura_Parser_Total
  imports Gura_Parser Gura_Lexer_Props
begin

section \<open>The parser always returns\<close>

text \<open>
  On a token list that ends with end-of-file every parser function returns: the fuel of the model
  is never exhausted. \<open>le st st'\<close> says that \<open>st'\<close> is a later state of the same parser (same
  tokens, index not smaller, diagnostics extended), \<open>lt\<close> that a token was consumed between the
  two, and \<open>runs P st r\<close> that the result \<open>r\<close> of a parser function called in \<open>st\<close> is a value and
  a later state, with a token consumed whenever the value satisfies \<open>P\<close>.
\<close>

definition wf_parser :: "parser \<Rightarrow> bool" where
  "wf_parser st \<longleftrightarrow> ps_index st < length (ps_tokens st) \<and> tok_kind (last (ps_tokens st)) = EndOfFile"

definition le :: "parser \<Rightarrow> parser \<Rightarrow> bool" where
  "le st st' \<longleftrightarrow> wf_parser st \<and> wf_parser st' \<and> ps_tokens st' = ps_tokens st \<and> ps_index st \<le> ps_index st' \<and>
     engine.extends (ps_diagnostics st) (ps_diagnostics st')"

definition lt :: "parser \<Rightarrow> parser \<Rightarrow> bool" where
  "lt st st' \<longleftrightarrow> le st st' \<and> remaining st' < remaining st"

lemma le_refl [simp]: "le st st \<longleftrightarrow> wf_parser st"
  by (simp add: le_def engine.extends_refl)

lemma le_wfp: "le st st' \<Longrightarrow> wf_parser st \<and> wf_parser st'"
  by (simp add: le_def)

lemma le_trans: "le a b \<Longrightarrow> le b c \<Longrightarrow> le a c"
  by (auto simp: le_def intro: engine.extends_trans)

lemma le_remaining: "le a b \<Longrightarrow> remaining b \<le> remaining a"
  by (auto simp: le_def remaining_def)

lemma lt_le: "lt a b \<Longrightarrow> le a b"
  by (simp add: lt_def)

lemma lt_le_trans: "lt a b \<Longrightarrow> le b c \<Longrightarrow> lt a c"
  using le_remaining [of b c] by (auto simp: lt_def intro: le_trans)

lemma le_lt_trans: "le a b \<Longrightarrow> lt b c \<Longrightarrow> lt a c"
  using le_remaining [of a b] by (auto simp: lt_def intro: le_trans)

text \<open>The primitives.\<close>

lemma wfp_not_eof: "wf_parser st \<Longrightarrow> \<not> Parser_at EndOfFile st \<Longrightarrow> Suc (ps_index st) < length (ps_tokens st)"
proof (rule ccontr)
  assume wf: "wf_parser st" and at: "\<not> Parser_at EndOfFile st" and "\<not> Suc (ps_index st) < length (ps_tokens st)"
  then have "ps_index st = length (ps_tokens st) - 1" "ps_tokens st \<noteq> []" by (auto simp: wf_parser_def)
  then have "cur st = last (ps_tokens st)" by (simp add: Parser_peek_def Let_def last_conv_nth)
  with wf at show False by (simp add: Parser_at_def wf_parser_def)
qed

lemma wf_advance [simp]: "wf_parser st \<Longrightarrow> wf_parser (snd (Parser_advance st))"
  using wfp_not_eof [of st] by (auto simp: wf_parser_def Parser_advance_def)

lemma wf_prim [simp]:
  assumes "wf_parser st"
  shows "wf_parser (Parser_error sp msg st)" and "wf_parser (snd (Parser_nextNodeId st))"
    and "wf_parser (snd (Parser_consume k st))" and "wf_parser (Parser_expect k msg st)"
    and "wf_parser (snd (parse_capability st))"
proof -
  show 1: "wf_parser (Parser_error sp msg st)" "wf_parser (snd (Parser_nextNodeId st))" for sp msg
    using assms by (simp_all add: wf_parser_def Parser_error_def Parser_nextNodeId_def)
  show 2: "wf_parser (snd (Parser_consume k st))" using assms by (simp add: Parser_consume_def)
  show "wf_parser (Parser_expect k msg st)"
    using assms 2 1(1) by (auto simp: Parser_expect_def Parser_consume_def Let_def)
  show "wf_parser (snd (parse_capability st))"
    using assms by (simp add: parse_capability_def Let_def split: token_kind.split)
qed

lemma advance_le: "wf_parser st \<Longrightarrow> le st (snd (Parser_advance st))"
  using wf_advance [of st] by (auto simp: Parser_advance_def le_def engine.extends_refl)

lemma advance_lt: "wf_parser st \<Longrightarrow> \<not> Parser_at EndOfFile st \<Longrightarrow> lt st (snd (Parser_advance st))"
  using wfp_not_eof [of st] advance_le [of st] by (simp add: lt_def Parser_advance_def remaining_def)

lemma error_le: "wf_parser st \<Longrightarrow> le st (Parser_error sp msg st)"
  using wf_prim(1) [of st sp msg]
  by (simp add: Parser_error_def le_def DiagnosticEngine_error_def engine.extends_report)

lemma nextNodeId_le: "wf_parser st \<Longrightarrow> le st (snd (Parser_nextNodeId st))"
  using wf_prim(2) [of st] by (simp add: Parser_nextNodeId_def le_def engine.extends_refl)

lemma consume_le: "wf_parser st \<Longrightarrow> le st (snd (Parser_consume k st))"
  by (simp add: Parser_consume_def advance_le)

lemma consume_lt: "wf_parser st \<Longrightarrow> k \<noteq> EndOfFile \<Longrightarrow> fst (Parser_consume k st) \<Longrightarrow> lt st (snd (Parser_consume k st))"
  using advance_lt [of st] by (simp add: Parser_consume_def Parser_at_def split: if_splits)

lemma expect_le: "wf_parser st \<Longrightarrow> le st (Parser_expect k msg st)"
  using le_wfp [OF consume_le [of st k]] consume_le [of st k]
  by (auto simp: Parser_expect_def Let_def case_prod_beta intro: le_trans [OF _ error_le])

lemma expect_lt: "wf_parser st \<Longrightarrow> k \<noteq> EndOfFile \<Longrightarrow> Parser_at k st \<Longrightarrow> lt st (Parser_expect k msg st)"
  using consume_lt [of st k] by (simp add: Parser_expect_def Let_def case_prod_beta Parser_consume_def)

lemma capability_le: "wf_parser st \<Longrightarrow> le st (snd (parse_capability st))"
  by (simp add: parse_capability_def Let_def advance_le split: token_kind.split)

lemmas prim_le = advance_le error_le nextNodeId_le consume_le expect_le capability_le

text \<open>The same facts relative to an earlier state, for the simplifier.\<close>

lemma le_prim [simp]:
  assumes "le st st1"
  shows "le st (snd (Parser_advance st1))" and "le st (Parser_error sp msg st1)"
    and "le st (snd (Parser_nextNodeId st1))" and "le st (snd (Parser_consume k st1))"
    and "le st (Parser_expect k msg st1)" and "le st (snd (parse_capability st1))"
  using assms le_wfp [OF assms] by (blast intro: le_trans prim_le)+

lemma lt_prim [simp]:
  assumes "lt st st1"
  shows "lt st (snd (Parser_advance st1))" and "lt st (Parser_error sp msg st1)"
    and "lt st (snd (Parser_nextNodeId st1))" and "lt st (snd (Parser_consume k st1))"
    and "lt st (Parser_expect k msg st1)" and "lt st (snd (parse_capability st1))"
  using assms le_wfp [OF lt_le [OF assms]] by (blast intro: lt_le_trans prim_le)+

lemma lt_advance [simp]: "le st st1 \<Longrightarrow> \<not> Parser_at EndOfFile st1 \<Longrightarrow> lt st (snd (Parser_advance st1))"
  using le_wfp advance_lt le_lt_trans by blast

lemma lt_consume [simp]:
  "le st st1 \<Longrightarrow> k \<noteq> EndOfFile \<Longrightarrow> fst (Parser_consume k st1) \<Longrightarrow> lt st (snd (Parser_consume k st1))"
  using le_wfp consume_lt le_lt_trans by blast

lemma lt_expect [simp]:
  "le st st1 \<Longrightarrow> k \<noteq> EndOfFile \<Longrightarrow> Parser_at k st1 \<Longrightarrow> lt st (Parser_expect k msg st1)"
  using le_wfp expect_lt le_lt_trans by blast

lemma not_eof: "Parser_at k st \<Longrightarrow> k \<noteq> EndOfFile \<Longrightarrow> \<not> Parser_at EndOfFile st"
  by (simp add: Parser_at_def)

lemma at_nextNodeId [simp]: "Parser_at k (snd (Parser_nextNodeId st)) = Parser_at k st"
  by (simp add: Parser_at_def Parser_peek_def Parser_nextNodeId_def Let_def)

lemma at_error [simp]: "Parser_at k (Parser_error sp msg st) = Parser_at k st"
  by (simp add: Parser_at_def Parser_peek_def Parser_error_def Let_def)


subsection \<open>Results\<close>

definition runs :: "('a \<Rightarrow> bool) \<Rightarrow> parser \<Rightarrow> 'a presult \<Rightarrow> bool" where
  "runs P st r \<longleftrightarrow> (\<exists>x st'. r = Some (x, st') \<and> le st st' \<and> (P x \<longrightarrow> lt st st'))"

lemma runs_Some [simp]: "runs P st (Some (x, st')) \<longleftrightarrow> le st st' \<and> (P x \<longrightarrow> lt st st')"
  by (simp add: runs_def)

lemma runs_mono: "runs P st r \<Longrightarrow> (\<And>x. Q x \<Longrightarrow> P x) \<Longrightarrow> runs Q st r"
  by (auto simp: runs_def)

lemma runs_bind:
  assumes "runs P st1 m" and "le st st1"
    and "\<And>x st2. le st1 st2 \<Longrightarrow> le st st2 \<Longrightarrow> (P x \<Longrightarrow> lt st st2) \<Longrightarrow> (lt st st1 \<Longrightarrow> lt st st2) \<Longrightarrow>
           wf_parser st2 \<Longrightarrow> m = Some (x, st2) \<Longrightarrow> runs Q st (f (x, st2))"
  shows "runs Q st (m \<bind> f)"
proof -
  obtain x st2 where m: "m = Some (x, st2)" "le st1 st2" "P x \<longrightarrow> lt st1 st2"
    using assms(1) by (auto simp: runs_def)
  have "runs Q st (f (x, st2))"
    using m assms(2) le_wfp [OF m(2)] by (intro assms(3)) (auto intro: le_trans lt_le_trans le_lt_trans)
  with m(1) show ?thesis by simp
qed

lemma runs_if: "(c \<Longrightarrow> runs P st a) \<Longrightarrow> (\<not> c \<Longrightarrow> runs P st b) \<Longrightarrow> runs P st (if c then a else b)"
  by simp

lemma runs_lift: "runs P st1 r \<Longrightarrow> le st st1 \<Longrightarrow> runs P st r"
  by (auto simp: runs_def intro: le_trans le_lt_trans)

lemma runs_lift_lt: "runs P st1 r \<Longrightarrow> lt st st1 \<Longrightarrow> runs Q st r"
  by (auto simp: runs_def intro: le_trans lt_le lt_le_trans)

text \<open>A loop whose body consumes a token whenever it asks to go on returns.\<close>

lemma ploop_n_runs:
  assumes "\<And>acc st'. le st st' \<Longrightarrow> runs snd st' (body acc st')"
  shows "le st st1 \<Longrightarrow> remaining st1 < n \<Longrightarrow> runs (\<lambda>_. False) st1 (ploop_n n body acc st1)"
proof (induction n arbitrary: acc st1)
  case (Suc n)
  obtain acc2 more st2 where b: "body acc st1 = Some ((acc2, more), st2)" "le st1 st2" "more \<longrightarrow> lt st1 st2"
    using assms [OF Suc.prems(1), of acc] by (auto simp: runs_def)
  show ?case
  proof (cases more)
    case True
    with b Suc.prems have "remaining st2 < n" "le st st2" by (auto simp: lt_def intro: le_trans)
    with Suc.IH [of st2 acc2] have "runs (\<lambda>_. False) st2 (ploop_n n body acc2 st2)" by simp
    with b True show ?thesis by (auto intro: runs_lift)
  qed (use b in simp)
qed simp

lemma ploop_runs:
  assumes "wf_parser st" and "\<And>acc st'. le st st' \<Longrightarrow> runs snd st' (body acc st')"
  shows "runs (\<lambda>_. False) st (ploop body acc st)"
  unfolding ploop_def using assms by (intro ploop_n_runs [where st = st]) auto

lemma more_if_runs: "wf_parser st \<Longrightarrow> k \<noteq> EndOfFile \<Longrightarrow> runs snd st (more_if k acc st)"
  by (simp add: more_if_def case_prod_beta)



subsection \<open>Paths, types and generic parameters\<close>

lemmas parser_simps = Let_def case_prod_beta

lemma path_step_runs: "wf_parser st \<Longrightarrow> runs snd st (path_step context segs st)"
  by (simp add: path_step_def parser_simps not_eof [of Identifier])

lemma parsePath_runs: "wf_parser st \<Longrightarrow> runs (\<lambda>_. Parser_at Identifier st) st (parsePath context st)"
proof (cases "Parser_at Identifier st")
  case True
  assume wf: "wf_parser st"
  let ?st = "snd (Parser_advance st)"
  have lt: "lt st ?st" using wf True not_eof [of Identifier st] by simp
  have "runs (\<lambda>_. False) ?st (ploop (path_step context) [tok_text (fst (Parser_advance st))] ?st)"
    using wf by (intro ploop_runs path_step_runs) (auto dest: le_wfp)
  then show ?thesis using True lt by (auto simp: parsePath_def parser_simps intro: runs_lift_lt)
qed (simp add: parsePath_def)

lemma parseTypeRef_n_runs: "wf_parser st \<Longrightarrow> remaining st < n \<Longrightarrow> runs (\<lambda>_. False) st (parseTypeRef_n n st)"
proof (induction n arbitrary: st)
  case (Suc n)
  let ?st2 = "snd (parse_capability (snd (Parser_nextNodeId st)))"
  let ?st3 = "snd (Parser_consume LBracket ?st2)"
  have le3: "le st ?st3" using Suc.prems by simp
  show ?case
  proof (cases "fst (Parser_consume LBracket ?st2)")
    case True
    then have "lt st ?st3" using Suc.prems by simp
    then have "runs (\<lambda>_. False) ?st3 (parseTypeRef_n n ?st3)"
      using Suc.prems by (intro Suc.IH) (auto simp: lt_def)
    then show ?thesis using True le3 unfolding parseTypeRef_n.simps parser_simps
      by (simp, intro runs_bind [where st = st]) simp_all
  next
    case False
    with le3 Suc.prems(1) show ?thesis unfolding parseTypeRef_n.simps parser_simps
      by (auto intro!: runs_bind [OF parsePath_runs])
  qed
qed simp

lemma parseTypeRef_runs [intro]: "wf_parser st \<Longrightarrow> runs (\<lambda>_. False) st (parseTypeRef st)"
  unfolding parseTypeRef_def by (rule parseTypeRef_n_runs) auto



subsection \<open>One recursion level\<close>

abbreviation some :: "'a option \<Rightarrow> bool" where
  "some e \<equiv> e \<noteq> None"

text \<open>
  The contract of the functions one level below, on which the functions of a level rely: with fewer
  than \<open>n\<close> tokens left they return, and consume a token when they return an expression. A block may
  be called with \<open>n\<close> tokens left if it starts at its brace.
\<close>

locale parser_level =
  fixes n :: nat and self :: pfuns
  assumes expr_runs: "wf_parser st \<Longrightarrow> remaining st < n \<Longrightarrow> runs some st (p_expr self st)"
    and assign_runs: "wf_parser st \<Longrightarrow> remaining st < n \<Longrightarrow> runs some st (p_assign self st)"
    and binary_runs: "wf_parser st \<Longrightarrow> remaining st < n \<Longrightarrow> 0 < k \<Longrightarrow> runs some st (p_binary self k st)"
    and primary_runs: "wf_parser st \<Longrightarrow> remaining st < n \<Longrightarrow> runs some st (p_primary self st)"
    and if_runs: "wf_parser st \<Longrightarrow> remaining st < n \<Longrightarrow> \<not> Parser_at EndOfFile st \<Longrightarrow>
           runs (\<lambda>_. True) st (p_if self st)"
    and block_runs: "wf_parser st \<Longrightarrow> remaining st < n \<or> Parser_at LBrace st \<and> remaining st \<le> n \<Longrightarrow>
           runs (\<lambda>_. Parser_at LBrace st) st (p_block self st)"
begin

lemma lt_bound: "lt st st1 \<Longrightarrow> remaining st \<le> n \<Longrightarrow> wf_parser st1 \<and> remaining st1 < n"
  using le_wfp [of st st1] by (auto simp: lt_def)

text \<open>The calls into the level below, from a state in which a token was consumed.\<close>

lemma below:
  assumes "lt st st1" and "remaining st \<le> n"
  shows "runs some st1 (p_expr self st1)" and "runs some st1 (p_assign self st1)"
    and "0 < k \<Longrightarrow> runs some st1 (p_binary self k st1)" and "runs some st1 (p_primary self st1)"
    and "\<not> Parser_at EndOfFile st1 \<Longrightarrow> runs (\<lambda>_. True) st1 (p_if self st1)"
    and "runs (\<lambda>_. False) st1 (p_block self st1)"
  using lt_bound [OF assms] expr_runs assign_runs binary_runs primary_runs if_runs
    runs_mono [OF block_runs, of st1 "\<lambda>_. False"] by auto

lemma argument_step_runs:
  assumes "wf_parser st" and "remaining st < n"
  shows "runs snd st (argument_step self es st)"
  unfolding argument_step_def parser_simps
proof (rule runs_bind [OF expr_runs [OF assms]], goal_cases)
  case 1
  with assms show ?case by simp
next
  case (2 e st2)
  with more_if_runs [of st2 Comma "es @ [e]"] show ?case by (auto intro: runs_lift)
qed

lemma arguments_loop_runs:
  assumes "wf_parser st" and "remaining st < n"
  shows "runs (\<lambda>_. False) st (ploop (argument_step self) es st)"
proof (rule ploop_runs [OF assms(1)])
  fix acc st' assume le: "le st st'"
  show "runs snd st' (argument_step self acc st')"
    using le_wfp [OF le] le_remaining [OF le] assms(2) by (intro argument_step_runs) auto
qed

lemma parseCallArguments_runs:
  assumes wf: "wf_parser st" and n: "remaining st \<le> n" and at: "Parser_at LParen st"
  shows "runs (\<lambda>_. True) st (parseCallArguments self st)"
proof -
  let ?st = "Parser_expect LParen (''expected '('' @ [CHR 0x27]) st"
  have lt: "lt st ?st" using wf at by simp
  have "runs (\<lambda>_. False) ?st (if \<not> Parser_at RParen ?st then ploop (argument_step self) [] ?st else Some ([], ?st))"
    using lt_bound [OF lt n] by (auto intro: arguments_loop_runs)
  then show ?thesis unfolding parseCallArguments_def parser_simps
    by (rule runs_bind) (use lt in \<open>auto simp: lt_le\<close>)
qed

text \<open>The expressions that start with a keyword consume it first.\<close>

lemma keyword_exprs_run:
  assumes wf: "wf_parser st" and n: "remaining st \<le> n" and at: "\<not> Parser_at EndOfFile st"
  shows "runs (\<lambda>_. True) st (parseMoveExpr self st)" and "runs (\<lambda>_. True) st (parseReturnExpr self st)"
    and "runs (\<lambda>_. True) st (parseWhileExpr self st)" and "runs (\<lambda>_. True) st (parse_array_literal self st)"
proof -
  let ?st = "snd (Parser_nextNodeId (snd (Parser_advance st)))"
  have lt: "lt st ?st" using wf at by simp
  note b = below [OF lt n]
  show "runs (\<lambda>_. True) st (parseMoveExpr self st)" "runs (\<lambda>_. True) st (parseReturnExpr self st)"
    unfolding parseMoveExpr_def parseReturnExpr_def parser_simps
    by (rule runs_bind, rule b, use lt in \<open>auto simp: lt_le\<close>)+
  show "runs (\<lambda>_. True) st (parseWhileExpr self st)"
    unfolding parseWhileExpr_def parser_simps
    by (rule runs_bind, rule b, use lt in \<open>auto simp: lt_le intro!: runs_bind [OF below(6) [OF _ n]]\<close>)
  have "runs (\<lambda>_. False) ?st (if \<not> Parser_at RBracket ?st then ploop (argument_step self) [] ?st else Some ([], ?st))"
    using lt_bound [OF lt n] by (auto intro: arguments_loop_runs)
  then show "runs (\<lambda>_. True) st (parse_array_literal self st)"
    unfolding parse_array_literal_def parser_simps
    by (rule runs_bind) (use lt in \<open>auto simp: lt_le\<close>)
qed

lemma parse_operand_runs:
  assumes lt: "lt st st1" and n: "remaining st \<le> n"
  shows "runs (\<lambda>_. False) st1 (parse_operand self msg st1)"
proof (cases "fst (Parser_consume LParen st1)")
  case True
  let ?st = "snd (Parser_consume LParen st1)"
  have "lt st ?st" "le st1 ?st" using lt le_wfp [OF lt_le [OF lt]] by simp_all
  with True show ?thesis unfolding parse_operand_def parser_simps
    by (auto intro!: runs_bind [OF below(1) [OF _ n]])
next
  case False
  then have "Parser_consume LParen st1 = (False, st1)"
    by (simp add: Parser_consume_def split: if_splits)
  with runs_mono [OF below(4) [OF lt n], of "\<lambda>_. False"] show ?thesis by (simp add: parse_operand_def)
qed

lemma parse_else_runs:
  assumes lt: "lt st st1" and n: "remaining st \<le> n"
  shows "runs (\<lambda>_. False) st1 (parse_else self st1)"
proof (cases "fst (Parser_consume KwElse st1)")
  case True
  let ?st = "snd (Parser_consume KwElse st1)"
  have "lt st ?st" "le st1 ?st" using lt le_wfp [OF lt_le [OF lt]] by simp_all
  with True show ?thesis unfolding parse_else_def parser_simps
    by (auto simp: not_eof [of KwIf] intro!: runs_bind [OF below(5) [OF _ n]] runs_bind [OF below(6) [OF _ n]])
next
  case False
  then show ?thesis using le_wfp [OF lt_le [OF lt]] by (simp add: parse_else_def parser_simps)
qed

lemma region_name_lt: "lt st st1 \<Longrightarrow> lt st (snd (parse_region_name st1))"
  by (simp add: parse_region_name_def parser_simps)

lemma keyword_exprs_run2:
  assumes wf: "wf_parser st" and n: "remaining st \<le> n" and at: "\<not> Parser_at EndOfFile st"
  shows "runs (\<lambda>_. True) st (parseFreezeExpr self st)" and "runs (\<lambda>_. True) st (parseMergeExpr self st)"
    and "runs (\<lambda>_. True) st (parseIfExpr self st)" and "runs (\<lambda>_. True) st (parseRegionExpr kind self st)"
proof -
  let ?st = "snd (Parser_nextNodeId (snd (Parser_advance st)))"
  have lt: "lt st ?st" using wf at by simp
  show "runs (\<lambda>_. True) st (parseFreezeExpr self st)" "runs (\<lambda>_. True) st (parseMergeExpr self st)"
    unfolding parseFreezeExpr_def parseMergeExpr_def parser_simps
    by (rule runs_bind, rule parse_operand_runs [OF lt n], use lt in \<open>auto simp: lt_le\<close>)+
  show "runs (\<lambda>_. True) st (parseIfExpr self st)"
    unfolding parseIfExpr_def parser_simps
    by (rule runs_bind, rule below [OF lt n], use lt in \<open>auto simp: lt_le
          intro!: runs_bind [OF below(6) [OF _ n]] runs_bind [OF parse_else_runs [OF _ n]]\<close>)
  show "runs (\<lambda>_. True) st (parseRegionExpr kind self st)"
    unfolding parseRegionExpr_def parser_simps
    by (rule runs_bind, rule below [OF lt n], use lt in \<open>auto simp: lt_le region_name_lt
          intro!: runs_bind [OF below(6) [OF _ n]]\<close>)
qed

lemma parseBindingExpr_runs:
  assumes wf: "wf_parser st" and n: "remaining st \<le> n" and at: "\<not> Parser_at EndOfFile st"
  shows "runs (\<lambda>_. True) st (parseBindingExpr self st)"
proof -
  let ?st = "snd (Parser_nextNodeId (snd (Parser_advance st)))"
  let ?st4 = "snd (Parser_consume Colon (snd (Parser_advance ?st)))"
  have lt: "lt st ?st" "lt st ?st4" using wf at by simp_all
  have rest: "runs (\<lambda>_. True) st (p_expr self st1 \<bind> (\<lambda>p. Some (f p, snd p)))" if "lt st st1" for st1 f
    by (rule runs_bind [OF below(1) [OF that n]]) (use that in \<open>simp_all add: lt_le\<close>)
  show ?thesis
  proof (cases "Parser_at Identifier ?st \<and> fst (Parser_consume Colon (snd (Parser_advance ?st)))")
    case True
    then show ?thesis unfolding parseBindingExpr_def parser_simps
      using lt(2) wf
      by (simp, intro runs_bind [OF parseTypeRef_runs]) (simp_all add: lt_le rest)
  next
    case False
    then show ?thesis using lt unfolding parseBindingExpr_def parser_simps by (auto simp: lt_le rest)
  qed
qed

lemma parseFieldInit_runs:
  assumes wf: "wf_parser st" and n: "remaining st < n"
  shows "runs (\<lambda>_. False) st (parseFieldInit self st)"
proof -
  have e: "runs some st1 (p_expr self st1)" if "le st st1" "wf_parser st1" for st1
    using expr_runs that n le_remaining [OF that(1)] by auto
  show ?thesis
    using wf unfolding parseFieldInit_def parser_simps by (auto intro!: runs_bind [OF e])
qed

lemma parse_new_fields_runs:
  assumes lt: "lt st st1" and n: "remaining st \<le> n"
  shows "runs (\<lambda>_. False) st1 (parse_new_fields self st1)"
proof -
  let ?st = "snd (Parser_consume LBrace st1)"
  have wf1: "wf_parser st1" using lt_bound [OF lt n] by simp
  have le: "le st1 ?st" "lt st ?st" using wf1 lt by simp_all
  have step: "runs snd st' (field_init_step self acc st')" if "le ?st st'" for acc st'
  proof -
    have st': "wf_parser st'" "remaining st' < n"
      using le_wfp [OF that] le_remaining [OF that] lt_bound [OF le(2) n] by auto
    show ?thesis unfolding field_init_step_def parser_simps
    proof (rule runs_bind [OF parseFieldInit_runs [OF st']], goal_cases)
      case (2 f st2)
      with more_if_runs [of st2 Comma "acc @ [f]"] show ?case by (auto intro: runs_lift)
    qed (use st' in simp)
  qed
  have "runs (\<lambda>_. False) ?st (if \<not> Parser_at RBrace ?st then ploop (field_init_step self) [] ?st else Some ([], ?st))"
    using wf1 step by (auto intro!: ploop_runs)
  with le show ?thesis unfolding parse_new_fields_def parser_simps
    by (auto intro!: runs_bind)
qed

lemma parseNewExpr_runs:
  assumes wf: "wf_parser st" and n: "remaining st \<le> n" and at: "\<not> Parser_at EndOfFile st"
  shows "runs (\<lambda>_. True) st (parseNewExpr self st)"
proof -
  have strat: "lt st st1 \<Longrightarrow> lt st (snd (parse_strategy cap st1))" for cap st1
    by (simp add: parse_strategy_def parser_simps)
  let ?st3 = "snd (Parser_nextNodeId (snd (Parser_nextNodeId (snd (Parser_advance st)))))"
  let ?cap = "parse_capability ?st3"
  let ?st5 = "snd (parse_strategy (fst ?cap) (snd ?cap))"
  let ?st7 = "snd (Parser_consume Question (snd (parse_new_name ?st5)))"
  have "lt st ?st5" using wf at by (intro strat) simp
  then have lt: "lt st ?st7" by (simp add: parse_new_name_def parser_simps)
  have args: "runs (\<lambda>_. False) ?st7 (if Parser_at LParen ?st7 then parseCallArguments self ?st7 else Some ([], ?st7))"
    using lt_bound [OF lt n] by (auto intro: runs_mono [OF parseCallArguments_runs])
  show ?thesis unfolding parseNewExpr_def Let_def case_prod_beta
    by (rule runs_bind, rule args,
        use lt in \<open>auto simp: lt_le intro!: runs_bind [OF parse_new_fields_runs [OF _ n]]\<close>)
qed

lemma some_expr_runs: "runs (\<lambda>_. True) st r \<Longrightarrow> runs P st (some_expr r)"
  by (auto simp: some_expr_def runs_def)

lemma parsePrimaryExpr_runs:
  assumes wf: "wf_parser st" and n: "remaining st \<le> n"
  shows "runs some st (parsePrimaryExpr self st)"
proof (cases "Parser_at EndOfFile st")
  case True
  then show ?thesis
    using wf by (simp add: parsePrimaryExpr_def Let_def Parser_at_def literal_tokens_def)
next
  case False
  note kw = keyword_exprs_run [OF wf n False, THEN some_expr_runs]
    keyword_exprs_run2 [OF wf n False, THEN some_expr_runs] parseNewExpr_runs [OF wf n False, THEN some_expr_runs]
  have lt: "lt st (snd (Parser_advance st))" using wf False by simp
  have blk: "runs some st (p_block self st \<bind> (\<lambda>(b, st1). Some (Some (BlockE b), st1)))"
    if "Parser_at LBrace st"
    by (rule runs_bind [OF block_runs [OF wf]]) (use that n wf in auto)
  have par: "runs some st (p_expr self (snd (Parser_advance st)) \<bind>
       (\<lambda>(e, st1). Some (e, Parser_expect RParen msg st1)))" for msg
    by (rule runs_bind [OF below(1) [OF lt n]]) (use lt in \<open>auto simp: lt_le\<close>)
  have leaf: "lt st (snd (Parser_advance (snd (Parser_nextNodeId st))))" using wf False by simp
  show ?thesis
    unfolding parsePrimaryExpr_def Let_def
    by (intro runs_if kw par) (use blk leaf wf in \<open>auto simp: Parser_at_def case_prod_beta lt_le\<close>)
qed

lemma postfix_step_runs:
  assumes wf: "wf_parser st" and n: "remaining st \<le> n"
  shows "runs snd st (postfix_step self e st)"
proof (cases e)
  case (Some obj)
  let ?st = "snd (Parser_nextNodeId (snd (Parser_advance st)))"
  have call: "runs snd st (parseCallArguments self (snd (Parser_nextNodeId st)) \<bind>
      (\<lambda>p. Some ((f p, True), snd p)))" if "Parser_at LParen st" for f
    by (rule runs_bind [OF parseCallArguments_runs])
       (use wf n that le_remaining [OF nextNodeId_le [OF wf]] in auto)
  have idx: "runs snd st (p_expr self ?st \<bind> (\<lambda>p. Some ((f p, True), Parser_expect RBracket msg (snd p))))"
    if "\<not> Parser_at EndOfFile st" for f msg
  proof -
    have lt: "lt st ?st" using wf that by simp
    show ?thesis by (rule runs_bind [OF below(1) [OF lt n]]) (use lt in \<open>auto simp: lt_le\<close>)
  qed
  show ?thesis
    using wf Some call idx unfolding postfix_step_def parser_simps
    by (auto simp: not_eof [of LBracket] not_eof [of Dot] lt_le)
qed (use wf in \<open>simp add: postfix_step_def\<close>)

lemma loop_le: "le st st' \<Longrightarrow> remaining st \<le> n \<Longrightarrow> wf_parser st' \<and> remaining st' \<le> n"
  using le_wfp le_remaining by fastforce

lemma ploop_None: "body None st = Some ((None, False), st) \<Longrightarrow> ploop body None st = Some (None, st)"
  by (simp add: ploop_def)

lemma parsePostfixExpr_runs:
  assumes wf: "wf_parser st" and n: "remaining st \<le> n"
  shows "runs some st (parsePostfixExpr self st)"
  unfolding parsePostfixExpr_def parser_simps
proof (rule runs_bind [OF parsePrimaryExpr_runs [OF wf n]], goal_cases)
  case (2 e st2)
  show ?case
  proof (cases e)
    case None
    then show ?thesis using 2 by (simp add: ploop_None postfix_step_def)
  next
    case (Some x)
    have "runs (\<lambda>_. False) st2 (ploop (postfix_step self) e st2)"
      using loop_le [OF 2(2) n] by (intro ploop_runs) (auto dest: loop_le intro: postfix_step_runs)
    then show ?thesis using 2(3) Some by (auto intro: runs_lift_lt)
  qed
qed (use wf in simp)

lemma binary_step_runs:
  assumes wf: "wf_parser st" and n: "remaining st \<le> n" and k: "0 < k"
  shows "runs snd st (binary_step self k e st)"
proof (cases "e = None \<or> binaryPrecedence (tok_kind (cur st)) < k")
  case True
  then show ?thesis using wf by (auto simp: binary_step_def Let_def split: option.splits)
next
  case False
  then have "\<not> Parser_at EndOfFile st" using k by (auto simp: binaryPrecedence_def Parser_at_def)
  then have lt: "lt st (snd (Parser_advance st))" using wf by simp
  have "runs snd st (p_binary self (Suc j) (snd (Parser_advance st)) \<bind>
      (\<lambda>p. Some ((f p, True), snd (Parser_nextNodeId (snd p)))))" for f j
    by (rule runs_bind [OF below(3) [OF lt n]]) (use lt in \<open>auto simp: lt_le\<close>)
  then show ?thesis using False unfolding binary_step_def parser_simps by auto
qed

lemma parseBinaryExpr_runs:
  assumes wf: "wf_parser st" and n: "remaining st \<le> n" and k: "0 < k"
  shows "runs some st (parseBinaryExpr self k st)"
  unfolding parseBinaryExpr_def parser_simps
proof (rule runs_bind [OF parsePostfixExpr_runs [OF wf n]], goal_cases)
  case (2 e st2)
  show ?case
  proof (cases e)
    case None
    then show ?thesis using 2 by (simp add: ploop_None binary_step_def)
  next
    case (Some x)
    have "runs (\<lambda>_. False) st2 (ploop (binary_step self k) e st2)"
      using loop_le [OF 2(2) n] k by (intro ploop_runs) (auto dest: loop_le intro: binary_step_runs)
    then show ?thesis using 2(3) Some by (auto intro: runs_lift_lt)
  qed
qed (use wf in simp)

lemma parseAssignExpr_runs:
  assumes wf: "wf_parser st" and n: "remaining st \<le> n"
  shows "runs some st (parseAssignExpr self st)"
  unfolding parseAssignExpr_def parser_simps
proof (rule runs_bind [OF parseBinaryExpr_runs [OF wf n]], goal_cases)
  case (3 lhs st2)
  let ?st = "snd (Parser_consume Equal st2)"
  show ?case
  proof (cases "fst (Parser_consume Equal st2)")
    case True
    then have lt: "lt st ?st" using 3 by simp
    have asg: "runs P st (p_assign self (snd (Parser_nextNodeId st1)) \<bind> (\<lambda>p. Some (f p, snd p)))"
      if "lt st st1" for st1 f P
      by (rule runs_bind [OF below(2) [OF _ n]]) (use that in \<open>auto simp: lt_le\<close>)
    from True lt show ?thesis by (auto intro!: asg)
  next
    case False
    then have "?st = st2" by (simp add: Parser_consume_def split: if_splits)
    with False 3 show ?thesis by auto
  qed
qed (use wf in simp_all)

lemma parseExpr_runs:
  assumes wf: "wf_parser st" and n: "remaining st \<le> n"
  shows "runs some st (parseExpr self st)"
  using parseBindingExpr_runs [OF wf n] keyword_exprs_run(2) [OF wf n] parseAssignExpr_runs [OF wf n]
    not_eof [of KwLet st] not_eof [of KwVar st] not_eof [of KwReturn st]
  by (auto simp: parseExpr_def intro: some_expr_runs)

lemma block_step_runs:
  assumes wf: "wf_parser st" and n: "remaining st \<le> n"
  shows "runs snd st (block_step self es st)"
proof (cases "Parser_at RBrace st \<or> Parser_at EndOfFile st")
  case True
  then show ?thesis using wf by (auto simp: block_step_def)
next
  case False
  show ?thesis
  proof (cases "Parser_at EndOfFile st")
    case False': False
    obtain e st1 where e: "parseExpr self st = Some (e, st1)" "le st st1" "some e \<longrightarrow> lt st st1"
      using parseExpr_runs [OF wf n] by (auto simp: runs_def)
    have stuck: "lt st st1" if "e = None" "Parser_at RBrace st1 \<or> Parser_at EndOfFile st1"
    proof (rule ccontr)
      assume "\<not> lt st st1"
      with e(2) have "ps_index st1 = ps_index st" "ps_tokens st1 = ps_tokens st"
        using wfp_not_eof [OF wf False'] by (auto simp: lt_def le_def remaining_def)
      then have "Parser_at k st1 = Parser_at k st" for k by (simp add: Parser_at_def Parser_peek_def Let_def)
      with that False show False by simp
    qed
    show ?thesis
      using e stuck False by (auto simp: block_step_def parser_simps lt_le)
  qed (use False in simp)
qed

lemma parseBlock_runs:
  assumes wf: "wf_parser st" and n: "remaining st \<le> n \<or> Parser_at LBrace st \<and> remaining st \<le> Suc n"
  shows "runs (\<lambda>_. Parser_at LBrace st) st (parseBlock self st)"
proof -
  let ?st = "snd (Parser_nextNodeId (Parser_expect LBrace ''expected block'' st))"
  have le: "le st ?st" using wf by simp
  have lt: "lt st ?st" if "Parser_at LBrace st" using wf that by simp
  have n': "remaining ?st \<le> n" using n lt le_remaining [OF le] by (auto simp: lt_def)
  have "runs (\<lambda>_. False) ?st (ploop (block_step self) [] ?st)"
    using wf by (intro ploop_runs) (auto dest!: loop_le [OF _ n'] intro: block_step_runs)
  then show ?thesis unfolding parseBlock_def parser_simps
    by (rule runs_bind) (use le lt in auto)
qed

text \<open>The level above keeps the contract, with one more token.\<close>

lemma next_level: "parser_level (Suc n)
    \<lparr>p_expr = parseExpr self, p_assign = parseAssignExpr self, p_binary = parseBinaryExpr self,
     p_primary = parsePrimaryExpr self, p_if = parseIfExpr self, p_block = parseBlock self\<rparr>"
  by unfold_locales
     (auto simp del: not_None_eq intro: parseExpr_runs parseAssignExpr_runs parseBinaryExpr_runs parsePrimaryExpr_runs
        keyword_exprs_run2(3) parseBlock_runs)

end


lemma pfuns_level: "parser_level n (pfuns_at n)"
proof (induction n)
  case 0
  have nz: "0 < remaining st" if "wf_parser st" "Parser_at LBrace st" for st
    using wfp_not_eof [OF that(1) not_eof [OF that(2)]] by (simp add: remaining_def)
  show ?case by unfold_locales (auto dest: nz)
next
  case (Suc n)
  then show ?case using parser_level.next_level [OF Suc] by simp
qed

interpretation level: parser_level n "pfuns_at n" for n
  by (rule pfuns_level)

declare pfuns_at.simps [simp del]


subsection \<open>Declarations and files\<close>

lemma bound_step_runs: "wf_parser st \<Longrightarrow> runs snd st (bound_step bs st)"
  unfolding bound_step_def parser_simps
  by (auto simp: not_eof [of Identifier] intro: runs_lift_lt [OF more_if_runs])

lemma ploop_runs_wf:
  "wf_parser st \<Longrightarrow> (\<And>acc st'. wf_parser st' \<Longrightarrow> runs snd st' (body acc st')) \<Longrightarrow>
   runs (\<lambda>_. False) st (ploop body acc st)"
  by (rule ploop_runs) (auto dest: le_wfp)

lemma parseGenericParam_runs: "wf_parser st \<Longrightarrow> runs (\<lambda>_. False) st (parseGenericParam st)"
  unfolding parseGenericParam_def parser_simps
  by (auto intro!: runs_bind [OF ploop_runs_wf [OF _ bound_step_runs]])

lemma generic_step_runs:
  assumes wf: "wf_parser st" shows "runs snd st (generic_step ps st)"
  unfolding generic_step_def parser_simps
proof (rule runs_bind [OF parseGenericParam_runs [OF wf]], goal_cases)
  case (2 p st2)
  with more_if_runs [of st2 Comma "ps @ [p]"] show ?case by (auto intro: runs_lift)
qed (use wf in simp)

lemma parseGenericParams_runs: "wf_parser st \<Longrightarrow> runs (\<lambda>_. False) st (parseGenericParams st)"
  unfolding parseGenericParams_def parser_simps
  by (auto intro!: runs_bind [OF ploop_runs_wf [OF _ generic_step_runs]])

lemma param_step_runs:
  assumes wf: "wf_parser st" shows "runs snd st (param_step ps st)"
proof (cases "Parser_at Identifier st")
  case True
  let ?st = "Parser_expect Colon ''expected ':' after parameter name'' (snd (Parser_advance st))"
  have lt: "lt st ?st" using wf not_eof [OF True] by simp
  have "runs snd st (parseTypeRef ?st \<bind> (\<lambda>p. more_if Comma (f p) (snd p)))" for f :: "_ \<Rightarrow> param list"
  proof (rule runs_bind [OF parseTypeRef_runs], goal_cases)
    case (3 x st2)
    then show ?case using runs_lift_lt [OF more_if_runs [of st2 Comma "f (x, st2)"], of st] lt by simp
  qed (use lt wf in \<open>auto simp: lt_le\<close>)
  with True show ?thesis unfolding param_step_def parser_simps by simp
qed (use wf in \<open>simp add: param_step_def\<close>)

text \<open>From here on \<open>self\<close> is a level with at least as much budget as there are tokens left.\<close>

lemma parse_fn_rest_runs:
  assumes wf: "wf_parser st" and n: "remaining st \<le> n"
  shows "runs (\<lambda>_. False) st (parse_fn_rest (pfuns_at n) rb loc fn st)"
proof -
  have gs: "runs (\<lambda>_. False) st (if Parser_at Less st then parseGenericParams st else Some ([], st))"
    using wf by (auto intro: parseGenericParams_runs)
  have ps: "runs (\<lambda>_. False) st1 (parse_params st1)" if "wf_parser st1" for st1
    using that by (auto simp: parse_params_def intro!: ploop_runs_wf param_step_runs)
  have ret: "runs (\<lambda>_. False) st1 (parse_return_type st1)" if "wf_parser st1" for st1
    using that unfolding parse_return_type_def parser_simps by (auto intro!: runs_bind [OF parseTypeRef_runs])
  have body: "runs (\<lambda>_. False) st1 (parse_body (pfuns_at n) rb st1)" if "le st st1" "wf_parser st1" for st1
    using that n le_remaining [OF that(1)] unfolding parse_body_def parser_simps
    by (auto intro!: runs_bind [OF level.parseBlock_runs])
  show ?thesis
    unfolding parse_fn_rest_def Let_def case_prod_beta
    by (rule runs_bind [OF gs]) (use wf in \<open>auto intro!: runs_bind [OF ps] runs_bind [OF ret] runs_bind [OF body]\<close>)
qed

lemma parseFnDecl_runs:
  assumes wf: "wf_parser st" and n: "remaining st \<le> n" and at: "\<not> Parser_at EndOfFile st"
  shows "runs (\<lambda>_. True) st (parseFnDecl (pfuns_at n) rb st)"
proof -
  let ?st = "snd (Parser_advance (snd (Parser_nextNodeId (snd (Parser_advance st)))))"
  have lt: "lt st ?st" using wf at by simp
  have "runs (\<lambda>_. False) ?st (parse_fn_rest (pfuns_at n) rb loc fn ?st)" for loc fn
    by (rule parse_fn_rest_runs) (use lt wf n in \<open>auto simp: lt_def\<close>)
  then have "runs (\<lambda>_. True) st (parse_fn_rest (pfuns_at n) rb loc fn ?st)" for loc fn
    using lt by (blast intro: runs_lift_lt)
  then show ?thesis unfolding parseFnDecl_def parser_simps using wf at by (auto simp: lt_le)
qed


lemma parseFieldDecl_runs:
  assumes wf: "wf_parser st" and at: "\<not> Parser_at EndOfFile st"
  shows "runs (\<lambda>_. True) st (parseFieldDecl st)"
proof -
  let ?st = "snd (Parser_advance (snd (Parser_nextNodeId st)))"
  have lt: "lt st ?st" using wf at by simp
  show ?thesis
    using lt wf at unfolding parseFieldDecl_def parser_simps
    by (auto simp: lt_le intro!: runs_bind [OF parseTypeRef_runs])
qed

lemma decl_steps_run:
  assumes wf: "wf_parser st" and n: "remaining st \<le> n"
  shows "runs snd st (struct_step (pfuns_at n) acc st)" and "runs snd st (trait_step (pfuns_at n) ms st)"
    and "runs snd st (impl_step (pfuns_at n) ms st)"
proof -
  note fn = parseFnDecl_runs [OF wf n]
  show "runs snd st (struct_step (pfuns_at n) acc st)"
    unfolding struct_step_def parser_simps
    using wf by (auto intro!: runs_bind [OF fn] runs_bind [OF parseFieldDecl_runs])
  show "runs snd st (trait_step (pfuns_at n) ms st)"
    unfolding trait_step_def parser_simps using wf by (auto intro!: runs_bind [OF fn])
  show "runs snd st (impl_step (pfuns_at n) ms st)"
    unfolding impl_step_def parser_simps using wf by (auto intro!: runs_bind [OF fn])
qed

lemma decl_loops_run:
  assumes "wf_parser st" and "remaining st \<le> n"
  shows "runs (\<lambda>_. False) st (ploop (struct_step (pfuns_at n)) acc st)"
    and "runs (\<lambda>_. False) st (ploop (trait_step (pfuns_at n)) ms st)"
    and "runs (\<lambda>_. False) st (ploop (impl_step (pfuns_at n)) ms st)"
  by (rule ploop_runs [OF assms(1)], rule decl_steps_run,
      use assms(2) in \<open>auto dest: le_wfp le_remaining\<close>)+

lemma impl_header_lt: "lt st st1 \<Longrightarrow> lt st (snd (parse_impl_header st1))"
  by (simp add: parse_impl_header_def parser_simps)

lemma parseDecls_run:
  assumes wf: "wf_parser st" and n: "remaining st \<le> n" and at: "\<not> Parser_at EndOfFile st"
  shows "runs (\<lambda>_. True) st (parseStructDecl (pfuns_at n) st)"
    and "runs (\<lambda>_. True) st (parseTraitDecl (pfuns_at n) st)"
    and "runs (\<lambda>_. True) st (parseImplDecl (pfuns_at n) st)"
proof -
  let ?st = "snd (Parser_nextNodeId (snd (Parser_advance st)))"
  have lt: "lt st ?st" using wf at by simp
  have b: "wf_parser st1 \<and> remaining st1 \<le> n" if "lt st st1" for st1
    using that n le_wfp [OF lt_le [OF that]] by (auto simp: lt_def)
  note loops = decl_loops_run [OF b [THEN conjunct1] b [THEN conjunct2]]
  show "runs (\<lambda>_. True) st (parseStructDecl (pfuns_at n) st)"
    unfolding parseStructDecl_def parser_simps using lt
    by (auto simp: lt_le intro!: runs_bind [OF loops(1)])
  show "runs (\<lambda>_. True) st (parseTraitDecl (pfuns_at n) st)"
    unfolding parseTraitDecl_def parser_simps using lt
    by (auto simp: lt_le intro!: runs_bind [OF loops(2)])
  show "runs (\<lambda>_. True) st (parseImplDecl (pfuns_at n) st)"
  proof (cases "Parser_at Identifier ?st")
    case True
    obtain h st3 where h: "parse_impl_header ?st = (h, st3)" by fastforce
    then have "lt st st3" using impl_header_lt [OF lt] by simp
    then show ?thesis unfolding parseImplDecl_def parser_simps using True h
      by (auto simp: lt_le split: sum.split prod.split intro!: runs_bind [OF loops(3)])
  next
    case False
    then show ?thesis unfolding parseImplDecl_def parser_simps using lt by (simp add: lt_le)
  qed
qed

lemma parseDecl_runs:
  assumes wf: "wf_parser st" and n: "remaining st \<le> n"
  shows "runs some st (parseDecl (pfuns_at n) st)"
  unfolding parseDecl_def parser_simps
  using wf by (auto simp: not_eof [of KwFn] not_eof [of KwStruct] not_eof [of KwTrait] not_eof [of KwImpl]
      intro!: runs_bind [OF parseFnDecl_runs [OF wf n]] runs_bind [OF parseDecls_run(1) [OF wf n]]
        runs_bind [OF parseDecls_run(2) [OF wf n]] runs_bind [OF parseDecls_run(3) [OF wf n]])


lemma import_step_runs:
  assumes wf: "wf_parser st" shows "runs snd st (import_step file st)"
proof -
  have al: "lt st st1 \<Longrightarrow> lt st (snd (parse_alias st1))" for st1
    by (simp add: parse_alias_def parser_simps)
  have "runs (\<lambda>_. True) st (parseImport file st)" if "\<not> Parser_at EndOfFile st"
    unfolding parseImport_def parser_simps
    by (rule runs_bind [OF parsePath_runs]) (use wf that in \<open>auto simp: lt_le intro!: lt_le al\<close>)
  then show ?thesis
    using wf unfolding import_step_def parser_simps
    by (auto simp: not_eof [of KwImport] intro!: runs_bind)
qed

lemma decl_step_runs:
  assumes wf: "wf_parser st" and n: "remaining st \<le> n"
  shows "runs snd st (decl_step (pfuns_at n) file st)"
proof (cases "Parser_at EndOfFile st")
  case False
  obtain d st1 where d: "parseDecl (pfuns_at n) st = Some (d, st1)" "le st st1" "some d \<longrightarrow> lt st st1"
    using parseDecl_runs [OF wf n] by (auto simp: runs_def)
  have "lt st (snd (Parser_advance st1))" if "d = None"
  proof (cases "Parser_at EndOfFile st1")
    case True
    then have "lt st st1"
      using False d(1) that by (auto simp: parseDecl_def Let_def case_prod_beta bind_eq_Some_conv split: if_splits)
    then show ?thesis by simp
  qed (use d in simp)
  with d wf False show ?thesis
    unfolding decl_step_def by (cases d) (auto simp: lt_le)
qed (use wf in \<open>simp add: decl_step_def\<close>)

lemma ploop_n_exit:
  "ploop_n n body acc st = Some (acc', st') \<Longrightarrow> \<exists>acc0 st0. body acc0 st0 = Some ((acc', False), st')"
proof (induction n arbitrary: acc st)
  case (Suc n)
  then show ?case by (auto simp: bind_eq_Some_conv split: if_splits prod.splits) blast+
qed simp


subsection \<open>Token streams\<close>

text \<open>
  What the parser needs of its input: the token list ends with end-of-file. The lexer promises it.
\<close>

locale token_stream =
  fixes tokens :: "token list"
  assumes tokens_end: "\<exists>ts t. tokens = ts @ [t] \<and> tok_kind t = EndOfFile \<and> EndOfFile \<notin> tok_kind ` set ts"
begin

lemma wf_init: "wf_parser (Parser_init tokens de)"
  using tokens_end by (auto simp: wf_parser_def Parser_init_def)

lemma at_end_index:
  assumes "ps_tokens st = tokens" and "wf_parser st" and "Parser_at EndOfFile st"
  shows "Suc (ps_index st) = length tokens"
proof -
  obtain ts t where ts: "tokens = ts @ [t]" "EndOfFile \<notin> tok_kind ` set ts" using tokens_end by blast
  have "\<not> ps_index st < length ts"
  proof
    assume "ps_index st < length ts"
    then have "cur st \<in> set ts" using assms(1) ts by (auto simp: Parser_peek_def nth_append Let_def)
    with assms(3) ts(2) show False by (auto simp: Parser_at_def image_iff)
  qed
  with assms(1,2) ts show ?thesis by (simp add: wf_parser_def)
qed

lemma parseSourceFile_total:
  "\<exists>file st'. parseSourceFile (Parser_init tokens de) = Some (file, st') \<and>
     Suc (ps_index st') = length tokens \<and> engine.extends de (ps_diagnostics st')"
proof -
  let ?st = "Parser_init tokens de" and ?n = "Suc (remaining (Parser_init tokens de))"
  let ?st1 = "snd (Parser_nextNodeId ?st)"
  have wf: "wf_parser ?st" by (rule wf_init)
  have hdr: "runs (\<lambda>_. False) ?st1 (if Parser_at KwModule ?st1 then parseModuleHeader f ?st1 else Some (f, ?st1))" for f
    using wf unfolding parseModuleHeader_def parser_simps by (auto intro!: runs_bind [OF parsePath_runs])
  have imps: "runs (\<lambda>_. False) st (ploop import_step f st)" if "wf_parser st" for st f
    using that by (intro ploop_runs_wf import_step_runs)
  have decls: "runs (\<lambda>_. False) st (ploop (decl_step (pfuns_at ?n)) f st)" if "le ?st st" for st f
    using le_wfp [OF that] le_remaining [OF that]
    by (intro ploop_runs decl_step_runs) (auto dest: le_wfp le_remaining)
  have "runs (\<lambda>_. False) ?st (parseSourceFile ?st)"
    unfolding parseSourceFile_def Let_def case_prod_beta
    by (rule runs_bind [OF hdr])
       (use wf in \<open>auto intro!: runs_bind [OF imps] intro: runs_lift [OF decls]\<close>)
  then obtain sf st' where r: "parseSourceFile ?st = Some (sf, st')" "le ?st st'"
    by (auto simp: runs_def)
  have "\<exists>f st. ploop (decl_step (pfuns_at ?n)) f st = Some (sf, st')"
    using r(1) unfolding parseSourceFile_def Let_def case_prod_beta by (auto simp: bind_eq_Some_conv)
  then obtain f st where "ploop (decl_step (pfuns_at ?n)) f st = Some (sf, st')" by blast
  from ploop_n_exit [OF this [unfolded ploop_def]]
  obtain f0 st0 where "decl_step (pfuns_at ?n) f0 st0 = Some ((sf, False), st')"
    by blast
  then have "Parser_at EndOfFile st'"
    by (auto simp: decl_step_def bind_eq_Some_conv split: if_splits option.splits)
  with r(2) have "Suc (ps_index st') = length tokens"
    by (intro at_end_index) (auto simp: le_def Parser_init_def)
  with r show ?thesis by (auto simp: le_def Parser_init_def)
qed

end

interpretation lexed: token_stream "lexAll src" for src
  using lexAll_end [of src] by unfold_locales blast


text \<open>C13. Totality: on the tokens of any source text \<open>parseSourceFile\<close> returns a syntax tree, having
  consumed every token up to the end-of-file token, and the diagnostics it was given are a prefix
  of those it leaves.\<close>

theorem parse_lexed_source_total:
  "\<exists>f st'. parseSourceFile (Parser_init (lexAll src) de) = Some (f, st') \<and>
     Suc (ps_index st') = length (lexAll src) \<and>
     (\<exists>new. diagnostics (ps_diagnostics st') = diagnostics de @ new)"
  using lexed.parseSourceFile_total [of src de] by (simp add: engine.extends_def)

end
