(* ===== verification/Gura_Parser_Print.thy ===== *)
theory Gura_Parser_Print
  imports Gura_Lexer_Roundtrip Gura_Parser_Total
begin

section \<open>Printing syntax trees\<close>

text \<open>
  A printer of syntax trees, the grammar of the language as a function: the words of a tree, with
  parentheses exactly where precedence and associativity need them. \<open>writable\<close> describes the trees
  that a source can denote (no null pointers, no empty paths, operators of the language), and \<open>erase\<close> forgets
  what the text does not determine, node identifiers and spans. \<^verbatim>\<open>Gura_Parser_Roundtrip\<close> proves that
  the parser reads the words of a writable tree back to that tree.
\<close>

type_synonym lexeme = "token_kind \<times> string"

definition blank :: node where
  "blank = \<lparr>node_id = 0, node_span = default_span\<rparr>"

abbreviation sym :: "token_kind \<Rightarrow> lexeme" where
  "sym k \<equiv> (k, tokenKindName k)"

abbreviation ident :: "string \<Rightarrow> lexeme" where
  "ident s \<equiv> (Identifier, s)"

text \<open>A name after a dot or after \<^verbatim>\<open>fn\<close> may be the keyword \<^verbatim>\<open>new\<close>.\<close>

definition member_word :: "string \<Rightarrow> lexeme" where
  "member_word s = (if s = ''new'' then sym KwNew else ident s)"


subsection \<open>Paths and types\<close>

fun path_words :: "path \<Rightarrow> lexeme list" where
  "path_words [] = []"
| "path_words [s] = [ident s]"
| "path_words (s # p) = ident s # sym Dot # path_words p"

definition capability_words :: "ast_capability \<Rightarrow> lexeme list" where
  "capability_words cap =
     (case cap of
        Cap_None \<Rightarrow> [] | Cap_Mut \<Rightarrow> [sym KwMut] | Cap_Tmp \<Rightarrow> [sym KwTmp] | Cap_Iso \<Rightarrow> [sym KwIso]
      | Cap_Imm \<Rightarrow> [sym KwImm] | Cap_Paused \<Rightarrow> [sym KwPau] | Cap_Cown \<Rightarrow> [sym KwCown])"

primrec type_words :: "type_ref \<Rightarrow> lexeme list" where
  "type_words (TypeRef n cap name path opt isArray elem) =
     capability_words cap @
     (case map_option type_words elem of
        Some ws \<Rightarrow> sym LBracket # ws @ [sym RBracket]
      | None \<Rightarrow> path_words path @ (if opt then [sym Question] else []))"

primrec erase_type :: "type_ref \<Rightarrow> type_ref" where
  "erase_type (TypeRef n cap name path opt isArray elem) =
     TypeRef blank cap name path opt isArray (map_option erase_type elem)"

text \<open>An array type, a named type, or a bare capability.\<close>

primrec writable_type :: "type_ref \<Rightarrow> bool" where
  "writable_type (TypeRef n cap name path opt isArray elem) =
     (case map_option writable_type elem of
        Some ok \<Rightarrow> ok \<and> isArray \<and> path = [] \<and> name = [] \<and> \<not> opt
      | None \<Rightarrow> \<not> isArray \<and>
          (if path = [] then cap \<noteq> Cap_None \<and> name = [] \<and> \<not> opt else name = last path))"


subsection \<open>Expressions\<close>

text \<open>
  The level of an expression: 0 for bindings and returns, 1 for assignments, 2 to 4 for the
  operators by precedence, 5 for calls, indexing and field accesses, 6 for primary expressions.
\<close>

definition operator_kind :: "string \<Rightarrow> token_kind" where
  "operator_kind op = (case um_find punct_table op of Some k \<Rightarrow> k | None \<Rightarrow> EndOfFile)"

abbreviation precedence :: "string \<Rightarrow> nat" where
  "precedence op \<equiv> binaryPrecedence (operator_kind op)"

fun expr_level :: "expr \<Rightarrow> nat" where
  "expr_level (BindingExpr _ _ _ _ _) = 0"
| "expr_level (ReturnExpr _ _) = 0"
| "expr_level (AssignExpr _ _ _) = 1"
| "expr_level (BinaryExpr _ op _ _) = Suc (precedence op)"
| "expr_level (FieldAccessExpr _ _ _) = 5"
| "expr_level (IndexExpr _ _ _) = 5"
| "expr_level (CallExpr _ _ _) = 5"
| "expr_level _ = 6"

definition literal_word :: "literal_kind \<Rightarrow> string \<Rightarrow> lexeme" where
  "literal_word k text =
     ((case k of Lit_Integer \<Rightarrow> IntegerLiteral | Lit_Float \<Rightarrow> FloatLiteral | Lit_String \<Rightarrow> StringLiteral
       | Lit_Char \<Rightarrow> CharLiteral | Lit_None \<Rightarrow> KwNone
       | Lit_Bool \<Rightarrow> if text = ''true'' then KwTrue else KwFalse), text)"

text \<open>Parentheses around words of level \<open>l\<close> where level \<open>k\<close> is wanted.\<close>

definition parens :: "nat \<Rightarrow> nat \<Rightarrow> lexeme list \<Rightarrow> lexeme list" where
  "parens k l ws = (if l < k then sym LParen # ws @ [sym RParen] else ws)"

fun commas :: "lexeme list list \<Rightarrow> lexeme list" where
  "commas [] = []"
| "commas [ws] = ws"
| "commas (ws # wss) = ws @ sym Comma # commas wss"

text \<open>
  The words of an expression without parentheses around it, and of an operand where level \<open>k\<close> is
  wanted.
\<close>

fun bare :: "expr \<Rightarrow> lexeme list" and operand :: "nat \<Rightarrow> expr option \<Rightarrow> lexeme list"
    and block_words :: "block \<Rightarrow> lexeme list" and init_words :: "field_init \<Rightarrow> lexeme list" where
  "bare (LiteralExpr n k text suffix) = [literal_word k text]"
| "bare (NameExpr n s) = [ident s]"
| "bare (BinaryExpr n op l r) =
     operand (Suc (precedence op)) l @ (operator_kind op, op) # operand (Suc (Suc (precedence op))) r"
| "bare (AssignExpr n l r) = operand 2 l @ sym Equal # operand 1 r"
| "bare (FieldAccessExpr n e f) = operand 5 e @ [sym Dot, member_word f]"
| "bare (ArrayLiteralExpr n es) = sym LBracket # commas (map (operand 0) es) @ [sym RBracket]"
| "bare (IndexExpr n e i) = operand 5 e @ sym LBracket # operand 0 i @ [sym RBracket]"
| "bare (BindingExpr n isVar name ty v) =
     sym (if isVar then KwVar else KwLet) # ident name #
     (case ty of Some t \<Rightarrow> sym Colon # type_words t | None \<Rightarrow> []) @ sym Equal # operand 0 v"
| "bare (MoveExpr n v) = sym KwMove # operand 6 v"
| "bare (NewExpr n ty strategy fs) =
     sym KwNew #
     (case ty of
        Some t \<Rightarrow> capability_words (tr_capability t) @
          (if strategy = [] then [] else [sym Less, ident strategy, sym Greater]) @
          ident (tr_name t) # (if tr_optional t then [sym Question] else [])
      | None \<Rightarrow> []) @
     sym LBrace # commas (map init_words fs) @ [sym RBrace]"
| "bare (CallExpr n f args) = operand 5 f @ sym LParen # commas (map (operand 0) args) @ [sym RParen]"
| "bare (FreezeExpr n v) = sym KwFreeze # operand 6 v"
| "bare (MergeExpr n v) = sym KwMerge # operand 6 v"
| "bare (IfExpr n c b e) =
     sym KwIf # operand 0 c @ (case b of Some bl \<Rightarrow> block_words bl | None \<Rightarrow> []) @
     (case e of Some x \<Rightarrow> sym KwElse # bare x | None \<Rightarrow> [])"
| "bare (WhileExpr n c b) =
     sym KwWhile # operand 0 c @ (case b of Some bl \<Rightarrow> block_words bl | None \<Rightarrow> [])"
| "bare (BlockE b) = block_words b"
| "bare (RegionExpr n kind src name b) =
     sym (if kind = Region_Enter then KwEnter else KwExplore) # operand 0 src @
     sym KwAs # ident name # (case b of Some bl \<Rightarrow> block_words bl | None \<Rightarrow> [])"
| "bare (ReturnExpr n v) = sym KwReturn # operand 0 v"
| "operand k None = []"
| "operand k (Some e) = parens k (expr_level e) (bare e)"
| "block_words (BlockExpr n es) =
     sym LBrace # concat (map (\<lambda>e. operand 0 e @ [sym Semicolon]) es) @ [sym RBrace]"
| "init_words (FieldInit n name v) = ident name # sym Colon # operand 0 v"

text \<open>What an assignment, an \<^verbatim>\<open>else\<close> and \<^verbatim>\<open>new\<close> may have as operands.\<close>

fun is_else_part :: "expr option \<Rightarrow> bool" where
  "is_else_part None = True"
| "is_else_part (Some (IfExpr _ _ _ _)) = True"
| "is_else_part (Some (BlockE _)) = True"
| "is_else_part (Some _) = False"

fun is_new_type :: "type_ref option \<Rightarrow> string \<Rightarrow> bool" where
  "is_new_type (Some (TypeRef n cap name path opt isArray elem)) strategy \<longleftrightarrow>
     path = [] \<and> \<not> isArray \<and> elem = None \<and> (strategy = [] \<or> cap = Cap_Iso)"
| "is_new_type None strategy \<longleftrightarrow> False"

fun writable :: "expr \<Rightarrow> bool" and writable_operand :: "expr option \<Rightarrow> bool"
    and writable_block :: "block \<Rightarrow> bool" and writable_init :: "field_init \<Rightarrow> bool" where
  "writable (LiteralExpr n k text suffix) \<longleftrightarrow> suffix = numericSuffix text k"
| "writable (NameExpr n s) \<longleftrightarrow> True"
| "writable (BinaryExpr n op l r) \<longleftrightarrow> precedence op \<noteq> 0 \<and> writable_operand l \<and> writable_operand r"
| "writable (AssignExpr n l r) \<longleftrightarrow> is_assignable l \<and> writable_operand l \<and> writable_operand r"
| "writable (FieldAccessExpr n e f) \<longleftrightarrow> writable_operand e"
| "writable (ArrayLiteralExpr n es) \<longleftrightarrow> (\<forall>e \<in> set es. writable_operand e)"
| "writable (IndexExpr n e i) \<longleftrightarrow> writable_operand e \<and> writable_operand i"
| "writable (BindingExpr n isVar name ty v) \<longleftrightarrow> pred_option writable_type ty \<and> writable_operand v"
| "writable (MoveExpr n v) \<longleftrightarrow> writable_operand v"
| "writable (NewExpr n ty strategy fs) \<longleftrightarrow> is_new_type ty strategy \<and> (\<forall>f \<in> set fs. writable_init f)"
| "writable (CallExpr n f args) \<longleftrightarrow> writable_operand f \<and> (\<forall>e \<in> set args. writable_operand e)"
| "writable (FreezeExpr n v) \<longleftrightarrow> writable_operand v"
| "writable (MergeExpr n v) \<longleftrightarrow> writable_operand v"
| "writable (IfExpr n c b e) \<longleftrightarrow>
     writable_operand c \<and> (case b of Some bl \<Rightarrow> writable_block bl | None \<Rightarrow> False) \<and>
     (case e of Some x \<Rightarrow> writable x \<and> is_else_part e | None \<Rightarrow> True)"
| "writable (WhileExpr n c b) \<longleftrightarrow>
     writable_operand c \<and> (case b of Some bl \<Rightarrow> writable_block bl | None \<Rightarrow> False)"
| "writable (BlockE b) \<longleftrightarrow> writable_block b"
| "writable (RegionExpr n kind src name b) \<longleftrightarrow>
     writable_operand src \<and> (case b of Some bl \<Rightarrow> writable_block bl | None \<Rightarrow> False)"
| "writable (ReturnExpr n v) \<longleftrightarrow> writable_operand v"
| "writable_operand None \<longleftrightarrow> False"
| "writable_operand (Some e) \<longleftrightarrow> writable e"
| "writable_block (BlockExpr n es) \<longleftrightarrow> (\<forall>e \<in> set es. writable_operand e)"
| "writable_init (FieldInit n name v) \<longleftrightarrow> writable_operand v"

primrec erase :: "expr \<Rightarrow> expr" and erase_block :: "block \<Rightarrow> block"
    and erase_init :: "field_init \<Rightarrow> field_init" where
  "erase (LiteralExpr n k text suffix) = LiteralExpr blank k text suffix"
| "erase (NameExpr n s) = NameExpr blank s"
| "erase (BinaryExpr n op l r) = BinaryExpr blank op (map_option erase l) (map_option erase r)"
| "erase (AssignExpr n l r) = AssignExpr blank (map_option erase l) (map_option erase r)"
| "erase (FieldAccessExpr n e f) = FieldAccessExpr blank (map_option erase e) f"
| "erase (ArrayLiteralExpr n es) = ArrayLiteralExpr blank (map (map_option erase) es)"
| "erase (IndexExpr n e i) = IndexExpr blank (map_option erase e) (map_option erase i)"
| "erase (BindingExpr n isVar name ty v) =
     BindingExpr blank isVar name (map_option erase_type ty) (map_option erase v)"
| "erase (MoveExpr n v) = MoveExpr blank (map_option erase v)"
| "erase (NewExpr n ty strategy fs) = NewExpr blank (map_option erase_type ty) strategy (map erase_init fs)"
| "erase (CallExpr n f args) = CallExpr blank (map_option erase f) (map (map_option erase) args)"
| "erase (FreezeExpr n v) = FreezeExpr blank (map_option erase v)"
| "erase (MergeExpr n v) = MergeExpr blank (map_option erase v)"
| "erase (IfExpr n c b e) = IfExpr blank (map_option erase c) (map_option erase_block b) (map_option erase e)"
| "erase (WhileExpr n c b) = WhileExpr blank (map_option erase c) (map_option erase_block b)"
| "erase (BlockE b) = BlockE (erase_block b)"
| "erase (RegionExpr n kind src name b) =
     RegionExpr blank kind (map_option erase src) name (map_option erase_block b)"
| "erase (ReturnExpr n v) = ReturnExpr blank (map_option erase v)"
| "erase_block (BlockExpr n es) = BlockExpr blank (map (map_option erase) es)"
| "erase_init (FieldInit n name v) = FieldInit blank name (map_option erase v)"

end
