(* ===== verification/Gura_Parser_Reads.thy ===== *)
theory Gura_Parser_Reads
  imports Gura_Parser_Print
begin

section \<open>What a parse function reads\<close>

text \<open>
  The words ahead of a parser state determine what its functions do, up to node identifiers and
  spans. \<open>returns P ws d r\<close> says that a result \<open>r\<close> is a value with \<open>P\<close> and a state with the words
  \<open>ws\<close> ahead and the diagnostics \<open>d\<close>; \<open>in_loop\<close> says the same of a loop that stands before a round;
  \<open>reads_at k us e\<close> says that the parse function of level \<open>k\<close> reads the words \<open>us\<close> as the tree \<open>e\<close>,
  whatever stands behind them that does not continue an expression of that level.
\<close>

definition ahead :: "parser \<Rightarrow> lexeme list" where
  "ahead st = map (\<lambda>t. (tok_kind t, tok_text t)) (drop (ps_index st) (ps_tokens st))"

abbreviation diag :: "parser \<Rightarrow> diagnostic_engine" where
  "diag \<equiv> ps_diagnostics"

lemma remaining_ahead [simp]: "remaining st = length (ahead st)"
  by (simp add: remaining_def ahead_def)

lemma ahead_cur:
  "ahead st \<noteq> [] \<Longrightarrow> (tok_kind (cur st), tok_text (cur st)) = hd (ahead st)"
  by (auto simp: ahead_def Parser_peek_def Let_def hd_drop_conv_nth list.map_sel)

lemma cur_kind [simp]: "ahead st \<noteq> [] \<Longrightarrow> tok_kind (cur st) = fst (hd (ahead st))"
  by (metis ahead_cur fst_conv)

lemma cur_text [simp]: "ahead st \<noteq> [] \<Longrightarrow> tok_text (cur st) = snd (hd (ahead st))"
  by (metis ahead_cur snd_conv)

lemma at_ahead [simp]: "ahead st \<noteq> [] \<Longrightarrow> Parser_at K st \<longleftrightarrow> fst (hd (ahead st)) = K"
  by (simp add: Parser_at_def)

lemma ahead_node [simp]: "ahead (snd (Parser_nextNodeId st)) = ahead st"
  "diag (snd (Parser_nextNodeId st)) = diag st"
  by (simp_all add: Parser_nextNodeId_def ahead_def)

lemma fst_advance_cur [simp]: "fst (Parser_advance st) = cur st"
  by (simp add: Parser_advance_def)

lemma ahead_advance [simp]:
  "ahead st \<noteq> [] \<Longrightarrow> fst (hd (ahead st)) \<noteq> EndOfFile \<Longrightarrow> ahead (snd (Parser_advance st)) = tl (ahead st)"
  by (simp add: Parser_advance_def) (simp add: ahead_def drop_Suc drop_tl flip: map_tl)

lemma diag_advance [simp]: "diag (snd (Parser_advance st)) = diag st"
  by (simp add: Parser_advance_def)

lemma consume_ahead [simp]:
  "ahead st \<noteq> [] \<Longrightarrow> fst (Parser_consume K st) \<longleftrightarrow> fst (hd (ahead st)) = K"
  "ahead st \<noteq> [] \<Longrightarrow> K \<noteq> EndOfFile \<Longrightarrow>
     ahead (snd (Parser_consume K st)) = (if fst (hd (ahead st)) = K then tl (ahead st) else ahead st)"
  "diag (snd (Parser_consume K st)) = diag st"
  by (simp_all add: Parser_consume_def)

lemma expect_ahead [simp]:
  assumes "ahead st \<noteq> []" and "fst (hd (ahead st)) = K" and "K \<noteq> EndOfFile"
  shows "ahead (Parser_expect K msg st) = tl (ahead st)" and "diag (Parser_expect K msg st) = diag st"
  using assms by (simp_all add: Parser_expect_def Let_def case_prod_beta)


subsection \<open>Results\<close>

definition returns :: "('a \<Rightarrow> bool) \<Rightarrow> lexeme list \<Rightarrow> diagnostic_engine \<Rightarrow> 'a presult \<Rightarrow> bool" where
  "returns P ws d r \<longleftrightarrow> (\<exists>x st. r = Some (x, st) \<and> P x \<and> ahead st = ws \<and> diag st = d)"

lemma returns_Some [simp]: "returns P ws d (Some (x, st)) \<longleftrightarrow> P x \<and> ahead st = ws \<and> diag st = d"
  by (simp add: returns_def)

lemma returns_bind:
  assumes "returns P ws1 d1 r" and "\<And>x st. P x \<Longrightarrow> ahead st = ws1 \<Longrightarrow> diag st = d1 \<Longrightarrow> returns Q ws d (f (x, st))"
  shows "returns Q ws d (r \<bind> f)"
  using assms by (auto simp: returns_def)

lemma returns_mono: "returns P ws d r \<Longrightarrow> (\<And>x. P x \<Longrightarrow> Q x) \<Longrightarrow> returns Q ws d r"
  by (auto simp: returns_def)

definition in_loop ::
    "('a \<Rightarrow> parser \<Rightarrow> ('a \<times> bool) presult) \<Rightarrow> ('a \<Rightarrow> bool) \<Rightarrow> lexeme list \<Rightarrow> diagnostic_engine \<Rightarrow> 'a presult \<Rightarrow> bool" where
  "in_loop body P ws d r \<longleftrightarrow>
     (\<exists>m x st. r = ploop_n m body x st \<and> length (ahead st) < m \<and> P x \<and> ahead st = ws \<and> diag st = d)"

lemma in_loop_ploop:
  assumes "P x" and "ahead st = ws" and "diag st = d"
  shows "in_loop body P ws d (ploop body x st)"
  unfolding in_loop_def ploop_def remaining_ahead using assms by (intro exI conjI) (rule refl, simp_all)

lemma in_loop_start:
  assumes "returns P ws d r"
  shows "in_loop body P ws d (r \<bind> (\<lambda>(x, st). ploop body x st))"
  using assms by (auto simp: returns_def intro: in_loop_ploop)

lemma in_loop_exit:
  assumes "in_loop body P ws d r"
    and "\<And>x st. P x \<Longrightarrow> ahead st = ws \<Longrightarrow> diag st = d \<Longrightarrow>
           returns (\<lambda>(y, more). \<not> more \<and> Q y) ws' d' (body x st)"
  shows "returns Q ws' d' r"
proof -
  obtain m x st where m: "r = ploop_n m body x st" "length (ahead st) < m" "P x" "ahead st = ws" "diag st = d"
    using assms(1) by (auto simp: in_loop_def)
  with assms(2) [of x st] show ?thesis by (cases m) (auto simp: returns_def)
qed

lemma in_loop_step:
  assumes "in_loop body P ws d r" and "length ws' < length ws"
    and "\<And>x st. P x \<Longrightarrow> ahead st = ws \<Longrightarrow> diag st = d \<Longrightarrow>
           returns (\<lambda>(y, more). more \<and> Q y) ws' d' (body x st)"
  shows "in_loop body Q ws' d' r"
proof -
  obtain m x st where m: "r = ploop_n m body x st" "length (ahead st) < m" "P x" "ahead st = ws" "diag st = d"
    using assms(1) by (auto simp: in_loop_def)
  obtain y st' where y: "body x st = Some ((y, True), st')" "Q y" "ahead st' = ws'" "diag st' = d'"
    using assms(3) [OF m(3-5)] by (auto simp: returns_def)
  have "r = ploop_n (m - 1) body y st' \<and> length (ahead st') < m - 1"
    using m y(1,3) assms(2) by (cases m) auto
  with y show ?thesis unfolding in_loop_def by blast
qed


subsection \<open>Levels\<close>

definition same :: "expr option \<Rightarrow> expr option \<Rightarrow> bool" where
  "same e x \<longleftrightarrow> map_option erase x = map_option erase e"

definition opens_postfix :: "lexeme list \<Rightarrow> bool" where
  "opens_postfix ws \<longleftrightarrow> fst (hd ws) \<in> {LParen, LBracket, Dot}"

definition follows :: "lexeme list \<Rightarrow> bool" where
  "follows ws \<longleftrightarrow> ws \<noteq> [] \<and> fst (hd ws) \<noteq> KwElse"

abbreviation prec_of :: "lexeme list \<Rightarrow> nat" where
  "prec_of ws \<equiv> binaryPrecedence (fst (hd ws))"

definition ends_expr :: "lexeme list \<Rightarrow> bool" where
  "ends_expr ws \<longleftrightarrow> follows ws \<and> \<not> opens_postfix ws \<and> prec_of ws = 0 \<and> fst (hd ws) \<noteq> Equal"

definition reads_primary :: "lexeme list \<Rightarrow> expr option \<Rightarrow> bool" where
  "reads_primary us e \<longleftrightarrow>
     (\<forall>n st ws. ahead st = us @ ws \<longrightarrow> length (ahead st) \<le> n \<longrightarrow> follows ws \<longrightarrow>
        returns (same e) ws (diag st) (parsePrimaryExpr (pfuns_at n) st))"

definition reads_postfix :: "lexeme list \<Rightarrow> expr option \<Rightarrow> bool" where
  "reads_postfix us e \<longleftrightarrow>
     (\<forall>n st ws. ahead st = us @ ws \<longrightarrow> length (ahead st) \<le> n \<longrightarrow> follows ws \<longrightarrow>
        in_loop (postfix_step (pfuns_at n)) (same e) ws (diag st) (parsePostfixExpr (pfuns_at n) st))"

definition reads_binary :: "nat \<Rightarrow> lexeme list \<Rightarrow> expr option \<Rightarrow> bool" where
  "reads_binary k us e \<longleftrightarrow>
     (\<forall>j n st ws. j \<le> k \<longrightarrow> ahead st = us @ ws \<longrightarrow> length (ahead st) \<le> n \<longrightarrow> follows ws \<longrightarrow>
        \<not> opens_postfix ws \<longrightarrow> prec_of ws \<le> k \<longrightarrow>
        in_loop (binary_step (pfuns_at n) j) (same e) ws (diag st) (parseBinaryExpr (pfuns_at n) j st))"

definition reads_assign :: "lexeme list \<Rightarrow> expr option \<Rightarrow> bool" where
  "reads_assign us e \<longleftrightarrow>
     (\<forall>n st ws. ahead st = us @ ws \<longrightarrow> length (ahead st) \<le> n \<longrightarrow> ends_expr ws \<longrightarrow>
        returns (same e) ws (diag st) (parseAssignExpr (pfuns_at n) st))"

definition reads_expr :: "lexeme list \<Rightarrow> expr option \<Rightarrow> bool" where
  "reads_expr us e \<longleftrightarrow>
     (\<forall>n st ws. ahead st = us @ ws \<longrightarrow> length (ahead st) \<le> n \<longrightarrow> ends_expr ws \<longrightarrow>
        returns (same e) ws (diag st) (parseExpr (pfuns_at n) st))"

definition reads_at :: "nat \<Rightarrow> lexeme list \<Rightarrow> expr option \<Rightarrow> bool" where
  "reads_at k us e \<longleftrightarrow>
     (if k = 0 then reads_expr us e else if k = 1 then reads_assign us e
      else if k \<le> 4 then reads_binary (k - 1) us e else if k = 5 then reads_postfix us e
      else reads_primary us e)"

definition leads_operand :: "lexeme list \<Rightarrow> bool" where
  "leads_operand us \<longleftrightarrow> us \<noteq> [] \<and> fst (hd us) \<notin> {KwLet, KwVar, KwReturn}"

text \<open>A level reads what the levels above it read.\<close>

lemma primary_postfix: "reads_primary us e \<Longrightarrow> reads_postfix us e"
  unfolding reads_primary_def reads_postfix_def parsePostfixExpr_def by (blast intro: in_loop_start)

lemma postfix_stops:
  assumes "in_loop (postfix_step self) (same e) ws d r" and "\<not> opens_postfix ws" and "ws \<noteq> []"
  shows "returns (same e) ws d r"
  using assms(1) by (rule in_loop_exit) (use assms(2,3) in \<open>auto simp: postfix_step_def opens_postfix_def split: option.splits\<close>)

lemma postfix_binary: "reads_postfix us e \<Longrightarrow> reads_binary k us e"
  unfolding reads_postfix_def reads_binary_def parseBinaryExpr_def follows_def
  by (blast intro: in_loop_start postfix_stops)

lemma reads_binary_mono: "reads_binary k us e \<Longrightarrow> k' \<le> k \<Longrightarrow> reads_binary k' us e"
  unfolding reads_binary_def by (meson order.trans)

lemma binary_stops:
  assumes "in_loop (binary_step self j) (same e) ws d r" and "prec_of ws < j" and "ws \<noteq> []"
  shows "returns (same e) ws d r"
  using assms(1) by (rule in_loop_exit) (use assms(2,3) in \<open>auto simp: binary_step_def Let_def split: option.splits\<close>)

lemma binary_operand:
  assumes "reads_binary k us e" and "j \<le> k" and "ahead st = us @ ws" and "length (ahead st) \<le> n"
    and "follows ws" and "\<not> opens_postfix ws" and "prec_of ws < j"
  shows "returns (same e) ws (diag st) (parseBinaryExpr (pfuns_at n) j st)"
  using assms unfolding reads_binary_def follows_def
  by (intro binary_stops [where self = "pfuns_at n" and j = j]) auto

lemma binary_assign: "reads_binary k us e \<Longrightarrow> 1 \<le> k \<Longrightarrow> reads_assign us e"
  unfolding reads_assign_def ends_expr_def parseAssignExpr_def
  by (auto intro!: returns_bind [OF binary_operand [where k = k]] simp: follows_def Let_def case_prod_beta)

lemma assign_expr: "reads_assign us e \<Longrightarrow> leads_operand us \<Longrightarrow> reads_expr us e"
  unfolding reads_assign_def reads_expr_def parseExpr_def leads_operand_def by auto

lemma reads_lower:
  assumes "reads_at l us e" and "k \<le> l" and "0 < l \<Longrightarrow> leads_operand us"
  shows "reads_at k us e"
proof -
  have a: "reads_at k us e" if "1 \<le> k" "k \<le> l" for k
    using assms(1) that unfolding reads_at_def
    by (auto split: if_splits intro: binary_assign [of "l - 1"] binary_assign [of 1] reads_binary_mono
        postfix_binary primary_postfix)
  show ?thesis
  proof (cases "k = 0 \<and> l \<noteq> 0")
    case True
    with assms(3) a [of 1] show ?thesis by (auto simp: reads_at_def intro: assign_expr)
  next
    case False
    with assms a [of k] show ?thesis by (cases "k = 0") auto
  qed
qed

end
