(* ===== verification/Gura_Parser_Roundtrip.thy ===== *)
theory Gura_Parser_Roundtrip
  imports Gura_Parser_Reads
begin

section \<open>Parsing what was printed\<close>

lemma reads_exprD:
  assumes "reads_at 0 us e" and "ahead st = us @ ws" and "length (ahead st) < n" and "ends_expr ws"
  shows "returns (same e) ws (diag st) (p_expr (pfuns_at n) st)"
  using assms by (cases n) (auto simp: pfuns_at.simps reads_at_def reads_expr_def)

lemma reads_assignD:
  assumes "reads_at 1 us e" and "ahead st = us @ ws" and "length (ahead st) < n" and "ends_expr ws"
  shows "returns (same e) ws (diag st) (p_assign (pfuns_at n) st)"
  using assms by (cases n) (auto simp: pfuns_at.simps reads_at_def reads_assign_def)

lemma reads_primaryD:
  assumes "reads_at 6 us e" and "ahead st = us @ ws" and "length (ahead st) < n" and "follows ws"
  shows "returns (same e) ws (diag st) (p_primary (pfuns_at n) st)"
  using assms by (cases n) (auto simp: pfuns_at.simps reads_at_def reads_primary_def)

lemma reads_binaryD:
  assumes "reads_at (Suc j) us e" and "1 \<le> j" and "j \<le> 4" and "ahead st = us @ ws" and "length (ahead st) < n"
    and "follows ws" and "\<not> opens_postfix ws" and "prec_of ws < j"
  shows "returns (same e) ws (diag st) (p_binary (pfuns_at n) j st)"
proof -
  have "reads_binary j us e"
    using assms(1-3) by (auto simp: reads_at_def postfix_binary split: if_splits)
  from binary_operand [OF this] assms(4-8) show ?thesis by (cases n) (auto simp: pfuns_at.simps)
qed

lemma parse_primary_parens:
  assumes "reads_at 0 us e"
  shows "reads_at 6 (sym LParen # us @ [sym RParen]) e"
proof -
  have "returns (same e) ws (diag st) (parsePrimaryExpr (pfuns_at n) st)"
    if st: "ahead st = sym LParen # us @ sym RParen # ws" and n: "length (ahead st) \<le> n" for n st ws
  proof -
    have "returns (same e) (sym RParen # ws) (diag st) (p_expr (pfuns_at n) (snd (Parser_advance st)))"
      using reads_exprD [OF assms, of "snd (Parser_advance st)" "sym RParen # ws" n] st n
      by (simp add: ends_expr_def follows_def opens_postfix_def binaryPrecedence_def)
    then show ?thesis
      unfolding parsePrimaryExpr_def using st
      by (auto simp: literal_tokens_def Let_def intro!: returns_bind)
  qed
  then show ?thesis by (simp add: reads_at_def reads_primary_def)
qed

definition leads :: "nat \<Rightarrow> lexeme list \<Rightarrow> bool" where
  "leads k us \<longleftrightarrow> us \<noteq> [] \<and> fst (hd us) \<notin> {RParen, RBracket, RBrace, EndOfFile} \<and> (0 < k \<longrightarrow> leads_operand us)"

lemma leads_append [simp]: "leads k us \<Longrightarrow> leads k (us @ ws)"
  by (auto simp: leads_def leads_operand_def)

lemma leads_mono: "leads k us \<Longrightarrow> (0 < k' \<Longrightarrow> 0 < k) \<Longrightarrow> leads k' us"
  by (auto simp: leads_def)

definition reads :: "expr option \<Rightarrow> bool" where
  "reads e \<longleftrightarrow> (\<forall>k. reads_at k (operand k e) e \<and> leads k (operand k e))"

lemma reads_own:
  assumes "reads_at (expr_level e) (bare e) (Some e)" and "leads (expr_level e) (bare e)"
  shows "reads (Some e)"
proof -
  have "reads_at 0 (bare e) (Some e)" by (rule reads_lower [OF assms(1)]) (use assms(2) in \<open>auto simp: leads_def\<close>)
  from parse_primary_parens [OF this]
  have p: "reads_at 6 (sym LParen # bare e @ [sym RParen]) (Some e)" .
  have low: "reads_at k (sym LParen # bare e @ [sym RParen]) (Some e)" if "k \<le> 6" for k
    by (rule reads_lower [OF p that]) (simp add: leads_operand_def)
  have high: "reads_at k us (Some e) = reads_at 6 us (Some e)" if "6 < k" for k us
    using that by (simp add: reads_at_def)
  have "reads_at k (operand k (Some e)) (Some e)" for k
  proof (cases "expr_level e < k")
    case True
    then show ?thesis using low [of k] low [of 6] high [of k] by (cases "k \<le> 6") (auto simp: parens_def)
  next
    case False
    then show ?thesis using assms(2) by (auto simp: parens_def leads_def intro: reads_lower [OF assms(1)])
  qed
  moreover have "leads k (operand k (Some e))" for k
    using assms(2) by (auto simp: parens_def leads_def leads_operand_def)
  ultimately show ?thesis by (simp add: reads_def)
qed

lemma readsD: "reads e \<Longrightarrow> reads_at k (operand k e) e" "reads e \<Longrightarrow> leads k (operand k e)"
  by (simp_all add: reads_def)

lemma same_Some: "same (Some e) x \<longleftrightarrow> (\<exists>y. x = Some y \<and> erase y = erase e)"
  by (auto simp: same_def)

lemma prec_kinds [simp]:
  "binaryPrecedence RParen = 0" "binaryPrecedence RBracket = 0" "binaryPrecedence RBrace = 0"
  "binaryPrecedence LParen = 0" "binaryPrecedence LBracket = 0" "binaryPrecedence LBrace = 0"
  "binaryPrecedence Comma = 0" "binaryPrecedence Dot = 0" "binaryPrecedence Semicolon = 0"
  "binaryPrecedence Equal = 0" "binaryPrecedence KwAs = 0"
  by (simp_all add: binaryPrecedence_def)

lemmas end_defs = ends_expr_def follows_def opens_postfix_def

text \<open>A self call on the words of an operand.\<close>

lemma reads_sub:
  assumes "reads e" and "ahead st = operand 0 e @ ws" and "length (ahead st) < n" and "ends_expr ws"
  shows "returns (same e) ws (diag st) (p_expr (pfuns_at n) st)"
  using reads_exprD [OF readsD(1) [OF assms(1), of 0] assms(2-4)] .


subsection \<open>Sequences\<close>

lemma comma_loop:
  assumes step: "\<And>acc x st w ws. x \<in> set xs \<Longrightarrow> ahead st = pr x @ w # ws \<Longrightarrow> length (ahead st) < n \<Longrightarrow>
        fst w \<in> {Comma, close} \<Longrightarrow>
        returns (\<lambda>(ys, more). more = (fst w = Comma) \<and> (\<exists>y. ys = acc @ [y] \<and> R x y))
          (if fst w = Comma then ws else w # ws) (diag st) (step acc st)"
    and close: "close \<noteq> Comma"
  shows "xs \<noteq> [] \<Longrightarrow> ahead st = commas (map pr xs) @ w # ws \<Longrightarrow> fst w = close \<Longrightarrow> length (ahead st) < n \<Longrightarrow>
      length (ahead st) < m \<Longrightarrow>
      returns (\<lambda>ys. \<exists>zs. ys = acc @ zs \<and> list_all2 R xs zs) (w # ws) (diag st) (ploop_n m step acc st)"
  using step
proof (induction xs arbitrary: acc st m)
  case (Cons x xs)
  obtain m' where m: "m = Suc m'" using Cons.prems(5) by (cases m) auto
  show ?case
  proof (cases "xs = []")
    case True
    have "returns (\<lambda>(ys, more). more = (fst w = Comma) \<and> (\<exists>y. ys = acc @ [y] \<and> R x y)) (w # ws) (diag st) (step acc st)"
      using Cons.prems(6) [of x st w ws acc] Cons.prems(2-4) True close by simp
    then show ?thesis using Cons.prems(3) close True unfolding m by (auto simp: returns_def)
  next
    case False
    then obtain x' xs' where xs: "xs = x' # xs'" by (cases xs) auto
    have "returns (\<lambda>(ys, more). more \<and> (\<exists>y. ys = acc @ [y] \<and> R x y)) (commas (map pr xs) @ w # ws) (diag st) (step acc st)"
      using Cons.prems(6) [of x st "sym Comma" "commas (map pr xs) @ w # ws" acc] Cons.prems(2,4) xs by simp
    then obtain y st1 where y: "step acc st = Some ((acc @ [y], True), st1)" "R x y"
        "ahead st1 = commas (map pr xs) @ w # ws" "diag st1 = diag st"
      by (auto simp: returns_def)
    have "length (ahead st1) < length (ahead st)" using y(3) Cons.prems(2) xs by simp
    with Cons.IH [OF False y(3) Cons.prems(3), of m' "acc @ [y]"] Cons.prems(4-6) m y
    show ?thesis by (auto simp: returns_def list_all2_Cons1)
  qed
qed simp

lemma comma_ploop:
  assumes "\<And>acc x st w ws. x \<in> set xs \<Longrightarrow> ahead st = pr x @ w # ws \<Longrightarrow> length (ahead st) < n \<Longrightarrow>
        fst w \<in> {Comma, close} \<Longrightarrow>
        returns (\<lambda>(ys, more). more = (fst w = Comma) \<and> (\<exists>y. ys = acc @ [y] \<and> f y = f x))
          (if fst w = Comma then ws else w # ws) (diag st) (step acc st)"
    and "close \<noteq> Comma" and "xs \<noteq> []" and "ahead st = commas (map pr xs) @ w # ws" and "fst w = close"
    and "length (ahead st) < n"
  shows "returns (\<lambda>ys. map f ys = map f xs) (w # ws) (diag st) (ploop step [] st)"
  unfolding ploop_def
proof (rule returns_mono [OF comma_loop [where R = "\<lambda>x y. f y = f x" and close = close and n = n and pr = pr]])
  show "map f ys = map f xs" if "\<exists>zs. ys = [] @ zs \<and> list_all2 (\<lambda>x y. f y = f x) xs zs" for ys
    using that by (auto simp: list_all2_conv_all_nth intro!: nth_equalityI)
qed (use assms in simp_all)

lemma argument_reads:
  assumes "reads e" and "ahead st = operand 0 e @ w # ws" and "length (ahead st) < n"
    and "fst w \<in> {Comma, close}" and "close \<in> {RParen, RBracket}"
  shows "returns (\<lambda>(ys, more). more = (fst w = Comma) \<and> (\<exists>y. ys = acc @ [y] \<and> same e y))
          (if fst w = Comma then ws else w # ws) (diag st) (argument_step (pfuns_at n) acc st)"
  unfolding argument_step_def
  by (rule returns_bind [OF reads_sub [OF assms(1-3)]])
     (use assms(4,5) in \<open>auto simp: end_defs more_if_def case_prod_beta\<close>)

lemma arguments_read:
  assumes "\<forall>e \<in> set es. reads e" and "es \<noteq> []" and "ahead st = commas (map (operand 0) es) @ w # ws"
    and "fst w \<in> {RParen, RBracket}" and "length (ahead st) < n"
  shows "returns (\<lambda>xs. map (map_option erase) xs = map (map_option erase) es) (w # ws) (diag st)
           (ploop (argument_step (pfuns_at n)) [] st)"
  by (intro comma_ploop [where n = n and close = "fst w" and pr = "operand 0"]
        argument_reads [where close = "fst w", unfolded same_def])
     (use assms in auto)

lemma leads_commas: "leads k ws \<Longrightarrow> leads k (commas (ws # wss))"
  by (cases wss) auto


subsection \<open>Primary expressions\<close>

lemma primaryI:
  assumes "\<And>n st ws. ahead st = us @ ws \<Longrightarrow> length (us @ ws) \<le> n \<Longrightarrow> follows ws \<Longrightarrow>
      returns (same e) ws (diag st) (parsePrimaryExpr (pfuns_at n) st)"
  shows "reads_at 6 us e"
  using assms by (simp add: reads_at_def reads_primary_def)

lemma some_expr_returns: "returns (\<lambda>x. erase x = erase e) ws d r \<Longrightarrow> returns (same (Some e)) ws d (some_expr r)"
  unfolding some_expr_def by (erule returns_bind) (simp add: same_def)

lemma some_expr_returnsD: "returns (same (Some e)) ws d (some_expr r) \<Longrightarrow> returns (\<lambda>x. erase x = erase e) ws d r"
  by (auto simp: returns_def some_expr_def same_def bind_eq_Some_conv)

lemma primary_dispatch:
  assumes "ahead st = (k, s) # us"
  shows "k = KwMove \<Longrightarrow> parsePrimaryExpr self st = some_expr (parseMoveExpr self st)"
    and "k = KwNew \<Longrightarrow> parsePrimaryExpr self st = some_expr (parseNewExpr self st)"
    and "k = KwFreeze \<Longrightarrow> parsePrimaryExpr self st = some_expr (parseFreezeExpr self st)"
    and "k = KwMerge \<Longrightarrow> parsePrimaryExpr self st = some_expr (parseMergeExpr self st)"
    and "k = KwIf \<Longrightarrow> parsePrimaryExpr self st = some_expr (parseIfExpr self st)"
    and "k = KwWhile \<Longrightarrow> parsePrimaryExpr self st = some_expr (parseWhileExpr self st)"
    and "k = KwEnter \<Longrightarrow> parsePrimaryExpr self st = some_expr (parseRegionExpr Region_Enter self st)"
    and "k = KwExplore \<Longrightarrow> parsePrimaryExpr self st = some_expr (parseRegionExpr Region_Explore self st)"
    and "k = LBracket \<Longrightarrow> parsePrimaryExpr self st = some_expr (parse_array_literal self st)"
    and "k = LBrace \<Longrightarrow> parsePrimaryExpr self st =
           do { (b, st1) \<leftarrow> p_block self st; Some (Some (BlockE b), st1) }"
  using assms by (simp_all add: parsePrimaryExpr_def literal_tokens_def)

lemma reads_primary_own:
  assumes "expr_level e = 6" and "fst (hd us) \<notin> {RParen, RBracket, RBrace, EndOfFile, KwLet, KwVar, KwReturn}"
    and "us \<noteq> []" and "bare e = us"
    and "\<And>n st ws. ahead st = us @ ws \<Longrightarrow> length (us @ ws) \<le> n \<Longrightarrow> follows ws \<Longrightarrow>
      returns (same (Some e)) ws (diag st) (parsePrimaryExpr (pfuns_at n) st)"
  shows "reads (Some e)"
  using assms by (intro reads_own) (auto simp: leads_def leads_operand_def intro: primaryI)

lemma reads_literal: "suffix = numericSuffix text k \<Longrightarrow> reads (Some (LiteralExpr n k text suffix))"
proof (rule reads_primary_own [where us = "[literal_word k text]"])
  show "returns (same (Some (LiteralExpr n k text suffix))) ws (diag st) (parsePrimaryExpr (pfuns_at m) st)"
    if "ahead st = [literal_word k text] @ ws" "suffix = numericSuffix text k" for m st ws
    using that by (cases k) (auto simp: parsePrimaryExpr_def literal_word_def literal_tokens_def literal_of_def
        case_prod_beta same_def split: if_splits)
qed (auto simp: literal_word_def split: literal_kind.split)

lemma reads_name: "reads (Some (NameExpr n s))"
  by (rule reads_primary_own [where us = "[ident s]"]) (auto simp: parsePrimaryExpr_def case_prod_beta same_def)

lemma reads_move: "reads v \<Longrightarrow> reads (Some (MoveExpr n v))"
proof (rule reads_primary_own [where us = "sym KwMove # operand 6 v"])
  fix m st ws
  assume v: "reads v" and st: "ahead st = (sym KwMove # operand 6 v) @ ws" "length ((sym KwMove # operand 6 v) @ ws) \<le> m"
    and ws: "follows ws"
  have "returns (\<lambda>x. erase x = erase (MoveExpr n v)) ws (diag st) (parseMoveExpr (pfuns_at m) st)"
    unfolding parseMoveExpr_def Let_def case_prod_beta
    by (rule returns_bind [OF reads_primaryD [OF readsD(1) [OF v] _ _ ws]]) (use st in \<open>auto simp: same_def\<close>)
  then show "returns (same (Some (MoveExpr n v))) ws (diag st) (parsePrimaryExpr (pfuns_at m) st)"
    using st by (auto simp: primary_dispatch intro: some_expr_returns)
qed auto

lemma precedence_le: "binaryPrecedence k \<le> 3"
  by (simp add: binaryPrecedence_def)

lemma level_le: "expr_level e \<le> 6"
proof (cases e)
  case (BinaryExpr n op l r)
  then show ?thesis using precedence_le [of "operator_kind op"] by simp
qed simp_all

lemma bare_primary_start: "expr_level e = 6 \<Longrightarrow> fst (hd (bare e)) \<noteq> LParen"
proof (cases e)
  case (BinaryExpr n op l r)
  then show "expr_level e = 6 \<Longrightarrow> ?thesis" using precedence_le [of "operator_kind op"] by simp
next
  case (BlockE b)
  then show ?thesis by (cases b) simp
qed (auto simp: literal_word_def split: literal_kind.splits)

lemma operand_reads:
  assumes v: "reads (Some v)" and st: "ahead st = operand 6 (Some v) @ ws" "length (ahead st) < n" and ws: "follows ws"
  shows "returns (same (Some v)) ws (diag st) (parse_operand (pfuns_at n) msg st)"
proof (cases "expr_level v < 6")
  case True
  let ?st = "snd (Parser_consume LParen st)"
  have st': "ahead ?st = operand 0 (Some v) @ sym RParen # ws" "diag ?st = diag st" "length (ahead ?st) < n"
    using st True by (auto simp: parens_def)
  show ?thesis unfolding parse_operand_def Let_def case_prod_beta
    using returns_bind [OF reads_sub [OF v st'(1,3)]] st' st True
    by (auto simp: parens_def end_defs intro!: returns_bind [OF reads_sub [OF v st'(1,3)]])
next
  case False
  then have "fst (hd (ahead st)) \<noteq> LParen" "ahead st \<noteq> []"
    using level_le [of v] bare_primary_start [of v] st(1) readsD(2) [OF v, of 6] by (auto simp: parens_def leads_def)
  then show ?thesis
    unfolding parse_operand_def Let_def case_prod_beta
    using reads_primaryD [OF readsD(1) [OF v, of 6], of "snd (Parser_consume LParen st)" ws n] st ws by simp
qed

lemma reads_freeze_merge:
  assumes "reads (Some v)"
  shows "reads (Some (FreezeExpr n (Some v)))" and "reads (Some (MergeExpr n (Some v)))"
proof -
  have f: "returns (\<lambda>x. erase x = erase (FreezeExpr n (Some v))) ws (diag st) (parseFreezeExpr (pfuns_at m) st)"
      "returns (\<lambda>x. erase x = erase (MergeExpr n (Some v))) ws (diag st) (parseMergeExpr (pfuns_at m) st)"
    if "ahead st = (k, s) # operand 6 (Some v) @ ws" "k \<noteq> EndOfFile" "length (ahead st) \<le> m" "follows ws" for k s m st ws
    unfolding parseFreezeExpr_def parseMergeExpr_def Let_def case_prod_beta
    by (rule returns_bind [OF operand_reads [OF assms _ _ that(4)]]; use that in \<open>auto simp: same_def\<close>)+
  show "reads (Some (FreezeExpr n (Some v)))"
    by (rule reads_primary_own [where us = "sym KwFreeze # operand 6 (Some v)"])
       (auto simp: primary_dispatch intro!: some_expr_returns f simp del: operand.simps erase.simps)
  show "reads (Some (MergeExpr n (Some v)))"
    by (rule reads_primary_own [where us = "sym KwMerge # operand 6 (Some v)"])
       (auto simp: primary_dispatch intro!: some_expr_returns f simp del: operand.simps erase.simps)
qed

lemma reads_array: "\<forall>e \<in> set es. reads e \<Longrightarrow> reads (Some (ArrayLiteralExpr n es))"
proof (rule reads_primary_own [where us = "sym LBracket # commas (map (operand 0) es) @ [sym RBracket]"])
  fix m st ws
  assume es: "\<forall>e \<in> set es. reads e" and ws: "follows ws"
    and st: "ahead st = (sym LBracket # commas (map (operand 0) es) @ [sym RBracket]) @ ws"
      "length ((sym LBracket # commas (map (operand 0) es) @ [sym RBracket]) @ ws) \<le> m"
  let ?st = "snd (Parser_nextNodeId (snd (Parser_advance st)))"
  have st': "ahead ?st = commas (map (operand 0) es) @ sym RBracket # ws" "diag ?st = diag st" "length (ahead ?st) < m"
    using st by auto
  have "returns (\<lambda>xs. map (map_option erase) xs = map (map_option erase) es) (sym RBracket # ws) (diag st)
          (if \<not> Parser_at RBracket ?st then ploop (argument_step (pfuns_at m)) [] ?st else Some ([], ?st))"
  proof (cases es)
    case (Cons e es')
    then have "leads 0 (ahead ?st)"
      using leads_commas [OF readsD(2), of e 0] es st'(1) by simp
    then show ?thesis
      using arguments_read [OF es _ st'(1) _ st'(3)] Cons st' by (auto simp: leads_def)
  qed (use st' in simp)
  then have "returns (\<lambda>x. erase x = erase (ArrayLiteralExpr n es)) ws (diag st) (parse_array_literal (pfuns_at m) st)"
    unfolding parse_array_literal_def Let_def case_prod_beta by (rule returns_bind) simp
  then show "returns (same (Some (ArrayLiteralExpr n es))) ws (diag st) (parsePrimaryExpr (pfuns_at m) st)"
    using st by (auto simp: primary_dispatch intro: some_expr_returns)
qed auto


subsection \<open>Blocks\<close>

definition reads_block :: "block \<Rightarrow> bool" where
  "reads_block b \<longleftrightarrow>
     (\<forall>n st ws. ahead st = block_words b @ ws \<longrightarrow> length (ahead st) \<le> Suc n \<longrightarrow>
        returns (\<lambda>x. erase_block x = erase_block b) ws (diag st) (parseBlock (pfuns_at n) st))"

lemma block_start: "\<exists>us. block_words b = sym LBrace # us"
  by (cases b) simp

lemma statements_read:
  "\<forall>e \<in> set es. reads e \<Longrightarrow>
   ahead st = concat (map (\<lambda>e. operand 0 e @ [sym Semicolon]) es) @ sym RBrace # ws \<Longrightarrow>
   length (ahead st) \<le> n \<Longrightarrow> length (ahead st) < m \<Longrightarrow>
   returns (\<lambda>xs. \<exists>zs. xs = acc @ zs \<and> map (map_option erase) zs = map (map_option erase) es) (sym RBrace # ws)
     (diag st) (ploop_n m (block_step (pfuns_at n)) acc st)"
proof (induction es arbitrary: acc st m)
  case Nil
  then show ?case by (cases m) (auto simp: block_step_def)
next
  case (Cons e es)
  let ?ws = "concat (map (\<lambda>e. operand 0 e @ [sym Semicolon]) es) @ sym RBrace # ws"
  obtain m' where m: "m = Suc m'" using Cons.prems(4) by (cases m) auto
  have e: "reads e" using Cons.prems(1) by simp
  have st: "ahead st = operand 0 e @ sym Semicolon # ?ws" using Cons.prems(2) by simp
  have start: "ahead st \<noteq> []" "fst (hd (ahead st)) \<notin> {RBrace, EndOfFile}"
    using leads_append [OF readsD(2) [OF e, of 0]] unfolding st leads_def by auto
  have "returns (same e) (sym Semicolon # ?ws) (diag st) (parseExpr (pfuns_at n) st)"
    using readsD(1) [OF e, of 0] st Cons.prems(3) by (auto simp: reads_at_def reads_expr_def end_defs)
  moreover have "e \<noteq> None" using readsD(2) [OF e, of 0] by (cases e) (auto simp: leads_def)
  ultimately obtain x st1 where x: "parseExpr (pfuns_at n) st = Some (x, st1)" "same e x" "x \<noteq> None"
      "ahead st1 = sym Semicolon # ?ws" "diag st1 = diag st"
    by (auto simp: returns_def same_def)
  let ?st = "snd (Parser_consume Semicolon st1)"
  have "block_step (pfuns_at n) acc st = Some ((acc @ [x], True), ?st)"
    using start x by (simp add: block_step_def)
  moreover have st2: "ahead ?st = ?ws" "diag ?st = diag st" using x by auto
  moreover have "length (ahead ?st) \<le> n" "length (ahead ?st) < m'" using Cons.prems(3,4) m x(4) st by auto
  ultimately show ?case
    using Cons.IH [of ?st m' "acc @ [x]"] Cons.prems(1) x(2) unfolding m by (auto simp: returns_def same_def)
qed

lemma reads_blockI: "\<forall>e \<in> set es. reads e \<Longrightarrow> reads_block (BlockExpr n es)"
  unfolding reads_block_def
proof (intro allI impI)
  fix m st ws
  assume es: "\<forall>e \<in> set es. reads e" and st: "ahead st = block_words (BlockExpr n es) @ ws" "length (ahead st) \<le> Suc m"
  let ?st = "snd (Parser_nextNodeId (Parser_expect LBrace ''expected block'' st))"
  have st': "ahead ?st = concat (map (\<lambda>e. operand 0 e @ [sym Semicolon]) es) @ sym RBrace # ws" "diag ?st = diag st"
      "length (ahead ?st) \<le> m"
    using st by auto
  show "returns (\<lambda>x. erase_block x = erase_block (BlockExpr n es)) ws (diag st) (parseBlock (pfuns_at m) st)"
    unfolding parseBlock_def Let_def case_prod_beta
  proof (rule returns_bind)
    show "returns (\<lambda>xs. map (map_option erase) xs = map (map_option erase) es) (sym RBrace # ws) (diag st)
        (ploop (block_step (pfuns_at m)) [] ?st)"
      using statements_read [OF es st'(1,3), of "Suc (remaining ?st)" "[]"] st'(2)
      unfolding ploop_def remaining_ahead by simp
  qed simp
qed

lemma block_sub:
  assumes "reads_block b" and "ahead st = block_words b @ ws" and "length (ahead st) \<le> n"
  shows "returns (\<lambda>x. erase_block x = erase_block b) ws (diag st) (p_block (pfuns_at n) st)"
  using assms block_start [of b] by (cases n) (auto simp: pfuns_at.simps reads_block_def)

lemma ends_block [simp]:
  "ends_expr (block_words b @ ws)" "block_words b \<noteq> []" "hd (block_words b) = sym LBrace"
  by (cases b; simp add: end_defs)+

lemma reads_block_expr: "reads_block b \<Longrightarrow> reads (Some (BlockE b))"
proof (rule reads_primary_own [where us = "block_words b"])
  fix m st ws
  assume b: "reads_block b" and st: "ahead st = block_words b @ ws" "length (block_words b @ ws) \<le> m"
  then have "parsePrimaryExpr (pfuns_at m) st =
      do { (b, st1) \<leftarrow> p_block (pfuns_at m) st; Some (Some (BlockE b), st1) }"
    using block_start [of b] by (metis append_Cons primary_dispatch(10))
  then show "returns (same (Some (BlockE b))) ws (diag st) (parsePrimaryExpr (pfuns_at m) st)"
    using st by (auto simp: same_def intro!: returns_bind [OF block_sub [OF b st(1)]])
qed auto

lemma reads_while:
  assumes "reads c" and "reads_block b" shows "reads (Some (WhileExpr n c (Some b)))"
proof (rule reads_primary_own [where us = "sym KwWhile # operand 0 c @ block_words b"])
  fix m st ws
  assume st: "ahead st = (sym KwWhile # operand 0 c @ block_words b) @ ws"
    "length ((sym KwWhile # operand 0 c @ block_words b) @ ws) \<le> m"
  have "returns (\<lambda>x. erase x = erase (WhileExpr n c (Some b))) ws (diag st) (parseWhileExpr (pfuns_at m) st)"
    unfolding parseWhileExpr_def Let_def case_prod_beta
    by (rule returns_bind [OF reads_sub [OF assms(1), where ws = "block_words b @ ws"]], (use st in simp_all)[3])
       (rule returns_bind [OF block_sub [OF assms(2), where ws = ws]]; use st in \<open>simp add: same_def\<close>)
  then show "returns (same (Some (WhileExpr n c (Some b)))) ws (diag st) (parsePrimaryExpr (pfuns_at m) st)"
    using st by (auto simp: primary_dispatch intro: some_expr_returns)
qed auto

lemma else_reads:
  assumes e: "case e of Some x \<Rightarrow> reads e \<and> is_else_part e | None \<Rightarrow> True"
    and st: "ahead st = (case e of Some x \<Rightarrow> sym KwElse # bare x | None \<Rightarrow> []) @ ws" "length (ahead st) \<le> n"
    and ws: "follows ws"
  shows "returns (same e) ws (diag st) (parse_else (pfuns_at n) st)"
proof (cases e)
  case None
  then show ?thesis using st(1) ws by (simp add: parse_else_def case_prod_beta follows_def same_def)
next
  case (Some x)
  let ?st = "snd (Parser_consume KwElse st)"
  have st': "ahead ?st = bare x @ ws" "diag ?st = diag st" using st Some by auto
  obtain m where n: "n = Suc m" "length (ahead ?st) \<le> m" using st Some st'(1) by (cases n) auto
  have lev: "expr_level x = 6" using e Some by (cases x) auto
  have p: "returns (same e) ws (diag st) (parsePrimaryExpr (pfuns_at k) ?st)" if "m \<le> k" for k
  proof -
    have "reads_primary (bare x) e" using e Some readsD(1) [of e 6] lev by (simp add: reads_at_def parens_def)
    from this [unfolded reads_primary_def, rule_format, OF st'(1) _ ws, of k] n(2) that
    show ?thesis using st'(2) by simp
  qed
  show ?thesis
  proof (cases x)
    case (IfExpr i c b e')
    have "parsePrimaryExpr (pfuns_at m) ?st = some_expr (parseIfExpr (pfuns_at m) ?st)"
      using st'(1) IfExpr by (auto intro: primary_dispatch)
    with p [of m] Some have "returns (\<lambda>y. erase y = erase x) ws (diag st) (parseIfExpr (pfuns_at m) ?st)"
      by (simp add: some_expr_returnsD)
    then show ?thesis using st st' Some IfExpr n
      by (auto simp: parse_else_def case_prod_beta pfuns_at.simps same_def elim!: returns_bind)
  next
    case (BlockE b)
    have "parsePrimaryExpr (pfuns_at n) ?st =
        do { (b, st1) \<leftarrow> p_block (pfuns_at n) ?st; Some (Some (BlockE b), st1) }"
      using st'(1) BlockE block_start [of b] by (metis append_Cons bare.simps(16) primary_dispatch(10))
    with p [of n] n(1) Some BlockE
    have b: "returns (\<lambda>y. erase_block y = erase_block b) ws (diag st) (p_block (pfuns_at n) ?st)"
      by (auto simp: returns_def same_def bind_eq_Some_conv)
    have "\<not> Parser_at KwIf ?st" using st'(1) BlockE by simp
    then show ?thesis using st st' Some BlockE
      by (auto simp: parse_else_def case_prod_beta same_def intro!: returns_bind [OF b])
  qed (use e Some in auto)
qed

lemma reads_if:
  assumes "reads c" and "reads_block b" and e: "case e of Some x \<Rightarrow> reads e \<and> is_else_part e | None \<Rightarrow> True"
  shows "reads (Some (IfExpr n c (Some b) e))"
proof (rule reads_primary_own [where us = "bare (IfExpr n c (Some b) e)"])
  fix m st ws
  let ?else = "(case e of Some x \<Rightarrow> sym KwElse # bare x | None \<Rightarrow> []) @ ws"
  assume st: "ahead st = bare (IfExpr n c (Some b) e) @ ws" "length (bare (IfExpr n c (Some b) e) @ ws) \<le> m"
    and ws: "follows ws"
  have "returns (\<lambda>x. erase x = erase (IfExpr n c (Some b) e)) ws (diag st) (parseIfExpr (pfuns_at m) st)"
    unfolding parseIfExpr_def Let_def case_prod_beta
    by (rule returns_bind [OF reads_sub [OF assms(1), where ws = "block_words b @ ?else"]], (use st in simp_all)[3],
        rule returns_bind [OF block_sub [OF assms(2), where ws = ?else]], (use st in simp_all)[2],
        rule returns_bind [OF else_reads [OF e _ _ ws]]) (use st in \<open>simp_all add: same_def\<close>)
  then show "returns (same (Some (IfExpr n c (Some b) e))) ws (diag st) (parsePrimaryExpr (pfuns_at m) st)"
    using st by (auto simp: primary_dispatch intro: some_expr_returns)
qed auto

lemma reads_region:
  assumes "reads src" and "reads_block b" shows "reads (Some (RegionExpr n kind src name (Some b)))"
proof (rule reads_primary_own [where us = "bare (RegionExpr n kind src name (Some b))"])
  fix m st ws
  let ?e = "RegionExpr n kind src name (Some b)" and ?as = "sym KwAs # ident name # block_words b @ ws"
  assume st: "ahead st = bare ?e @ ws" "length (bare ?e @ ws) \<le> m"
  have "returns (\<lambda>x. erase x = erase ?e) ws (diag st) (parseRegionExpr kind (pfuns_at m) st)"
    unfolding parseRegionExpr_def Let_def case_prod_beta
  proof (rule returns_bind [OF reads_sub [OF assms(1), where ws = ?as]], (use st in \<open>simp_all add: end_defs\<close>)[3])
    fix x st1
    assume x: "same src x" and st1: "ahead st1 = ?as" "diag st1 = diag (snd (Parser_nextNodeId (snd (Parser_advance st))))"
    let ?st2 = "snd (parse_region_name st1)"
    have "fst (parse_region_name st1) = name \<and> ahead ?st2 = block_words b @ ws \<and> diag ?st2 = diag st1"
      using st1 by (simp add: parse_region_name_def Let_def case_prod_beta)
    then show "returns (\<lambda>x. erase x = erase ?e) ws (diag st)
        (p_block (pfuns_at m) (snd (parse_region_name (snd (x, st1)))) \<bind>
          (\<lambda>p. Some (RegionExpr (mk_node (fst (Parser_nextNodeId (snd (Parser_advance st))))
             (span_begin (tok_span (fst (Parser_advance st)))) (blk_end (fst p))) kind (fst (x, st1))
             (fst (parse_region_name (snd (x, st1)))) (Some (fst p)), snd p)))"
      using st st1 x by (auto simp: same_def intro!: returns_bind [OF block_sub [OF assms(2), where ws = ws]])
  qed
  then show "returns (same (Some ?e)) ws (diag st) (parsePrimaryExpr (pfuns_at m) st)"
    using st by (cases kind) (auto simp: primary_dispatch intro: some_expr_returns)
qed auto


subsection \<open>Paths and types\<close>

lemma path_rest_reads:
  "ahead st = (if p = [] then [] else sym Dot # path_words p) @ ws \<Longrightarrow> ws \<noteq> [] \<Longrightarrow> fst (hd ws) \<noteq> Dot \<Longrightarrow>
   length (ahead st) < m \<Longrightarrow> returns (\<lambda>q. q = acc @ p) ws (diag st) (ploop_n m (path_step c) acc st)"
proof (induction p arbitrary: acc st m)
  case Nil
  then show ?case by (cases m) (auto simp: path_step_def case_prod_beta)
next
  case (Cons s p)
  obtain m' where m: "m = Suc m'" using Cons.prems(4) by (cases m) auto
  let ?st1 = "snd (Parser_consume Dot st)"
  let ?st = "snd (Parser_advance ?st1)"
  have pw: "path_words (s # p) = ident s # (if p = [] then [] else sym Dot # path_words p)" by (cases p) auto
  have st1: "ahead ?st1 = ident s # (if p = [] then [] else sym Dot # path_words p) @ ws" "diag ?st1 = diag st"
    using Cons.prems(1) pw by auto
  then have st: "ahead ?st = (if p = [] then [] else sym Dot # path_words p) @ ws" "diag ?st = diag st" by auto
  have "path_step c acc st = Some ((acc @ [s], True), ?st)"
    using st1 Cons.prems(1) by (simp add: path_step_def case_prod_beta)
  moreover have "length (ahead ?st) < m'" using Cons.prems(1,4) m st(1) pw by (auto split: if_splits)
  ultimately show ?case using Cons.IH [OF st(1) Cons.prems(2,3), of m' "acc @ [s]"] st(2) m by simp
qed

lemma path_reads:
  assumes "p \<noteq> []" and st: "ahead st = path_words p @ ws" and ws: "ws \<noteq> []" "fst (hd ws) \<noteq> Dot"
  shows "returns (\<lambda>q. q = p) ws (diag st) (parsePath c st)"
proof -
  obtain s p' where p: "p = s # p'" using assms(1) by (cases p) auto
  have pw: "ahead st = ident s # (if p' = [] then [] else sym Dot # path_words p') @ ws"
    using st unfolding p by (cases p') auto
  then have "ahead (snd (Parser_advance st)) = (if p' = [] then [] else sym Dot # path_words p') @ ws" by simp
  from path_rest_reads [OF this ws, of "Suc (remaining (snd (Parser_advance st)))" "[s]"] pw p
  show ?thesis by (simp add: parsePath_def ploop_def case_prod_beta del: ploop_n.simps)
qed

definition ends_type :: "lexeme list \<Rightarrow> bool" where
  "ends_type ws \<longleftrightarrow> ws \<noteq> [] \<and> fst (hd ws) \<notin> {Dot, Question, Identifier, LBracket}"

lemma capability_reads:
  assumes "ahead st = capability_words cap @ ws" and "ws \<noteq> []"
    and "cap = Cap_None \<Longrightarrow> fst (hd ws) \<notin> {KwMut, KwTmp, KwIso, KwImm, KwPau, KwCown}"
  shows "fst (parse_capability st) = cap \<and> ahead (snd (parse_capability st)) = ws \<and>
      diag (snd (parse_capability st)) = diag st"
  using assms by (cases cap) (auto simp: parse_capability_def capability_words_def Let_def split: token_kind.split)

lemma type_reads:
  "writable_type t \<Longrightarrow> ahead st = type_words t @ ws \<Longrightarrow> ends_type ws \<Longrightarrow> length (ahead st) < m \<Longrightarrow>
   returns (\<lambda>x. erase_type x = erase_type t) ws (diag st) (parseTypeRef_n m st)"
proof (induction t arbitrary: st ws m)
  case (TypeRef n cap name path opt isArray elem)
  obtain m' where m: "m = Suc m'" using TypeRef.prems(4) by (cases m) auto
  let ?st1 = "snd (Parser_nextNodeId st)"
  let ?st2 = "snd (parse_capability ?st1)"
  let ?ws = "(case map_option type_words elem of
        Some us \<Rightarrow> sym LBracket # us @ [sym RBracket]
      | None \<Rightarrow> path_words path @ (if opt then [sym Question] else [])) @ ws"
  have st1: "ahead ?st1 = capability_words cap @ ?ws" "diag ?st1 = diag st"
    using TypeRef.prems(2) by auto
  have start: "path = [] \<or> (\<exists>us. path_words path = ident (hd path) # us)" by (cases path rule: path_words.cases) auto
  have "?ws \<noteq> []" "cap = Cap_None \<Longrightarrow> fst (hd ?ws) \<notin> {KwMut, KwTmp, KwIso, KwImm, KwPau, KwCown}"
    using TypeRef.prems(1,3) start by (auto simp: ends_type_def split: option.split if_splits)
  from capability_reads [OF st1(1) this]
  have st2: "fst (parse_capability ?st1) = cap" "ahead ?st2 = ?ws" "diag ?st2 = diag st" by auto
  have ws: "ws \<noteq> []" "fst (hd ws) \<notin> {Dot, Question, Identifier, LBracket}"
    using TypeRef.prems(3) by (auto simp: ends_type_def)
  show ?case
  proof (cases elem)
    case (Some e)
    let ?st3 = "snd (Parser_consume LBracket ?st2)"
    have st3: "ahead ?st3 = type_words e @ sym RBracket # ws" "diag ?st3 = diag st" using st2 Some by auto
    have "length (ahead ?st3) < m'" using TypeRef.prems(2,4) m st3(1) Some by auto
    then have "returns (\<lambda>x. erase_type x = erase_type e) (sym RBracket # ws) (diag st) (parseTypeRef_n m' ?st3)"
      using TypeRef.IH [of e ?st3 "sym RBracket # ws" m'] TypeRef.prems(1) Some st3 by (auto simp: ends_type_def)
    then show ?thesis
      using TypeRef.prems(1) Some st2 unfolding m parseTypeRef_n.simps Let_def case_prod_beta
      by (auto intro: returns_bind)
  next
    case None
    show ?thesis
    proof (cases "path = []")
      case True
      then show ?thesis
        using TypeRef.prems(1) None st2 ws by (auto simp: m Let_def case_prod_beta)
    next
      case False
      let ?st3 = "snd (Parser_consume LBracket ?st2)"
      have at: "ahead ?st2 = path_words path @ (if opt then [sym Question] else []) @ ws" using st2(2) None by simp
      have st3: "ahead ?st3 = path_words path @ (if opt then [sym Question] else []) @ ws" "diag ?st3 = diag st"
          "Parser_at Identifier ?st3" "fst (Parser_consume LBracket ?st2) = False"
        using at st2(3) False start by auto
      have "returns (\<lambda>q. q = path) ((if opt then [sym Question] else []) @ ws) (diag st) (parsePath ''type'' ?st3)"
        using path_reads [OF False st3(1), of "''type''"] st3(2) ws by auto
      then show ?thesis
        using TypeRef.prems(1) None False st2 st3(3,4) ws
        unfolding m parseTypeRef_n.simps Let_def case_prod_beta by (auto elim!: returns_bind)
    qed
  qed
qed

lemma typeRef_reads:
  assumes "writable_type t" and "ahead st = type_words t @ ws" and "ends_type ws"
  shows "returns (\<lambda>x. erase_type x = erase_type t) ws (diag st) (parseTypeRef st)"
  unfolding parseTypeRef_def by (rule type_reads [OF assms]) simp


subsection \<open>Calls, indexing, field accesses and operators\<close>

lemma postfix_sub:
  assumes "reads e" and "ahead st = operand 5 e @ ws" and "length (ahead st) \<le> n" and "follows ws"
  shows "in_loop (postfix_step (pfuns_at n)) (same e) ws (diag st) (parsePostfixExpr (pfuns_at n) st)"
  using readsD(1) [OF assms(1), of 5] assms(2-4) by (auto simp: reads_at_def reads_postfix_def)

lemma reads_postfix_own:
  assumes f: "reads (Some f)" and own: "expr_level e = 5" "bare e = operand 5 (Some f) @ us" "us \<noteq> []"
      "fst (hd us) \<noteq> KwElse"
    and step: "\<And>n x st ws. erase x = erase f \<Longrightarrow> ahead st = us @ ws \<Longrightarrow> length (us @ ws) \<le> n \<Longrightarrow>
      follows ws \<Longrightarrow> returns (\<lambda>(y, more). more \<and> same (Some e) y) ws (diag st) (postfix_step (pfuns_at n) (Some x) st)"
  shows "reads (Some e)"
proof (rule reads_own)
  have "in_loop (postfix_step (pfuns_at n)) (same (Some e)) ws (diag st) (parsePostfixExpr (pfuns_at n) st)"
    if st: "ahead st = operand 5 (Some f) @ us @ ws" and n: "length (ahead st) \<le> n" and ws: "follows ws" for n st ws
  proof -
    have "follows (us @ ws)" using own by (auto simp: follows_def)
    from postfix_sub [OF f st n this]
    have loop: "in_loop (postfix_step (pfuns_at n)) (same (Some f)) (us @ ws) (diag st) (parsePostfixExpr (pfuns_at n) st)" .
    show ?thesis
    proof (rule in_loop_step [OF loop])
      fix x st1
      assume x: "same (Some f) x" "ahead st1 = us @ ws" "diag st1 = diag st"
      then obtain y where "x = Some y" "erase y = erase f" by (auto simp: same_Some)
      with step [of y st1 ws n] x n ws st
      show "returns (\<lambda>(y, more). more \<and> same (Some e) y) ws (diag st) (postfix_step (pfuns_at n) x st1)" by simp
    qed (use own in simp)
  qed
  then show "reads_at (expr_level e) (bare e) (Some e)"
    by (simp add: own reads_at_def reads_postfix_def del: operand.simps)
  show "leads (expr_level e) (bare e)"
    unfolding own using readsD(2) [OF f, of 5] by simp
qed

lemma reads_field: "reads (Some f) \<Longrightarrow> reads (Some (FieldAccessExpr n (Some f) name))"
  by (rule reads_postfix_own [where f = f and us = "[sym Dot, member_word name]"])
     (auto simp: postfix_step_def case_prod_beta member_word_def same_def Let_def)

lemma reads_index:
  assumes f: "reads (Some f)" and i: "reads i" shows "reads (Some (IndexExpr n (Some f) i))"
proof (rule reads_postfix_own [OF f, where us = "sym LBracket # operand 0 i @ [sym RBracket]"])
  fix m x st ws
  assume x: "erase x = erase f" and st: "ahead st = (sym LBracket # operand 0 i @ [sym RBracket]) @ ws"
    "length ((sym LBracket # operand 0 i @ [sym RBracket]) @ ws) \<le> m"
  let ?st = "snd (Parser_nextNodeId (snd (Parser_advance st)))"
  have "ahead ?st = operand 0 i @ sym RBracket # ws" "diag ?st = diag st" "length (ahead ?st) < m" using st by auto
  then have "returns (same i) (sym RBracket # ws) (diag st) (p_expr (pfuns_at m) ?st)"
    using reads_sub [OF i, of ?st "sym RBracket # ws" m] by (simp add: end_defs)
  then show "returns (\<lambda>(y, more). more \<and> same (Some (IndexExpr n (Some f) i)) y) ws (diag st)
      (postfix_step (pfuns_at m) (Some x) st)"
    using st x by (auto simp: postfix_step_def case_prod_beta same_def Let_def elim!: returns_bind)
qed auto

lemma call_arguments_read:
  assumes es: "\<forall>e \<in> set es. reads e"
    and st: "ahead st = sym LParen # commas (map (operand 0) es) @ sym RParen # ws" "length (ahead st) \<le> n"
  shows "returns (\<lambda>xs. map (map_option erase) xs = map (map_option erase) es) ws (diag st) (parseCallArguments (pfuns_at n) st)"
proof -
  let ?st = "Parser_expect LParen (''expected '('' @ [CHR 0x27]) st"
  have st': "ahead ?st = commas (map (operand 0) es) @ sym RParen # ws" "diag ?st = diag st" "length (ahead ?st) < n"
    using st by auto
  have "returns (\<lambda>xs. map (map_option erase) xs = map (map_option erase) es) (sym RParen # ws) (diag st)
          (if \<not> Parser_at RParen ?st then ploop (argument_step (pfuns_at n)) [] ?st else Some ([], ?st))"
  proof (cases es)
    case (Cons e es')
    then have "leads 0 (ahead ?st)" using leads_commas [OF readsD(2), of e 0] es st'(1) by simp
    then show ?thesis using arguments_read [OF es _ st'(1) _ st'(3)] Cons st' by (auto simp: leads_def)
  qed (use st' in simp)
  then show ?thesis
    unfolding parseCallArguments_def Let_def case_prod_beta by (rule returns_bind) simp
qed

lemma reads_call:
  assumes f: "reads (Some f)" and es: "\<forall>e \<in> set es. reads e" shows "reads (Some (CallExpr n (Some f) es))"
proof (rule reads_postfix_own [OF f, where us = "sym LParen # commas (map (operand 0) es) @ [sym RParen]"])
  fix m x st ws
  assume x: "erase x = erase f" and st: "ahead st = (sym LParen # commas (map (operand 0) es) @ [sym RParen]) @ ws"
    "length ((sym LParen # commas (map (operand 0) es) @ [sym RParen]) @ ws) \<le> m"
  let ?st = "snd (Parser_nextNodeId st)"
  have "returns (\<lambda>xs. map (map_option erase) xs = map (map_option erase) es) ws (diag st) (parseCallArguments (pfuns_at m) ?st)"
    using call_arguments_read [OF es, of ?st ws m] st by simp
  then show "returns (\<lambda>(y, more). more \<and> same (Some (CallExpr n (Some f) es)) y) ws (diag st)
      (postfix_step (pfuns_at m) (Some x) st)"
    using st x by (auto simp: postfix_step_def case_prod_beta same_def Let_def elim!: returns_bind)
qed auto

lemma reads_binary_own:
  assumes l: "reads (Some l)" and r: "reads r" and op: "precedence op \<noteq> 0"
  shows "reads (Some (BinaryExpr n op (Some l) r))"
proof (rule reads_own)
  let ?e = "BinaryExpr n op (Some l) r" and ?p = "precedence op"
  have p: "1 \<le> ?p" "?p \<le> 3" using op precedence_le by auto
  have opk: "operator_kind op \<notin> {KwElse, LParen, LBracket, Dot, EndOfFile}" using op by (auto simp: binaryPrecedence_def)
  show "leads (expr_level ?e) (bare ?e)" using readsD(2) [OF l, of "Suc ?p"] by (simp del: operand.simps)
  have "reads_binary ?p (operand (Suc ?p) (Some l)) (Some l)"
    using readsD(1) [OF l, of "Suc ?p"] p by (simp add: reads_at_def)
  then have loop: "in_loop (binary_step (pfuns_at m) j) (same (Some l))
      ((operator_kind op, op) # operand (Suc (Suc ?p)) r @ ws) (diag st) (parseBinaryExpr (pfuns_at m) j st)"
    if "j \<le> ?p" "ahead st = bare ?e @ ws" "length (ahead st) \<le> m" for j m st ws
    using that opk unfolding reads_binary_def by (auto simp: follows_def opens_postfix_def)
  have "in_loop (binary_step (pfuns_at m) j) (same (Some ?e)) ws (diag st) (parseBinaryExpr (pfuns_at m) j st)"
    if j: "j \<le> ?p" and st: "ahead st = bare ?e @ ws" "length (ahead st) \<le> m"
      and ws: "follows ws" "\<not> opens_postfix ws" "prec_of ws \<le> ?p" for j m st ws
  proof (rule in_loop_step [OF loop [OF j st]])
    fix x st1
    assume x: "same (Some l) x" "ahead st1 = (operator_kind op, op) # operand (Suc (Suc ?p)) r @ ws" "diag st1 = diag st"
    let ?st = "snd (Parser_advance st1)"
    have st2: "ahead ?st = operand (Suc (Suc ?p)) r @ ws" "diag ?st = diag st" using x opk by auto
    have "length (ahead ?st) < m" using st st2(1) by auto
    then have "returns (same r) ws (diag st) (p_binary (pfuns_at m) (?p + 1) ?st)"
      using reads_binaryD [of "?p + 1" "operand (Suc (Suc ?p)) r" r ?st ws m] readsD(1) [OF r] p st2 ws by simp
    then show "returns (\<lambda>(y, more). more \<and> same (Some ?e) y) ws (diag st) (binary_step (pfuns_at m) j x st1)"
      using x j unfolding same_Some by (auto simp: binary_step_def case_prod_beta same_def Let_def elim!: returns_bind)
  qed simp
  then show "reads_at (expr_level ?e) (bare ?e) (Some ?e)"
    using p unfolding reads_at_def reads_binary_def by simp
qed


subsection \<open>Assignments, bindings and returns\<close>

lemma same_assignable: "same e x \<Longrightarrow> is_assignable x = is_assignable e"
  unfolding same_def by (cases x rule: is_assignable.cases; cases e rule: is_assignable.cases) auto

lemma reads_assign_own:
  assumes l: "reads l" and r: "reads r" and a: "is_assignable l"
  shows "reads (Some (AssignExpr n l r))"
proof (rule reads_own)
  let ?e = "AssignExpr n l r"
  have lb: "reads_binary 1 (operand 2 l) l" using readsD(1) [OF l, of 2] by (simp add: reads_at_def)
  have "returns (same (Some ?e)) ws (diag st) (parseAssignExpr (pfuns_at m) st)"
    if st: "ahead st = bare ?e @ ws" "length (ahead st) \<le> m" and ws: "ends_expr ws" for m st ws
    unfolding parseAssignExpr_def
  proof (rule returns_bind [OF binary_operand [OF lb, where ws = "sym Equal # operand 1 r @ ws"]], (use st in \<open>simp_all add: end_defs\<close>)[6])
    fix x st1
    assume x: "same l x" and st1: "ahead st1 = sym Equal # operand 1 r @ ws" "diag st1 = diag st"
    let ?st = "snd (Parser_nextNodeId (snd (Parser_consume Equal st1)))"
    have st': "ahead ?st = operand 1 r @ ws" "diag ?st = diag st" "length (ahead ?st) < m" using st1 st by auto
    have v: "returns (same r) ws (diag st) (p_assign (pfuns_at m) ?st)"
      using reads_assignD [OF readsD(1) [OF r, of 1] st'(1,3) ws] st'(2) by simp
    show "returns (same (Some ?e)) ws (diag st) (case (x, st1) of (lhs, st1) \<Rightarrow>
          let (eq, st2) = Parser_consume Equal st1 in
          if \<not> eq then Some (lhs, st2)
          else
            do { let st3 = (if \<not> is_assignable lhs
                            then Parser_error (case lhs of Some l \<Rightarrow> expr_span l | None \<Rightarrow> cur_span st2)
                                   ''assignment target must be a binding, field, or index'' st2 else st2);
                 let (i, st4) = Parser_nextNodeId st3;
                 let begin = (case lhs of Some l \<Rightarrow> span_begin (expr_span l) | None \<Rightarrow> cur_begin st4);
                 (v, st5) \<leftarrow> p_assign (pfuns_at m) st4;
                 Some (Some (AssignExpr (mk_node i begin (end_or v (cur_end st5))) lhs v), st5) })"
      using x st1 same_assignable [OF x] a
      by (simp add: Let_def case_prod_beta) (rule returns_bind [OF v], simp add: same_def)
  qed
  then show "reads_at (expr_level ?e) (bare ?e) (Some ?e)" by (simp add: reads_at_def reads_assign_def)
  show "leads (expr_level ?e) (bare ?e)" using readsD(2) [OF l, of 2] by (auto intro!: leads_append elim: leads_mono)
qed

lemma reads_expr_own:
  assumes "expr_level e = 0" and "leads 0 (bare e)"
    and "\<And>n st ws. ahead st = bare e @ ws \<Longrightarrow> length (bare e @ ws) \<le> n \<Longrightarrow> ends_expr ws \<Longrightarrow>
      returns (same (Some e)) ws (diag st) (parseExpr (pfuns_at n) st)"
  shows "reads (Some e)"
  using assms by (intro reads_own) (auto simp: reads_at_def reads_expr_def)

lemma reads_return: "reads v \<Longrightarrow> reads (Some (ReturnExpr n v))"
proof (rule reads_expr_own)
  fix m st ws
  assume v: "reads v" and ws: "ends_expr ws"
    and st: "ahead st = bare (ReturnExpr n v) @ ws" "length (bare (ReturnExpr n v) @ ws) \<le> m"
  have "returns (\<lambda>x. erase x = erase (ReturnExpr n v)) ws (diag st) (parseReturnExpr (pfuns_at m) st)"
    unfolding parseReturnExpr_def Let_def case_prod_beta
    by (rule returns_bind [OF reads_sub [OF v _ _ ws]]) (use st in \<open>auto simp: same_def\<close>)
  then show "returns (same (Some (ReturnExpr n v))) ws (diag st) (parseExpr (pfuns_at m) st)"
    using st by (simp add: parseExpr_def some_expr_returns)
qed (auto simp: leads_def)

lemma reads_binding:
  assumes v: "reads v" and ty: "pred_option writable_type ty"
  shows "reads (Some (BindingExpr n isVar name ty v))"
proof (rule reads_expr_own)
  fix m st ws
  let ?e = "BindingExpr n isVar name ty v"
  assume st: "ahead st = bare ?e @ ws" "length (bare ?e @ ws) \<le> m" and ws: "ends_expr ws"
  let ?st3 = "snd (Parser_advance (snd (Parser_nextNodeId (snd (Parser_advance st)))))"
  let ?us = "sym Equal # operand 0 v @ ws"
  have st3: "ahead ?st3 = (case ty of Some t \<Rightarrow> sym Colon # type_words t | None \<Rightarrow> []) @ ?us" "diag ?st3 = diag st"
    using st by auto
  have t: "returns (\<lambda>x. map_option erase_type x = map_option erase_type ty) ?us (diag st)
        (if fst (Parser_consume Colon ?st3)
         then do { (ty, st') \<leftarrow> parseTypeRef (snd (Parser_consume Colon ?st3)); Some (Some ty, st') }
         else Some (None, snd (Parser_consume Colon ?st3)))"
  proof (cases ty)
    case (Some t)
    have "ahead (snd (Parser_consume Colon ?st3)) = type_words t @ ?us" using st3(1) Some by simp
    from typeRef_reads [OF _ this] ty Some st3 show ?thesis by (auto simp: ends_type_def elim!: returns_bind)
  qed (use st3 in simp)
  have "returns (\<lambda>x. erase x = erase ?e) ws (diag st) (parseBindingExpr (pfuns_at m) st)"
  proof -
    have at: "(\<not> Parser_at Identifier (snd (Parser_nextNodeId (snd (Parser_advance st))))) = False" using st by auto
    have val: "returns (same v) ws (diag st) (p_expr (pfuns_at m) (Parser_expect Equal ''expected '=' in binding'' st1))"
      if "ahead st1 = ?us" "diag st1 = diag st" for st1
    proof -
      let ?st = "Parser_expect Equal ''expected '=' in binding'' st1"
      have st': "ahead ?st = operand 0 v @ ws" "diag ?st = diag st" using that by auto
      have "length (ahead ?st) < m" using st st'(1) by auto
      from reads_sub [OF v st'(1) this ws] st'(2) show ?thesis by simp
    qed
    show ?thesis
      unfolding parseBindingExpr_def Let_def case_prod_beta at if_False
      by (rule returns_bind [OF t [unfolded case_prod_beta]], rule returns_bind [OF val]) (use st in \<open>auto simp: same_def\<close>)
  qed
  then show "returns (same (Some ?e)) ws (diag st) (parseExpr (pfuns_at m) st)"
    using st by (cases isVar) (simp_all add: parseExpr_def some_expr_returns)
qed (auto simp: leads_def)


subsection \<open>Allocations\<close>

definition reads_init :: "field_init \<Rightarrow> bool" where
  "reads_init f \<longleftrightarrow>
     (\<forall>n st ws. ahead st = init_words f @ ws \<longrightarrow> length (ahead st) < n \<longrightarrow> ends_expr ws \<longrightarrow>
        returns (\<lambda>x. erase_init x = erase_init f) ws (diag st) (parseFieldInit (pfuns_at n) st))"

lemma reads_initI: "reads v \<Longrightarrow> reads_init (FieldInit n name v)"
  unfolding reads_init_def
proof (intro allI impI)
  fix m st ws
  assume v: "reads v" and st: "ahead st = init_words (FieldInit n name v) @ ws" "length (ahead st) < m"
    and ws: "ends_expr ws"
  have val: "returns (same v) ws (diag st1) (p_expr (pfuns_at m) (Parser_expect Colon msg st1))"
    if "ahead st1 = sym Colon # operand 0 v @ ws" for st1 msg
  proof -
    have "ahead (Parser_expect Colon msg st1) = operand 0 v @ ws" "diag (Parser_expect Colon msg st1) = diag st1"
      using that by auto
    from reads_sub [OF v this(1) _ ws, of m] this st show ?thesis by auto
  qed
  show "returns (\<lambda>x. erase_init x = erase_init (FieldInit n name v)) ws (diag st) (parseFieldInit (pfuns_at m) st)"
    using st val [of "snd (Parser_advance (snd (Parser_nextNodeId st)))"]
    by (auto simp: parseFieldInit_def Let_def case_prod_beta same_def intro!: returns_bind [where P = "same v"])
qed

lemma inits_read:
  assumes fs: "\<forall>f \<in> set fs. reads_init f" and "fs \<noteq> []"
    and st: "ahead st = commas (map init_words fs) @ sym RBrace # ws" "length (ahead st) < n"
  shows "returns (\<lambda>xs. map erase_init xs = map erase_init fs) (sym RBrace # ws) (diag st)
           (ploop (field_init_step (pfuns_at n)) [] st)"
proof (rule comma_ploop [where n = n and close = RBrace and pr = init_words])
  show "returns (\<lambda>(ys, more). more = (fst v = Comma) \<and> (\<exists>y. ys = acc @ [y] \<and> erase_init y = erase_init f))
          (if fst v = Comma then vs else v # vs) (diag st) (field_init_step (pfuns_at n) acc st)"
    if "f \<in> set fs" "ahead st = init_words f @ v # vs" "length (ahead st) < n" "fst v \<in> {Comma, RBrace}"
    for acc f st v vs
  proof -
    have "returns (\<lambda>x. erase_init x = erase_init f) (v # vs) (diag st) (parseFieldInit (pfuns_at n) st)"
      using fs that unfolding reads_init_def by (auto simp: end_defs)
    then show ?thesis
      unfolding field_init_step_def
      by (rule returns_bind) (use that(4) in \<open>auto simp: more_if_def case_prod_beta\<close>)
  qed
qed (use assms in auto)

lemma new_fields_read:
  assumes fs: "\<forall>f \<in> set fs. reads_init f"
    and st: "ahead st = sym LBrace # commas (map init_words fs) @ sym RBrace # ws" "length (ahead st) \<le> n"
  shows "returns (\<lambda>xs. map erase_init xs = map erase_init fs) ws (diag st) (parse_new_fields (pfuns_at n) st)"
proof -
  let ?st = "snd (Parser_consume LBrace st)"
  have st': "ahead ?st = commas (map init_words fs) @ sym RBrace # ws" "diag ?st = diag st" "length (ahead ?st) < n"
    using st by auto
  have "returns (\<lambda>xs. map erase_init xs = map erase_init fs) (sym RBrace # ws) (diag st)
      (if \<not> Parser_at RBrace ?st then ploop (field_init_step (pfuns_at n)) [] ?st else Some ([], ?st))"
  proof (cases fs)
    case (Cons f fs')
    have "init_words f \<noteq> [] \<and> fst (hd (init_words f)) = Identifier" by (cases f) simp
    then have "ahead ?st \<noteq> [] \<and> fst (hd (ahead ?st)) = Identifier"
      unfolding st'(1) Cons by (cases fs') auto
    then show ?thesis using inits_read [OF fs _ st'(1,3)] st'(2) Cons by simp
  qed (use st' in simp)
  then show ?thesis
    unfolding parse_new_fields_def Let_def case_prod_beta using st(1) by (auto elim!: returns_bind)
qed

lemma strategy_reads:
  assumes "ahead st = (if s = [] then [] else [sym Less, ident s, sym Greater]) @ ident name # ws"
    and "s = [] \<or> cap = Cap_Iso"
  shows "fst (parse_strategy cap st) = s \<and> ahead (snd (parse_strategy cap st)) = ident name # ws \<and>
      diag (snd (parse_strategy cap st)) = diag st"
  using assms by (cases "s = []") (simp_all add: parse_strategy_def Let_def case_prod_beta)

lemma reads_new:
  assumes fs: "\<forall>f \<in> set fs. reads_init f" and ty: "is_new_type ty s"
  shows "reads (Some (NewExpr n ty s fs))"
proof (rule reads_primary_own [where us = "bare (NewExpr n ty s fs)"])
  fix m st ws
  let ?e = "NewExpr n ty s fs"
  obtain tn cap name opt where t: "ty = Some (TypeRef tn cap name [] opt False None)" and s: "s = [] \<or> cap = Cap_Iso"
    using ty by (cases "(ty, s)" rule: is_new_type.cases) auto
  assume st: "ahead st = bare ?e @ ws" "length (bare ?e @ ws) \<le> m"
  let ?us = "sym LBrace # commas (map init_words fs) @ sym RBrace # ws"
  let ?ns = "ident name # (if opt then [sym Question] else []) @ ?us"
  let ?st3 = "snd (Parser_nextNodeId (snd (Parser_nextNodeId (snd (Parser_advance st)))))"
  let ?st4 = "snd (parse_capability ?st3)"
  let ?st5 = "snd (parse_strategy cap ?st4)"
  let ?st6 = "snd (parse_new_name ?st5)"
  let ?st7 = "snd (Parser_consume Question ?st6)"
  have st3: "ahead ?st3 = capability_words cap @ (if s = [] then [] else [sym Less, ident s, sym Greater]) @ ?ns"
      "diag ?st3 = diag st"
    using st t by auto
  have st4: "fst (parse_capability ?st3) = cap"
      "ahead ?st4 = (if s = [] then [] else [sym Less, ident s, sym Greater]) @ ?ns" "diag ?st4 = diag st"
    using capability_reads [OF st3(1)] st3(2) by auto
  have st5: "fst (parse_strategy cap ?st4) = s" "ahead ?st5 = ?ns" "diag ?st5 = diag st"
    using strategy_reads [OF st4(2) s] st4(3) by auto
  have st6: "fst (parse_new_name ?st5) = name" "ahead ?st6 = (if opt then [sym Question] else []) @ ?us" "diag ?st6 = diag st"
    using st5 by (simp_all add: parse_new_name_def Let_def case_prod_beta)
  have st7: "fst (Parser_consume Question ?st6) = opt" "ahead ?st7 = ?us" "diag ?st7 = diag st"
    using st6 by (cases opt; simp)+
  have "length (ahead ?st7) \<le> m" using st(2) t unfolding st7(2) by simp
  with new_fields_read [OF fs st7(2)] st7(3)
  have fields: "returns (\<lambda>xs. map erase_init xs = map erase_init fs) ws (diag st) (parse_new_fields (pfuns_at m) ?st7)"
    by simp
  have at: "Parser_at LParen ?st7 = False" using st7(2) by simp
  have "returns (\<lambda>x. erase x = erase ?e) ws (diag st) (parseNewExpr (pfuns_at m) st)"
    unfolding parseNewExpr_def Let_def case_prod_beta st4(1) st5(1) st6(1) st7(1) at if_False
    by (simp, rule returns_bind [OF fields]) (simp add: t)
  then show "returns (same (Some ?e)) ws (diag st) (parsePrimaryExpr (pfuns_at m) st)"
    using st by (auto simp: primary_dispatch intro: some_expr_returns)
qed auto


subsection \<open>All expressions\<close>

lemma writable_reads:
  "writable e \<Longrightarrow> reads (Some e)"
  "writable_operand x \<Longrightarrow> reads x"
  "writable_block b \<Longrightarrow> reads_block b"
  "writable_init f \<Longrightarrow> reads_init f"
proof (induction e and x and b and f rule: writable_writable_operand_writable_block_writable_init.induct)
  case (14 n c b e)
  then show ?case by (cases b; cases e) (auto intro: reads_if)
next
  case (15 n c b)
  then show ?case by (cases b) (auto intro: reads_while)
next
  case (17 n kind src name b)
  then show ?case by (cases b) (auto intro: reads_region)
next
  case (3 n op l r)
  then show ?case by (cases l) (auto intro: reads_binary_own)
next
  case (5 n e f)
  then show ?case by (cases e) (auto intro: reads_field)
next
  case (7 n e i)
  then show ?case by (cases e) (auto intro: reads_index)
next
  case (11 n f args)
  then show ?case by (cases f) (auto intro: reads_call)
next
  case (12 n v)
  then show ?case by (cases v) (auto intro: reads_freeze_merge)
next
  case (13 n v)
  then show ?case by (cases v) (auto intro: reads_freeze_merge)
qed (auto intro: reads_literal reads_name reads_move reads_new reads_array reads_block_expr
    reads_blockI reads_initI reads_binding reads_return reads_assign_own)


subsection \<open>Constructor arguments\<close>

text \<open>
  \<^verbatim>\<open>new T(a, b)\<close>, the form of the examples in \<^verbatim>\<open>README.md\<close> and \<^verbatim>\<open>docs/spec.md\<close>, is read without a report, but the
  arguments are in no part of the tree: whatever they are, they are neither checked nor evaluated.
\<close>

lemma new_arguments_dropped:
  assumes args: "\<forall>e \<in> set args. writable_operand e"
    and st: "ahead st = sym KwNew # capability_words cap @ ident name # sym LParen # commas (map (operand 0) args) @
        sym RParen # ws" "length (ahead st) \<le> n"
    and ws: "ws \<noteq> []" "fst (hd ws) \<noteq> LBrace"
  shows "returns (\<lambda>x. erase x = NewExpr blank (Some (TypeRef blank cap name [] False False None)) [] []) ws (diag st)
           (parseNewExpr (pfuns_at n) st)"
proof -
  let ?us = "sym LParen # commas (map (operand 0) args) @ sym RParen # ws"
  let ?st3 = "snd (Parser_nextNodeId (snd (Parser_nextNodeId (snd (Parser_advance st)))))"
  let ?st4 = "snd (parse_capability ?st3)"
  let ?st5 = "snd (parse_strategy cap ?st4)"
  let ?st6 = "snd (parse_new_name ?st5)"
  let ?st7 = "snd (Parser_consume Question ?st6)"
  have st3: "ahead ?st3 = capability_words cap @ ident name # ?us" "diag ?st3 = diag st" using st by auto
  have st4: "fst (parse_capability ?st3) = cap" "ahead ?st4 = ident name # ?us" "diag ?st4 = diag st"
    using capability_reads [OF st3(1)] st3(2) by auto
  have st5: "fst (parse_strategy cap ?st4) = []" "ahead ?st5 = ident name # ?us" "diag ?st5 = diag st"
    using strategy_reads [of ?st4 "[]" name ?us cap] st4 by auto
  have st7: "fst (parse_new_name ?st5) = name" "fst (Parser_consume Question ?st6) = False" "ahead ?st7 = ?us" "diag ?st7 = diag st"
    using st5 by (simp_all add: parse_new_name_def Let_def case_prod_beta)
  have "length (ahead ?st7) \<le> n" using st unfolding st7(3) by simp
  then have "returns (\<lambda>xs. map (map_option erase) xs = map (map_option erase) args) ws (diag st) (parseCallArguments (pfuns_at n) ?st7)"
    using call_arguments_read [of args ?st7 ws n] args writable_reads(2) st7 by auto
  moreover have at: "Parser_at LParen ?st7 = True" using st7(3) by simp
  ultimately have arguments: "returns (\<lambda>_. True) ws (diag st)
      (if Parser_at LParen ?st7 then parseCallArguments (pfuns_at n) ?st7 else Some ([], ?st7))"
    by (auto elim: returns_mono)
  have fields: "returns (\<lambda>fs. fs = []) ws (diag st) (parse_new_fields (pfuns_at n) st1)"
    if "ahead st1 = ws" "diag st1 = diag st" for st1
    using that ws by (simp add: parse_new_fields_def case_prod_beta)
  show ?thesis
    unfolding parseNewExpr_def Let_def case_prod_beta st4(1) st5(1) st7(1,2)
    by (rule returns_bind [OF arguments], rule returns_bind [OF fields]) simp_all
qed

end
