(* ===== verification/Gura_Parser_Files.thy ===== *)
theory Gura_Parser_Files
  imports Gura_Parser_Roundtrip
begin

section \<open>Printing and parsing source files\<close>

text \<open>
  The printer of \<^verbatim>\<open>Gura_Parser_Print\<close> for declarations and whole files, and the round trip from the
  text of a file through the lexer and the parser back to its syntax tree.
\<close>

fun pluses :: "string list \<Rightarrow> lexeme list" where
  "pluses [] = []"
| "pluses [s] = [ident s]"
| "pluses (s # ss) = ident s # sym Plus # pluses ss"

definition generic_words :: "generic_param \<Rightarrow> lexeme list" where
  "generic_words g = ident (gp_name g) # sym Colon # pluses (map tb_name (gp_bounds g))"

definition generics_words :: "generic_param list \<Rightarrow> lexeme list" where
  "generics_words gs = (if gs = [] then [] else sym Less # commas (map generic_words gs) @ [sym Greater])"

definition annotation_words :: "type_ref option \<Rightarrow> lexeme list" where
  "annotation_words ty = (case ty of Some t \<Rightarrow> sym Colon # type_words t | None \<Rightarrow> [])"

definition param_words :: "param \<Rightarrow> lexeme list" where
  "param_words p = ident (pm_name p) # annotation_words (pm_type p)"

definition fn_words :: "fn_decl \<Rightarrow> lexeme list" where
  "fn_words fn =
     sym KwFn # member_word (fn_name fn) # generics_words (fn_genericParams fn) @
     sym LParen # commas (map param_words (fn_params fn)) @ sym RParen #
     annotation_words (fn_returnType fn) @ (case fn_body fn of Some b \<Rightarrow> block_words b | None \<Rightarrow> [])"

definition method_words :: "fn_decl option \<Rightarrow> lexeme list" where
  "method_words m = (case m of Some fn \<Rightarrow> fn_words fn | None \<Rightarrow> [])"

definition field_words :: "field_decl \<Rightarrow> lexeme list" where
  "field_words fd =
     sym (if fd_isVar fd then KwVar else KwLet) # ident (fd_name fd) # annotation_words (fd_type fd) @ [sym Semicolon]"

fun decl_words :: "decl \<Rightarrow> lexeme list" where
  "decl_words (DFn fn) = fn_words fn"
| "decl_words (DStruct d) =
     sym KwStruct # ident (sd_name d) # sym LBrace # concat (map field_words (sd_fields d)) @
     concat (map method_words (sd_methods d)) @ [sym RBrace]"
| "decl_words (DTrait d) =
     sym KwTrait # ident (td_name d) # sym LBrace #
     concat (map (\<lambda>m. method_words m @ [sym Semicolon]) (td_methods d)) @ [sym RBrace]"
| "decl_words (DImpl d) =
     sym KwImpl # (case id_traitName d of Some t \<Rightarrow> [ident t, ident ''for''] | None \<Rightarrow> []) @
     ident (id_typeName d) # sym LBrace # concat (map method_words (id_methods d)) @ [sym RBrace]"

definition import_words :: "import_decl \<Rightarrow> lexeme list" where
  "import_words i =
     sym KwImport # path_words (imp_path i) @ (case imp_alias i of Some a \<Rightarrow> [sym KwAs, ident a] | None \<Rightarrow> [])"

definition item_words :: "decl option \<Rightarrow> lexeme list" where
  "item_words d = (case d of Some d \<Rightarrow> decl_words d | None \<Rightarrow> [])"

definition file_words :: "ast_file \<Rightarrow> lexeme list" where
  "file_words f =
     (case sf_explicitModule f of Some p \<Rightarrow> sym KwModule # path_words p | None \<Rightarrow> []) @
     concat (map import_words (sf_imports f)) @
     concat (map item_words (sf_declarations f))"


subsection \<open>Trees that a text denotes\<close>

definition writable_type_of :: "type_ref option \<Rightarrow> bool" where
  "writable_type_of ty = (case ty of Some t \<Rightarrow> writable_type t | None \<Rightarrow> False)"

definition unresolved :: "('a) decl_base_scheme \<Rightarrow> bool" where
  "unresolved d \<longleftrightarrow> d_modulePath d = [] \<and> d_imports d = []"

definition writable_fn :: "bool \<Rightarrow> fn_decl \<Rightarrow> bool" where
  "writable_fn requireBody fn \<longleftrightarrow>
     unresolved fn \<and> (\<forall>g \<in> set (fn_genericParams fn). gp_bounds g \<noteq> []) \<and>
     (\<forall>p \<in> set (fn_params fn). writable_type_of (pm_type p)) \<and> pred_option writable_type (fn_returnType fn) \<and>
     (requireBody \<longrightarrow> fn_body fn \<noteq> None) \<and> pred_option writable_block (fn_body fn)"

definition writable_method :: "bool \<Rightarrow> fn_decl option \<Rightarrow> bool" where
  "writable_method requireBody m = (case m of Some fn \<Rightarrow> writable_fn requireBody fn | None \<Rightarrow> False)"

fun writable_decl :: "decl \<Rightarrow> bool" where
  "writable_decl (DFn fn) = writable_fn True fn"
| "writable_decl (DStruct d) \<longleftrightarrow>
     unresolved d \<and> (\<forall>fd \<in> set (sd_fields d). writable_type_of (fd_type fd)) \<and>
     (\<forall>m \<in> set (sd_methods d). writable_method True m)"
| "writable_decl (DTrait d) \<longleftrightarrow> unresolved d \<and> (\<forall>m \<in> set (td_methods d). writable_method False m)"
| "writable_decl (DImpl d) \<longleftrightarrow> unresolved d \<and> (\<forall>m \<in> set (id_methods d). writable_method True m)"

definition writable_item :: "decl option \<Rightarrow> bool" where
  "writable_item d = (case d of Some d \<Rightarrow> writable_decl d | None \<Rightarrow> False)"

definition writable_file :: "ast_file \<Rightarrow> bool" where
  "writable_file f \<longleftrightarrow>
     (case sf_explicitModule f of Some p \<Rightarrow> p \<noteq> [] \<and> sf_resolvedModule f = p | None \<Rightarrow> sf_resolvedModule f = []) \<and>
     (\<forall>i \<in> set (sf_imports f). imp_path i \<noteq> []) \<and>
     (\<forall>d \<in> set (sf_declarations f). writable_item d)"


subsection \<open>Forgetting identifiers and spans\<close>

definition erase_generic :: "generic_param \<Rightarrow> generic_param" where
  "erase_generic g =
     g\<lparr>gp_bounds := map (tb_span_update (\<lambda>_. default_span)) (gp_bounds g), gp_span := default_span\<rparr>"

definition erase_param :: "param \<Rightarrow> param" where
  "erase_param p = p\<lparr>pm_type := map_option erase_type (pm_type p)\<rparr>"

definition erase_fn :: "fn_decl \<Rightarrow> fn_decl" where
  "erase_fn fn = fn\<lparr>node_id := 0, node_span := default_span,
     fn_genericParams := map erase_generic (fn_genericParams fn), fn_params := map erase_param (fn_params fn),
     fn_returnType := map_option erase_type (fn_returnType fn), fn_body := map_option erase_block (fn_body fn)\<rparr>"

definition erase_field :: "field_decl \<Rightarrow> field_decl" where
  "erase_field fd =
     fd\<lparr>node_id := 0, node_span := default_span, fd_type := map_option erase_type (fd_type fd)\<rparr>"

abbreviation erase_methods :: "fn_decl option list \<Rightarrow> fn_decl option list" where
  "erase_methods \<equiv> map (map_option erase_fn)"

fun erase_decl :: "decl \<Rightarrow> decl" where
  "erase_decl (DFn fn) = DFn (erase_fn fn)"
| "erase_decl (DStruct d) = DStruct (d\<lparr>node_id := 0, node_span := default_span,
     sd_fields := map erase_field (sd_fields d), sd_methods := erase_methods (sd_methods d)\<rparr>)"
| "erase_decl (DTrait d) = DTrait (d\<lparr>node_id := 0, node_span := default_span, td_methods := erase_methods (td_methods d)\<rparr>)"
| "erase_decl (DImpl d) = DImpl (d\<lparr>node_id := 0, node_span := default_span, id_methods := erase_methods (id_methods d)\<rparr>)"

definition erase_import :: "import_decl \<Rightarrow> import_decl" where
  "erase_import i = i\<lparr>imp_span := default_span\<rparr>"

definition erase_file :: "ast_file \<Rightarrow> ast_file" where
  "erase_file f = f\<lparr>node_id := 0, node_span := default_span, sf_imports := map erase_import (sf_imports f),
     sf_declarations := map (map_option erase_decl) (sf_declarations f)\<rparr>"


subsection \<open>Generic parameters and parameters\<close>

lemma bounds_read:
  "bs \<noteq> [] \<Longrightarrow> ahead st = pluses (map tb_name bs) @ ws \<Longrightarrow> ws \<noteq> [] \<Longrightarrow> fst (hd ws) \<noteq> Plus \<Longrightarrow>
   length (ahead st) < m \<Longrightarrow>
   returns (\<lambda>xs. \<exists>zs. xs = acc @ zs \<and> map tb_name zs = map tb_name bs) ws (diag st) (ploop_n m bound_step acc st)"
proof (induction bs arbitrary: acc st m)
  case (Cons b bs)
  obtain m' where m: "m = Suc m'" using Cons.prems(5) by (cases m) auto
  let ?st = "snd (Parser_consume Plus (snd (Parser_advance st)))"
  let ?b = "\<lparr>tb_name = tb_name b, tb_span = mk_span (cur_begin st) (cur_begin (snd (Parser_advance st)))\<rparr>"
  show ?case
  proof (cases "bs = []")
    case True
    then show ?thesis
      using Cons.prems m by (auto simp: bound_step_def more_if_def Let_def case_prod_beta)
  next
    case False
    then have pw: "pluses (map tb_name (b # bs)) = ident (tb_name b) # sym Plus # pluses (map tb_name bs)"
      by (cases bs) auto
    have st: "ahead ?st = pluses (map tb_name bs) @ ws" "diag ?st = diag st" using Cons.prems(2) pw by auto
    have "bound_step acc st = Some ((acc @ [?b], True), ?st)"
      using Cons.prems(2) pw by (simp add: bound_step_def more_if_def Let_def case_prod_beta)
    moreover have "length (ahead ?st) < m'" using Cons.prems(2,5) m st(1) pw by auto
    ultimately show ?thesis
      using Cons.IH [OF False st(1) Cons.prems(3,4), of m' "acc @ [?b]"] st(2) m by (auto simp: returns_def)
  qed
qed simp

lemma erase_bounds: "map tb_name xs = map tb_name ys \<Longrightarrow>
    map (tb_span_update (\<lambda>_. default_span)) xs = map (tb_span_update (\<lambda>_. default_span)) (ys :: trait_bound list)"
proof (induction xs ys rule: list_induct2')
  case (4 x xs y ys)
  then show ?case by (cases x; cases y) simp
qed simp_all

lemma generic_reads:
  assumes g: "gp_bounds g \<noteq> []" and st: "ahead st = generic_words g @ w # ws" and w: "fst w \<in> {Comma, Greater}"
  shows "returns (\<lambda>(ys, more). more = (fst w = Comma) \<and> (\<exists>y. ys = acc @ [y] \<and> erase_generic y = erase_generic g))
          (if fst w = Comma then ws else w # ws) (diag st) (generic_step acc st)"
proof -
  let ?st = "Parser_expect Colon ''expected ':' after generic parameter name'' (snd (Parser_advance st))"
  have st': "ahead ?st = pluses (map tb_name (gp_bounds g)) @ w # ws" "diag ?st = diag st"
    using st by (auto simp: generic_words_def)
  have "returns (\<lambda>xs. map tb_name xs = map tb_name (gp_bounds g)) (w # ws) (diag st) (ploop bound_step [] ?st)"
    unfolding ploop_def using bounds_read [OF g st'(1), of "Suc (remaining ?st)" "[]"] st'(2) w by auto
  then have "returns (\<lambda>y. erase_generic y = erase_generic g) (w # ws) (diag st) (parseGenericParam st)"
    using st unfolding parseGenericParam_def
    by (cases g) (auto simp: generic_words_def erase_generic_def case_prod_beta Let_def elim!: returns_bind dest: erase_bounds)
  then show ?thesis
    unfolding generic_step_def by (rule returns_bind) (use w in \<open>auto simp: more_if_def case_prod_beta\<close>)
qed

lemma generics_read:
  assumes gs: "\<forall>g \<in> set gs. gp_bounds g \<noteq> []" and st: "ahead st = generics_words gs @ sym LParen # ws"
  shows "returns (\<lambda>xs. map erase_generic xs = map erase_generic gs) (sym LParen # ws) (diag st)
           (if Parser_at Less st then parseGenericParams st else Some ([], st))"
proof (cases gs)
  case (Cons g gs')
  let ?st = "Parser_expect Less ''expected '<' before generic parameter list'' st"
  have st': "ahead ?st = commas (map generic_words gs) @ sym Greater # sym LParen # ws" "diag ?st = diag st"
    using st Cons by (auto simp: generics_words_def)
  have "\<not> Parser_at Greater ?st" using st'(1) Cons by (cases gs') (auto simp: generic_words_def)
  moreover have "returns (\<lambda>xs. map erase_generic xs = map erase_generic gs) (sym Greater # sym LParen # ws) (diag ?st)
      (ploop generic_step [] ?st)"
    by (intro comma_ploop [where n = "Suc (length (ahead ?st))" and close = Greater and pr = generic_words] generic_reads)
       (use gs st' Cons in auto)
  ultimately show ?thesis
    using st st'(2) Cons by (auto simp: generics_words_def parseGenericParams_def elim!: returns_bind)
qed (use st in \<open>simp add: generics_words_def\<close>)

lemma param_reads:
  assumes p: "writable_type_of (pm_type p)" and st: "ahead st = param_words p @ w # ws" and w: "fst w \<in> {Comma, RParen}"
  shows "returns (\<lambda>(ys, more). more = (fst w = Comma) \<and> (\<exists>y. ys = acc @ [y] \<and> erase_param y = erase_param p))
          (if fst w = Comma then ws else w # ws) (diag st) (param_step acc st)"
proof -
  obtain t where t: "pm_type p = Some t" "writable_type t" using p by (auto simp: writable_type_of_def split: option.splits)
  let ?st = "Parser_expect Colon ''expected ':' after parameter name'' (snd (Parser_advance st))"
  have st': "ahead ?st = type_words t @ w # ws" "diag ?st = diag st"
    using st t by (auto simp: param_words_def annotation_words_def)
  have "returns (\<lambda>x. erase_type x = erase_type t) (w # ws) (diag st) (parseTypeRef ?st)"
    using typeRef_reads [OF t(2) st'(1)] st'(2) w by (auto simp: ends_type_def)
  then show ?thesis
    using st t w unfolding param_step_def
    by (cases p) (auto simp: param_words_def annotation_words_def more_if_def case_prod_beta Let_def erase_param_def
        elim!: returns_bind)
qed

lemma params_read:
  assumes ps: "\<forall>p \<in> set ps. writable_type_of (pm_type p)" and st: "ahead st = commas (map param_words ps) @ sym RParen # ws"
  shows "returns (\<lambda>xs. map erase_param xs = map erase_param ps) (sym RParen # ws) (diag st) (parse_params st)"
proof (cases ps)
  case (Cons p ps')
  have "\<not> Parser_at RParen st" using st Cons by (cases ps') (auto simp: param_words_def)
  moreover have "returns (\<lambda>xs. map erase_param xs = map erase_param ps) (sym RParen # ws) (diag st) (ploop param_step [] st)"
    by (intro comma_ploop [where n = "Suc (length (ahead st))" and close = RParen and pr = param_words] param_reads)
       (use ps st Cons in auto)
  ultimately show ?thesis by (simp add: parse_params_def)
qed (use st in \<open>simp add: parse_params_def\<close>)


subsection \<open>Functions\<close>

lemma return_type_reads:
  assumes ty: "pred_option writable_type ty" and st: "ahead st = annotation_words ty @ ws" and ws: "ends_type ws"
    "fst (hd ws) \<noteq> Colon"
  shows "returns (\<lambda>x. map_option erase_type x = map_option erase_type ty) ws (diag st) (parse_return_type st)"
proof (cases ty)
  case (Some t)
  have "ahead (snd (Parser_consume Colon st)) = type_words t @ ws" using st Some by (simp add: annotation_words_def)
  from typeRef_reads [OF _ this ws(1)] ty Some st show ?thesis
    by (auto simp: parse_return_type_def case_prod_beta annotation_words_def elim!: returns_bind)
qed (use st ws in \<open>simp add: parse_return_type_def case_prod_beta annotation_words_def ends_type_def\<close>)

lemma body_reads:
  assumes b: "pred_option writable_block b" "requireBody \<longrightarrow> b \<noteq> None"
    and st: "ahead st = (case b of Some bl \<Rightarrow> block_words bl | None \<Rightarrow> []) @ ws" "length (ahead st) \<le> n"
    and ws: "b = None \<Longrightarrow> ws \<noteq> [] \<and> fst (hd ws) \<noteq> LBrace"
  shows "returns (\<lambda>x. map_option erase_block x = map_option erase_block b) ws (diag st) (parse_body (pfuns_at n) requireBody st)"
proof (cases b)
  case (Some bl)
  then have "returns (\<lambda>x. erase_block x = erase_block bl) ws (diag st) (parseBlock (pfuns_at n) st)"
    using writable_reads(3) [of bl] b(1) st by (simp add: reads_block_def)
  then show ?thesis using st Some by (auto simp: parse_body_def elim!: returns_bind)
qed (use assms in \<open>auto simp: parse_body_def\<close>)

lemma fn_rest_reads:
  fixes fn :: fn_decl
  assumes fn: "writable_fn requireBody fn"
    and st: "ahead st = generics_words (fn_genericParams fn) @ sym LParen # commas (map param_words (fn_params fn)) @
        sym RParen # annotation_words (fn_returnType fn) @
        (case fn_body fn of Some b \<Rightarrow> block_words b | None \<Rightarrow> []) @ ws" "length (ahead st) \<le> n"
    and ws: "fn_body fn = None \<Longrightarrow> ws \<noteq> [] \<and> fst (hd ws) = Semicolon"
    and fn0: "d_modulePath fn0 = []" "d_imports fn0 = []" "fn_name fn0 = fn_name fn"
  shows "returns (\<lambda>x. erase_fn x = erase_fn fn) ws (diag st) (parse_fn_rest (pfuns_at n) requireBody b fn0 st)"
proof -
  let ?body = "(case fn_body fn of Some b \<Rightarrow> block_words b | None \<Rightarrow> []) @ ws"
  let ?ret = "annotation_words (fn_returnType fn) @ ?body"
  let ?params = "commas (map param_words (fn_params fn)) @ sym RParen # ?ret"
  have ends: "ends_type ?body" "fst (hd ?body) \<noteq> Colon"
    using ws by (auto simp: ends_type_def split: option.split)
  have gs: "returns (\<lambda>xs. map erase_generic xs = map erase_generic (fn_genericParams fn)) (sym LParen # ?params) (diag st)
           (if Parser_at Less st then parseGenericParams st else Some ([], st))"
    using fn st(1) by (intro generics_read) (auto simp: writable_fn_def)
  have ps: "returns (\<lambda>xs. map erase_param xs = map erase_param (fn_params fn)) (sym RParen # ?ret) (diag st)
         (parse_params (Parser_expect LParen msg st1))" if "ahead st1 = sym LParen # ?params" "diag st1 = diag st" for st1 msg
    using params_read [of "fn_params fn" "Parser_expect LParen msg st1" ?ret] fn that by (auto simp: writable_fn_def)
  have ret: "returns (\<lambda>x. map_option erase_type x = map_option erase_type (fn_returnType fn)) ?body (diag st)
         (parse_return_type (Parser_expect RParen msg st1))" if "ahead st1 = sym RParen # ?ret" "diag st1 = diag st" for st1 msg
    using return_type_reads [of "fn_returnType fn" "Parser_expect RParen msg st1" ?body, OF _ _ ends] fn that
    by (auto simp: writable_fn_def)
  have body: "returns (\<lambda>x. map_option erase_block x = map_option erase_block (fn_body fn)) ws (diag st)
         (parse_body (pfuns_at n) requireBody st1)" if "ahead st1 = ?body" "diag st1 = diag st" for st1
    using body_reads [of "fn_body fn" requireBody st1 ws n] fn that st ws by (auto simp: writable_fn_def)
  show ?thesis
    unfolding parse_fn_rest_def Let_def case_prod_beta
    by (rule returns_bind [OF gs], rule returns_bind [OF ps], (simp_all)[2], rule returns_bind [OF ret], (simp_all)[2],
        rule returns_bind [OF body])
       (use fn fn0 in \<open>auto simp: erase_fn_def writable_fn_def unresolved_def\<close>)
qed

lemma fn_reads:
  assumes fn: "writable_fn requireBody fn" and st: "ahead st = fn_words fn @ ws" "length (ahead st) \<le> n"
    and ws: "fn_body fn = None \<Longrightarrow> ws \<noteq> [] \<and> fst (hd ws) = Semicolon"
  shows "returns (\<lambda>x. erase_fn x = erase_fn fn) ws (diag st) (parseFnDecl (pfuns_at n) requireBody st)"
proof -
  let ?st2 = "snd (Parser_nextNodeId (snd (Parser_advance st)))"
  let ?st3 = "snd (Parser_advance ?st2)"
  have st3: "ahead ?st3 = generics_words (fn_genericParams fn) @ sym LParen # commas (map param_words (fn_params fn)) @
        sym RParen # annotation_words (fn_returnType fn) @
        (case fn_body fn of Some b \<Rightarrow> block_words b | None \<Rightarrow> []) @ ws" "diag ?st3 = diag st" "length (ahead ?st3) \<le> n"
      "tok_text (cur ?st2) = fn_name fn" "Parser_at Identifier ?st2 \<or> Parser_at KwNew ?st2"
    using st by (auto simp: fn_words_def member_word_def)
  from fn_rest_reads [OF fn st3(1,3) ws, of "(empty_fn (fst (Parser_nextNodeId (snd (Parser_advance st)))))\<lparr>fn_name := tok_text (cur ?st2)\<rparr>"]
  show ?thesis
    using st3 by (auto simp: parseFnDecl_def case_prod_beta empty_fn_def)
qed


subsection \<open>Sequences of members\<close>

lemma item_loop:
  assumes step: "\<And>acc x st ws. x \<in> set xs \<Longrightarrow> ahead st = pr x @ ws \<Longrightarrow> length (ahead st) \<le> n \<Longrightarrow> ok ws \<Longrightarrow>
      returns (\<lambda>(y, more). more \<and> view y = upd x (view acc)) ws (diag st) (step acc st)"
    and pr: "\<And>x ws. x \<in> set xs \<Longrightarrow> pr x \<noteq> [] \<and> ok (pr x @ ws)"
  shows "in_loop step (\<lambda>a. view a = v) (concat (map pr xs) @ ws) d r \<Longrightarrow> ok ws \<Longrightarrow>
      length (concat (map pr xs) @ ws) \<le> n \<Longrightarrow> in_loop step (\<lambda>a. view a = fold upd xs v) ws d r"
  using step pr
proof (induction xs arbitrary: v)
  case (Cons x xs)
  let ?ws = "concat (map pr xs) @ ws"
  have ok: "ok ?ws" using Cons.prems(2,5) by (cases xs) auto
  have "in_loop step (\<lambda>a. view a = upd x v) ?ws d r"
  proof (rule in_loop_step [OF Cons.prems(1)])
    show "length ?ws < length (concat (map pr (x # xs)) @ ws)" using Cons.prems(5) [of x] by simp
    fix a st assume a: "view a = v" "ahead st = concat (map pr (x # xs)) @ ws" "diag st = d"
    then show "returns (\<lambda>(y, more). more \<and> view y = upd x v) ?ws d (step a st)"
      using Cons.prems(4) [of x st ?ws a] Cons.prems(3) ok by simp
  qed
  from Cons.IH [OF this Cons.prems(2)] Cons.prems(3-5) show ?case by simp
qed simp

lemma fold_snoc: "fold (\<lambda>x a. a @ [f x]) xs a = a @ map f xs"
  by (induction xs arbitrary: a) auto

lemma fold_fst: "fold (\<lambda>x (a, b). (a @ [f x], b)) xs (a, b) = (a @ map f xs, b)"
  by (induction xs arbitrary: a) auto

lemma fold_snd: "fold (\<lambda>x (a, b). (a, b @ [f x])) xs (a, b) = (a, b @ map f xs)"
  by (induction xs arbitrary: b) auto

lemma field_reads:
  assumes fd: "writable_type_of (fd_type fd)" and st: "ahead st = field_words fd @ ws"
  shows "returns (\<lambda>x. erase_field x = erase_field fd) (sym Semicolon # ws) (diag st) (parseFieldDecl st)"
proof -
  obtain t where t: "fd_type fd = Some t" "writable_type t" using fd by (auto simp: writable_type_of_def split: option.splits)
  let ?st2 = "snd (Parser_advance (snd (Parser_nextNodeId st)))"
  let ?st4 = "Parser_expect Colon ''expected ':' after field name'' (snd (Parser_advance ?st2))"
  have st2: "ahead ?st2 = ident (fd_name fd) # sym Colon # type_words t @ sym Semicolon # ws"
      "tok_kind (cur (snd (Parser_nextNodeId st))) = (if fd_isVar fd then KwVar else KwLet)"
    using st t by (auto simp: field_words_def annotation_words_def)
  have st4: "ahead ?st4 = type_words t @ sym Semicolon # ws" "diag ?st4 = diag st" using st2(1) by auto
  have ty: "returns (\<lambda>x. erase_type x = erase_type t) (sym Semicolon # ws) (diag st) (parseTypeRef ?st4)"
    using typeRef_reads [OF t(2) st4(1)] st4(2) by (simp add: ends_type_def)
  have at: "Parser_at Identifier ?st2" "\<not> (\<not> Parser_at KwLet (snd (Parser_nextNodeId st)) \<and> \<not> Parser_at KwVar (snd (Parser_nextNodeId st)))"
    using st2 st by (auto simp: field_words_def)
  show ?thesis
    using at st2 t
    by (cases fd) (auto simp: parseFieldDecl_def Let_def case_prod_beta erase_field_def intro!: returns_bind [OF ty])
qed

lemma writable_methodE:
  assumes "writable_method requireBody m"
  obtains fn where "m = Some fn" "writable_fn requireBody fn"
  using assms by (auto simp: writable_method_def split: option.splits)

lemma method_start: "\<exists>us. fn_words fn = sym KwFn # us"
  by (simp add: fn_words_def)

lemma method_words_start: "writable_method requireBody m \<Longrightarrow> method_words m \<noteq> [] \<and> hd (method_words m) = sym KwFn"
  by (erule writable_methodE) (simp add: method_words_def fn_words_def)

lemma struct_members:
  assumes "\<forall>fd \<in> set fs. writable_type_of (fd_type fd)" and "\<forall>m \<in> set ms. writable_method True m"
    and st: "ahead st = concat (map field_words fs) @ concat (map method_words ms) @ sym RBrace # ws" "length (ahead st) \<le> n"
  shows "returns (\<lambda>(a, b). map erase_field a = map erase_field fs \<and> erase_methods b = erase_methods ms) (sym RBrace # ws)
      (diag st) (ploop (struct_step (pfuns_at n)) ([], []) st)"
proof -
  let ?view = "\<lambda>(a, b). (map erase_field a, erase_methods b)"
  have "in_loop (struct_step (pfuns_at n)) (\<lambda>a. ?view a = ([], []))
      (concat (map field_words fs) @ concat (map method_words ms) @ sym RBrace # ws) (diag st)
      (ploop (struct_step (pfuns_at n)) ([], []) st)"
    using st by (intro in_loop_ploop) auto
  then have "in_loop (struct_step (pfuns_at n)) (\<lambda>a. ?view a = fold (\<lambda>x (a, b). (a @ [erase_field x], b)) fs ([], []))
      (concat (map method_words ms) @ sym RBrace # ws) (diag st) (ploop (struct_step (pfuns_at n)) ([], []) st)"
  proof (rule item_loop [where ok = "\<lambda>_. True" and n = n, rotated 2])
    fix acc x st1 vs
    assume x: "x \<in> set fs" and st1: "ahead st1 = field_words x @ vs"
    have "\<not> body_ends st1" "\<not> Parser_at KwFn st1" using st1 by (auto simp: field_words_def)
    then show "returns (\<lambda>(y, more). more \<and> ?view y = (case ?view acc of (a, b) \<Rightarrow> (a @ [erase_field x], b))) vs (diag st1)
        (struct_step (pfuns_at n) acc st1)"
      using field_reads [of x st1 vs] x assms(1) st1
      by (auto simp: struct_step_def case_prod_beta elim!: returns_bind)
  qed (use st in \<open>auto simp: field_words_def\<close>)
  then have "in_loop (struct_step (pfuns_at n)) (\<lambda>a. ?view a = fold (\<lambda>x (a, b). (a, b @ [map_option erase_fn x])) ms
      (fold (\<lambda>x (a, b). (a @ [erase_field x], b)) fs ([], [])))
      (sym RBrace # ws) (diag st) (ploop (struct_step (pfuns_at n)) ([], []) st)"
  proof (rule item_loop [where ok = "\<lambda>_. True" and n = n, rotated 2])
    fix acc x st1 vs
    assume x: "x \<in> set ms" and st1: "ahead st1 = method_words x @ vs" "length (ahead st1) \<le> n"
    obtain fn where fn: "x = Some fn" "writable_fn True fn" using x assms(2) by (auto elim: writable_methodE)
    have at: "\<not> body_ends st1" "Parser_at KwFn st1" using st1 fn method_start [of fn] by (auto simp: method_words_def)
    have "returns (\<lambda>x. erase_fn x = erase_fn fn) vs (diag st1) (parseFnDecl (pfuns_at n) True st1)"
      using fn st1 by (intro fn_reads) (auto simp: method_words_def writable_fn_def)
    then show "returns (\<lambda>(y, more). more \<and> ?view y = (case ?view acc of (a, b) \<Rightarrow> (a, b @ [map_option erase_fn x]))) vs (diag st1)
        (struct_step (pfuns_at n) acc st1)"
      using at fn by (auto simp: struct_step_def case_prod_beta elim!: returns_bind)
  qed (use st assms(2) method_words_start in auto)
  then show ?thesis
    by (rule in_loop_exit) (auto simp: struct_step_def fold_fst fold_snd)
qed


lemma method_reads:
  assumes m: "writable_method requireBody m" and st: "ahead st = method_words m @ ws" "length (ahead st) \<le> n"
    and ws: "requireBody \<or> ws \<noteq> [] \<and> fst (hd ws) = Semicolon"
  shows "returns (\<lambda>x. Some (erase_fn x) = map_option erase_fn m) ws (diag st) (parseFnDecl (pfuns_at n) requireBody st)"
proof -
  obtain fn where fn: "m = Some fn" "writable_fn requireBody fn" using m by (rule writable_methodE)
  have "returns (\<lambda>x. erase_fn x = erase_fn fn) ws (diag st) (parseFnDecl (pfuns_at n) requireBody st)"
    using fn st ws by (intro fn_reads) (auto simp: method_words_def writable_fn_def)
  then show ?thesis using fn(1) by simp
qed

lemma trait_members:
  assumes ms: "\<forall>m \<in> set ms. writable_method False m"
    and st: "ahead st = concat (map (\<lambda>m. method_words m @ [sym Semicolon]) ms) @ sym RBrace # ws" "length (ahead st) \<le> n"
  shows "returns (\<lambda>b. erase_methods b = erase_methods ms) (sym RBrace # ws) (diag st)
      (ploop (trait_step (pfuns_at n)) [] st)"
proof -
  have "in_loop (trait_step (pfuns_at n)) (\<lambda>b. erase_methods b = [])
      (concat (map (\<lambda>m. method_words m @ [sym Semicolon]) ms) @ sym RBrace # ws) (diag st)
      (ploop (trait_step (pfuns_at n)) [] st)"
    using st by (intro in_loop_ploop) auto
  then have "in_loop (trait_step (pfuns_at n)) (\<lambda>b. erase_methods b = fold (\<lambda>x b. b @ [map_option erase_fn x]) ms [])
      (sym RBrace # ws) (diag st) (ploop (trait_step (pfuns_at n)) [] st)"
  proof (rule item_loop [where ok = "\<lambda>_. True" and n = n, rotated 2])
    fix acc x st1 vs
    assume x: "x \<in> set ms" and st1: "ahead st1 = (method_words x @ [sym Semicolon]) @ vs" "length (ahead st1) \<le> n"
    have at: "\<not> body_ends st1" "Parser_at KwFn st1" using st1 ms x method_words_start [of False x] by auto
    have "returns (\<lambda>y. Some (erase_fn y) = map_option erase_fn x) (sym Semicolon # vs) (diag st1)
        (parseFnDecl (pfuns_at n) False st1)"
      using ms x st1 by (intro method_reads) auto
    then show "returns (\<lambda>(y, more). more \<and> erase_methods y = erase_methods acc @ [map_option erase_fn x]) vs (diag st1)
        (trait_step (pfuns_at n) acc st1)"
      using at by (auto simp: trait_step_def case_prod_beta elim!: returns_bind)
  qed (use st in auto)
  then show ?thesis by (rule in_loop_exit) (auto simp: trait_step_def fold_snoc)
qed

lemma impl_members:
  assumes ms: "\<forall>m \<in> set ms. writable_method True m"
    and st: "ahead st = concat (map method_words ms) @ sym RBrace # ws" "length (ahead st) \<le> n"
  shows "returns (\<lambda>b. erase_methods b = erase_methods ms) (sym RBrace # ws) (diag st)
      (ploop (impl_step (pfuns_at n)) [] st)"
proof -
  have "in_loop (impl_step (pfuns_at n)) (\<lambda>b. erase_methods b = [])
      (concat (map method_words ms) @ sym RBrace # ws) (diag st) (ploop (impl_step (pfuns_at n)) [] st)"
    using st by (intro in_loop_ploop) auto
  then have "in_loop (impl_step (pfuns_at n)) (\<lambda>b. erase_methods b = fold (\<lambda>x b. b @ [map_option erase_fn x]) ms [])
      (sym RBrace # ws) (diag st) (ploop (impl_step (pfuns_at n)) [] st)"
  proof (rule item_loop [where ok = "\<lambda>_. True" and n = n, rotated 2])
    fix acc x st1 vs
    assume x: "x \<in> set ms" and st1: "ahead st1 = method_words x @ vs" "length (ahead st1) \<le> n"
    have at: "\<not> body_ends st1" "Parser_at KwFn st1" using st1 ms x method_words_start [of True x] by auto
    have "returns (\<lambda>y. Some (erase_fn y) = map_option erase_fn x) vs (diag st1) (parseFnDecl (pfuns_at n) True st1)"
      using ms x st1 by (intro method_reads) auto
    then show "returns (\<lambda>(y, more). more \<and> erase_methods y = erase_methods acc @ [map_option erase_fn x]) vs (diag st1)
        (impl_step (pfuns_at n) acc st1)"
      using at by (auto simp: impl_step_def case_prod_beta elim!: returns_bind)
  qed (use st ms method_words_start in auto)
  then show ?thesis by (rule in_loop_exit) (auto simp: impl_step_def fold_snoc)
qed


subsection \<open>Declarations\<close>

lemma struct_reads:
  assumes d: "writable_decl (DStruct d)" and st: "ahead st = decl_words (DStruct d) @ ws" "length (ahead st) \<le> n"
  shows "returns (\<lambda>x. erase_decl (DStruct x) = erase_decl (DStruct d)) ws (diag st) (parseStructDecl (pfuns_at n) st)"
proof -
  let ?st2 = "snd (Parser_nextNodeId (snd (Parser_advance st)))"
  let ?st4 = "Parser_expect LBrace ''expected '{' after struct name'' (snd (Parser_advance ?st2))"
  have st2: "ahead ?st2 = ident (sd_name d) # sym LBrace # concat (map field_words (sd_fields d)) @
      concat (map method_words (sd_methods d)) @ sym RBrace # ws" using st by auto
  then have st4: "ahead ?st4 = concat (map field_words (sd_fields d)) @ concat (map method_words (sd_methods d)) @ sym RBrace # ws"
      "diag ?st4 = diag st" by auto
  have members: "returns (\<lambda>(a, b). map erase_field a = map erase_field (sd_fields d) \<and> erase_methods b = erase_methods (sd_methods d))
      (sym RBrace # ws) (diag st) (ploop (struct_step (pfuns_at n)) ([], []) ?st4)"
    using struct_members [OF _ _ st4(1), of n] d st st4 by auto
  show ?thesis
    using st2 d by (auto simp: parseStructDecl_def Let_def case_prod_beta unresolved_def intro!: returns_bind [OF members])
qed

lemma trait_reads:
  assumes d: "writable_decl (DTrait d)" and st: "ahead st = decl_words (DTrait d) @ ws" "length (ahead st) \<le> n"
  shows "returns (\<lambda>x. erase_decl (DTrait x) = erase_decl (DTrait d)) ws (diag st) (parseTraitDecl (pfuns_at n) st)"
proof -
  let ?st2 = "snd (Parser_nextNodeId (snd (Parser_advance st)))"
  let ?st4 = "Parser_expect LBrace ''expected '{' after trait name'' (snd (Parser_advance ?st2))"
  have st2: "ahead ?st2 = ident (td_name d) # sym LBrace #
      concat (map (\<lambda>m. method_words m @ [sym Semicolon]) (td_methods d)) @ sym RBrace # ws" using st by auto
  then have st4: "ahead ?st4 = concat (map (\<lambda>m. method_words m @ [sym Semicolon]) (td_methods d)) @ sym RBrace # ws"
      "diag ?st4 = diag st" by auto
  have members: "returns (\<lambda>b. erase_methods b = erase_methods (td_methods d)) (sym RBrace # ws) (diag st)
      (ploop (trait_step (pfuns_at n)) [] ?st4)"
    using trait_members [OF _ st4(1), of n] d st st4 by auto
  show ?thesis
    using st2 d by (auto simp: parseTraitDecl_def Let_def case_prod_beta unresolved_def intro!: returns_bind [OF members])
qed

lemma impl_reads:
  assumes d: "writable_decl (DImpl d)" and st: "ahead st = decl_words (DImpl d) @ ws" "length (ahead st) \<le> n"
  shows "returns (\<lambda>x. erase_decl (DImpl x) = erase_decl (DImpl d)) ws (diag st) (parseImplDecl (pfuns_at n) st)"
proof -
  let ?st2 = "snd (Parser_nextNodeId (snd (Parser_advance st)))"
  let ?st3 = "snd (parse_impl_header ?st2)"
  let ?body = "concat (map method_words (id_methods d)) @ sym RBrace # ws"
  have st2: "ahead ?st2 = (case id_traitName d of Some t \<Rightarrow> [ident t, ident ''for''] | None \<Rightarrow> []) @
      ident (id_typeName d) # sym LBrace # ?body" "diag ?st2 = diag st" using st by auto
  then have st3: "fst (parse_impl_header ?st2) = Inr (id_traitName d, id_typeName d)" "ahead ?st3 = ?body" "diag ?st3 = diag st"
    by (cases "id_traitName d"; simp add: parse_impl_header_def Let_def case_prod_beta)+
  have "Parser_at Identifier ?st2" using st2(1) by (cases "id_traitName d") auto
  moreover have members: "returns (\<lambda>b. erase_methods b = erase_methods (id_methods d)) (sym RBrace # ws) (diag st)
      (ploop (impl_step (pfuns_at n)) [] ?st3)"
    using impl_members [OF _ st3(2), of n] d st st3(2,3) by auto
  ultimately show ?thesis
    using st3 d by (auto simp: parseImplDecl_def Let_def case_prod_beta unresolved_def intro!: returns_bind [OF members])
qed

lemma decl_reads:
  assumes "writable_decl d" and "ahead st = decl_words d @ ws" and "length (ahead st) \<le> n"
  shows "returns (\<lambda>x. map_option erase_decl x = Some (erase_decl d)) ws (diag st) (parseDecl (pfuns_at n) st)"
proof (cases d)
  case (DFn fn)
  then have "returns (\<lambda>x. erase_fn x = erase_fn fn) ws (diag st) (parseFnDecl (pfuns_at n) True st)"
    using assms by (intro fn_reads) (auto simp: writable_fn_def)
  then show ?thesis using assms(2) DFn by (auto simp: parseDecl_def fn_words_def elim!: returns_bind)
next
  case (DStruct s)
  then show ?thesis
    using struct_reads [of s st ws n] assms by (auto simp: parseDecl_def elim!: returns_bind)
next
  case (DTrait s)
  then show ?thesis
    using trait_reads [of s st ws n] assms by (auto simp: parseDecl_def elim!: returns_bind)
next
  case (DImpl s)
  then show ?thesis
    using impl_reads [of s st ws n] assms by (auto simp: parseDecl_def elim!: returns_bind)
qed



subsection \<open>Files\<close>

definition starts_item :: "lexeme list \<Rightarrow> bool" where
  "starts_item ws \<longleftrightarrow> ws \<noteq> [] \<and> fst (hd ws) \<in> {KwImport, KwFn, KwStruct, KwTrait, KwImpl, EndOfFile}"

lemma decl_start: "decl_words d \<noteq> [] \<and> fst (hd (decl_words d)) \<in> {KwFn, KwStruct, KwTrait, KwImpl}"
  by (cases d) (simp_all add: fn_words_def)

lemma writable_itemE:
  assumes "writable_item d'"
  obtains d where "d' = Some d" "writable_decl d"
  using assms by (auto simp: writable_item_def split: option.splits)

lemma item_start: "writable_item d \<Longrightarrow> item_words d \<noteq> [] \<and> fst (hd (item_words d)) \<in> {KwFn, KwStruct, KwTrait, KwImpl}"
proof (elim writable_itemE)
  show "item_words d \<noteq> [] \<and> fst (hd (item_words d)) \<in> {KwFn, KwStruct, KwTrait, KwImpl}" if "d = Some x" for x
    using that decl_start [of x] by (simp add: item_words_def)
qed

lemma starts_itemD: "starts_item ws \<Longrightarrow> ws \<noteq> [] \<and> fst (hd ws) \<notin> {Dot, KwAs, KwModule}"
  by (auto simp: starts_item_def)

lemma module_reads:
  assumes "p \<noteq> []" and st: "ahead st = sym KwModule # path_words p @ ws" and ws: "starts_item ws"
  shows "returns (\<lambda>f'. erase_file f' = (erase_file f)\<lparr>sf_explicitModule := Some p, sf_resolvedModule := p\<rparr>) ws (diag st)
      (parseModuleHeader f st)"
proof -
  have "returns (\<lambda>q. q = p) ws (diag st) (parsePath ''module'' (snd (Parser_advance st)))"
    using path_reads [OF assms(1), of "snd (Parser_advance st)" ws] st ws by (auto simp: starts_item_def)
  then show ?thesis
    unfolding parseModuleHeader_def Let_def case_prod_beta by (rule returns_bind) (simp add: erase_file_def)
qed

lemma import_reads:
  assumes p: "imp_path i \<noteq> []" and st: "ahead st = import_words i @ ws" and ws: "starts_item ws"
  shows "returns (\<lambda>(f', more). more \<and> erase_file f' = (erase_file f)\<lparr>sf_imports := sf_imports (erase_file f) @ [erase_import i]\<rparr>)
      ws (diag st) (import_step f st)"
proof -
  let ?us = "(case imp_alias i of Some a \<Rightarrow> [sym KwAs, ident a] | None \<Rightarrow> []) @ ws"
  have path: "returns (\<lambda>q. q = imp_path i) ?us (diag st) (parsePath ''import'' (snd (Parser_advance st)))"
    using path_reads [OF p, of "snd (Parser_advance st)" ?us] st ws
    by (auto simp: starts_item_def import_words_def split: option.splits)
  have al: "fst (parse_alias st1) = imp_alias i \<and> ahead (snd (parse_alias st1)) = ws \<and> diag (snd (parse_alias st1)) = diag st1"
    if "ahead st1 = ?us" for st1
    using that ws by (cases "imp_alias i") (auto simp: parse_alias_def Let_def case_prod_beta starts_item_def)
  have "returns (\<lambda>f'. erase_file f' = (erase_file f)\<lparr>sf_imports := sf_imports (erase_file f) @ [erase_import i]\<rparr>)
      ws (diag st) (parseImport f st)"
    unfolding parseImport_def Let_def case_prod_beta
    by (rule returns_bind [OF path]) (use al in \<open>cases i; auto simp: erase_file_def erase_import_def\<close>)
  then show ?thesis
    using st by (auto simp: import_step_def import_words_def elim!: returns_bind)
qed

lemma imports_read:
  assumes "\<forall>i \<in> set ims. imp_path i \<noteq> []" and st: "ahead st = concat (map import_words ims) @ ws"
    and ws: "starts_item ws" "fst (hd ws) \<noteq> KwImport"
  shows "returns (\<lambda>f'. erase_file f' = (erase_file f)\<lparr>sf_imports := sf_imports (erase_file f) @ map erase_import ims\<rparr>)
      ws (diag st) (ploop import_step f st)"
proof -
  let ?upd = "\<lambda>i F. F\<lparr>sf_imports := sf_imports F @ [erase_import i]\<rparr>"
  have "in_loop import_step (\<lambda>f'. erase_file f' = erase_file f) (concat (map import_words ims) @ ws) (diag st)
      (ploop import_step f st)"
    using st by (intro in_loop_ploop) auto
  then have "in_loop import_step (\<lambda>f'. erase_file f' = fold ?upd ims (erase_file f)) ws (diag st) (ploop import_step f st)"
    by (rule item_loop [where ok = starts_item and n = "length (ahead st)", rotated 2])
       (use assms import_reads in \<open>auto simp: starts_item_def import_words_def\<close>)
  moreover have "fold ?upd ims F = F\<lparr>sf_imports := sf_imports F @ map erase_import ims\<rparr>" for F
    by (induction ims arbitrary: F) auto
  ultimately show ?thesis
    using ws by (auto elim!: in_loop_exit simp: import_step_def starts_item_def)
qed

lemma decls_read:
  assumes ds: "\<forall>d \<in> set ds. writable_item d"
    and st: "ahead st = concat (map item_words ds) @ [(EndOfFile, s)]"
      "length (ahead st) \<le> n"
  shows "returns (\<lambda>f'. erase_file f' = (erase_file f)\<lparr>sf_declarations := sf_declarations (erase_file f) @
           map (map_option erase_decl) ds\<rparr>) [(EndOfFile, s)] (diag st) (ploop (decl_step (pfuns_at n)) f st)"
proof -
  let ?upd = "\<lambda>d F. F\<lparr>sf_declarations := sf_declarations F @ [map_option erase_decl d]\<rparr>"
  let ?pr = item_words
  have "in_loop (decl_step (pfuns_at n)) (\<lambda>f'. erase_file f' = erase_file f) (concat (map ?pr ds) @ [(EndOfFile, s)])
      (diag st) (ploop (decl_step (pfuns_at n)) f st)"
    using st by (intro in_loop_ploop) auto
  then have "in_loop (decl_step (pfuns_at n)) (\<lambda>f'. erase_file f' = fold ?upd ds (erase_file f)) [(EndOfFile, s)]
      (diag st) (ploop (decl_step (pfuns_at n)) f st)"
  proof (rule item_loop [where ok = "\<lambda>_. True" and n = n, rotated 2])
    fix acc x st1 vs
    assume x: "x \<in> set ds" and st1: "ahead st1 = ?pr x @ vs" "length (ahead st1) \<le> n"
    obtain d where d: "x = Some d" "writable_decl d" using x ds by (auto elim: writable_itemE)
    have "returns (\<lambda>y. map_option erase_decl y = Some (erase_decl d)) vs (diag st1) (parseDecl (pfuns_at n) st1)"
      using d st1 by (intro decl_reads) (auto simp: item_words_def)
    moreover have "\<not> Parser_at EndOfFile st1 \<and> \<not> Parser_at KwModule st1 \<and> \<not> Parser_at KwImport st1"
      using decl_start [of d] st1 d by (auto simp: item_words_def)
    ultimately show "returns (\<lambda>(y, more). more \<and> erase_file y = ?upd x (erase_file acc)) vs (diag st1)
        (decl_step (pfuns_at n) acc st1)"
      using d by (auto simp: decl_step_def erase_file_def elim!: returns_bind)
  qed (use st ds item_start in auto)
  moreover have "fold ?upd ds F = F\<lparr>sf_declarations := sf_declarations F @ map (map_option erase_decl) ds\<rparr>" for F
    by (induction ds arbitrary: F) auto
  ultimately show ?thesis by (auto elim!: in_loop_exit simp: decl_step_def)
qed

text \<open>The parser reads the words of a tree back to the tree, whatever the spans of the tokens are.\<close>

lemma parse_file_words:
  assumes f: "writable_file f" and st: "ahead st = file_words f @ [(EndOfFile, s)]"
  shows "returns (\<lambda>f'. erase_file f' = erase_file f) [(EndOfFile, s)] (diag st) (parseSourceFile st)"
proof -
  let ?st1 = "snd (Parser_nextNodeId st)" and ?n = "Suc (remaining st)"
  let ?f0 = "\<lparr>node_id = fst (Parser_nextNodeId st), node_span = default_span, sf_explicitModule = None,
      sf_resolvedModule = [], sf_imports = [], sf_declarations = []\<rparr>"
  let ?decls = "concat (map item_words (sf_declarations f)) @ [(EndOfFile, s)]"
  let ?rest = "concat (map import_words (sf_imports f)) @ ?decls"
  have ds: "\<forall>d \<in> set (sf_declarations f). writable_item d"
    and ims: "\<forall>i \<in> set (sf_imports f). imp_path i \<noteq> []"
    using f by (auto simp: writable_file_def)
  have sd: "starts_item ?decls" "fst (hd ?decls) \<noteq> KwImport"
  proof -
    have "starts_item ?decls \<and> fst (hd ?decls) \<noteq> KwImport"
    proof (cases "sf_declarations f")
      case (Cons d' ds')
      then show ?thesis using ds item_start [of d'] by (auto simp: starts_item_def)
    qed (simp add: starts_item_def)
    then show "starts_item ?decls" "fst (hd ?decls) \<noteq> KwImport" by auto
  qed
  have sr: "starts_item ?rest"
  proof (cases "sf_imports f")
    case (Cons i ims')
    then show ?thesis by (simp add: starts_item_def import_words_def)
  qed (use sd in simp)
  have hdr: "returns (\<lambda>f'. erase_file f' = (erase_file ?f0)\<lparr>sf_explicitModule := sf_explicitModule f,
        sf_resolvedModule := sf_resolvedModule f\<rparr>) ?rest (diag st)
      (if Parser_at KwModule ?st1 then parseModuleHeader ?f0 ?st1 else Some (?f0, ?st1))"
  proof (cases "sf_explicitModule f")
    case None
    then have st1: "ahead ?st1 = ?rest" using st by (simp add: file_words_def)
    then have "\<not> Parser_at KwModule ?st1" using starts_itemD [OF sr] by simp
    then show ?thesis using None f st1 by (simp add: writable_file_def erase_file_def)
  next
    case (Some p)
    then have st1: "ahead ?st1 = sym KwModule # path_words p @ ?rest" "p \<noteq> []" "sf_resolvedModule f = p"
      using st f by (auto simp: file_words_def writable_file_def)
    then show ?thesis using module_reads [OF st1(2,1) sr, of ?f0] Some by simp
  qed
  have n: "length ?decls \<le> ?n" using st by (simp add: file_words_def)
  show ?thesis
    unfolding parseSourceFile_def Let_def case_prod_beta
  proof (rule returns_bind [OF hdr], rule returns_bind [OF imports_read [OF ims _ sd]])
    fix f1 st1 f2 st2
    assume f1: "erase_file f1 = (erase_file ?f0)\<lparr>sf_explicitModule := sf_explicitModule f, sf_resolvedModule := sf_resolvedModule f\<rparr>"
      and f2: "erase_file f2 = (erase_file (fst (f1, st1)))\<lparr>sf_imports := sf_imports (erase_file (fst (f1, st1))) @
          map erase_import (sf_imports f)\<rparr>"
      and st2: "ahead st2 = ?decls" "diag st1 = diag st" "diag st2 = diag (snd (f1, st1))"
    have "erase_file f = (erase_file f2)\<lparr>sf_declarations := sf_declarations (erase_file f2) @
        map (map_option erase_decl) (sf_declarations f)\<rparr>"
      using f2 unfolding fst_conv f1 by (cases f) (simp add: erase_file_def)
    then show "returns (\<lambda>f'. erase_file f' = erase_file f) [(EndOfFile, s)] (diag st)
        (ploop (decl_step (pfuns_at (Suc (remaining st)))) (fst (f2, st2)) (snd (f2, st2)))"
      using decls_read [OF ds st2(1), of ?n f2] n st2 by simp
  qed simp
qed



text \<open>The grammar is unambiguous: trees with the same words are the same tree.\<close>

corollary grammar_unambiguous:
  assumes "writable_file f" and "writable_file g" and "file_words f = file_words g"
  shows "erase_file f = erase_file g"
proof -
  define st where "st = Parser_init (map (\<lambda>(k, s). \<lparr>tok_kind = k, tok_span = default_span, tok_text = s\<rparr>)
    (file_words f @ [(EndOfFile, [])])) \<lparr>diagnostics = []\<rparr>"
  have "ahead st = file_words f @ [(EndOfFile, [])]"
    by (simp add: st_def ahead_def Parser_init_def case_prod_beta comp_def)
  with parse_file_words [OF assms(1), of st "[]"] parse_file_words [OF assms(2), of st "[]"] assms(3)
  show ?thesis by (auto simp: returns_def)
qed


subsection \<open>From the text and back\<close>

definition lexical :: "lexeme list \<Rightarrow> bool" where
  "lexical ws \<longleftrightarrow> list_all (\<lambda>(k, s). word_kind s = Some k) ws"

lemma lexical_words:
  assumes "lexical ws"
  shows "map (\<lambda>t. (tok_kind t, tok_text t)) (lexAll (print_words (map snd ws))) = ws @ [(EndOfFile, [])]"
proof -
  have "map (\<lambda>w. (the (word_kind w), w)) (map snd ws) = ws" "list_all (\<lambda>w. word_kind w \<noteq> None) (map snd ws)"
    using assms by (induction ws) (auto simp: lexical_def)
  then show ?thesis
    unfolding lexAll_def using lexAll_loop_words [of "map snd ws" "Lexer_init (print_words (map snd ws))" "[]" "[]"] at_init by simp
qed


text \<open>A file with two statements, and its text.\<close>

definition demo_name :: "string \<Rightarrow> expr option" where
  "demo_name s = Some (NameExpr blank s)"

definition demo_number :: "string \<Rightarrow> expr option" where
  "demo_number s = Some (LiteralExpr blank Lit_Integer s [])"

definition demo_minus :: "expr option \<Rightarrow> expr option \<Rightarrow> expr option" where
  "demo_minus l r = Some (BinaryExpr blank ''-'' l r)"

definition demo_type :: type_ref where
  "demo_type = TypeRef blank Cap_None ''i64'' [''i64''] False False None"

definition demo_file :: ast_file where
  "demo_file = \<lparr>node_id = 0, node_span = default_span, sf_explicitModule = None, sf_resolvedModule = [], sf_imports = [],
     sf_declarations = [Some (DFn \<lparr>node_id = 0, node_span = default_span, d_modulePath = [], d_imports = [], fn_name = ''f'',
       fn_genericParams = [], fn_params = [\<lparr>pm_name = ''x'', pm_type = Some demo_type\<rparr>], fn_returnType = Some demo_type,
       fn_body = Some (BlockExpr blank
         [Some (BindingExpr blank False ''y'' None
            (Some (BinaryExpr blank ''*'' (demo_minus (demo_name ''x'') (demo_number ''1'')) (demo_number ''2'')))),
          Some (ReturnExpr blank
            (demo_minus (demo_minus (demo_name ''y'') (demo_minus (demo_name ''x'') (demo_number ''1''))) (demo_number ''2'')))])\<rparr>)]\<rparr>"

lemmas demo_defs = demo_file_def demo_type_def demo_minus_def demo_number_def demo_name_def

lemma demo_operators: "operator_kind ''-'' = Minus" "operator_kind ''*'' = Star"
  "binaryPrecedence Minus = 2" "binaryPrecedence Star = 3"
  by (simp_all add: operator_kind_def punct_table_def binaryPrecedence_def)

lemma demo_file_words:
  "file_words demo_file =
     [sym KwFn, ident ''f'', sym LParen, ident ''x'', sym Colon, ident ''i64'', sym RParen, sym Colon, ident ''i64'', sym LBrace,
      sym KwLet, ident ''y'', sym Equal, sym LParen, ident ''x'', sym Minus, (IntegerLiteral, ''1''), sym RParen, sym Star,
      (IntegerLiteral, ''2''), sym Semicolon,
      sym KwReturn, ident ''y'', sym Minus, sym LParen, ident ''x'', sym Minus, (IntegerLiteral, ''1''), sym RParen, sym Minus,
      (IntegerLiteral, ''2''), sym Semicolon, sym RBrace]"
  by (simp add: demo_defs file_words_def item_words_def fn_words_def generics_words_def annotation_words_def
      param_words_def member_word_def capability_words_def literal_word_def parens_def demo_operators)


end
