(* ===== verification/Gura_Types.thy ===== *)
theory Gura_Types
  imports Gura_Ast
begin

section \<open>Capabilities and types of the checker\<close>

text \<open>
  The model of \<^verbatim>\<open>include/gura/hir/Capability.h\<close>, \<^verbatim>\<open>Type.h\<close> and the type helpers of
  \<^verbatim>\<open>src/hir/Sema.cpp\<close>: construction, printing, comparison and viewpoint adaptation.
\<close>

datatype capability = Mut | Tmp | Iso | Imm | Paused | Cown | NoCap

definition isCopyable :: "capability \<Rightarrow> bool" where
  "isCopyable c \<longleftrightarrow> c = Imm \<or> c = Cown \<or> c = NoCap"

definition isSendSafe :: "capability \<Rightarrow> bool" where
  "isSendSafe c \<longleftrightarrow> c = Iso \<or> c = Imm \<or> c = Cown \<or> c = NoCap"

datatype htype = HType
  (ty_capability: capability) (ty_name: string) (ty_isArray: bool) (ty_elementType: "htype option")
  (ty_arrayLength: "nat option")

abbreviation mk_type :: "capability \<Rightarrow> string \<Rightarrow> htype" where
  "mk_type cap name \<equiv> HType cap name False None None"

fun with_capability :: "capability \<Rightarrow> htype \<Rightarrow> htype" where
  "with_capability cap (HType _ n a e l) = HType cap n a e l"

fun with_name :: "string \<Rightarrow> htype \<Rightarrow> htype" where
  "with_name name (HType c _ a e l) = HType c name a e l"

fun with_length :: "nat option \<Rightarrow> htype \<Rightarrow> htype" where
  "with_length len (HType c n a e _) = HType c n a e len"

definition invalidType :: htype where "invalidType = mk_type NoCap ''<invalid>''"
definition unitType :: htype where "unitType = mk_type NoCap ''unit''"
definition boolType :: htype where "boolType = mk_type NoCap ''bool''"
definition noneType :: htype where "noneType = mk_type NoCap ''none''"
definition cstringType :: htype where "cstringType = mk_type NoCap ''cstring''"

definition numericType :: "string \<Rightarrow> htype" where
  "numericType name = mk_type NoCap name"

definition arrayType :: "capability \<Rightarrow> htype \<Rightarrow> nat option \<Rightarrow> htype" where
  "arrayType cap elem len = HType cap ''array'' True (Some elem) len"

primrec typeName :: "htype \<Rightarrow> string" where
  "typeName (HType c n a e l) =
     (if \<not> a then n
      else let element = (case map_option typeName e of Some s \<Rightarrow> s | None \<Rightarrow> ''<invalid>'') in
           case l of
             Some len \<Rightarrow> ''['' @ element @ ''; '' @ nat_to_dec len @ '']''
           | None \<Rightarrow> ''['' @ element @ '']'')"

definition isPlainI64 :: "htype \<Rightarrow> bool" where
  "isPlainI64 t \<longleftrightarrow> \<not> ty_isArray t \<and> ty_capability t = NoCap \<and> ty_name t = ''i64''"

definition isIntegerType :: "htype \<Rightarrow> bool" where
  "isIntegerType t \<longleftrightarrow> ty_capability t = NoCap \<and> (ty_name t = ''i32'' \<or> ty_name t = ''i64'')"

definition isFloatType :: "htype \<Rightarrow> bool" where
  "isFloatType t \<longleftrightarrow> ty_capability t = NoCap \<and> (ty_name t = ''f32'' \<or> ty_name t = ''f64'')"

definition isNumericType :: "htype \<Rightarrow> bool" where
  "isNumericType t \<longleftrightarrow> isIntegerType t \<or> isFloatType t"

definition isRegionStrategy :: "string \<Rightarrow> bool" where
  "isRegionStrategy s \<longleftrightarrow> s \<in> {''Arena'', ''RC'', ''GC'', ''Manual''}"

definition isCoreBuiltinName :: "string \<Rightarrow> bool" where
  "isCoreBuiltinName s \<longleftrightarrow> s \<in> {''print'', ''println'', ''print_i64'', ''println_i64'', ''readln_i64''}"

definition isInvalid :: "htype \<Rightarrow> bool" where
  "isInvalid t \<longleftrightarrow> ty_name t = ''<invalid>''"

fun sameNominalType :: "htype \<Rightarrow> htype \<Rightarrow> bool" where
  "sameNominalType (HType c1 n1 a1 e1 l1) (HType c2 n2 a2 e2 l2) =
     (if n1 = ''<invalid>'' \<or> n2 = ''<invalid>'' then True
      else if a1 \<or> a2 then
        (if \<not> a1 \<or> \<not> a2 then False
         else case e1 of None \<Rightarrow> False
              | Some x \<Rightarrow> (case e2 of None \<Rightarrow> False | Some y \<Rightarrow> sameNominalType x y))
      else n1 = n2)"

fun sameType :: "htype \<Rightarrow> htype \<Rightarrow> bool" where
  "sameType (HType c1 n1 a1 e1 l1) (HType c2 n2 a2 e2 l2) =
     (if n1 = ''<invalid>'' \<or> n2 = ''<invalid>'' then True
      else if c1 \<noteq> c2 then False
      else if a1 \<or> a2 then
        (if \<not> a1 \<or> \<not> a2 then False
         else case e1 of None \<Rightarrow> False
              | Some x \<Rightarrow> (case e2 of None \<Rightarrow> False
                 | Some y \<Rightarrow> if \<not> sameType x y then False else l1 = None \<or> l2 = None \<or> l1 = l2))
      else n1 = n2)"

definition capabilityFromAst :: "ast_capability \<Rightarrow> capability" where
  "capabilityFromAst c =
     (case c of Cap_Mut \<Rightarrow> Mut | Cap_Tmp \<Rightarrow> Tmp | Cap_Iso \<Rightarrow> Iso | Cap_Imm \<Rightarrow> Imm
      | Cap_Paused \<Rightarrow> Paused | Cap_Cown \<Rightarrow> Cown | Cap_None \<Rightarrow> NoCap)"

definition isPlainValueType :: "htype \<Rightarrow> bool" where
  "isPlainValueType t \<longleftrightarrow> ty_capability t = NoCap \<and> \<not> ty_isArray t"

definition isWritableReceiver :: "capability \<Rightarrow> bool" where
  "isWritableReceiver c \<longleftrightarrow> c = Mut \<or> c = Tmp"

definition isRegionLocal :: "capability \<Rightarrow> bool" where
  "isRegionLocal c \<longleftrightarrow> c = Mut \<or> c = Tmp \<or> c = Paused"

definition adaptForSuspendedScope :: "htype \<Rightarrow> htype" where
  "adaptForSuspendedScope t =
     (if ty_capability t = Mut \<or> ty_capability t = Tmp \<or> ty_capability t = Paused
      then with_capability Paused t else t)"

definition adaptFieldAccess :: "htype \<Rightarrow> htype \<Rightarrow> htype" where
  "adaptFieldAccess receiver field =
     (if isPlainValueType field then field
      else case ty_capability receiver of
        Mut \<Rightarrow> field
      | Tmp \<Rightarrow> field
      | Paused \<Rightarrow>
          (if ty_capability field = Mut \<or> ty_capability field = Tmp \<or> ty_capability field = Paused
           then with_capability Paused field else field)
      | Imm \<Rightarrow> with_capability Imm field
      | Iso \<Rightarrow> invalidType
      | Cown \<Rightarrow> field
      | NoCap \<Rightarrow> field)"

fun joinPath :: "string list \<Rightarrow> string" where
  "joinPath [] = []"
| "joinPath [s] = s"
| "joinPath (s # t # ts) = s @ ''.'' @ joinPath (t # ts)"

definition qualifiedName :: "path \<Rightarrow> string \<Rightarrow> string" where
  "qualifiedName modulePath name = joinPath (modulePath @ [name])"


subsection \<open>Laws\<close>

lemma with_capability_sel [simp]:
  "ty_capability (with_capability c t) = c" "ty_name (with_capability c t) = ty_name t"
  "ty_isArray (with_capability c t) = ty_isArray t"
  by (cases t; simp)+

lemma with_length_sel [simp]:
  "ty_capability (with_length l t) = ty_capability t" "ty_name (with_length l t) = ty_name t"
  by (cases t; simp)+

lemma special_types [simp]:
  "ty_capability invalidType = NoCap" "ty_capability unitType = NoCap" "ty_capability boolType = NoCap"
  "ty_capability noneType = NoCap" "ty_capability cstringType = NoCap" "ty_capability (numericType n) = NoCap"
  "isInvalid invalidType" "\<not> isInvalid unitType"
  by (simp_all add: invalidType_def unitType_def boolType_def noneType_def cstringType_def numericType_def
      isInvalid_def)

fun well_formed_type :: "htype \<Rightarrow> bool" where
  "well_formed_type (HType c n a e l) = (if a then (case e of None \<Rightarrow> False | Some x \<Rightarrow> well_formed_type x) else True)"

lemma sameType_refl: "well_formed_type t \<Longrightarrow> sameType t t"
  by (induction t rule: well_formed_type.induct) (auto split: option.splits)

lemma sameType_sym: "sameType s t = sameType t s"
  by (induction s t rule: sameType.induct) (auto split: option.splits)

lemma adaptForSuspendedScope_idem: "adaptForSuspendedScope (adaptForSuspendedScope t) = adaptForSuspendedScope t"
  by (cases t) (auto simp: adaptForSuspendedScope_def)

lemma adaptForSuspendedScope_cap:
  "ty_capability (adaptForSuspendedScope t) \<noteq> Mut \<and> ty_capability (adaptForSuspendedScope t) \<noteq> Tmp"
  by (simp add: adaptForSuspendedScope_def)

lemma adaptForSuspendedScope_same:
  "ty_capability (adaptForSuspendedScope t) = ty_capability t \<Longrightarrow> adaptForSuspendedScope t = t"
  by (cases t) (auto simp: adaptForSuspendedScope_def split: if_splits)

lemma joinPath_append: "xs \<noteq> [] \<Longrightarrow> joinPath (xs @ [n]) = joinPath xs @ ''.'' @ n"
  by (induction xs rule: joinPath.induct) auto



end
