(* ===== verification/Gura_Sema_State.thy ===== *)
theory Gura_Sema_State
  imports Gura_Types
begin

section \<open>The checker's state and environment\<close>

text \<open>
  The members of the class \<^verbatim>\<open>Sema\<close> (\<^verbatim>\<open>include/gura/hir/Sema.h\<close>) and the operations of
  \<^verbatim>\<open>src/hir/Sema.cpp\<close> that do not recurse over expressions: scopes, suspension of outer bindings,
  types from the syntax tree, escape checks, resolution of function names, and reading or moving a
  binding. The checker is written in the state monad over its members. The vector of scopes is a
  list, outermost first; a pointer to a binding is the index of its scope with its name.
\<close>

datatype value_context = Ordinary | Operand
datatype binding_origin = OriginOrdinary | RegionBridge | RegionLocal
datatype binding_availability = Available | Moved | OpenBorrowed
datatype binding_view = ViewNormal | ViewSuspended
datatype escape_target =
  ReturnValue | LocalBinding | OuterBinding | FieldTarget | RegionBlockResult | SpawnArg | ClosureCapture

record binding_state =
  b_type :: htype
  b_isVar :: bool
  b_availability :: binding_availability
  b_view :: binding_view
  b_span :: span
  b_origin :: binding_origin
  b_regionDepth :: int
  b_bridgeSlot :: bool
  b_bridgeReassigned :: bool

definition default_binding :: binding_state where
  "default_binding =
     \<lparr>b_type = mk_type NoCap [], b_isVar = False, b_availability = Available, b_view = ViewNormal,
      b_span = default_span, b_origin = OriginOrdinary, b_regionDepth = 0, b_bridgeSlot = False,
      b_bridgeReassigned = False\<rparr>"

record function_signature =
  fs_params :: "htype list"
  fs_returnType :: htype
  fs_genericParams :: "generic_param list"
  fs_span :: span

record field_info =
  f_type :: htype
  f_isVar :: bool
  f_span :: span

record method_info =
  mi_params :: "htype list"
  mi_receiverType :: htype
  mi_returnType :: htype
  mi_hasReceiver :: bool
  mi_decl :: "fn_decl option"
  mi_span :: span

record struct_info =
  si_fields :: "(string, field_info) unordered_map"
  si_methods :: "(string, method_info) unordered_map"
  si_span :: span

record trait_info =
  ti_methods :: "(string, method_info) unordered_map"
  ti_span :: span

record generic_param_info =
  gi_bounds :: "string list"
  gi_span :: span

record module_info =
  mo_path :: path
  mo_imports :: "import_decl list"

record suspended_binding =
  sb_scopeIndex :: nat
  sb_name :: string
  sb_type :: htype
  sb_view :: binding_view

type_synonym scope = "(string, binding_state) unordered_map"
type_synonym generic_env = "(string, generic_param_info) unordered_map"
type_synonym binding_ref = "nat \<times> string"

record sema =
  diags :: diagnostic_engine
  scopes :: "scope list"
  structs :: "(string, struct_info) unordered_map"
  traits :: "(string, trait_info) unordered_map"
  all_functions :: "(string, function_signature) unordered_map"
  modules :: "(string, module_info) unordered_map"
  qualifiedFunctionKeys :: "(string, string) unordered_map"
  simpleFunctionKeys :: "(string, string list) unordered_map"
  currentDecl :: "decl option"
  currentGenericParams :: generic_env
  currentReturnType :: htype
  regionDepth :: int
  mutableRegionDepth :: int

definition Sema_init :: "diagnostic_engine \<Rightarrow> sema" where
  "Sema_init de =
     \<lparr>diags = de, scopes = [], structs = [], traits = [], all_functions = [], modules = [],
      qualifiedFunctionKeys = [], simpleFunctionKeys = [], currentDecl = None,
      currentGenericParams = [], currentReturnType = unitType, regionDepth = 0,
      mutableRegionDepth = 0\<rparr>"

type_synonym 'a chk = "(sema, 'a) state"


subsection \<open>Diagnostics\<close>

definition report :: "span \<Rightarrow> string \<Rightarrow> unit chk" where
  "report sp message = update (\<lambda>s. s\<lparr>diags := DiagnosticEngine_error sp message (diags s)\<rparr>)"

definition q :: "string \<Rightarrow> string" where
  "q s = CHR 0x27 # s @ [CHR 0x27]"

definition invalid_with :: "span \<Rightarrow> string \<Rightarrow> htype chk" where
  "invalid_with sp message = do {report sp message; ret invalidType}"


subsection \<open>Scopes\<close>

definition pushScope :: "unit chk" where
  "pushScope = update (\<lambda>s. s\<lparr>scopes := scopes s @ [[]]\<rparr>)"

definition popScope :: "unit chk" where
  "popScope = update (\<lambda>s. s\<lparr>scopes := butlast (scopes s)\<rparr>)"

definition map_last :: "('a \<Rightarrow> 'a) \<Rightarrow> 'a list \<Rightarrow> 'a list" where
  "map_last f xs = butlast xs @ [f (last xs)]"

definition declare_binding :: "string \<Rightarrow> binding_state \<Rightarrow> unit chk" where
  "declare_binding name b = do {
     scs \<leftarrow> gets scopes;
     (if scs = [] then pushScope else ret ());
     scs \<leftarrow> gets scopes;
     if um_contains (last scs) name
     then report (b_span b) (''binding '' @ q name @ '' is already defined in this scope'')
     else update (\<lambda>s. s\<lparr>scopes := map_last (um_emplace name b) (scopes s)\<rparr>)}"

fun lookup_ref :: "nat \<Rightarrow> scope list \<Rightarrow> string \<Rightarrow> binding_ref option" where
  "lookup_ref 0 scs name = None"
| "lookup_ref (Suc i) scs name =
     (if um_contains (scs ! i) name then Some (i, name) else lookup_ref i scs name)"

definition lookup :: "string \<Rightarrow> binding_ref option chk" where
  "lookup name = gets (\<lambda>s. lookup_ref (length (scopes s)) (scopes s) name)"

text \<open>Dereferencing a pointer that \<^verbatim>\<open>lookup\<close> returned; its entry exists as long as its scope.\<close>

definition deref :: "binding_ref \<Rightarrow> scope list \<Rightarrow> binding_state" where
  "deref r scs = (case um_find (scs ! fst r) (snd r) of Some b \<Rightarrow> b | None \<Rightarrow> default_binding)"

definition binding :: "binding_ref \<Rightarrow> binding_state chk" where
  "binding r = gets (\<lambda>s. deref r (scopes s))"

definition modify_binding :: "binding_ref \<Rightarrow> (binding_state \<Rightarrow> binding_state) \<Rightarrow> unit chk" where
  "modify_binding r f =
     update (\<lambda>s. s\<lparr>scopes := (scopes s)[fst r := um_modify (snd r) f (scopes s ! fst r)]\<rparr>)"

abbreviation set_availability :: "binding_ref \<Rightarrow> binding_availability \<Rightarrow> unit chk" where
  "set_availability r a \<equiv> modify_binding r (\<lambda>b. b\<lparr>b_availability := a\<rparr>)"

definition suspends :: "binding_state \<Rightarrow> bool" where
  "suspends b \<longleftrightarrow> ty_capability (adaptForSuspendedScope (b_type b)) \<noteq> ty_capability (b_type b)"

definition suspend_binding :: "binding_state \<Rightarrow> binding_state" where
  "suspend_binding b =
     (if suspends b then b\<lparr>b_type := adaptForSuspendedScope (b_type b), b_view := ViewSuspended\<rparr> else b)"

fun suspend_scope :: "nat \<Rightarrow> scope \<Rightarrow> suspended_binding list \<times> scope" where
  "suspend_scope i [] = ([], [])"
| "suspend_scope i ((name, b) # sc) =
     (case suspend_scope i sc of (sus, sc') \<Rightarrow>
        ((if suspends b
          then [\<lparr>sb_scopeIndex = i, sb_name = name, sb_type = b_type b, sb_view = b_view b\<rparr>] else []) @ sus,
         (name, suspend_binding b) # sc'))"

fun suspend_scopes :: "nat \<Rightarrow> scope list \<Rightarrow> suspended_binding list \<times> scope list" where
  "suspend_scopes i [] = ([], [])"
| "suspend_scopes i [sc] = ([], [sc])"
| "suspend_scopes i (sc # sc' # scs) =
     (case suspend_scope i sc of (sus, sc1) \<Rightarrow>
      case suspend_scopes (i + 1) (sc' # scs) of (sus', scs1) \<Rightarrow> (sus @ sus', sc1 # scs1))"

definition suspendOuterRegionBindings :: "suspended_binding list chk" where
  "suspendOuterRegionBindings = do {
     scs \<leftarrow> gets scopes;
     let (suspended, scs') = suspend_scopes 0 scs;
     update (\<lambda>s. s\<lparr>scopes := scs'\<rparr>);
     ret suspended}"

definition restore_one :: "suspended_binding \<Rightarrow> scope list \<Rightarrow> scope list" where
  "restore_one sb scs =
     (if length scs \<le> sb_scopeIndex sb then scs
      else if \<not> um_contains (scs ! sb_scopeIndex sb) (sb_name sb) then scs
      else scs[sb_scopeIndex sb :=
             um_modify (sb_name sb) (\<lambda>b. b\<lparr>b_type := sb_type sb, b_view := sb_view sb\<rparr>)
               (scs ! sb_scopeIndex sb)])"

definition restoreSuspendedBindings :: "suspended_binding list \<Rightarrow> unit chk" where
  "restoreSuspendedBindings suspended =
     update (\<lambda>s. s\<lparr>scopes := fold restore_one (rev suspended) (scopes s)\<rparr>)"


subsection \<open>Types and escapes\<close>

abbreviation tr_span :: "type_ref \<Rightarrow> span" where
  "tr_span t \<equiv> node_span (tr_node t)"

fun typeFromAst :: "type_ref \<Rightarrow> htype chk" where
  "typeFromAst (TypeRef n cap name path optional isArray elementType) =
     (if isArray then do {
        element \<leftarrow> (case elementType of Some t \<Rightarrow> typeFromAst t | None \<Rightarrow> ret invalidType);
        let sp = (case elementType of Some t \<Rightarrow> tr_span t | None \<Rightarrow> node_span n);
        (if ty_isArray element then report sp ''nested arrays are not supported yet'' else ret ());
        (if \<not> isPlainI64 element then report sp ''arrays currently support only i64 elements'' else ret ());
        ret (arrayType (capabilityFromAst cap) element None)}
      else if length path > 1 then ret (mk_type (capabilityFromAst cap) (joinPath path))
      else ret (mk_type (capabilityFromAst cap) name))"

definition typeFromAst_or :: "type_ref option \<Rightarrow> htype \<Rightarrow> htype chk" where
  "typeFromAst_or t dflt = (case t of Some t \<Rightarrow> typeFromAst t | None \<Rightarrow> ret dflt)"

definition checkEscape :: "htype \<Rightarrow> escape_target \<Rightarrow> int \<Rightarrow> span \<Rightarrow> bool chk" where
  "checkEscape v target targetRegionDepth sp = do {
     depth \<leftarrow> gets regionDepth;
     if isInvalid v then ret True
     else case target of
       ReturnValue \<Rightarrow>
         (if depth > 0 \<and> isRegionLocal (ty_capability v)
          then do {report sp ''region-local value cannot escape its region''; ret False} else ret True)
     | OuterBinding \<Rightarrow>
         (if isRegionLocal (ty_capability v) \<and> targetRegionDepth < depth
          then do {report sp ''region-local value cannot escape its region''; ret False} else ret True)
     | FieldTarget \<Rightarrow>
         (if ty_capability v = Paused \<or> ty_capability v = Tmp
          then do {report sp ''temporary or paused value cannot be stored in a regular field''; ret False}
          else ret True)
     | RegionBlockResult \<Rightarrow>
         (if isRegionLocal (ty_capability v)
          then do {report sp ''region block cannot return mut/tmp/paused values''; ret False} else ret True)
     | LocalBinding \<Rightarrow> ret True
     | SpawnArg \<Rightarrow> ret True
     | ClosureCapture \<Rightarrow> ret True}"

definition isRegionLocalBinding :: "binding_state \<Rightarrow> bool" where
  "isRegionLocalBinding b \<longleftrightarrow>
     b_origin b = RegionBridge \<or> b_origin b = RegionLocal \<or> isRegionLocal (ty_capability (b_type b))"

definition sameMethodSignature :: "method_info \<Rightarrow> method_info \<Rightarrow> bool" where
  "sameMethodSignature expected actual =
     (if mi_hasReceiver expected \<noteq> mi_hasReceiver actual then False
      else if mi_hasReceiver expected \<and>
              ty_capability (mi_receiverType expected) \<noteq> ty_capability (mi_receiverType actual) then False
      else if length (mi_params expected) \<noteq> length (mi_params actual) then False
      else if \<not> list_all2 sameType (mi_params expected) (mi_params actual) then False
      else sameType (mi_returnType expected) (mi_returnType actual))"

definition isGenericTypeName :: "string \<Rightarrow> bool chk" where
  "isGenericTypeName name = gets (\<lambda>s. um_contains (currentGenericParams s) name)"

definition lookupGenericParam :: "string \<Rightarrow> generic_param_info option chk" where
  "lookupGenericParam name = gets (\<lambda>s. um_find (currentGenericParams s) name)"

definition isBuiltinTypeName :: "string \<Rightarrow> bool" where
  "isBuiltinTypeName name \<longleftrightarrow>
     name \<in> {''unit'', ''bool'', ''none'', ''i32'', ''i64'', ''f32'', ''f64''}"


subsection \<open>Function names\<close>

fun decl_modulePath :: "decl \<Rightarrow> path" where
  "decl_modulePath (DFn d) = d_modulePath d"
| "decl_modulePath (DStruct d) = d_modulePath d"
| "decl_modulePath (DTrait d) = d_modulePath d"
| "decl_modulePath (DImpl d) = d_modulePath d"

fun decl_imports :: "decl \<Rightarrow> import_decl list" where
  "decl_imports (DFn d) = d_imports d"
| "decl_imports (DStruct d) = d_imports d"
| "decl_imports (DTrait d) = d_imports d"
| "decl_imports (DImpl d) = d_imports d"

fun importedMatches :: "(string \<Rightarrow> bool) \<Rightarrow> string \<Rightarrow> import_decl list \<Rightarrow> string list" where
  "importedMatches isFunction name [] = []"
| "importedMatches isFunction name (i # is) =
     (if imp_alias i \<noteq> None then importedMatches isFunction name is
      else let importedKey = qualifiedName (imp_path i) name in
        (if isFunction importedKey then importedKey # importedMatches isFunction name is
         else importedMatches isFunction name is))"

fun find_alias :: "string \<Rightarrow> import_decl list \<Rightarrow> import_decl option" where
  "find_alias name [] = None"
| "find_alias name (i # is) = (if imp_alias i = Some name then Some i else find_alias name is)"

definition resolve_simple :: "string \<Rightarrow> span \<Rightarrow> string option chk" where
  "resolve_simple name sp = do {
     keys \<leftarrow> gets (\<lambda>s. um_find (simpleFunctionKeys s) name);
     case keys of
       None \<Rightarrow> ret None
     | Some [] \<Rightarrow> ret None
     | Some [k] \<Rightarrow> ret (Some k)
     | Some _ \<Rightarrow> do {
         report sp (''function '' @ q name @ '' is ambiguous; use a qualified name'');
         ret None}}"

definition resolve_local :: "string \<Rightarrow> decl \<Rightarrow> span \<Rightarrow> string option chk" where
  "resolve_local name d sp = do {
     isFunction \<leftarrow> gets (\<lambda>s. um_contains (all_functions s));
     let localKey = qualifiedName (decl_modulePath d) name;
     if isFunction localKey then ret (Some localKey)
     else case importedMatches isFunction name (decl_imports d) of
       [k] \<Rightarrow> ret (Some k)
     | [] \<Rightarrow> resolve_simple name sp
     | _ \<Rightarrow> do {
         report sp (''function '' @ q name @ '' is ambiguous between imports'');
         ret None}}"

definition resolve_qualified :: "path \<Rightarrow> decl option \<Rightarrow> string option chk" where
  "resolve_qualified p contextDecl = do {
     isFunction \<leftarrow> gets (\<lambda>s. um_contains (all_functions s));
     quals \<leftarrow> gets qualifiedFunctionKeys;
     ret (case Option.bind contextDecl (\<lambda>d. find_alias (hd p) (decl_imports d)) of
            Some i \<Rightarrow>
              (let key = joinPath (imp_path i @ tl p) in if isFunction key then Some key else None)
          | None \<Rightarrow>
              (let key = joinPath p in if isFunction key then Some key else um_find quals key))}"

definition resolveFunctionName :: "path \<Rightarrow> decl option \<Rightarrow> span \<Rightarrow> string option chk" where
  "resolveFunctionName p contextDecl sp =
     (case p of
        [] \<Rightarrow> ret None
      | [name] \<Rightarrow>
          (case contextDecl of
             Some d \<Rightarrow> (if decl_modulePath d \<noteq> [] then resolve_local name d sp else resolve_simple name sp)
           | None \<Rightarrow> resolve_simple name sp)
      | _ \<Rightarrow> resolve_qualified p contextDecl)"

fun qualifiedCoreBuiltinName :: "expr \<Rightarrow> string option" where
  "qualifiedCoreBuiltinName (FieldAccessExpr _ (Some (FieldAccessExpr _ (Some (NameExpr _ s)) core)) leaf) =
     (if isCoreBuiltinName leaf \<and> core = ''core'' \<and> s = ''std'' then Some leaf else None)"
| "qualifiedCoreBuiltinName _ = None"

fun pathFromFieldAccess :: "expr \<Rightarrow> path" where
  "pathFromFieldAccess (NameExpr _ name) = [name]"
| "pathFromFieldAccess (FieldAccessExpr _ obj field) =
     (let p = (case obj of Some e \<Rightarrow> pathFromFieldAccess e | None \<Rightarrow> []) in
      if p \<noteq> [] then p @ [field] else p)"
| "pathFromFieldAccess _ = []"


subsection \<open>Reading and moving a binding\<close>

definition checkName :: "node \<Rightarrow> string \<Rightarrow> value_context \<Rightarrow> htype chk" where
  "checkName n name ctx = do {
     r \<leftarrow> lookup name;
     case r of
       None \<Rightarrow> invalid_with (node_span n) (''undefined binding '' @ q name)
     | Some r \<Rightarrow> do {
         b \<leftarrow> binding r;
         if b_availability b = Moved
         then invalid_with (node_span n) (''binding '' @ q name @ '' was already moved'')
         else if b_availability b = OpenBorrowed
         then invalid_with (node_span n) (''binding '' @ q name @ '' is currently open-borrowed'')
         else if ctx = Ordinary \<and> ty_capability (b_type b) = Iso
         then invalid_with (node_span n) (''cannot copy iso binding '' @ q name @ ''; use move'')
         else ret (b_type b)}}"

fun asNameExpr :: "expr option \<Rightarrow> (node \<times> string) option" where
  "asNameExpr (Some (NameExpr n name)) = Some (n, name)"
| "asNameExpr _ = None"

fun isMoveExpr :: "expr option \<Rightarrow> bool" where
  "isMoveExpr (Some (MoveExpr _ _)) = True"
| "isMoveExpr _ = False"

definition checkMove :: "node \<Rightarrow> expr option \<Rightarrow> htype chk" where
  "checkMove n v =
     (case asNameExpr v of
        None \<Rightarrow> invalid_with (node_span n) ''move currently requires a binding name''
      | Some (nn, name) \<Rightarrow> do {
          r \<leftarrow> lookup name;
          case r of
            None \<Rightarrow> invalid_with (node_span nn) (''undefined binding '' @ q name)
          | Some r \<Rightarrow> do {
              b \<leftarrow> binding r;
              if b_availability b = Moved
              then invalid_with (node_span nn) (''binding '' @ q name @ '' was already moved'')
              else if b_availability b = OpenBorrowed
              then invalid_with (node_span nn) (''binding '' @ q name @ '' is currently open-borrowed'')
              else do {set_availability r Moved; ret (b_type b)}}})"

definition openBorrowRegionSource :: "binding_ref option \<Rightarrow> binding_availability chk" where
  "openBorrowRegionSource r =
     (case r of
        None \<Rightarrow> ret Available
      | Some r \<Rightarrow> do {
          b \<leftarrow> binding r;
          (if b_availability b = Available then set_availability r OpenBorrowed else ret ());
          ret (b_availability b)})"

definition restoreRegionSource :: "binding_ref option \<Rightarrow> binding_availability \<Rightarrow> unit chk" where
  "restoreRegionSource r previousAvailability =
     (case r of None \<Rightarrow> ret () | Some r \<Rightarrow> set_availability r previousAvailability)"

end
