(* ===== verification/Gura_Sema.thy ===== *)
theory Gura_Sema
  imports Gura_Sema_State
begin

section \<open>Checking expressions\<close>

text \<open>
  The expression checker of \<^verbatim>\<open>src/hir/Sema.cpp\<close>. Each \<^verbatim>\<open>check...\<close> method is a definition with the
  recursive call \<open>rec\<close> as its first argument, and \<^verbatim>\<open>checkExpr\<close> closes the recursion; the congruence
  rules state that a method only calls \<open>rec\<close> on parts of its expression, from which termination
  follows.
\<close>

type_synonym checker = "expr \<Rightarrow> value_context \<Rightarrow> htype chk"

definition opt_span :: "expr option \<Rightarrow> span \<Rightarrow> span" where
  "opt_span e sp = (case e of Some e \<Rightarrow> expr_span e | None \<Rightarrow> sp)"

definition check_opt :: "checker \<Rightarrow> expr option \<Rightarrow> value_context \<Rightarrow> htype \<Rightarrow> htype chk" where
  "check_opt rec e ctx dflt = (case e of Some e \<Rightarrow> rec e ctx | None \<Rightarrow> ret dflt)"

definition check_args :: "checker \<Rightarrow> expr option list \<Rightarrow> unit chk" where
  "check_args rec as =
     for_each as (\<lambda>a. case a of Some e \<Rightarrow> do {rec e Ordinary; ret ()} | None \<Rightarrow> ret ())"

definition report_if :: "bool \<Rightarrow> span \<Rightarrow> string \<Rightarrow> unit chk" where
  "report_if c sp message = (if c then report sp message else ret ())"

lemma check_opt_cong [fundef_cong]:
  "e = e' \<Longrightarrow> ctx = ctx' \<Longrightarrow> d = d' \<Longrightarrow> (\<And>x c. e' = Some x \<Longrightarrow> rec x c = rec' x c) \<Longrightarrow>
   check_opt rec e ctx d = check_opt rec' e' ctx' d'"
  by (auto simp: check_opt_def split: option.splits)

lemma check_args_cong [fundef_cong]:
  "as = as' \<Longrightarrow> (\<And>x c. Some x \<in> set as' \<Longrightarrow> rec x c = rec' x c) \<Longrightarrow> check_args rec as = check_args rec' as'"
  unfolding check_args_def by (rule for_each_cong) (auto split: option.splits)


subsection \<open>Literals, operators and blocks\<close>

definition literalType :: "literal_kind \<Rightarrow> string \<Rightarrow> htype" where
  "literalType k suffix =
     (case k of
        Lit_Bool \<Rightarrow> boolType
      | Lit_None \<Rightarrow> noneType
      | Lit_Integer \<Rightarrow> numericType (if suffix = [] then ''i64'' else suffix)
      | Lit_Float \<Rightarrow> numericType (if suffix = [] then ''f64'' else suffix)
      | Lit_String \<Rightarrow> cstringType
      | Lit_Char \<Rightarrow> invalidType)"

definition binary_type :: "string \<Rightarrow> htype \<Rightarrow> htype \<Rightarrow> string + htype" where
  "binary_type op lhs rhs =
     (if op \<in> {''+'', ''-'', ''*'', ''/''} then
        (if \<not> sameType lhs rhs \<or> \<not> isNumericType lhs
         then Inl (''operator '' @ q op @ '' requires matching numeric operands'') else Inr lhs)
      else if op = ''%'' then
        (if \<not> sameType lhs rhs \<or> \<not> isIntegerType lhs
         then Inl (''operator '' @ q ''%'' @ '' requires matching integer operands'') else Inr lhs)
      else if op \<in> {''=='', ''!=''} then
        (if \<not> sameType lhs rhs
         then Inl (''operator '' @ q op @ '' requires matching operand types'') else Inr boolType)
      else if op \<in> {''<'', ''<='', ''>'', ''>=''} then
        (if \<not> sameType lhs rhs \<or> \<not> isNumericType lhs
         then Inl (''operator '' @ q op @ '' requires matching numeric operands'') else Inr boolType)
      else Inl (''unsupported binary operator '' @ q op))"

definition checkBinary :: "checker \<Rightarrow> node \<Rightarrow> string \<Rightarrow> expr option \<Rightarrow> expr option \<Rightarrow> htype chk" where
  "checkBinary rec n op lhs rhs = do {
     l \<leftarrow> check_opt rec lhs Ordinary invalidType;
     r \<leftarrow> check_opt rec rhs Ordinary invalidType;
     if isInvalid l \<or> isInvalid r then ret invalidType
     else case binary_type op l r of
       Inl message \<Rightarrow> invalid_with (node_span n) message
     | Inr t \<Rightarrow> ret t}"

fun block_loop :: "checker \<Rightarrow> htype \<Rightarrow> expr option list \<Rightarrow> htype chk" where
  "block_loop rec result [] = ret result"
| "block_loop rec result (None # es) = block_loop rec result es"
| "block_loop rec result (Some e # es) = do {t \<leftarrow> rec e Ordinary; block_loop rec t es}"

definition block_scope :: "'a chk \<Rightarrow> 'a chk" where
  "block_scope m = do {
     pushScope;
     result \<leftarrow> m;
     popScope;
     ret result}"

definition checkBlock_with :: "checker \<Rightarrow> block \<Rightarrow> htype chk" where
  "checkBlock_with rec b = block_scope (block_loop rec unitType (blk_expressions b))"

definition check_block_opt :: "checker \<Rightarrow> block option \<Rightarrow> htype chk" where
  "check_block_opt rec b = (case b of Some b \<Rightarrow> checkBlock_with rec b | None \<Rightarrow> ret unitType)"

lemma block_loop_cong [fundef_cong]:
  "res = res' \<Longrightarrow> es = es' \<Longrightarrow> (\<And>x c. Some x \<in> set es' \<Longrightarrow> rec x c = rec' x c) \<Longrightarrow>
   block_loop rec res es = block_loop rec' res' es'"
  by (induction rec res es arbitrary: res' es' rule: block_loop.induct)
     (auto intro!: arg_cong2 [where f = State_Monad.bind])

lemma check_block_opt_cong [fundef_cong]:
  "b = b' \<Longrightarrow> (\<And>x c y. b' = Some y \<Longrightarrow> Some x \<in> set (blk_expressions y) \<Longrightarrow> rec x c = rec' x c) \<Longrightarrow>
   check_block_opt rec b = check_block_opt rec' b'"
  by (auto simp: check_block_opt_def checkBlock_with_def split: option.splits cong: block_loop_cong)

definition checkArrayLiteral :: "checker \<Rightarrow> node \<Rightarrow> expr option list \<Rightarrow> htype chk" where
  "checkArrayLiteral rec n elements =
     (case elements of
        [] \<Rightarrow> invalid_with (node_span n) ''cannot infer empty array literal type''
      | e # es \<Rightarrow> do {
          element \<leftarrow> check_opt rec e Ordinary invalidType;
          report_if (\<not> isPlainI64 element) (opt_span e (node_span n))
            ''array literals currently require i64 elements'';
          for_each es (\<lambda>x. do {
            current \<leftarrow> check_opt rec x Ordinary invalidType;
            report_if (\<not> sameType element current) (opt_span x (node_span n))
              ''array elements must have matching type''});
          ret (arrayType NoCap element (Some (length elements)))})"

definition check_index_parts :: "checker \<Rightarrow> node \<Rightarrow> expr option \<Rightarrow> expr option \<Rightarrow> htype chk" where
  "check_index_parts rec n obj index = do {
     object \<leftarrow> check_opt rec obj Operand invalidType;
     i \<leftarrow> check_opt rec index Ordinary invalidType;
     report_if (\<not> isInvalid i \<and> \<not> isIntegerType i) (opt_span index (node_span n))
       ''array index must be an integer'';
     ret object}"

definition checkIndex :: "checker \<Rightarrow> node \<Rightarrow> expr option \<Rightarrow> expr option \<Rightarrow> htype chk" where
  "checkIndex rec n obj index = do {
     object \<leftarrow> check_index_parts rec n obj index;
     if isInvalid object then ret invalidType
     else if \<not> ty_isArray object then invalid_with (opt_span obj (node_span n)) ''indexing requires an array''
     else case ty_elementType object of
       None \<Rightarrow> invalid_with (opt_span obj (node_span n)) ''indexing requires an array''
     | Some t \<Rightarrow> ret t}"

definition checkIndexAssign ::
    "checker \<Rightarrow> node \<Rightarrow> expr option \<Rightarrow> expr option \<Rightarrow> htype \<Rightarrow> span \<Rightarrow> htype chk" where
  "checkIndexAssign rec n obj index v valueSpan = do {
     object \<leftarrow> check_index_parts rec n obj index;
     let sp = opt_span obj (node_span n);
     if isInvalid object then ret invalidType
     else if \<not> ty_isArray object then invalid_with sp ''index assignment requires an array''
     else case ty_elementType object of
       None \<Rightarrow> invalid_with sp ''index assignment requires an array''
     | Some t \<Rightarrow>
         if ty_capability object \<noteq> Mut then invalid_with sp ''array index assignment requires a mut array''
         else if \<not> sameType t v
         then invalid_with valueSpan (''assignment type '' @ q (typeName v) @
                '' does not match array element type '' @ q (typeName t))
         else ret unitType}"


subsection \<open>Allocation\<close>

fun isFreshMutConstructorExpr :: "expr \<Rightarrow> bool" where
  "isFreshMutConstructorExpr (NewExpr _ (Some t) _ _) = (capabilityFromAst (tr_capability t) = Mut)"
| "isFreshMutConstructorExpr _ = False"

definition checkIsoInitializerArg :: "expr \<Rightarrow> htype \<Rightarrow> htype \<Rightarrow> span \<Rightarrow> bool chk" where
  "checkIsoInitializerArg valueExpr v field valueSpan =
     (if isInvalid v \<or> isInvalid field then ret True
      else if ty_capability v = NoCap \<or> ty_capability v = Imm then ret True
      else if ty_capability v = Iso then
        (if isMoveExpr (Some valueExpr) then ret True
         else do {report valueSpan ''iso initializer field requires move of iso value''; ret False})
      else if ty_capability v = Mut \<and> isFreshMutConstructorExpr valueExpr then ret True
      else if ty_capability v = Mut then
        do {report valueSpan ''new iso initializer requires fresh mut constructor expression''; ret False}
      else if ty_capability v = Tmp \<or> ty_capability v = Paused then
        do {report valueSpan ''tmp or paused value cannot initialize a new iso region''; ret False}
      else do {report valueSpan ''unsupported new iso initializer capability''; ret False})"

definition check_init :: "checker \<Rightarrow> htype \<Rightarrow> field_info \<Rightarrow> field_init \<Rightarrow> unit chk" where
  "check_init rec result field fi = do {
     v \<leftarrow> check_opt rec (fi_value fi) Ordinary unitType;
     (case fi_value fi of
        Some e \<Rightarrow>
          if ty_capability result = Iso
          then do {checkIsoInitializerArg e v (f_type field) (expr_span e); ret ()} else ret ()
      | None \<Rightarrow> ret ());
     report_if (\<not> sameType (f_type field) v) (opt_span (fi_value fi) (node_span (fi_node fi)))
       (''initializer type '' @ q (ty_name v) @ '' does not match field type '' @ q (ty_name (f_type field)))}"

fun init_loop ::
    "checker \<Rightarrow> htype \<Rightarrow> (string, field_info) unordered_map \<Rightarrow> string list \<Rightarrow> field_init list \<Rightarrow>
     string list chk" where
  "init_loop rec result flds initialized [] = ret initialized"
| "init_loop rec result flds initialized (fi # fis) =
     (if fi_name fi \<in> set initialized then do {
        report (node_span (fi_node fi)) (''field '' @ q (fi_name fi) @ '' is initialized more than once'');
        init_loop rec result flds initialized fis}
      else do {
        (case um_find flds (fi_name fi) of
           None \<Rightarrow> do {
             report (node_span (fi_node fi))
               (''type '' @ q (ty_name result) @ '' has no field '' @ q (fi_name fi));
             check_opt rec (fi_value fi) Ordinary unitType;
             ret ()}
         | Some field \<Rightarrow> check_init rec result field fi);
        init_loop rec result flds (fi_name fi # initialized) fis})"

definition check_strategy :: "node \<Rightarrow> string \<Rightarrow> htype \<Rightarrow> unit chk" where
  "check_strategy n strategy result =
     (if strategy = [] then ret ()
      else if ty_capability result \<noteq> Iso
      then report (node_span n) ''region allocation strategy requires an iso allocation''
      else report_if (\<not> isRegionStrategy strategy) (node_span n)
             (''unknown region allocation strategy '' @ q strategy))"

definition new_fields ::
    "checker \<Rightarrow> node \<Rightarrow> type_ref option \<Rightarrow> htype \<Rightarrow> field_init list \<Rightarrow> htype chk" where
  "new_fields rec n type result fis = do {
     info \<leftarrow> gets (\<lambda>s. um_find (structs s) (ty_name result));
     case info of
       None \<Rightarrow> invalid_with (case type of Some t \<Rightarrow> tr_span t | None \<Rightarrow> node_span n)
                 (''type '' @ q (ty_name result) @ '' has no fields'')
     | Some info \<Rightarrow> do {
         initialized \<leftarrow> init_loop rec result (si_fields info) [] fis;
         for_each (um_keys (si_fields info)) (\<lambda>name.
           report_if (name \<notin> set initialized) (node_span n)
             (''missing initializer for field '' @ q name));
         ret result}}"

definition checkNew ::
    "checker \<Rightarrow> node \<Rightarrow> type_ref option \<Rightarrow> string \<Rightarrow> field_init list \<Rightarrow> htype chk" where
  "checkNew rec n type strategy fis = do {
     result \<leftarrow> typeFromAst_or type invalidType;
     check_strategy n strategy result;
     if isInvalid result \<or> fis = [] then ret result
     else new_fields rec n type result fis}"

lemma check_init_cong:
  "(\<And>x c. fi_value fi = Some x \<Longrightarrow> rec x c = rec' x c) \<Longrightarrow>
   check_init rec res f fi = check_init rec' res f fi"
  unfolding check_init_def by (simp cong: check_opt_cong)

lemma init_loop_cong:
  assumes "\<And>x c fi. fi \<in> set fis \<Longrightarrow> fi_value fi = Some x \<Longrightarrow> rec x c = rec' x c"
  shows "init_loop rec res fs ini fis = init_loop rec' res fs ini fis"
  using assms
proof (induction fis arbitrary: ini)
  case (Cons fi fis)
  have rest: "init_loop rec res fs i fis = init_loop rec' res fs i fis" for i
    using Cons by auto
  have "check_opt rec (fi_value fi) Ordinary unitType = check_opt rec' (fi_value fi) Ordinary unitType"
    and "check_init rec res f fi = check_init rec' res f fi" for f
    using Cons.prems by (auto intro!: check_opt_cong check_init_cong)
  with rest show ?case by (simp only: init_loop.simps)
qed simp

lemma checkNew_cong [fundef_cong]:
  assumes "n = n'" "t = t'" "st = st'" "fis = fis'"
    and "\<And>x c fi. fi \<in> set fis' \<Longrightarrow> fi_value fi = Some x \<Longrightarrow> rec x c = rec' x c"
  shows "checkNew rec n t st fis = checkNew rec' n' t' st' fis'"
proof -
  have "init_loop rec r fs i fis = init_loop rec' r fs i fis" for r fs i
    using assms by (auto intro: init_loop_cong)
  then show ?thesis
    unfolding checkNew_def new_fields_def assms(1,2,3,4) [symmetric] by presburger
qed


subsection \<open>Bindings and fields\<close>

definition checkBinding ::
    "checker \<Rightarrow> node \<Rightarrow> bool \<Rightarrow> string \<Rightarrow> type_ref option \<Rightarrow> expr option \<Rightarrow> htype chk" where
  "checkBinding rec n isVar name type initializer = do {
     init \<leftarrow> check_opt rec initializer Ordinary unitType;
     declared \<leftarrow> typeFromAst_or type init;
     report_if (type \<noteq> None \<and> \<not> sameNominalType declared init) (node_span n)
       (''initializer type '' @ q (typeName init) @ '' does not match declared type '' @ q (typeName declared));
     let declared = (if ty_isArray declared \<and> ty_isArray init \<and> ty_arrayLength init \<noteq> None
                     then with_length (ty_arrayLength init) declared else declared);
     depth \<leftarrow> gets regionDepth;
     checkEscape init LocalBinding depth (opt_span initializer (node_span n));
     declare_binding name
       (default_binding\<lparr>b_type := declared, b_isVar := isVar, b_span := node_span n,
          b_origin := (if isRegionLocal (ty_capability init) \<and> depth > 0 then RegionLocal else OriginOrdinary),
          b_regionDepth := depth\<rparr>);
     ret unitType}"

definition checkFieldAccess :: "checker \<Rightarrow> node \<Rightarrow> expr option \<Rightarrow> string \<Rightarrow> htype chk" where
  "checkFieldAccess rec n obj fieldName = do {
     object \<leftarrow> check_opt rec obj Operand invalidType;
     generic \<leftarrow> isGenericTypeName (ty_name object);
     info \<leftarrow> gets (\<lambda>s. um_find (structs s) (ty_name object));
     if isInvalid object then ret invalidType
     else if ty_capability object = Iso
     then invalid_with (opt_span obj (node_span n)) ''cannot access fields through iso without enter''
     else if generic
     then invalid_with (node_span n)
            (''cannot access field '' @ q fieldName @ '' on generic type '' @ q (ty_name object))
     else case info of
       None \<Rightarrow> invalid_with (node_span n) (''type '' @ q (ty_name object) @ '' has no fields'')
     | Some info \<Rightarrow>
         (case um_find (si_fields info) fieldName of
            None \<Rightarrow> invalid_with (node_span n)
                      (''type '' @ q (ty_name object) @ '' has no field '' @ q fieldName)
          | Some field \<Rightarrow>
              if ty_capability (f_type field) = Iso
              then invalid_with (node_span n) (''cannot read iso field '' @ q fieldName @ ''; use move or enter'')
              else ret (adaptFieldAccess object (f_type field)))}"

definition store_field :: "node \<Rightarrow> string \<Rightarrow> field_info \<Rightarrow> expr option \<Rightarrow> htype \<Rightarrow> span \<Rightarrow> htype chk" where
  "store_field n fieldName field valueExpr v valueSpan =
     (if \<not> f_isVar field then invalid_with (node_span n) (''cannot assign to let field '' @ q fieldName)
      else do {
        depth \<leftarrow> gets regionDepth;
        ok \<leftarrow> checkEscape v FieldTarget depth valueSpan;
        if \<not> ok then ret invalidType
        else if ty_capability (f_type field) = Iso \<and> \<not> isMoveExpr valueExpr
        then invalid_with valueSpan (''assignment to iso field '' @ q fieldName @ '' requires move'')
        else if \<not> sameType (f_type field) v
        then invalid_with valueSpan (''assignment type '' @ q (typeName v) @ '' does not match field type ''
               @ q (typeName (f_type field)))
        else ret unitType})"

definition checkFieldAssign ::
    "checker \<Rightarrow> node \<Rightarrow> expr option \<Rightarrow> string \<Rightarrow> expr option \<Rightarrow> htype \<Rightarrow> span \<Rightarrow> htype chk" where
  "checkFieldAssign rec n obj fieldName valueExpr v valueSpan = do {
     object \<leftarrow> check_opt rec obj Operand invalidType;
     info \<leftarrow> gets (\<lambda>s. um_find (structs s) (ty_name object));
     if isInvalid object then ret invalidType
     else if \<not> isWritableReceiver (ty_capability object)
     then invalid_with (opt_span obj (node_span n)) ''field assignment requires a mut receiver''
     else case info of
       None \<Rightarrow> invalid_with (node_span n) (''type '' @ q (ty_name object) @ '' has no fields'')
     | Some info \<Rightarrow>
         (case um_find (si_fields info) fieldName of
            None \<Rightarrow> invalid_with (node_span n)
                      (''type '' @ q (ty_name object) @ '' has no field '' @ q fieldName)
          | Some field \<Rightarrow> store_field n fieldName field valueExpr v valueSpan)}"

definition assign_bridge :: "node \<Rightarrow> string \<Rightarrow> binding_ref \<Rightarrow> htype \<Rightarrow> span \<Rightarrow> htype chk" where
  "assign_bridge n name r v valueSpan = do {
     b \<leftarrow> binding r;
     if ty_capability (b_type b) \<noteq> Mut
     then invalid_with (node_span n) (''cannot reassign explore bridge '' @ q name)
     else if ty_capability v \<noteq> Mut
     then invalid_with valueSpan ''enter bridge reassignment requires a mut value''
     else if ty_name (b_type b) \<noteq> ty_name v
     then invalid_with valueSpan ''enter bridge reassignment must preserve bridge type in this milestone''
     else do {
       modify_binding r (\<lambda>b. b\<lparr>b_bridgeReassigned := True, b_availability := Available\<rparr>);
       ret unitType}}"

definition assign_binding :: "node \<Rightarrow> node \<Rightarrow> string \<Rightarrow> htype \<Rightarrow> span \<Rightarrow> htype chk" where
  "assign_binding n nn name v valueSpan = do {
     r \<leftarrow> lookup name;
     case r of
       None \<Rightarrow> invalid_with (node_span nn) (''undefined binding '' @ q name)
     | Some r \<Rightarrow> do {
         b \<leftarrow> binding r;
         if \<not> b_isVar b then invalid_with (node_span n) (''cannot assign to let binding '' @ q name)
         else if b_bridgeSlot b then assign_bridge n name r v valueSpan
         else do {
           ok \<leftarrow> checkEscape v OuterBinding (b_regionDepth b) valueSpan;
           if \<not> ok then ret invalidType
           else if \<not> sameType (b_type b) v
           then invalid_with valueSpan (''assignment type '' @ q (ty_name v) @
                  '' does not match binding type '' @ q (ty_name (b_type b)))
           else do {set_availability r Available; ret unitType}}}}"

definition checkAssign :: "checker \<Rightarrow> node \<Rightarrow> expr option \<Rightarrow> expr option \<Rightarrow> htype chk" where
  "checkAssign rec n target val = do {
     v \<leftarrow> check_opt rec val Ordinary unitType;
     let valueSpan = opt_span val (node_span n);
     case target of
       Some (NameExpr nn name) \<Rightarrow> assign_binding n nn name v valueSpan
     | Some (FieldAccessExpr fn obj fieldName) \<Rightarrow> checkFieldAssign rec fn obj fieldName val v valueSpan
     | Some (IndexExpr im obj index) \<Rightarrow> checkIndexAssign rec im obj index v valueSpan
     | _ \<Rightarrow> invalid_with (node_span n) ''assignment target must be a binding, field, or index''}"


subsection \<open>Calls\<close>

fun match_args :: "checker \<Rightarrow> nat \<Rightarrow> expr option list \<Rightarrow> htype list \<Rightarrow> bool chk" where
  "match_args rec i (None # as) (p # ps) = match_args rec (i + 1) as ps"
| "match_args rec i (Some e # as) (p # ps) = do {
     actual \<leftarrow> rec e Ordinary;
     report_if (\<not> sameType p actual) (expr_span e)
       (''argument '' @ nat_to_dec (i + 1) @ '' type '' @ q (typeName actual) @
        '' does not match expected type '' @ q (typeName p));
     ok \<leftarrow> match_args rec (i + 1) as ps;
     ret (sameType p actual \<and> ok)}"
| "match_args rec i [] ps = ret True"
| "match_args rec i as [] = do {check_args rec as; ret True}"

definition arity_message :: "string \<Rightarrow> string \<Rightarrow> nat \<Rightarrow> nat \<Rightarrow> string" where
  "arity_message what name expected actual =
     what @ '' '' @ q name @ '' expects '' @ nat_to_dec expected @ '' argument(s) but got '' @ nat_to_dec actual"

definition checkResolvedFunctionCall ::
    "checker \<Rightarrow> node \<Rightarrow> expr option list \<Rightarrow> function_signature \<Rightarrow> string \<Rightarrow> span \<Rightarrow> htype chk" where
  "checkResolvedFunctionCall rec n as sig diagnosticName calleeSpan =
     (if fs_genericParams sig \<noteq> [] then do {
        report calleeSpan (''calling generic function '' @ q diagnosticName @ '' is not supported yet'');
        check_args rec as;
        ret invalidType}
      else do {
        report_if (length as \<noteq> length (fs_params sig)) (node_span n)
          (arity_message ''function'' diagnosticName (length (fs_params sig)) (length as));
        match_args rec 0 as (fs_params sig);
        ret (fs_returnType sig)})"

definition checkFunctionCall :: "checker \<Rightarrow> node \<Rightarrow> expr option list \<Rightarrow> string \<Rightarrow> span \<Rightarrow> htype chk" where
  "checkFunctionCall rec n as functionName calleeSpan = do {
     d \<leftarrow> gets currentDecl;
     resolved \<leftarrow> resolveFunctionName [functionName] d calleeSpan;
     case resolved of
       None \<Rightarrow> do {
         report calleeSpan (''undefined function '' @ q functionName);
         check_args rec as;
         ret invalidType}
     | Some key \<Rightarrow> do {
         sig \<leftarrow> gets (\<lambda>s. um_find (all_functions s) key);
         case sig of
           None \<Rightarrow> ret invalidType
         | Some sig \<Rightarrow> checkResolvedFunctionCall rec n as sig functionName calleeSpan}}"

definition methodArgumentsMatch ::
    "checker \<Rightarrow> node \<Rightarrow> expr option list \<Rightarrow> string \<Rightarrow> method_info \<Rightarrow> bool chk" where
  "methodArgumentsMatch rec n as name method = do {
     report_if (length as \<noteq> length (mi_params method)) (node_span n)
       (arity_message ''method'' name (length (mi_params method)) (length as));
     ok \<leftarrow> match_args rec 0 as (mi_params method);
     ret (length as = length (mi_params method) \<and> ok)}"

fun method_candidates ::
    "(string, trait_info) unordered_map \<Rightarrow> string \<Rightarrow> string list \<Rightarrow> method_info list" where
  "method_candidates ts name [] = []"
| "method_candidates ts name (t # bounds) =
     (case um_find ts t of
        None \<Rightarrow> method_candidates ts name bounds
      | Some info \<Rightarrow>
          (case um_find (ti_methods info) name of
             Some m \<Rightarrow> m # method_candidates ts name bounds
           | None \<Rightarrow> method_candidates ts name bounds))"

definition checkGenericMethodCall ::
    "checker \<Rightarrow> node \<Rightarrow> expr option list \<Rightarrow> node \<Rightarrow> expr option \<Rightarrow> string \<Rightarrow> htype \<Rightarrow> htype chk" where
  "checkGenericMethodCall rec n as cn obj name receiver = do {
     generic \<leftarrow> lookupGenericParam (ty_name receiver);
     ts \<leftarrow> gets traits;
     case generic of
       None \<Rightarrow> ret invalidType
     | Some generic \<Rightarrow>
         (case method_candidates ts name (gi_bounds generic) of
            [] \<Rightarrow> do {
              report (node_span cn) (''generic type '' @ q (ty_name receiver) @ '' has no method '' @ q name @
                '' in its trait bounds'');
              check_args rec as;
              ret invalidType}
          | method # others \<Rightarrow>
              if \<not> list_all (sameMethodSignature method) others
              then invalid_with (node_span cn)
                     (''method '' @ q name @ '' is ambiguous for generic type '' @ q (ty_name receiver))
              else do {
                report_if (ty_capability (mi_receiverType method) \<noteq> ty_capability receiver)
                  (opt_span obj (node_span cn)) (''method '' @ q name @ '' requires a compatible receiver'');
                methodArgumentsMatch rec n as name method;
                ret (mi_returnType method)})}"

definition call_method ::
    "checker \<Rightarrow> node \<Rightarrow> expr option list \<Rightarrow> node \<Rightarrow> expr option \<Rightarrow> string \<Rightarrow> bool \<Rightarrow> htype \<Rightarrow>
     method_info \<Rightarrow> htype chk" where
  "call_method rec n as cn obj name isTypeLevelCall receiver method = do {
     report_if (isTypeLevelCall \<and> mi_hasReceiver method) (node_span cn)
       (''method '' @ q name @ '' requires a receiver'');
     report_if (\<not> isTypeLevelCall \<and> \<not> mi_hasReceiver method) (node_span cn)
       (''associated function '' @ q name @ '' must be called on type '' @ q (ty_name receiver));
     report_if (mi_hasReceiver method \<and> \<not> sameType (mi_receiverType method) receiver)
       (opt_span obj (node_span cn))
       (''method '' @ q name @ '' requires receiver type '' @ q (ty_name (mi_receiverType method)));
     methodArgumentsMatch rec n as name method;
     ret (mi_returnType method)}"

definition type_level_name :: "expr option \<Rightarrow> string option chk" where
  "type_level_name obj =
     (case asNameExpr obj of
        None \<Rightarrow> ret None
      | Some (_, name) \<Rightarrow> do {
          known \<leftarrow> gets (\<lambda>s. um_contains (structs s) name);
          r \<leftarrow> lookup name;
          ret (if known \<and> r = None then Some name else None)})"

definition checkMethodCall ::
    "checker \<Rightarrow> node \<Rightarrow> expr option list \<Rightarrow> node \<Rightarrow> expr option \<Rightarrow> string \<Rightarrow> htype chk" where
  "checkMethodCall rec n as cn obj name = do {
     typeLevel \<leftarrow> type_level_name obj;
     receiver \<leftarrow> (case typeLevel of
                    Some t \<Rightarrow> ret (mk_type NoCap t)
                  | None \<Rightarrow> check_opt rec obj Operand invalidType);
     generic \<leftarrow> isGenericTypeName (ty_name receiver);
     info \<leftarrow> gets (\<lambda>s. um_find (structs s) (ty_name receiver));
     if isInvalid receiver then do {check_args rec as; ret invalidType}
     else if typeLevel = None \<and> generic then checkGenericMethodCall rec n as cn obj name receiver
     else case info of
       None \<Rightarrow> invalid_with (node_span cn) (''type '' @ q (ty_name receiver) @ '' has no methods'')
     | Some info \<Rightarrow>
         (case um_find (si_methods info) name of
            None \<Rightarrow> do {
              report (node_span cn) (''type '' @ q (ty_name receiver) @ '' has no method '' @ q name);
              check_args rec as;
              ret invalidType}
          | Some method \<Rightarrow> call_method rec n as cn obj name (typeLevel \<noteq> None) receiver method)}"

definition resolve_path_call :: "expr \<Rightarrow> (function_signature \<times> string) option chk" where
  "resolve_path_call callee =
     (let p = pathFromFieldAccess callee in
      if length p > 1 then do {
        d \<leftarrow> gets currentDecl;
        resolved \<leftarrow> resolveFunctionName p d (expr_span callee);
        fs \<leftarrow> gets all_functions;
        ret (case resolved of
               None \<Rightarrow> None
             | Some key \<Rightarrow> map_option (\<lambda>sig. (sig, joinPath p)) (um_find fs key))}
      else ret None)"

definition call_by_shape :: "checker \<Rightarrow> node \<Rightarrow> expr option \<Rightarrow> expr option list \<Rightarrow> htype chk" where
  "call_by_shape rec n callee as =
     (case callee of
        Some (NameExpr nn name) \<Rightarrow> checkFunctionCall rec n as name (node_span nn)
      | Some (FieldAccessExpr cn obj name) \<Rightarrow> checkMethodCall rec n as cn obj name
      | _ \<Rightarrow> do {
          report (node_span n) ''function call currently requires a function name'';
          check_args rec as;
          ret invalidType})"

definition checkCall :: "checker \<Rightarrow> node \<Rightarrow> expr option \<Rightarrow> expr option list \<Rightarrow> htype chk" where
  "checkCall rec n callee as =
     (case callee of
        None \<Rightarrow> call_by_shape rec n callee as
      | Some c \<Rightarrow>
          (case qualifiedCoreBuiltinName c of
             Some builtinName \<Rightarrow> checkFunctionCall rec n as builtinName (expr_span c)
           | None \<Rightarrow> do {
               resolved \<leftarrow> resolve_path_call c;
               case resolved of
                 Some (sig, name) \<Rightarrow> checkResolvedFunctionCall rec n as sig name (expr_span c)
               | None \<Rightarrow> call_by_shape rec n callee as}))"


subsection \<open>Control flow and regions\<close>

definition checkReturn :: "checker \<Rightarrow> node \<Rightarrow> expr option \<Rightarrow> htype chk" where
  "checkReturn rec n val = do {
     actual \<leftarrow> check_opt rec val Ordinary unitType;
     checkEscape actual ReturnValue 0 (node_span n);
     expected \<leftarrow> gets currentReturnType;
     report_if (\<not> sameType expected actual) (node_span n)
       (''return type '' @ q (ty_name actual) @ '' does not match function return type '' @ q (ty_name expected));
     ret actual}"

definition check_condition :: "checker \<Rightarrow> node \<Rightarrow> expr option \<Rightarrow> string \<Rightarrow> unit chk" where
  "check_condition rec n condition message = do {
     c \<leftarrow> check_opt rec condition Ordinary invalidType;
     report_if (\<not> isInvalid c \<and> (ty_capability c \<noteq> NoCap \<or> ty_name c \<noteq> ''bool''))
       (opt_span condition (node_span n)) message}"

definition checkIf :: "checker \<Rightarrow> node \<Rightarrow> expr option \<Rightarrow> block option \<Rightarrow> expr option \<Rightarrow> htype chk" where
  "checkIf rec n condition thenBlock elseBranch = do {
     check_condition rec n condition ''if condition must be bool'';
     thenType \<leftarrow> check_block_opt rec thenBlock;
     case elseBranch of
       None \<Rightarrow> ret unitType
     | Some e \<Rightarrow> do {
         elseType \<leftarrow> rec e Ordinary;
         if \<not> sameType thenType elseType
         then invalid_with (node_span n) (''if branch type '' @ q (ty_name thenType) @
                '' does not match else branch type '' @ q (ty_name elseType))
         else ret thenType}}"

definition checkWhile :: "checker \<Rightarrow> node \<Rightarrow> expr option \<Rightarrow> block option \<Rightarrow> htype chk" where
  "checkWhile rec n condition body = do {
     check_condition rec n condition ''while condition must be bool'';
     check_block_opt rec body;
     ret unitType}"

definition region_source :: "node \<Rightarrow> expr option \<Rightarrow> (binding_ref option \<times> htype) chk" where
  "region_source n source = do {
     r \<leftarrow> (case asNameExpr source of Some (_, name) \<Rightarrow> lookup name | None \<Rightarrow> ret None);
     t \<leftarrow> (case asNameExpr source of
             Some (nn, name) \<Rightarrow> checkName nn name Operand | None \<Rightarrow> ret invalidType);
     report_if (asNameExpr source = None \<or> r = None \<or> ty_capability t \<noteq> Iso) (opt_span source (node_span n))
       ''enter/explore source must be an iso binding'';
     ret (r, t)}"

definition enter_depth :: "region_kind \<Rightarrow> unit chk" where
  "enter_depth kind = update (\<lambda>s. s\<lparr>regionDepth := regionDepth s + 1,
     mutableRegionDepth := (if kind = Region_Enter then mutableRegionDepth s + 1 else mutableRegionDepth s)\<rparr>)"

definition leave_depth :: "region_kind \<Rightarrow> unit chk" where
  "leave_depth kind = update (\<lambda>s. s\<lparr>regionDepth := regionDepth s - 1,
     mutableRegionDepth := (if kind = Region_Enter then mutableRegionDepth s - 1 else mutableRegionDepth s)\<rparr>)"

definition declare_bridge :: "node \<Rightarrow> region_kind \<Rightarrow> string \<Rightarrow> htype \<Rightarrow> unit chk" where
  "declare_bridge n kind bindingName source =
     (if bindingName \<noteq> [] \<and> \<not> isInvalid source then do {
        depth \<leftarrow> gets regionDepth;
        let cap = (if kind = Region_Enter then Mut else Paused);
        declare_binding bindingName
          (default_binding\<lparr>b_type := mk_type cap (ty_name source), b_isVar := (cap = Mut),
             b_span := node_span n, b_origin := RegionBridge, b_regionDepth := depth, b_bridgeSlot := True\<rparr>)}
      else ret ())"

definition region_scope :: "region_kind \<Rightarrow> 'a chk \<Rightarrow> 'a chk" where
  "region_scope kind m = do {
     enter_depth kind;
     pushScope;
     suspended \<leftarrow> suspendOuterRegionBindings;
     result \<leftarrow> m;
     restoreSuspendedBindings suspended;
     popScope;
     leave_depth kind;
     ret result}"

definition region_body ::
    "checker \<Rightarrow> node \<Rightarrow> region_kind \<Rightarrow> string \<Rightarrow> block option \<Rightarrow> htype \<Rightarrow> htype chk" where
  "region_body rec n kind bindingName body source =
     region_scope kind (do {
       declare_bridge n kind bindingName source;
       check_block_opt rec body})"

definition checkRegion ::
    "checker \<Rightarrow> node \<Rightarrow> region_kind \<Rightarrow> expr option \<Rightarrow> string \<Rightarrow> block option \<Rightarrow> htype chk" where
  "checkRegion rec n kind source bindingName body = do {
     (r, t) \<leftarrow> region_source n source;
     previousAvailability \<leftarrow> openBorrowRegionSource r;
     result \<leftarrow> region_body rec n kind bindingName body t;
     restoreRegionSource r previousAvailability;
     depth \<leftarrow> gets regionDepth;
     checkEscape result RegionBlockResult depth (node_span n);
     ret result}"

definition checkFreeze :: "checker \<Rightarrow> node \<Rightarrow> expr option \<Rightarrow> htype chk" where
  "checkFreeze rec n val =
     (if \<not> isMoveExpr val then invalid_with (opt_span val (node_span n)) ''freeze requires move of an iso value''
      else do {
        input \<leftarrow> check_opt rec val Ordinary invalidType;
        if ty_capability input \<noteq> Iso
        then invalid_with (opt_span val (node_span n)) ''freeze requires an iso value''
        else ret (mk_type Imm (ty_name input))})"

definition checkMerge :: "checker \<Rightarrow> node \<Rightarrow> expr option \<Rightarrow> htype chk" where
  "checkMerge rec n val =
     (if \<not> isMoveExpr val then invalid_with (opt_span val (node_span n)) ''merge requires move of an iso value''
      else do {
        depth \<leftarrow> gets mutableRegionDepth;
        report_if (depth = 0) (node_span n) ''merge requires an active region'';
        input \<leftarrow> check_opt rec val Ordinary invalidType;
        if ty_capability input \<noteq> Iso
        then invalid_with (opt_span val (node_span n)) ''merge requires an iso value''
        else ret (mk_type Mut (ty_name input))})"


subsection \<open>Closing the recursion\<close>

lemma match_args_cong:
  "(\<And>x c. Some x \<in> set as \<Longrightarrow> rec x c = rec' x c) \<Longrightarrow> match_args rec i as ps = match_args rec' i as ps"
proof (induction rec i as ps rule: match_args.induct)
  case (4 rec i a as)
  then have "check_args rec (a # as) = check_args rec' (a # as)" by (intro check_args_cong) auto
  then show ?case by simp
qed auto

lemmas method_call_defs = checkMethodCall_def call_method_def checkGenericMethodCall_def methodArgumentsMatch_def
lemmas function_call_defs = checkFunctionCall_def checkResolvedFunctionCall_def

lemma checkCall_cong [fundef_cong]:
  assumes eqs: "n = n'" "callee = callee'" "as = as'"
    and rec_args: "\<And>x c. Some x \<in> set as' \<Longrightarrow> rec x c = rec' x c"
    and rec_obj: "\<And>x c cn f. callee' = Some (FieldAccessExpr cn (Some x) f) \<Longrightarrow> rec x c = rec' x c"
  shows "checkCall rec n callee as = checkCall rec' n' callee' as'"
proof -
  have args: "match_args rec i as ps = match_args rec' i as ps" "check_args rec as = check_args rec' as" for i ps
    using rec_args eqs by (auto intro: match_args_cong check_args_cong)
  have meth: "checkMethodCall rec n as cn obj f = checkMethodCall rec' n as cn obj f"
    if "callee = Some (FieldAccessExpr cn obj f)" for cn obj f
  proof -
    have "check_opt rec obj ctx d = check_opt rec' obj ctx d" for ctx d
      using that rec_obj eqs by (intro check_opt_cong) auto
    then show ?thesis by (simp only: method_call_defs args)
  qed
  have funs: "checkFunctionCall rec n as = checkFunctionCall rec' n as"
    "checkResolvedFunctionCall rec n as = checkResolvedFunctionCall rec' n as"
    by (intro ext; simp only: function_call_defs args)+
  have "call_by_shape rec n callee as = call_by_shape rec' n callee as"
    using meth by (simp add: call_by_shape_def funs args split: option.splits expr.splits)
  then show ?thesis
    by (simp only: checkCall_def funs eqs [symmetric])
qed

lemma checkBinary_cong [fundef_cong]:
  assumes "n = n'" "op = op'" "l = l'" "r = r'"
    and "\<And>x c. l' = Some x \<or> r' = Some x \<Longrightarrow> rec x c = rec' x c"
  shows "checkBinary rec n op l r = checkBinary rec' n' op' l' r'"
  unfolding checkBinary_def assms(1-4) by (simp add: assms(5) cong: check_opt_cong)

lemma check_index_parts_cong:
  "(\<And>x c. obj = Some x \<or> index = Some x \<Longrightarrow> rec x c = rec' x c) \<Longrightarrow>
   check_index_parts rec n obj index = check_index_parts rec' n obj index"
  unfolding check_index_parts_def by (simp cong: check_opt_cong)

lemma checkIndex_cong [fundef_cong]:
  assumes "n = n'" "obj = obj'" "index = index'"
    and "\<And>x c. obj' = Some x \<or> index' = Some x \<Longrightarrow> rec x c = rec' x c"
  shows "checkIndex rec n obj index = checkIndex rec' n' obj' index'"
  unfolding checkIndex_def assms(1-3) using assms(4) by (simp cong: check_index_parts_cong)

lemma checkArrayLiteral_cong [fundef_cong]:
  assumes "n = n'" "es = es'" and "\<And>x c. Some x \<in> set es' \<Longrightarrow> rec x c = rec' x c"
  shows "checkArrayLiteral rec n es = checkArrayLiteral rec' n' es'"
proof -
  have "check_opt rec x c d = check_opt rec' x c d" if "x \<in> set es" for x c d
    using that assms by (intro check_opt_cong) auto
  then show ?thesis
    unfolding checkArrayLiteral_def assms(1,2) [symmetric] by (cases es) (simp_all cong: for_each_cong)
qed

lemma checkBinding_cong [fundef_cong]:
  assumes "n = n'" "v = v'" "name = name'" "t = t'" "i = i'"
    and "\<And>x c. i' = Some x \<Longrightarrow> rec x c = rec' x c"
  shows "checkBinding rec n v name t i = checkBinding rec' n' v' name' t' i'"
  unfolding checkBinding_def assms(1-5) using assms(6) by (simp cong: check_opt_cong)

lemma checkFieldAccess_cong [fundef_cong]:
  assumes "n = n'" "obj = obj'" "f = f'" and "\<And>x c. obj' = Some x \<Longrightarrow> rec x c = rec' x c"
  shows "checkFieldAccess rec n obj f = checkFieldAccess rec' n' obj' f'"
  unfolding checkFieldAccess_def assms(1-3) using assms(4) by (simp cong: check_opt_cong)

lemma checkAssign_cong [fundef_cong]:
  assumes eqs: "n = n'" "target = target'" "val = val'"
    and "\<And>x c. val' = Some x \<Longrightarrow> rec x c = rec' x c"
    and field: "\<And>x c tn f. target' = Some (FieldAccessExpr tn (Some x) f) \<Longrightarrow> rec x c = rec' x c"
    and index: "\<And>x c tn obj i. target' = Some (IndexExpr tn obj i) \<Longrightarrow> obj = Some x \<or> i = Some x \<Longrightarrow>
                  rec x c = rec' x c"
  shows "checkAssign rec n target val = checkAssign rec' n' target' val'"
proof -
  have "check_opt rec val c d = check_opt rec' val c d" for c d
    using assms by (intro check_opt_cong) auto
  moreover have "checkFieldAssign rec tn obj f = checkFieldAssign rec' tn obj f"
    if "target = Some (FieldAccessExpr tn obj f)" for tn obj f
    unfolding checkFieldAssign_def using that field eqs by (intro ext) (simp cong: check_opt_cong)
  moreover have "checkIndexAssign rec tn obj i = checkIndexAssign rec' tn obj i"
    if "target = Some (IndexExpr tn obj i)" for tn obj i
    unfolding checkIndexAssign_def using that index eqs by (intro ext) (simp cong: check_index_parts_cong)
  ultimately show ?thesis
    unfolding checkAssign_def eqs(1,2,3) [symmetric]
    by (cases target; cases "the target") simp_all
qed

lemma checkReturn_cong [fundef_cong]:
  assumes "n = n'" "v = v'" "\<And>x c. v' = Some x \<Longrightarrow> rec x c = rec' x c"
  shows "checkReturn rec n v = checkReturn rec' n' v'"
  unfolding checkReturn_def assms(1,2) using assms(3) by (simp cong: check_opt_cong)

lemma checkIf_cong [fundef_cong]:
  assumes "n = n'" "c = c'" "t = t'" "e = e'"
    and "\<And>x ctx. c' = Some x \<or> e' = Some x \<Longrightarrow> rec x ctx = rec' x ctx"
    and "\<And>x ctx b. t' = Some b \<Longrightarrow> Some x \<in> set (blk_expressions b) \<Longrightarrow> rec x ctx = rec' x ctx"
  shows "checkIf rec n c t e = checkIf rec' n' c' t' e'"
  unfolding checkIf_def check_condition_def assms(1-4) using assms(5,6)
  by (simp cong: check_opt_cong check_block_opt_cong option.case_cong)

lemma checkWhile_cong [fundef_cong]:
  assumes "n = n'" "c = c'" "b = b'"
    and "\<And>x ctx. c' = Some x \<Longrightarrow> rec x ctx = rec' x ctx"
    and "\<And>x ctx y. b' = Some y \<Longrightarrow> Some x \<in> set (blk_expressions y) \<Longrightarrow> rec x ctx = rec' x ctx"
  shows "checkWhile rec n c b = checkWhile rec' n' c' b'"
  unfolding checkWhile_def check_condition_def assms(1-3) using assms(4,5)
  by (simp cong: check_opt_cong check_block_opt_cong)

lemma checkRegion_cong [fundef_cong]:
  assumes "n = n'" "k = k'" "s = s'" "name = name'" "b = b'"
    and "\<And>x ctx y. b' = Some y \<Longrightarrow> Some x \<in> set (blk_expressions y) \<Longrightarrow> rec x ctx = rec' x ctx"
  shows "checkRegion rec n k s name b = checkRegion rec' n' k' s' name' b'"
  unfolding checkRegion_def region_body_def assms(1-5) using assms(6) by (simp cong: check_block_opt_cong)

lemma checkFreeze_cong [fundef_cong]:
  assumes "n = n'" "v = v'" "\<And>x c. v' = Some x \<Longrightarrow> rec x c = rec' x c"
  shows "checkFreeze rec n v = checkFreeze rec' n' v'"
  unfolding checkFreeze_def assms(1,2) using assms(3) by (simp cong: check_opt_cong)

lemma checkMerge_cong [fundef_cong]:
  assumes "n = n'" "v = v'" "\<And>x c. v' = Some x \<Longrightarrow> rec x c = rec' x c"
  shows "checkMerge rec n v = checkMerge rec' n' v'"
  unfolding checkMerge_def assms(1,2) using assms(3) by (simp cong: check_opt_cong)

function checkExpr :: "expr \<Rightarrow> value_context \<Rightarrow> htype chk" where
  "checkExpr (LiteralExpr n kind txt suffix) ctx = ret (literalType kind suffix)"
| "checkExpr (NameExpr n name) ctx = checkName n name ctx"
| "checkExpr (BinaryExpr n op lhs rhs) ctx = checkBinary checkExpr n op lhs rhs"
| "checkExpr (AssignExpr n target val) ctx = checkAssign checkExpr n target val"
| "checkExpr (FieldAccessExpr n obj fieldName) ctx = checkFieldAccess checkExpr n obj fieldName"
| "checkExpr (ArrayLiteralExpr n elements) ctx = checkArrayLiteral checkExpr n elements"
| "checkExpr (IndexExpr n obj index) ctx = checkIndex checkExpr n obj index"
| "checkExpr (BindingExpr n isVar name type initializer) ctx =
     checkBinding checkExpr n isVar name type initializer"
| "checkExpr (MoveExpr n val) ctx = checkMove n val"
| "checkExpr (NewExpr n type strategy fis) ctx = checkNew checkExpr n type strategy fis"
| "checkExpr (FreezeExpr n val) ctx = checkFreeze checkExpr n val"
| "checkExpr (MergeExpr n val) ctx = checkMerge checkExpr n val"
| "checkExpr (IfExpr n condition thenBlock elseBranch) ctx = checkIf checkExpr n condition thenBlock elseBranch"
| "checkExpr (WhileExpr n condition body) ctx = checkWhile checkExpr n condition body"
| "checkExpr (RegionExpr n kind source bindingName body) ctx =
     checkRegion checkExpr n kind source bindingName body"
| "checkExpr (ReturnExpr n val) ctx = checkReturn checkExpr n val"
| "checkExpr (BlockE b) ctx = check_block_opt checkExpr (Some b)"
| "checkExpr (CallExpr n callee arguments) ctx = checkCall checkExpr n callee arguments"
  by pat_completeness auto

lemma size_args: "Some x \<in> set as \<Longrightarrow> size x < size_list (size_option size) as"
  by (induction as) auto

lemma size_block: "Some x \<in> set (blk_expressions b) \<Longrightarrow> size x < size b"
  by (cases b) (auto dest: size_args)

lemma size_init: "fi \<in> set fis \<Longrightarrow> fi_value fi = Some x \<Longrightarrow> size x < size_list size fis"
proof (induction fis)
  case (Cons a fis)
  then show ?case by (cases a) auto
qed simp

termination checkExpr
  by (relation "measure (size \<circ> fst)") (auto dest: size_block size_args size_init)

definition checkBlock :: "block \<Rightarrow> htype chk" where
  "checkBlock b = checkBlock_with checkExpr b"

end
