(* ===== verification/Gura_Sema_Frame.thy ===== *)
theory Gura_Sema_Frame
  imports Gura_Sema
begin

section \<open>What checking an expression leaves alone\<close>

text \<open>
  A relation between the states before and after is kept by the whole expression checker once it is
  reflexive, transitive and kept by the few primitive updates. The locale proves this once; it is
  interpreted with the frame relation (tables, depths, scopes and the types of the bindings) and with
  the relations of the later theories.
\<close>

locale kept_relation =
  fixes R :: "sema \<Rightarrow> sema \<Rightarrow> bool"
  assumes R_refl: "R s s"
    and R_trans: "R s t \<Longrightarrow> R t u \<Longrightarrow> R s u"
    and R_report: "R s (s\<lparr>diags := DiagnosticEngine_error sp msg (diags s)\<rparr>)"
begin

abbreviation io :: "'a chk \<Rightarrow> bool" where
  "io m \<equiv> state_io_rel R m"

lemma io_ret: "io (ret x)"
  by (simp add: state_io_rel_def R_refl)

lemma io_gets: "io (gets f)"
  by (simp add: state_io_rel_def R_refl)

lemma io_bind: "io m \<Longrightarrow> (\<And>x. io (f x)) \<Longrightarrow> io (m \<bind> f)"
  by (auto simp: state_io_rel_def split: prod.splits dest: R_trans) (metis R_trans snd_conv)

lemma io_report: "io (report sp msg)"
  by (simp add: state_io_rel_def report_def R_report)

lemma io_if: "(c \<Longrightarrow> io m) \<Longrightarrow> (\<not> c \<Longrightarrow> io m') \<Longrightarrow> io (if c then m else m')"
  by simp

lemma io_option: "(x = None \<Longrightarrow> io m) \<Longrightarrow> (\<And>y. x = Some y \<Longrightarrow> io (f y)) \<Longrightarrow> io (case x of None \<Rightarrow> m | Some y \<Rightarrow> f y)"
  by (cases x) auto

lemma io_sum: "(\<And>y. x = Inl y \<Longrightarrow> io (f y)) \<Longrightarrow> (\<And>y. x = Inr y \<Longrightarrow> io (g y)) \<Longrightarrow> io (case x of Inl y \<Rightarrow> f y | Inr y \<Rightarrow> g y)"
  by (cases x) auto

lemma io_list: "(x = [] \<Longrightarrow> io m) \<Longrightarrow> (\<And>y ys. x = y # ys \<Longrightarrow> io (f y ys)) \<Longrightarrow> io (case x of [] \<Rightarrow> m | y # ys \<Rightarrow> f y ys)"
  by (cases x) auto

lemma io_prod: "(\<And>a b. x = (a, b) \<Longrightarrow> io (f a b)) \<Longrightarrow> io (case x of (a, b) \<Rightarrow> f a b)"
  by (cases x) auto

lemma io_let: "io (f x) \<Longrightarrow> io (Let x f)"
  by simp

lemma io_for_each: "(\<And>x. x \<in> set xs \<Longrightarrow> io (f x)) \<Longrightarrow> io (for_each xs f)"
  by (induction xs) (auto intro: io_ret io_bind)

lemmas io_intros = io_ret io_gets io_bind io_report io_if io_option io_sum io_list io_prod io_let io_for_each

lemma io_invalid_with: "io (invalid_with sp msg)"
  unfolding invalid_with_def by (intro io_intros)

lemma io_report_if: "io (report_if c sp msg)"
  unfolding report_if_def by (intro io_intros)

lemma io_typeFromAst: "io (typeFromAst t)"
  by (induction t rule: typeFromAst.induct) (simp only: typeFromAst.simps, (intro io_intros; blast))

lemma io_typeFromAst_or: "io (typeFromAst_or t d)"
  unfolding typeFromAst_or_def by (intro io_intros io_typeFromAst)

lemma io_checkEscape: "io (checkEscape v target d sp)"
  unfolding checkEscape_def by (cases target; simp only: escape_target.case; intro io_intros)

lemma io_lookup: "io (lookup name)" "io (binding r)"
  unfolding lookup_def binding_def by (intro io_intros)+

lemma io_generic: "io (isGenericTypeName name)" "io (lookupGenericParam name)"
  unfolding isGenericTypeName_def lookupGenericParam_def by (intro io_intros)+

lemma io_resolve: "io (resolveFunctionName p d sp)"
  unfolding resolveFunctionName_def resolve_simple_def resolve_local_def resolve_qualified_def
  by (intro io_intros)

lemma io_checkName: "io (checkName n name ctx)"
  unfolding checkName_def by (intro io_intros io_lookup io_invalid_with)

lemma io_region_source: "io (region_source n source)"
  unfolding region_source_def by (intro io_intros io_lookup io_checkName io_report_if)

lemma io_checkIsoInitializerArg: "io (checkIsoInitializerArg e v f sp)"
  unfolding checkIsoInitializerArg_def by (intro io_intros)

lemma io_check_strategy: "io (check_strategy n st t)"
  unfolding check_strategy_def by (intro io_intros io_report_if)

lemma io_type_level_name: "io (type_level_name obj)"
  unfolding type_level_name_def by (intro io_intros io_lookup)

lemma io_resolve_path_call: "io (resolve_path_call c)"
  unfolding resolve_path_call_def by (intro io_intros io_resolve)

lemma io_store_field: "io (store_field n name f e v sp)"
  unfolding store_field_def by (intro io_intros io_invalid_with io_checkEscape)

lemmas io_plain = io_invalid_with io_report_if io_typeFromAst io_typeFromAst_or io_checkEscape io_lookup
  io_generic io_resolve io_checkName io_region_source io_checkIsoInitializerArg io_check_strategy
  io_type_level_name io_resolve_path_call io_store_field

end

text \<open>With the updates that the expression checker makes: declarations, availability, and the two brackets.\<close>

locale kept_by_checker = kept_relation R for R :: "sema \<Rightarrow> sema \<Rightarrow> bool" +
  assumes R_declare: "state_io_rel R (declare_binding name b)"
    and R_availability: "state_io_rel R (set_availability r a)"
    and R_bridge: "state_io_rel R (modify_binding r (\<lambda>b. b\<lparr>b_bridgeReassigned := True, b_availability := Available\<rparr>))"
    and R_block: "state_io_rel R (m :: htype chk) \<Longrightarrow> state_io_rel R (block_scope m)"
    and R_region: "state_io_rel R (m :: htype chk) \<Longrightarrow> state_io_rel R (region_scope kind m)"
begin

lemma io_check_opt: "(\<And>x. e = Some x \<Longrightarrow> io (rec x ctx)) \<Longrightarrow> io (check_opt rec e ctx d)"
  unfolding check_opt_def by (intro io_intros)

lemma io_check_args: "(\<And>x. Some x \<in> set as \<Longrightarrow> io (rec x Ordinary)) \<Longrightarrow> io (check_args rec as)"
  unfolding check_args_def by (intro io_intros) simp

lemma io_match_args: "(\<And>x. Some x \<in> set as \<Longrightarrow> io (rec x Ordinary)) \<Longrightarrow> io (match_args rec i as ps)"
proof (induction rec i as ps rule: match_args.induct)
  case (4 rec i a as)
  then show ?case by (simp only: match_args.simps) (intro io_intros io_check_args)
qed (auto intro!: io_intros io_plain)

lemma io_block_loop: "(\<And>x. Some x \<in> set es \<Longrightarrow> io (rec x Ordinary)) \<Longrightarrow> io (block_loop rec t es)"
  by (induction rec t es rule: block_loop.induct) (auto intro!: io_intros)

lemma io_check_block_opt:
  "(\<And>x y. b = Some y \<Longrightarrow> Some x \<in> set (blk_expressions y) \<Longrightarrow> io (rec x Ordinary)) \<Longrightarrow> io (check_block_opt rec b)"
  unfolding check_block_opt_def checkBlock_with_def by (intro io_intros R_block io_block_loop)

lemma io_init_loop:
  "(\<And>x fi. fi \<in> set fis \<Longrightarrow> fi_value fi = Some x \<Longrightarrow> io (rec x Ordinary)) \<Longrightarrow> io (init_loop rec t fs ini fis)"
proof (induction fis arbitrary: ini)
  case (Cons fi fis)
  then have "io (check_opt rec (fi_value fi) Ordinary unitType)" "\<And>i. io (init_loop rec t fs i fis)"
    by (auto intro!: io_check_opt)
  then show ?case
    by (simp only: init_loop.simps check_init_def) (intro io_intros io_plain)
qed (simp add: io_ret)

lemma io_checkBinary:
  "(\<And>x. l = Some x \<or> r = Some x \<Longrightarrow> io (rec x Ordinary)) \<Longrightarrow> io (checkBinary rec n op l r)"
  unfolding checkBinary_def by (intro io_intros io_plain io_check_opt) simp_all

lemma io_index_parts:
  "(\<And>x c. obj = Some x \<or> index = Some x \<Longrightarrow> io (rec x c)) \<Longrightarrow> io (check_index_parts rec n obj index)"
  unfolding check_index_parts_def by (intro io_intros io_plain io_check_opt) simp_all

lemma io_checkIndex:
  "(\<And>x c. obj = Some x \<or> index = Some x \<Longrightarrow> io (rec x c)) \<Longrightarrow> io (checkIndex rec n obj index)"
  unfolding checkIndex_def by (intro io_intros io_plain io_index_parts)

lemma io_checkArrayLiteral:
  "(\<And>x. Some x \<in> set es \<Longrightarrow> io (rec x Ordinary)) \<Longrightarrow> io (checkArrayLiteral rec n es)"
  unfolding checkArrayLiteral_def by (intro io_intros io_plain io_check_opt) simp_all

lemma io_checkNew:
  "(\<And>x fi. fi \<in> set fis \<Longrightarrow> fi_value fi = Some x \<Longrightarrow> io (rec x Ordinary)) \<Longrightarrow> io (checkNew rec n t st fis)"
  unfolding checkNew_def new_fields_def by (intro io_intros io_plain io_init_loop)

lemma io_checkBinding:
  "(\<And>x. i = Some x \<Longrightarrow> io (rec x Ordinary)) \<Longrightarrow> io (checkBinding rec n v name t i)"
  unfolding checkBinding_def by (intro io_intros io_plain io_check_opt R_declare)

lemma io_checkFieldAccess:
  "(\<And>x c. obj = Some x \<Longrightarrow> io (rec x c)) \<Longrightarrow> io (checkFieldAccess rec n obj f)"
  unfolding checkFieldAccess_def by (intro io_intros io_plain io_check_opt)

lemma io_assign_binding: "io (assign_binding n nn name v sp)"
  unfolding assign_binding_def assign_bridge_def by (intro io_intros io_plain R_availability R_bridge)

lemma io_checkAssign:
  assumes "\<And>x. val = Some x \<Longrightarrow> io (rec x Ordinary)"
    and "\<And>x c tn f. target = Some (FieldAccessExpr tn (Some x) f) \<Longrightarrow> io (rec x c)"
    and "\<And>x c tn obj i. target = Some (IndexExpr tn obj i) \<Longrightarrow> obj = Some x \<or> i = Some x \<Longrightarrow> io (rec x c)"
  shows "io (checkAssign rec n target val)"
proof -
  have "io (checkFieldAssign rec tn obj f e v sp)" if "target = Some (FieldAccessExpr tn obj f)" for tn obj f e v sp
    unfolding checkFieldAssign_def using that assms(2) by (intro io_intros io_plain io_check_opt) auto
  moreover have "io (checkIndexAssign rec tn obj i v sp)" if "target = Some (IndexExpr tn obj i)" for tn obj i v sp
    unfolding checkIndexAssign_def using that assms(3) by (intro io_intros io_plain io_index_parts) auto
  ultimately show ?thesis
    unfolding checkAssign_def
    by (intro io_intros io_check_opt assms(1))
       (auto intro!: io_assign_binding io_plain split: expr.splits)
qed

lemma io_method_call:
  assumes "\<And>x. Some x \<in> set as \<Longrightarrow> io (rec x Ordinary)" "\<And>x c. obj = Some x \<Longrightarrow> io (rec x c)"
  shows "io (checkMethodCall rec n as cn obj f)"
  unfolding checkMethodCall_def checkGenericMethodCall_def call_method_def methodArgumentsMatch_def
  by (intro io_intros io_plain io_check_opt io_check_args io_match_args assms)

lemma io_function_call:
  assumes "\<And>x. Some x \<in> set as \<Longrightarrow> io (rec x Ordinary)"
  shows "io (checkFunctionCall rec n as f sp)" and "io (checkResolvedFunctionCall rec n as sig f sp)"
  unfolding checkFunctionCall_def checkResolvedFunctionCall_def
  by (intro io_intros io_plain io_check_args io_match_args assms; assumption)+

lemma io_checkCall:
  assumes "\<And>x. Some x \<in> set as \<Longrightarrow> io (rec x Ordinary)"
    and "\<And>x c cn f. callee = Some (FieldAccessExpr cn (Some x) f) \<Longrightarrow> io (rec x c)"
  shows "io (checkCall rec n callee as)"
proof -
  have "io (call_by_shape rec n callee as)"
    unfolding call_by_shape_def using assms
    by (auto intro!: io_intros io_check_args io_method_call io_function_call split: option.splits expr.splits)
  then show ?thesis
    unfolding checkCall_def by (intro io_intros io_plain io_function_call assms)
qed

lemma io_checkReturn: "(\<And>x. v = Some x \<Longrightarrow> io (rec x Ordinary)) \<Longrightarrow> io (checkReturn rec n v)"
  unfolding checkReturn_def by (intro io_intros io_plain io_check_opt)

lemma io_check_condition: "(\<And>x. c = Some x \<Longrightarrow> io (rec x Ordinary)) \<Longrightarrow> io (check_condition rec n c msg)"
  unfolding check_condition_def by (intro io_intros io_plain io_check_opt)

lemma io_checkIf:
  assumes "\<And>x. c = Some x \<or> e = Some x \<Longrightarrow> io (rec x Ordinary)"
    and "\<And>x b. t = Some b \<Longrightarrow> Some x \<in> set (blk_expressions b) \<Longrightarrow> io (rec x Ordinary)"
  shows "io (checkIf rec n c t e)"
  unfolding checkIf_def using assms by (intro io_intros io_plain io_check_condition io_check_block_opt) auto

lemma io_checkWhile:
  assumes "\<And>x. c = Some x \<Longrightarrow> io (rec x Ordinary)"
    and "\<And>x y. b = Some y \<Longrightarrow> Some x \<in> set (blk_expressions y) \<Longrightarrow> io (rec x Ordinary)"
  shows "io (checkWhile rec n c b)"
  unfolding checkWhile_def using assms by (intro io_intros io_check_condition io_check_block_opt)

lemma io_checkRegion:
  assumes "\<And>x y. b = Some y \<Longrightarrow> Some x \<in> set (blk_expressions y) \<Longrightarrow> io (rec x Ordinary)"
  shows "io (checkRegion rec n k s name b)"
  unfolding checkRegion_def region_body_def openBorrowRegionSource_def restoreRegionSource_def declare_bridge_def
  by (intro io_intros io_plain R_availability R_region R_declare io_check_block_opt assms)

lemma io_checkFreeze: "(\<And>x. v = Some x \<Longrightarrow> io (rec x Ordinary)) \<Longrightarrow> io (checkFreeze rec n v)"
  unfolding checkFreeze_def by (intro io_intros io_plain io_check_opt)

lemma io_checkMerge: "(\<And>x. v = Some x \<Longrightarrow> io (rec x Ordinary)) \<Longrightarrow> io (checkMerge rec n v)"
  unfolding checkMerge_def by (intro io_intros io_plain io_check_opt)

lemma io_checkMove: "io (checkMove n v)"
  unfolding checkMove_def by (intro io_intros io_plain R_availability)

lemma checkExpr_kept: "io (checkExpr e ctx)"
proof (induction e ctx rule: checkExpr.induct)
  case (1 n kind src suffix ctx) show ?case by (simp add: io_ret)
next
  case (2 n name ctx) show ?case by (simp add: io_checkName)
next
  case (3 n op lhs rhs ctx) then show ?case by (simp only: checkExpr.simps) (intro io_checkBinary)
next
  case (4 n target val ctx) then show ?case by (simp only: checkExpr.simps) (intro io_checkAssign)
next
  case (5 n obj f ctx) then show ?case by (simp only: checkExpr.simps) (intro io_checkFieldAccess)
next
  case (6 n es ctx) then show ?case by (simp only: checkExpr.simps) (intro io_checkArrayLiteral)
next
  case (7 n obj index ctx) then show ?case by (simp only: checkExpr.simps) (intro io_checkIndex)
next
  case (8 n v name t i ctx) then show ?case by (simp only: checkExpr.simps) (intro io_checkBinding)
next
  case (9 n v ctx) show ?case by (simp add: io_checkMove)
next
  case (10 n t st fis ctx) then show ?case by (simp only: checkExpr.simps) (intro io_checkNew)
next
  case (11 n v ctx) then show ?case by (simp only: checkExpr.simps) (intro io_checkFreeze)
next
  case (12 n v ctx) then show ?case by (simp only: checkExpr.simps) (intro io_checkMerge)
next
  case (13 n c t e ctx) then show ?case by (simp only: checkExpr.simps) (intro io_checkIf)
next
  case (14 n c b ctx) then show ?case by (simp only: checkExpr.simps) (intro io_checkWhile)
next
  case (15 n k s name b ctx) then show ?case by (simp only: checkExpr.simps) (intro io_checkRegion)
next
  case (16 n v ctx) then show ?case by (simp only: checkExpr.simps) (intro io_checkReturn)
next
  case (17 b ctx) then show ?case by (simp only: checkExpr.simps) (intro io_check_block_opt)
next
  case (18 n callee args ctx) then show ?case by (simp only: checkExpr.simps) (intro io_checkCall)
qed

lemma checkBlock_kept: "io (checkBlock b)"
  unfolding checkBlock_def checkBlock_with_def by (intro R_block io_block_loop checkExpr_kept)

end

end
