(* ===== verification/Gura_Sema_Scopes.thy ===== *)
theory Gura_Sema_Scopes
  imports Gura_Sema_Frame
begin

section \<open>Scope discipline\<close>

text \<open>
  Checking an expression leaves every table, the region depths and the number of scopes as they were.
  In the enclosing scopes it keeps every binding with its type, its mutability and its view, and may
  only change availability; the innermost scope may gain bindings. In particular what a region body
  suspends is restored when the body ends.
\<close>

definition binding_frame :: "binding_state \<Rightarrow> binding_state \<Rightarrow> bool" where
  "binding_frame b b' \<longleftrightarrow>
     b' = b\<lparr>b_availability := b_availability b', b_bridgeReassigned := b_bridgeReassigned b'\<rparr>"

definition entry_frame :: "string \<times> binding_state \<Rightarrow> string \<times> binding_state \<Rightarrow> bool" where
  "entry_frame p p' \<longleftrightarrow> fst p = fst p' \<and> binding_frame (snd p) (snd p')"

definition scope_frame :: "scope \<Rightarrow> scope \<Rightarrow> bool" where
  "scope_frame = list_all2 entry_frame"

definition scope_grown :: "scope \<Rightarrow> scope \<Rightarrow> bool" where
  "scope_grown sc sc' \<longleftrightarrow> scope_frame sc (take (length sc) sc') \<and> length sc \<le> length sc'"

definition wf_scopes :: "scope list \<Rightarrow> bool" where
  "wf_scopes scs \<longleftrightarrow> scs \<noteq> [] \<and> (\<forall>sc \<in> set scs. distinct (um_keys sc))"

definition scopes_frame :: "scope list \<Rightarrow> scope list \<Rightarrow> bool" where
  "scopes_frame scs scs' \<longleftrightarrow>
     list_all2 scope_frame (butlast scs) (butlast scs') \<and> scope_grown (last scs) (last scs')"

definition extends_diags :: "sema \<Rightarrow> sema \<Rightarrow> bool" where
  "extends_diags s t \<longleftrightarrow> engine.extends (diags s) (diags t)"

definition tables :: "sema \<Rightarrow> sema" where
  "tables s = s\<lparr>diags := \<lparr>diagnostics = []\<rparr>, scopes := []\<rparr>"

definition sema_frame :: "sema \<Rightarrow> sema \<Rightarrow> bool" where
  "sema_frame s t \<longleftrightarrow>
     (wf_scopes (scopes s) \<longrightarrow>
        wf_scopes (scopes t) \<and> scopes_frame (scopes s) (scopes t) \<and> extends_diags s t \<and>
        tables t = tables s)"

lemma tables_update [simp]:
  "tables (s\<lparr>diags := d\<rparr>) = tables s" "tables (s\<lparr>scopes := scs\<rparr>) = tables s"
  "tables (s\<lparr>regionDepth := i\<rparr>) = (tables s)\<lparr>regionDepth := i\<rparr>"
  "tables (s\<lparr>mutableRegionDepth := i\<rparr>) = (tables s)\<lparr>mutableRegionDepth := i\<rparr>"
  by (simp_all add: tables_def)

lemma tables_sel [simp]:
  "structs (tables s) = structs s" "traits (tables s) = traits s" "all_functions (tables s) = all_functions s"
  "qualifiedFunctionKeys (tables s) = qualifiedFunctionKeys s"
  "simpleFunctionKeys (tables s) = simpleFunctionKeys s" "currentDecl (tables s) = currentDecl s"
  "currentGenericParams (tables s) = currentGenericParams s"
  "currentReturnType (tables s) = currentReturnType s"
  "regionDepth (tables s) = regionDepth s" "mutableRegionDepth (tables s) = mutableRegionDepth s"
  by (simp_all add: tables_def)

lemma binding_frame_refl [simp]: "binding_frame b b"
  by (simp add: binding_frame_def)

lemma binding_frame_trans: "binding_frame a b \<Longrightarrow> binding_frame b c \<Longrightarrow> binding_frame a c"
  unfolding binding_frame_def by (metis binding_state.update_convs(3,9) binding_state.surjective)

lemma scope_frame_refl [simp]: "scope_frame sc sc"
  by (auto simp: scope_frame_def entry_frame_def intro: list_all2_refl)

lemma scope_frame_trans: "scope_frame a b \<Longrightarrow> scope_frame b c \<Longrightarrow> scope_frame a c"
  unfolding scope_frame_def
  by (rule list_all2_trans [of entry_frame entry_frame entry_frame])
     (auto simp: entry_frame_def intro: binding_frame_trans)

lemma scope_frame_keys: "scope_frame a b \<Longrightarrow> um_keys b = um_keys a"
  unfolding scope_frame_def by (induction rule: list_all2_induct) (auto simp: entry_frame_def)

lemma scope_frame_modify:
  "(\<And>b. binding_frame b (f b)) \<Longrightarrow> scope_frame sc (um_modify name f sc)"
  by (induction sc) (auto simp: scope_frame_def entry_frame_def list_all2_refl)

lemma scope_grown_refl [simp]: "scope_grown sc sc"
  by (simp add: scope_grown_def)

lemma scope_frame_grown: "scope_frame a b \<Longrightarrow> scope_grown a b"
  unfolding scope_grown_def scope_frame_def by (frule list_all2_lengthD) simp

lemma scope_grown_trans:
  assumes "scope_grown a b" "scope_grown b c"
  shows "scope_grown a c"
proof -
  have "scope_frame (take (length a) b) (take (length a) (take (length b) c))"
    using assms unfolding scope_grown_def scope_frame_def by (intro list_all2_takeI) simp
  then show ?thesis
    using assms by (auto simp: scope_grown_def min_def intro: scope_frame_trans)
qed

lemma scope_grown_emplace: "scope_grown sc (um_emplace name b sc)"
  by (auto simp: um_emplace_def scope_grown_def)

lemma list_all2_update_right:
  "(\<And>x. P x x) \<Longrightarrow> P (xs ! i) y \<Longrightarrow> list_all2 P xs (xs[i := y])"
  by (cases "i < length xs") (auto simp: list_all2_conv_all_nth nth_list_update)

lemma scopes_frame_all:
  assumes "list_all2 scope_frame a b" shows "scopes_frame a b"
proof (cases "a = []")
  case False
  then obtain a0 x b0 y where "a = a0 @ [x]" "b = b0 @ [y]"
    using assms by (metis append_butlast_last_id list_all2_Nil2)
  moreover from this have "length a0 = length b0" using list_all2_lengthD [OF assms] by simp
  ultimately show ?thesis
    using assms by (auto simp: scopes_frame_def list_all2_append intro: scope_frame_grown)
qed (use assms in \<open>auto simp: scopes_frame_def\<close>)

lemma wf_scopes_frame_all: "list_all2 scope_frame a b \<Longrightarrow> wf_scopes a \<Longrightarrow> wf_scopes b"
  unfolding wf_scopes_def list_all2_conv_all_nth all_set_conv_all_nth by (metis scope_frame_keys length_0_conv)

lemma scopes_frame_trans: "scopes_frame a b \<Longrightarrow> scopes_frame b c \<Longrightarrow> scopes_frame a c"
  unfolding scopes_frame_def
  by (auto intro: scope_grown_trans list_all2_trans [of scope_frame scope_frame scope_frame, OF scope_frame_trans])

lemma extends_diags_error: "extends_diags s (s\<lparr>diags := DiagnosticEngine_error sp msg (diags s)\<rparr>)"
  by (simp add: extends_diags_def DiagnosticEngine_error_def engine.extends_report)

lemma extends_diags_refl: "extends_diags s s"
  by (simp add: extends_diags_def engine.extends_refl)

lemma extends_diags_trans: "extends_diags s t \<Longrightarrow> extends_diags t u \<Longrightarrow> extends_diags s u"
  by (auto simp: extends_diags_def intro: engine.extends_trans)

lemma sema_frame_scopes:
  assumes "wf_scopes (scopes s) \<Longrightarrow> wf_scopes scs \<and> scopes_frame (scopes s) scs"
  shows "sema_frame s (s\<lparr>scopes := scs\<rparr>)"
  using assms by (auto simp: sema_frame_def extends_diags_def engine.extends_refl)

lemma modify_frame:
  assumes "\<And>b. binding_frame b (f b)"
  shows "sema_frame s (s\<lparr>scopes := (scopes s)[i := um_modify name f (scopes s ! i)]\<rparr>)"
proof (rule sema_frame_scopes)
  assume wf: "wf_scopes (scopes s)"
  have "list_all2 scope_frame (scopes s) ((scopes s)[i := um_modify name f (scopes s ! i)])"
    by (rule list_all2_update_right) (auto intro: scope_frame_modify assms)
  then show "wf_scopes ((scopes s)[i := um_modify name f (scopes s ! i)]) \<and>
      scopes_frame (scopes s) ((scopes s)[i := um_modify name f (scopes s ! i)])"
    using wf by (simp add: scopes_frame_all wf_scopes_frame_all)
qed

interpretation frame: kept_relation sema_frame
proof
  show "sema_frame s t \<Longrightarrow> sema_frame t u \<Longrightarrow> sema_frame s u" for s t u
    unfolding sema_frame_def
    by (auto intro: scopes_frame_trans extends_diags_trans)
qed (auto simp: sema_frame_def scopes_frame_def list_all2_refl extends_diags_refl extends_diags_error)

lemma declare_frame: "sema_frame s (snd (run_state (declare_binding name b) s))"
proof -
  have "wf_scopes scs \<Longrightarrow> wf_scopes (map_last (um_emplace name b) scs) \<and>
      scopes_frame scs (map_last (um_emplace name b) scs)" for scs
    by (auto simp: wf_scopes_def map_last_def scopes_frame_def scope_grown_emplace list_all2_refl
          dest: in_set_butlastD)
  moreover have "\<not> wf_scopes []" by (simp add: wf_scopes_def)
  ultimately show ?thesis
    by (cases "scopes s = []")
       (auto simp: declare_binding_def report_def intro!: sema_frame_scopes frame.R_report, auto simp: sema_frame_def)
qed



subsection \<open>Suspending and restoring\<close>

abbreviation suspend_all :: "scope \<Rightarrow> scope" where
  "suspend_all \<equiv> map (\<lambda>p. (fst p, suspend_binding (snd p)))"

definition restore_entry :: "suspended_binding \<Rightarrow> scope \<Rightarrow> scope" where
  "restore_entry sb = um_modify (sb_name sb) (\<lambda>b. b\<lparr>b_type := sb_type sb, b_view := sb_view sb\<rparr>)"

lemma suspend_scope_snd: "snd (suspend_scope i sc) = suspend_all sc"
  by (induction i sc rule: suspend_scope.induct) (auto split: prod.splits)

lemma suspend_scope_fst:
  "sb \<in> set (fst (suspend_scope i sc)) \<Longrightarrow> sb_scopeIndex sb = i \<and> sb_name sb \<in> set (um_keys sc)"
  by (induction i sc rule: suspend_scope.induct) (auto split: prod.splits if_splits)

lemma suspend_scopes_snd: "snd (suspend_scopes i scs) = map suspend_all (butlast scs) @ (if scs = [] then [] else [last scs])"
  by (induction scs arbitrary: i rule: induct_list012) (auto simp: case_prod_beta suspend_scope_snd)

lemma um_modify_absent: "name \<notin> set (um_keys m) \<Longrightarrow> um_modify name f m = m"
  by (induction m) auto

lemma restore_one_eq: "restore_one sb scs = scs[sb_scopeIndex sb := restore_entry sb (scs ! sb_scopeIndex sb)]"
  by (cases "length scs \<le> sb_scopeIndex sb")
     (simp_all add: restore_one_def restore_entry_def um_contains_iff um_modify_absent list_update_beyond)

lemma restore_scope:
  assumes "\<forall>sb \<in> set sus. sb_scopeIndex sb = length P"
  shows "fold restore_one sus (P @ sc # S) = P @ fold restore_entry sus sc # S"
  using assms by (induction sus arbitrary: sc) (auto simp: restore_one_eq)

lemma restore_entry_head:
  "sb_name sb = name \<Longrightarrow>
   restore_entry sb ((name, b) # sc) = (name, b\<lparr>b_type := sb_type sb, b_view := sb_view sb\<rparr>) # sc"
  by (simp add: restore_entry_def)

lemma restore_entries_skip:
  "\<forall>sb \<in> set sus. sb_name sb \<noteq> name \<Longrightarrow>
   fold restore_entry sus ((name, b) # sc) = (name, b) # fold restore_entry sus sc"
  by (induction sus arbitrary: sc) (auto simp: restore_entry_def)

lemma suspend_restore_binding:
  assumes "binding_frame (suspend_binding b) b'"
  shows "binding_frame b (if suspends b then b'\<lparr>b_type := b_type b, b_view := b_view b\<rparr> else b')"
  using assms by (cases b; cases b') (auto simp: binding_frame_def suspend_binding_def)

lemma suspend_restore_scope:
  assumes "distinct (um_keys sc)" "scope_frame (suspend_all sc) tc"
  shows "scope_frame sc (fold restore_entry (rev (fst (suspend_scope i sc))) tc)"
  using assms
proof (induction sc arbitrary: tc)
  case Nil
  then show ?case by (simp add: scope_frame_def)
next
  case (Cons p sc)
  obtain name b where p: "p = (name, b)" by (cases p)
  from Cons.prems p obtain b' tc0 where tc: "tc = (name, b') # tc0"
    and b': "binding_frame (suspend_binding b) b'" and tc0: "scope_frame (suspend_all sc) tc0"
    by (auto simp: scope_frame_def entry_frame_def list_all2_Cons1)
  let ?sus = "rev (fst (suspend_scope i sc))"
  have IH: "scope_frame sc (fold restore_entry ?sus tc0)"
    using Cons.IH Cons.prems tc0 by simp
  have "\<forall>sb \<in> set ?sus. sb_name sb \<noteq> name"
    using suspend_scope_fst [of _ i sc] Cons.prems p by auto
  then have skip: "fold restore_entry ?sus ((name, b') # tc0) = (name, b') # fold restore_entry ?sus tc0"
    by (rule restore_entries_skip)
  show ?case
    using suspend_restore_binding [OF b'] IH skip
    by (cases "suspends b")
       (auto simp: p tc scope_frame_def entry_frame_def restore_entry_head case_prod_beta)
qed

lemma suspend_restore_scopes:
  assumes "\<forall>sc \<in> set scs. distinct (um_keys sc)" "length P = i" "scs \<noteq> []"
    "list_all2 scope_frame (map suspend_all (butlast scs)) T"
  shows "\<exists>T'. fold restore_one (rev (fst (suspend_scopes i scs))) (P @ T @ [l]) = P @ T' @ [l] \<and>
           list_all2 scope_frame (butlast scs) T'"
  using assms
proof (induction scs arbitrary: i P T rule: induct_list012)
  case (3 sc sc' scs)
  from "3.prems"(4) obtain tc T0 where T: "T = tc # T0" and tc: "scope_frame (suspend_all sc) tc"
    and T0: "list_all2 scope_frame (map suspend_all (butlast (sc' # scs))) T0"
    by (auto simp: list_all2_Cons1)
  let ?susA = "fst (suspend_scope i sc)" and ?susB = "fst (suspend_scopes (i + 1) (sc' # scs))"
  obtain T' where T': "fold restore_one (rev ?susB) ((P @ [tc]) @ T0 @ [l]) = (P @ [tc]) @ T' @ [l]"
    "list_all2 scope_frame (butlast (sc' # scs)) T'"
    using "3.IH"(2) [of "P @ [tc]" "i + 1" T0] "3.prems"(1,2) T0 by auto
  have "fold restore_one (rev ?susA) (P @ tc # T' @ [l]) = P @ fold restore_entry (rev ?susA) tc # T' @ [l]"
    using suspend_scope_fst [of _ i sc] "3.prems"(2) by (intro restore_scope) auto
  moreover have "scope_frame sc (fold restore_entry (rev ?susA) tc)"
    using suspend_restore_scope [OF _ tc] "3.prems"(1) by simp
  ultimately show ?case
    using T' by (intro exI [of _ "fold restore_entry (rev ?susA) tc # T'"]) (simp add: T case_prod_beta)
qed auto

lemma suspend_restore_region:
  assumes "wf_scopes S" "list_all2 scope_frame (map suspend_all S) T"
  shows "list_all2 scope_frame S
    (butlast (fold restore_one (rev (fst (suspend_scopes 0 (S @ [[]])))) (T @ [l])))"
  using suspend_restore_scopes [of "S @ [[]]" "[]" 0 T l] assms by (auto simp: wf_scopes_def)

lemma wf_scopes_push: "wf_scopes S \<Longrightarrow> wf_scopes (S @ [[]])"
  by (auto simp: wf_scopes_def)

lemma wf_scopes_suspend: "wf_scopes S \<Longrightarrow> wf_scopes (map suspend_all S @ [[]])"
  by (auto simp: wf_scopes_def comp_def)

lemma scopes_frame_push: "scopes_frame (S @ [x]) T \<Longrightarrow> list_all2 scope_frame S (butlast T)"
  by (simp add: scopes_frame_def)

definition block_opened :: "sema \<Rightarrow> sema" where
  "block_opened s = s\<lparr>scopes := scopes s @ [[]]\<rparr>"

definition block_closed :: "sema \<Rightarrow> sema" where
  "block_closed t = t\<lparr>scopes := butlast (scopes t)\<rparr>"

lemma run_block_scope:
  "run_state (block_scope m) s =
     (fst (run_state m (block_opened s)), block_closed (snd (run_state m (block_opened s))))"
  by (simp add: block_scope_def pushScope_def popScope_def block_opened_def block_closed_def split: prod.splits)

lemma block_frame_at: "sema_frame (block_opened s) t \<Longrightarrow> sema_frame s (block_closed t)"
  by (auto simp: sema_frame_def wf_scopes_push extends_diags_def block_opened_def block_closed_def
        dest!: scopes_frame_push intro: wf_scopes_frame_all scopes_frame_all)

definition region_opened :: "region_kind \<Rightarrow> sema \<Rightarrow> sema" where
  "region_opened kind s = s\<lparr>regionDepth := regionDepth s + 1,
     mutableRegionDepth := (if kind = Region_Enter then mutableRegionDepth s + 1 else mutableRegionDepth s),
     scopes := map suspend_all (scopes s) @ [[]]\<rparr>"

definition region_closed :: "region_kind \<Rightarrow> sema \<Rightarrow> sema \<Rightarrow> sema" where
  "region_closed kind s t = t\<lparr>
     scopes := butlast (fold restore_one (rev (fst (suspend_scopes 0 (scopes s @ [[]])))) (scopes t)),
     regionDepth := regionDepth t - 1,
     mutableRegionDepth := (if kind = Region_Enter then mutableRegionDepth t - 1 else mutableRegionDepth t)\<rparr>"

lemmas region_scope_defs = region_scope_def enter_depth_def leave_depth_def pushScope_def popScope_def
  suspendOuterRegionBindings_def restoreSuspendedBindings_def

lemma run_region_scope:
  "run_state (region_scope kind m) s =
     (fst (run_state m (region_opened kind s)), region_closed kind s (snd (run_state m (region_opened kind s))))"
  by (simp add: region_scope_defs case_prod_beta region_opened_def region_closed_def suspend_scopes_snd)

lemma region_frame_at:
  assumes fr: "sema_frame (region_opened kind s) t"
  shows "sema_frame s (region_closed kind s t)"
  unfolding sema_frame_def
proof
  assume wf: "wf_scopes (scopes s)"
  then have wf1: "wf_scopes (scopes (region_opened kind s))"
    by (simp add: region_opened_def wf_scopes_suspend)
  with fr have t: "wf_scopes (scopes t)" "scopes_frame (map suspend_all (scopes s) @ [[]]) (scopes t)"
    "extends_diags s t" "tables t = tables (region_opened kind s)"
    by (auto simp: sema_frame_def region_opened_def extends_diags_def)
  have "list_all2 scope_frame (scopes s) (scopes (region_closed kind s t))"
    using suspend_restore_region [OF wf scopes_frame_push [OF t(2)], of "last (scopes t)"] t(1)
    by (simp add: region_closed_def wf_scopes_def)
  moreover have "regionDepth t = regionDepth s + 1" "mutableRegionDepth t = mutableRegionDepth (region_opened kind s)"
    using arg_cong [OF t(4), of regionDepth] arg_cong [OF t(4), of mutableRegionDepth]
    by (simp_all add: region_opened_def)
  ultimately show "wf_scopes (scopes (region_closed kind s t)) \<and>
      scopes_frame (scopes s) (scopes (region_closed kind s t)) \<and>
      extends_diags s (region_closed kind s t) \<and> tables (region_closed kind s t) = tables s"
    using wf t(3,4)
    by (auto simp: wf_scopes_frame_all scopes_frame_all region_closed_def region_opened_def extends_diags_def)
qed

interpretation frame: kept_by_checker sema_frame
proof
  show "state_io_rel sema_frame (declare_binding name b)" for name b
    by (simp add: state_io_rel_def declare_frame)
  show "state_io_rel sema_frame (set_availability r a)" for r a
    by (auto simp: state_io_rel_def modify_binding_def binding_frame_def intro!: modify_frame)
  show "state_io_rel sema_frame (modify_binding r (\<lambda>b. b\<lparr>b_bridgeReassigned := True, b_availability := Available\<rparr>))" for r
    by (auto simp: state_io_rel_def modify_binding_def binding_frame_def intro!: modify_frame)
qed (auto simp: state_io_rel_def run_block_scope run_region_scope intro: block_frame_at region_frame_at)

end
