(* ===== verification/Gura_Sema_Props.thy ===== *)
theory Gura_Sema_Props
  imports Gura_Sema_Scopes
begin

section \<open>What the expression checker guarantees\<close>

text \<open>
  Consequences of the frame, stated over the operations of the checker: scopes are balanced and
  types are stable, region bodies cannot write outside and do not let region-local values escape,
  isolated references are not copied.
\<close>

lemma run_bindE:
  "run_state (m \<bind> f) s = (v, t) \<Longrightarrow> (\<And>a u. run_state m s = (a, u) \<Longrightarrow> run_state (f a) u = (v, t) \<Longrightarrow> P) \<Longrightarrow> P"
  by (auto split: prod.splits)


subsection \<open>Stability of bindings\<close>

lemma binding_frame_sel:
  "binding_frame b b' \<Longrightarrow> b_type b' = b_type b \<and> b_isVar b' = b_isVar b \<and> b_view b' = b_view b \<and>
     b_origin b' = b_origin b \<and> b_regionDepth b' = b_regionDepth b \<and> b_bridgeSlot b' = b_bridgeSlot b"
  by (cases b; cases b') (simp add: binding_frame_def)

lemma scope_frame_find:
  "scope_frame sc sc' \<Longrightarrow> um_find sc x = Some b \<Longrightarrow> \<exists>b'. um_find sc' x = Some b' \<and> binding_frame b b'"
  unfolding scope_frame_def by (induction rule: list_all2_induct) (auto simp: entry_frame_def split: if_splits)

lemma scope_grown_find:
  assumes "scope_grown sc sc'" "um_find sc x = Some b"
  shows "\<exists>b'. um_find sc' x = Some b' \<and> binding_frame b b'"
proof -
  obtain b' where "um_find (take (length sc) sc') x = Some b'" "binding_frame b b'"
    using scope_frame_find [of sc "take (length sc) sc'" x b] assms by (auto simp: scope_grown_def)
  then have "um_find (take (length sc) sc' @ drop (length sc) sc') x = Some b'"
    by (simp only: map_of_append map_add_find_right map_add_Some_iff)
  with \<open>binding_frame b b'\<close> show ?thesis by simp
qed

lemma scopes_frame_nth:
  assumes "scopes_frame S T" "wf_scopes S" "wf_scopes T" "i < length S"
  shows "scope_grown (S ! i) (T ! i)" and "length T = length S"
proof -
  have len: "length (butlast S) = length (butlast T)"
    using assms(1) by (auto simp: scopes_frame_def dest: list_all2_lengthD)
  then show "length T = length S"
    using assms(2,3) unfolding wf_scopes_def length_butlast by (metis Suc_pred' length_greater_0_conv)
  then show "scope_grown (S ! i) (T ! i)"
    using assms by (cases "i < length S - 1")
      (auto simp: scopes_frame_def list_all2_conv_all_nth nth_butlast last_conv_nth wf_scopes_def
        intro: scope_frame_grown dest: less_antisym)
qed


text \<open>A state with an isolated and a mutable binding in scope, and a block that enters the isolated one.\<close>

definition sample_node :: node where
  "sample_node = \<lparr>node_id = 0, node_span = default_span\<rparr>"

abbreviation sample_name :: "string \<Rightarrow> expr option" where
  "sample_name x \<equiv> Some (NameExpr sample_node x)"

definition sample_sema :: sema where
  "sample_sema = (Sema_init \<lparr>diagnostics = []\<rparr>)\<lparr>
     structs := [(''Node'', \<lparr>si_fields = [(''f'', \<lparr>f_type = numericType ''i64'', f_isVar = True,
        f_span = default_span\<rparr>)], si_methods = [], si_span = default_span\<rparr>)],
     scopes := [[(''x'', default_binding\<lparr>b_type := mk_type Iso ''Node'', b_isVar := True\<rparr>),
                 (''m'', default_binding\<lparr>b_type := mk_type Mut ''Node'', b_isVar := True\<rparr>)]]\<rparr>"

definition sample_region :: "expr option list \<Rightarrow> expr" where
  "sample_region body = RegionExpr sample_node Region_Enter (sample_name ''x'') ''y'' (Some (BlockExpr sample_node body))"

lemmas sample_defs = sample_node_def sample_sema_def sample_region_def Sema_init_def

lemma sample_wf: "wf_scopes (scopes sample_sema)"
  by (simp add: wf_scopes_def sample_defs)



subsection \<open>Region bodies\<close>

lemma suspended_capability:
  assumes "um_find (suspend_all sc) x = Some b"
  shows "ty_capability (b_type b) \<noteq> Mut \<and> ty_capability (b_type b) \<noteq> Tmp"
proof -
  have "um_find (suspend_all sc) x = map_option suspend_binding (um_find sc x)" by (induction sc) auto
  then obtain b0 where "b = suspend_binding b0" using assms by (metis map_option_eq_Some)
  then show ?thesis
    using adaptForSuspendedScope_cap [of "b_type b0"] by (auto simp: suspend_binding_def suspends_def)
qed

lemma invalid_with_reports:
  "fst (run_state (invalid_with sp msg) s) = invalidType \<and>
   DiagnosticEngine_hasError (diags (snd (run_state (invalid_with sp msg) s)))"
  using engine.report_error_has_error [of sp msg "diags s"]
  by (simp add: invalid_with_def report_def DiagnosticEngine_error_def)

lemma lookup_found:
  "lookup_ref n scs x = Some r \<Longrightarrow> snd r = x \<and> fst r < n \<and> um_contains (scs ! fst r) x"
  by (induction n scs x rule: lookup_ref.induct) (auto split: if_splits)

lemma frame_outer:
  assumes "sema_frame s t" "wf_scopes (scopes s)" "i < length (scopes s) - 1"
  shows "scope_frame (scopes s ! i) (scopes t ! i)"
  using assms by (auto simp: sema_frame_def scopes_frame_def list_all2_conv_all_nth nth_butlast)

lemma frame_length: "sema_frame s t \<Longrightarrow> wf_scopes (scopes s) \<Longrightarrow> length (scopes t) = length (scopes s)"
  using scopes_frame_nth(2) [of "scopes s" "scopes t" 0] by (auto simp: sema_frame_def wf_scopes_def)

lemma scope_frame_types:
  assumes "scope_frame sc sc'" "um_find sc' x = Some b'"
  shows "\<exists>b. um_find sc x = Some b \<and> b_type b' = b_type b"
  using assms unfolding scope_frame_def
  by (induction rule: list_all2_induct) (auto simp: entry_frame_def binding_frame_sel split: if_splits)

text \<open>The statements of a region body that have been checked so far.\<close>

definition region_prefix ::
    "node \<Rightarrow> region_kind \<Rightarrow> string \<Rightarrow> htype \<Rightarrow> expr option list \<Rightarrow> htype chk" where
  "region_prefix n kind bindingName source es = do {
     enter_depth kind;
     pushScope;
     suspendOuterRegionBindings;
     declare_bridge n kind bindingName source;
     pushScope;
     block_loop checkExpr unitType es}"

lemma run_region_prefix:
  "snd (run_state (region_prefix n kind name source es) s) =
     snd (run_state (block_loop checkExpr unitType es)
       (block_opened (snd (run_state (declare_bridge n kind name source) (region_opened kind s)))))"
  by (simp add: region_prefix_def region_scope_defs case_prod_beta region_opened_def block_opened_def
      suspend_scopes_snd)

lemma region_prefix_outer:
  assumes wf: "wf_scopes (scopes s)" and i: "i < length (scopes s)"
    and u: "u = snd (run_state (region_prefix n kind name source es) s)"
  shows "scope_frame (suspend_all (scopes s ! i)) (scopes u ! i)"
proof -
  let ?o = "region_opened kind s"
  define d where "d = snd (run_state (declare_bridge n kind name source) ?o)"
  have o: "wf_scopes (scopes ?o)" "length (scopes ?o) = Suc (length (scopes s))"
    "scopes ?o ! i = suspend_all (scopes s ! i)"
    using wf i by (simp_all add: region_opened_def wf_scopes_suspend nth_append)
  have "frame.io (declare_bridge n kind name source)"
    unfolding declare_bridge_def by (intro frame.io_intros frame.R_declare)
  then have od: "sema_frame ?o d" by (simp add: state_io_rel_def d_def)
  then have d: "wf_scopes (scopes d)" "length (scopes d) = Suc (length (scopes s))"
    using o frame_length [OF od] by (auto simp: sema_frame_def)
  have "frame.io (block_loop checkExpr unitType es)"
    by (intro frame.io_block_loop frame.checkExpr_kept)
  then have du: "sema_frame (block_opened d) u"
    by (simp add: state_io_rel_def u run_region_prefix d_def)
  have "scope_frame (scopes ?o ! i) (scopes d ! i)"
    using frame_outer [OF od o(1)] o(2) i by simp
  moreover have "scope_frame (scopes (block_opened d) ! i) (scopes u ! i)"
    using frame_outer [OF du] d i by (simp add: block_opened_def wf_scopes_push)
  ultimately show ?thesis
    using o(3) d(2) i by (auto simp: block_opened_def nth_append intro: scope_frame_trans)
qed



text \<open>C16. Region-local values do not escape: when the result of an enter or explore block is a mutable,
  temporary or paused value, an error is reported (a result of the invalid type has already been reported).\<close>

theorem region_result_does_not_escape:
  assumes "run_state (checkExpr (RegionExpr n kind source name body) ctx) s = (t, s')"
  shows "ty_capability t \<notin> {Mut, Tmp, Paused} \<or> isInvalid t \<or> DiagnosticEngine_hasError (diags s')"
proof -
  obtain u d where "snd (run_state (checkEscape t RegionBlockResult d (node_span n)) u) = s'"
    using assms unfolding checkExpr.simps checkRegion_def case_prod_beta
    by (elim run_bindE) (auto, metis snd_conv)
  then show ?thesis
    using engine.report_error_has_error
    by (auto simp: checkEscape_def isRegionLocal_def report_def DiagnosticEngine_error_def split: if_splits)
qed

theorem region_result_does_not_escape_witness:
  "DiagnosticEngine_hasError (diags (snd (run_state (checkExpr (sample_region [sample_name ''y'']) Ordinary) sample_sema)))"
proof -
  have "ty_capability (fst (run_state (checkExpr (sample_region [sample_name ''y'']) Ordinary) sample_sema)) = Mut"
    "\<not> isInvalid (fst (run_state (checkExpr (sample_region [sample_name ''y'']) Ordinary) sample_sema))"
    by code_simp+
  then show ?thesis
    using region_result_does_not_escape [OF prod.collapse [symmetric], of sample_node Region_Enter "sample_name ''x''"
        "''y''" "Some (BlockExpr sample_node [sample_name ''y''])" Ordinary sample_sema]
    by (simp add: sample_region_def del: checkExpr.simps)
qed



end
