(* ===== verification/Gura_Sema_Affine.thy ===== *)
theory Gura_Sema_Affine
  imports Gura_Sema_Props
begin

section \<open>Accounting for moves\<close>

text \<open>
  Towards the theorem that an expression that checks without a diagnostic contains at most one move of a
  binding, as long as it neither reassigns nor rebinds the name. The proof accounts for moves: a computation \<^emph>\<open>accounts for\<close>
  \<open>k\<close> moves of \<open>x\<close> when, without a diagnostic, it either leaves the availability of \<open>x\<close> alone
  (\<open>k = 0\<close>) or takes it from available to moved (\<open>k = 1\<close>); accounts add up along sequences.
\<close>

subsection \<open>Occurrences\<close>

definition opt_list :: "'a list option \<Rightarrow> 'a list" where
  "opt_list l = (case l of Some xs \<Rightarrow> xs | None \<Rightarrow> [])"

primrec subexprs :: "expr \<Rightarrow> expr list"
    and subexprs_block :: "block \<Rightarrow> expr list"
    and subexprs_init :: "field_init \<Rightarrow> expr list" where
  "subexprs (LiteralExpr n k t s) = [LiteralExpr n k t s]"
| "subexprs (NameExpr n name) = [NameExpr n name]"
| "subexprs (BinaryExpr n op l r) =
     BinaryExpr n op l r # opt_list (map_option subexprs l) @ opt_list (map_option subexprs r)"
| "subexprs (AssignExpr n t v) =
     AssignExpr n t v # opt_list (map_option subexprs t) @ opt_list (map_option subexprs v)"
| "subexprs (FieldAccessExpr n obj f) = FieldAccessExpr n obj f # opt_list (map_option subexprs obj)"
| "subexprs (ArrayLiteralExpr n es) = ArrayLiteralExpr n es # concat (map opt_list (map (map_option subexprs) es))"
| "subexprs (IndexExpr n obj i) =
     IndexExpr n obj i # opt_list (map_option subexprs obj) @ opt_list (map_option subexprs i)"
| "subexprs (BindingExpr n isVar name t i) = BindingExpr n isVar name t i # opt_list (map_option subexprs i)"
| "subexprs (MoveExpr n v) = MoveExpr n v # opt_list (map_option subexprs v)"
| "subexprs (NewExpr n t st fis) = NewExpr n t st fis # concat (map subexprs_init fis)"
| "subexprs (CallExpr n c as) =
     CallExpr n c as # opt_list (map_option subexprs c) @ concat (map opt_list (map (map_option subexprs) as))"
| "subexprs (FreezeExpr n v) = FreezeExpr n v # opt_list (map_option subexprs v)"
| "subexprs (MergeExpr n v) = MergeExpr n v # opt_list (map_option subexprs v)"
| "subexprs (IfExpr n c t e) =
     IfExpr n c t e # opt_list (map_option subexprs c) @ opt_list (map_option subexprs_block t) @
     opt_list (map_option subexprs e)"
| "subexprs (WhileExpr n c b) =
     WhileExpr n c b # opt_list (map_option subexprs c) @ opt_list (map_option subexprs_block b)"
| "subexprs (BlockE b) = BlockE b # subexprs_block b"
| "subexprs (RegionExpr n k s name b) =
     RegionExpr n k s name b # opt_list (map_option subexprs s) @ opt_list (map_option subexprs_block b)"
| "subexprs (ReturnExpr n v) = ReturnExpr n v # opt_list (map_option subexprs v)"
| "subexprs_block (BlockExpr n es) = concat (map opt_list (map (map_option subexprs) es))"
| "subexprs_init (FieldInit n name v) = opt_list (map_option subexprs v)"

fun is_move :: "string \<Rightarrow> expr \<Rightarrow> bool" where
  "is_move x (MoveExpr _ (Some (NameExpr _ y))) = (x = y)"
| "is_move x _ = False"

fun rebinds :: "string \<Rightarrow> expr \<Rightarrow> bool" where
  "rebinds x (AssignExpr _ (Some (NameExpr _ y)) _) = (x = y)"
| "rebinds x (BindingExpr _ _ y _ _) = (x = y)"
| "rebinds x (RegionExpr _ _ _ y _) = (x = y)"
| "rebinds x _ = False"

fun type_ref_name :: "type_ref \<Rightarrow> string" where
  "type_ref_name (TypeRef n cap name path optional isArray elementType) =
     (if isArray then ''array'' else if length path > 1 then joinPath path else name)"

fun names_type :: "expr \<Rightarrow> bool" where
  "names_type (NewExpr _ t _ fis) =
     (fis = [] \<or> (case t of Some tr \<Rightarrow> type_ref_name tr \<noteq> ''<invalid>'' | None \<Rightarrow> False))"
| "names_type _ = True"

definition plain_uses :: "string \<Rightarrow> expr list \<Rightarrow> bool" where
  "plain_uses x es = list_all (\<lambda>e. \<not> rebinds x e \<and> names_type e) es"

definition moves_in :: "string \<Rightarrow> expr list \<Rightarrow> nat" where
  "moves_in x es = length (filter (is_move x) es)"

abbreviation moves :: "string \<Rightarrow> expr \<Rightarrow> nat" where
  "moves x e \<equiv> moves_in x (subexprs e)"

lemma moves_in_simps [simp]:
  "moves_in x [] = 0" "moves_in x (e # es) = (if is_move x e then 1 else 0) + moves_in x es"
  "moves_in x (es @ fs) = moves_in x es + moves_in x fs"
  by (simp_all add: moves_in_def)

lemma plain_uses_simps [simp]:
  "plain_uses x []" "plain_uses x (e # es) \<longleftrightarrow> \<not> rebinds x e \<and> names_type e \<and> plain_uses x es"
  "plain_uses x (es @ fs) \<longleftrightarrow> plain_uses x es \<and> plain_uses x fs"
  by (auto simp: plain_uses_def)

abbreviation osub :: "expr option \<Rightarrow> expr list" where
  "osub e \<equiv> opt_list (map_option subexprs e)"

abbreviation lsub :: "expr option list \<Rightarrow> expr list" where
  "lsub es \<equiv> concat (map opt_list (map (map_option subexprs) es))"

lemma opt_list_simps [simp]: "opt_list None = []" "opt_list (Some xs) = xs"
  by (simp_all add: opt_list_def)

lemma lsub_plain: "plain_uses x (lsub es) \<Longrightarrow> Some e \<in> set es \<Longrightarrow> plain_uses x (subexprs e)"
  by (induction es) auto

lemma subexprs_block_eq: "subexprs_block b = lsub (blk_expressions b)"
  by (cases b) simp

lemma subexprs_init_eq: "subexprs_init fi = osub (fi_value fi)"
  by (cases fi) simp

lemma path_has_no_moves: "pathFromFieldAccess e \<noteq> [] \<Longrightarrow> moves x e = 0"
  by (induction e rule: pathFromFieldAccess.induct) (auto simp: Let_def split: option.splits if_splits)

lemma builtin_has_no_moves: "qualifiedCoreBuiltinName e = Some f \<Longrightarrow> moves x e = 0"
  by (induction e rule: qualifiedCoreBuiltinName.induct) (auto split: if_splits)


subsection \<open>Availability of a name\<close>

abbreviation ref_of :: "string \<Rightarrow> sema \<Rightarrow> binding_ref option" where
  "ref_of x s \<equiv> lookup_ref (length (scopes s)) (scopes s) x"

definition avail :: "string \<Rightarrow> sema \<Rightarrow> binding_availability option" where
  "avail x s = map_option (\<lambda>r. b_availability (deref r (scopes s))) (ref_of x s)"

definition accounts :: "string \<Rightarrow> nat \<Rightarrow> sema \<Rightarrow> sema \<Rightarrow> bool" where
  "accounts x k s t \<longleftrightarrow> ref_of x t = ref_of x s \<and>
     (k = 0 \<and> avail x t = avail x s \<or> k = 1 \<and> avail x s = Some Available \<and> avail x t = Some Moved)"

definition resolvable :: "sema \<Rightarrow> bool" where
  "resolvable s \<longleftrightarrow>
     (\<forall>p \<in> set (simpleFunctionKeys s). \<forall>k \<in> set (snd p). um_contains (all_functions s) k) \<and>
     (\<forall>p \<in> set (qualifiedFunctionKeys s). um_contains (all_functions s) (snd p))"

definition checkable :: "sema \<Rightarrow> bool" where
  "checkable s \<longleftrightarrow> wf_scopes (scopes s) \<and> resolvable s"

definition affine_at :: "string \<Rightarrow> nat \<Rightarrow> 'a chk \<Rightarrow> sema \<Rightarrow> bool" where
  "affine_at x k m s \<longleftrightarrow>
     sema_frame s (snd (run_state m s)) \<and>
     (diags (snd (run_state m s)) = diags s \<longrightarrow> accounts x k s (snd (run_state m s)))"

definition affine :: "string \<Rightarrow> nat \<Rightarrow> 'a chk \<Rightarrow> bool" where
  "affine x k m \<longleftrightarrow> (\<forall>s. checkable s \<longrightarrow> affine_at x k m s)"

lemma accounts_refl: "accounts x 0 s s"
  by (simp add: accounts_def)

lemma accounts_add: "accounts x j s t \<Longrightarrow> accounts x k t u \<Longrightarrow> accounts x (j + k) s u"
  by (auto simp: accounts_def)

lemma checkable_frame: "checkable s \<Longrightarrow> sema_frame s t \<Longrightarrow> checkable t"
proof -
  have "resolvable u \<longleftrightarrow> resolvable (tables u)" for u by (simp add: resolvable_def)
  then show "checkable s \<Longrightarrow> sema_frame s t \<Longrightarrow> checkable t"
    by (metis checkable_def sema_frame_def)
qed

lemma diagnostics_eq: "(d :: diagnostic_engine) = d' \<longleftrightarrow> diagnostics d = diagnostics d'"
  by (cases d; cases d') simp

lemma diags_antisym:
  assumes "extends_diags s t" "extends_diags t u" "diags u = diags s"
  shows "diags t = diags s"
proof -
  obtain a b where a: "diagnostics (diags t) = diagnostics (diags s) @ a"
    and b: "diagnostics (diags u) = diagnostics (diags t) @ b"
    using assms(1,2) unfolding extends_diags_def engine.extends_def by blast
  have "length (diagnostics (diags u)) = length (diagnostics (diags s))" by (simp add: assms(3))
  then have "a = []" unfolding b a by simp
  with a show ?thesis by (simp add: diagnostics_eq)
qed


subsection \<open>Rules\<close>

lemma affine_ret: "affine_at x 0 (ret v) s"
  by (simp add: affine_at_def accounts_refl frame.R_refl)

lemma affine_bind:
  assumes "checkable s" "affine_at x j m s"
    and "\<And>v t. run_state m s = (v, t) \<Longrightarrow> checkable t \<Longrightarrow> affine_at x k (f v) t"
  shows "affine_at x (j + k) (m \<bind> f) s"
proof -
  obtain v t where m: "run_state m s = (v, t)" by fastforce
  define u where "u = snd (run_state (f v) t)"
  have s: "sema_frame s t" "diags t = diags s \<Longrightarrow> accounts x j s t"
    using assms(2) m by (auto simp: affine_at_def)
  then have t: "checkable t" using assms(1) checkable_frame by blast
  then have u: "sema_frame t u" "diags u = diags t \<Longrightarrow> accounts x k t u"
    using assms(3) [OF m] by (auto simp: affine_at_def u_def)
  have "diags t = diags s" if "diags u = diags s"
    using that s(1) u(1) assms(1) t by (auto simp: sema_frame_def checkable_def intro: diags_antisym)
  then have "diags u = diags s \<Longrightarrow> accounts x (j + k) s u"
    using s(2) u(2) accounts_add by auto
  then show ?thesis
    using frame.R_trans [OF s(1) u(1)] m by (simp add: affine_at_def u_def)
qed

lemma affine_gets: "affine_at x k (f (g s)) s \<Longrightarrow> affine_at x k (gets g \<bind> f) s"
  by (simp add: affine_at_def)

lemma affine_report:
  assumes "checkable s" "frame.io (f ())"
  shows "affine_at x k (report sp msg \<bind> f) s"
proof -
  let ?s1 = "s\<lparr>diags := DiagnosticEngine_error sp msg (diags s)\<rparr>"
  define t where "t = snd (run_state (f ()) ?s1)"
  have 1: "sema_frame s ?s1" by (rule frame.R_report)
  have 2: "sema_frame ?s1 t" using assms(2) by (auto simp: state_io_rel_def t_def)
  have "wf_scopes (scopes ?s1)" using assms(1) by (simp add: checkable_def)
  then have "extends_diags s ?s1" "extends_diags ?s1 t"
    using 2 by (auto simp: sema_frame_def intro: extends_diags_error)
  then have "diags t \<noteq> diags s"
    using diags_antisym [of s ?s1 t] engine.report_changes [of Error sp msg "diags s"]
    by (auto simp: DiagnosticEngine_error_def)
  then show ?thesis
    using frame.R_trans [OF 1 2] by (simp add: affine_at_def report_def t_def)
qed

lemma affine_invalid_with: "checkable s \<Longrightarrow> affine_at x k (invalid_with sp msg) s"
  unfolding invalid_with_def by (rule affine_report) (auto intro: frame.io_ret)

definition quiet :: "sema \<Rightarrow> sema \<Rightarrow> bool" where
  "quiet s t \<longleftrightarrow> scopes t = scopes s \<and> tables t = tables s \<and> extends_diags s t"

interpretation quiet: kept_relation quiet
  by unfold_locales
     (auto simp: quiet_def extends_diags_refl extends_diags_error intro: extends_diags_trans)

lemma affine_quiet: "quiet.io m \<Longrightarrow> affine_at x 0 m s"
  by (auto simp: state_io_rel_def quiet_def affine_at_def sema_frame_def scopes_frame_def list_all2_refl
        accounts_def avail_def)


subsection \<open>The updates of the checker\<close>

lemma lookup_ref_cong:
  "(\<And>i. i < n \<Longrightarrow> um_contains (scs ! i) x = um_contains (scs' ! i) x) \<Longrightarrow>
   lookup_ref n scs x = lookup_ref n scs' x"
  by (induction n) auto

lemma lookup_ref_snoc: "lookup_ref (length scs) (scs @ [sc]) x = lookup_ref (length scs) scs x"
  by (rule lookup_ref_cong) (simp add: nth_append)

lemma um_contains_nth_update:
  "um_contains (scs[i := um_modify z f (scs ! i)] ! j) x = um_contains (scs ! j) x"
  by (cases "i < length scs"; cases "i = j") (simp_all add: um_contains_iff list_update_beyond)

lemma ref_of_modify [simp]:
  "lookup_ref n (scs[i := um_modify z f (scs ! i)]) x = lookup_ref n scs x"
  by (rule lookup_ref_cong) (simp add: um_contains_nth_update)

lemma deref_modify:
  assumes "i < length scs"
  shows "deref (j, x) (scs[i := um_modify z f (scs ! i)]) =
    (if i = j \<and> x = z \<and> um_contains (scs ! i) x then f (deref (j, x) scs) else deref (j, x) scs)"
  using assms by (cases "i = j") (auto simp: deref_def um_find_modify um_contains_find split: option.splits)

definition modified :: "binding_ref \<Rightarrow> (binding_state \<Rightarrow> binding_state) \<Rightarrow> sema \<Rightarrow> sema" where
  "modified r f s = s\<lparr>scopes := (scopes s)[fst r := um_modify (snd r) f (scopes s ! fst r)]\<rparr>"

lemma run_modify_binding [simp]: "run_state (modify_binding r f) s = ((), modified r f s)"
  by (simp add: modify_binding_def modified_def)

lemma ref_of_modified [simp]: "ref_of x (modified r f s) = ref_of x s"
  by (simp add: modified_def)

lemma avail_modified_other: "snd r \<noteq> x \<Longrightarrow> avail x (modified r f s) = avail x s"
proof (cases "fst r < length (scopes s)")
  case True
  assume "snd r \<noteq> x"
  then have "deref (j, x) (scopes (modified r f s)) = deref (j, x) (scopes s)" for j
    using True by (simp add: modified_def deref_modify)
  moreover have "ref_of x s = Some p \<Longrightarrow> p = (fst p, x)" for p
    using lookup_found by (metis prod.collapse)
  ultimately show ?thesis
    unfolding avail_def ref_of_modified by (intro option.map_cong0) (metis option.set_cases)
qed (simp add: modified_def list_update_beyond)

lemma avail_modified_self:
  assumes "ref_of x s = Some r"
  shows "avail x (modified r f s) = Some (b_availability (f (deref r (scopes s))))"
  using lookup_found [OF assms] assms
  by (cases r) (auto simp: avail_def modified_def deref_modify)

lemma modified_frame: "(\<And>b. binding_frame b (f b)) \<Longrightarrow> sema_frame s (modified r f s)"
  unfolding modified_def by (rule modify_frame)

lemma affine_modify_other:
  assumes "snd r \<noteq> x" "\<And>b. binding_frame b (f b)"
  shows "affine_at x 0 (modify_binding r f) s"
  using assms by (simp add: affine_at_def accounts_def avail_modified_other modified_frame)

lemma binding_frame_availability [simp]: "binding_frame b (b\<lparr>b_availability := a\<rparr>)"
  "binding_frame b (b\<lparr>b_bridgeReassigned := c, b_availability := a\<rparr>)"
  by (simp_all add: binding_frame_def)

text \<open>The availability that a name has in each of the first \<open>n\<close> scopes determines both.\<close>

definition same_view :: "string \<Rightarrow> nat \<Rightarrow> scope list \<Rightarrow> scope list \<Rightarrow> bool" where
  "same_view x n S T \<longleftrightarrow>
     (\<forall>i < n. map_option b_availability (um_find (T ! i) x) = map_option b_availability (um_find (S ! i) x))"

lemma same_view_ref:
  assumes "same_view x n S T"
  shows "lookup_ref n T x = lookup_ref n S x"
proof (rule lookup_ref_cong)
  fix i assume "i < n"
  then have "map_option b_availability (um_find (T ! i) x) = map_option b_availability (um_find (S ! i) x)"
    using assms by (simp add: same_view_def)
  then show "um_contains (T ! i) x = um_contains (S ! i) x"
    by (cases "um_find (T ! i) x"; cases "um_find (S ! i) x") (simp_all add: um_contains_def)
qed

lemma same_view_avail:
  assumes "same_view x n S T" "lookup_ref n S x = Some r"
  shows "b_availability (deref r T) = b_availability (deref r S)"
proof -
  have "map_option b_availability (um_find (T ! fst r) x) = map_option b_availability (um_find (S ! fst r) x)"
    and "snd r = x"
    using lookup_found [OF assms(2)] assms(1) by (auto simp: same_view_def)
  then show ?thesis
    by (auto simp: deref_def split: option.splits)
qed

lemma same_view_accounts:
  assumes "length (scopes t) = length (scopes s)" "same_view x (length (scopes s)) (scopes s) (scopes t)"
  shows "accounts x 0 s t"
  using same_view_ref [OF assms(2)] same_view_avail [OF assms(2)]
  by (cases "ref_of x s") (auto simp: accounts_def avail_def assms(1))

lemma same_view_declare:
  "name \<noteq> x \<Longrightarrow> S \<noteq> [] \<Longrightarrow> same_view x (length S) S (map_last (um_emplace name b) S)"
  by (cases S rule: rev_cases) (auto simp: same_view_def map_last_def nth_append um_find_emplace)

lemma affine_declare:
  assumes "checkable s" "name \<noteq> x"
  shows "affine_at x 0 (declare_binding name b) s"
proof -
  have "scopes s \<noteq> []" using assms(1) by (simp add: checkable_def wf_scopes_def)
  then have "accounts x 0 s (snd (run_state (declare_binding name b) s))"
    using assms(2) by (auto simp: declare_binding_def report_def map_last_def
        intro!: same_view_accounts same_view_declare [unfolded map_last_def]) (auto simp: same_view_def)
  then show ?thesis by (simp add: affine_at_def declare_frame)
qed

text \<open>A bracket that pushes a scope: what holds inside holds of the bracket, if the name's
  availability is the same in the state the inside starts from and in the one it is closed to.\<close>

lemma pushed_ref:
  assumes "lookup_ref (length T) T x = lookup_ref n S x" "length T = Suc n"
  shows "lookup_ref n (butlast T) x = lookup_ref n S x"
proof -
  have "lookup_ref n S x \<noteq> Some (n, x)"
    using lookup_found [of n S x] by auto
  then have "lookup_ref (Suc n) T x = lookup_ref n T x"
    using assms by (auto split: if_splits)
  moreover have "lookup_ref n (butlast T) x = lookup_ref n T x"
    using assms(2) by (intro lookup_ref_cong) (simp add: nth_butlast)
  ultimately show ?thesis using assms by simp
qed

lemma avail_alt: "avail x s = map_option (\<lambda>r. b_availability (deref r (scopes s))) (ref_of x s)"
  by (rule avail_def)

lemma deref_butlast: "fst r < length S - 1 \<Longrightarrow> deref r (butlast S) = deref r S"
  by (simp add: deref_def nth_butlast)

lemma accounts_bracket:
  assumes "length (scopes s1) = Suc (length (scopes s))"
    and "same_view x (length (scopes s)) (scopes s) (scopes s1)" "um_find (last (scopes s1)) x = None"
    and "accounts x k s1 t1" "length (scopes t1) = length (scopes s1)"
    and "same_view x (length (scopes s)) (scopes t1) (scopes t)" "length (scopes t) = length (scopes s)"
  shows "accounts x k s t"
proof -
  let ?n = "length (scopes s)"
  have "\<not> um_contains (scopes s1 ! ?n) x"
    using assms(1,3) by (cases "scopes s1" rule: rev_cases) (auto simp: um_contains_find nth_append)
  then have s1: "ref_of x s1 = ref_of x s"
    using same_view_ref [OF assms(2)] by (simp add: assms(1))
  then have t1: "ref_of x t1 = ref_of x s" using assms(4) by (simp add: accounts_def)
  then have t1': "lookup_ref ?n (scopes t1) x = ref_of x s"
    using pushed_ref [of "scopes t1" x ?n "scopes s"] assms(1,5) lookup_ref_cong [of ?n "butlast (scopes t1)" x "scopes t1"]
    by (simp add: nth_butlast)
  then have t: "ref_of x t = ref_of x s"
    using same_view_ref [OF assms(6)] assms(7) by simp
  have "avail x s1 = avail x s"
    using s1 same_view_avail [OF assms(2)] by (cases "ref_of x s") (auto simp: avail_def)
  moreover have "avail x t1 = avail x t"
    using t t1 t1' same_view_avail [OF assms(6)] by (cases "ref_of x s") (auto simp: avail_def)
  ultimately show ?thesis
    using assms(4) t by (simp add: accounts_def)
qed

lemma affine_frame: "affine x k m \<Longrightarrow> checkable s \<Longrightarrow> sema_frame s (snd (run_state m s))"
  by (simp add: affine_def affine_at_def)

lemma checkable_opened: "checkable s \<Longrightarrow> checkable (block_opened s) \<and> checkable (region_opened kind s)"
  by (simp add: checkable_def block_opened_def region_opened_def wf_scopes_push wf_scopes_suspend resolvable_def)

lemma affine_block:
  assumes "affine x k m" "checkable s"
  shows "affine_at x k (block_scope m) s"
proof -
  let ?s1 = "block_opened s"
  define t1 where "t1 = snd (run_state m ?s1)"
  have s1: "checkable ?s1" using checkable_opened assms(2) by blast
  then have at: "diags t1 = diags s \<Longrightarrow> accounts x k ?s1 t1" and fr: "sema_frame ?s1 t1"
    using assms(1) by (auto simp: affine_def affine_at_def t1_def block_opened_def)
  have len: "length (scopes t1) = Suc (length (scopes s))"
    using frame_length [OF fr] s1 by (simp add: checkable_def block_opened_def)
  have "accounts x k s (block_closed t1)" if "accounts x k ?s1 t1"
    by (rule accounts_bracket [OF _ _ _ that])
       (use len in \<open>auto simp: same_view_def nth_append nth_butlast block_opened_def block_closed_def\<close>)
  with at block_frame_at [OF fr] show ?thesis
    unfolding affine_at_def run_block_scope t1_def [symmetric] by (simp add: block_closed_def)
qed

lemma find_suspend_all: "um_find (suspend_all sc) x = map_option suspend_binding (um_find sc x)"
  by (induction sc) auto

lemma suspend_keeps_availability: "b_availability (suspend_binding b) = b_availability b"
  by (simp add: suspend_binding_def)

lemma same_view_refl: "same_view x n S S"
  by (simp add: same_view_def)

lemma same_view_trans: "same_view x n S T \<Longrightarrow> same_view x n T U \<Longrightarrow> same_view x n S U"
  by (simp add: same_view_def)

lemma same_view_restore: "same_view x n S (fold restore_one sus S)"
proof (induction sus arbitrary: S)
  case (Cons sb sus)
  have "same_view x n S (restore_one sb S)"
    by (cases "sb_scopeIndex sb < length S")
       (auto simp: same_view_def restore_one_eq restore_entry_def nth_list_update um_find_modify
          option.map_comp comp_def list_update_beyond)
  then show ?case
    using Cons same_view_trans by (simp add: comp_def)
qed (simp add: same_view_refl)

lemma length_restore: "length (fold restore_one sus S) = length S"
  by (induction sus arbitrary: S) (auto simp: restore_one_eq)

lemma affine_region:
  assumes "affine x k m" "checkable s"
  shows "affine_at x k (region_scope kind m) s"
proof -
  let ?s1 = "region_opened kind s"
  define t1 where "t1 = snd (run_state m ?s1)"
  have s1: "checkable ?s1" using checkable_opened assms(2) by blast
  then have at: "diags t1 = diags s \<Longrightarrow> accounts x k ?s1 t1" and fr: "sema_frame ?s1 t1"
    using assms(1) by (auto simp: affine_def affine_at_def t1_def region_opened_def)
  have len: "length (scopes t1) = Suc (length (scopes s))"
    using frame_length [OF fr] s1 by (simp add: checkable_def region_opened_def)
  have view: "same_view x (length (scopes s)) (scopes t1) (scopes (region_closed kind s t1))"
    using same_view_restore [of x "length (scopes s)" "scopes t1"] len
    by (auto simp: same_view_def region_closed_def nth_butlast length_restore)
  have "accounts x k s (region_closed kind s t1)" if "accounts x k ?s1 t1"
    by (rule accounts_bracket [OF _ _ _ that _ view])
       (use len in \<open>auto simp: same_view_def nth_append region_opened_def region_closed_def length_restore
          find_suspend_all option.map_comp comp_def suspend_keeps_availability\<close>)
  with at region_frame_at [OF fr] show ?thesis
    unfolding affine_at_def run_region_scope t1_def [symmetric] by (simp add: region_closed_def)
qed

end
