(* ===== verification/Gura_Sema_Moves.thy ===== *)
theory Gura_Sema_Moves
  imports Gura_Sema_Affine
begin

section \<open>Every expression accounts for its moves\<close>

text \<open>
  The rules of \<^verbatim>\<open>Gura_Sema_Affine\<close> composed over the methods of the expression checker, and the theorem
  that a binding is moved at most once.
\<close>

subsection \<open>Composing accounts\<close>

lemma af_quiet: "quiet.io m \<Longrightarrow> affine x 0 m"
  by (simp add: affine_def affine_quiet)

lemma af_bind: "affine x j m \<Longrightarrow> (\<And>v. affine x k (f v)) \<Longrightarrow> n = j + k \<Longrightarrow> affine x n (m \<bind> f)"
  unfolding affine_def by (auto intro: affine_bind)

lemma af_then: "affine x k m \<Longrightarrow> (\<And>v. quiet.io (f v)) \<Longrightarrow> affine x k (m \<bind> f)"
  by (rule af_bind [where k = 0]) (auto intro: af_quiet)

lemma af_then_eq: "affine x k m \<Longrightarrow> (\<And>v. quiet.io (f v)) \<Longrightarrow> n = k \<Longrightarrow> affine x n (m \<bind> f)"
  using af_then by blast

lemma af_after: "quiet.io m \<Longrightarrow> (\<And>v. affine x k (f v)) \<Longrightarrow> affine x k (m \<bind> f)"
  by (rule af_bind [where j = 0]) (auto intro: af_quiet)

lemma af_report: "frame.io (f ()) \<Longrightarrow> affine x k (report sp msg \<bind> f)"
  by (simp add: affine_def affine_report)

lemma af_invalid: "affine x k (invalid_with sp msg)"
  by (simp add: affine_def affine_invalid_with)

lemma af_if: "(c \<Longrightarrow> affine x k m) \<Longrightarrow> (\<not> c \<Longrightarrow> affine x k m') \<Longrightarrow> affine x k (if c then m else m')"
  by simp

lemma af_option:
  "(a = None \<Longrightarrow> affine x k m) \<Longrightarrow> (\<And>y. a = Some y \<Longrightarrow> affine x k (f y)) \<Longrightarrow>
   affine x k (case a of None \<Rightarrow> m | Some y \<Rightarrow> f y)"
  by (cases a) auto

lemma af_for_each:
  "(\<And>y. y \<in> set ys \<Longrightarrow> affine x (g y) (f y)) \<Longrightarrow> affine x (sum_list (map g ys)) (for_each ys f)"
  by (induction ys) (auto intro!: af_bind [OF _ _ refl] intro: af_quiet quiet.io_ret)

definition good :: "string \<Rightarrow> expr \<Rightarrow> bool" where
  "good x e \<longleftrightarrow> (\<forall>c. affine x (moves x e) (checkExpr e c))"

lemmas quiet_intros = quiet.io_intros quiet.io_plain

lemma moves_lsub: "moves_in x (lsub es) = sum_list (map (\<lambda>e. moves_in x (osub e)) es)"
  by (induction es) auto

lemma af_opt: "(\<And>y. e = Some y \<Longrightarrow> good x y) \<Longrightarrow> affine x (moves_in x (osub e)) (check_opt checkExpr e c d)"
  by (cases e) (auto simp: check_opt_def good_def intro: af_quiet quiet.io_ret)

lemma af_args: "(\<And>y. Some y \<in> set as \<Longrightarrow> good x y) \<Longrightarrow> affine x (moves_in x (lsub as)) (check_args checkExpr as)"
  unfolding check_args_def moves_lsub
  by (rule af_for_each) (auto split: option.splits simp: good_def intro!: af_quiet quiet.io_ret af_then)

lemma af_match_args:
  "(\<And>y. Some y \<in> set as \<Longrightarrow> good x y) \<Longrightarrow> affine x (moves_in x (lsub as)) (match_args checkExpr i as ps)"
proof (induction as arbitrary: i ps)
  case Nil
  show ?case by (simp add: af_quiet quiet.io_ret)
next
  case (Cons a as)
  then have rest: "affine x (moves_in x (lsub as)) (match_args checkExpr i as ps)" for i ps by simp
  show ?case
  proof (cases ps)
    case Nil
    then show ?thesis
      using af_then [OF af_args [of "a # as" x], of "\<lambda>_. ret True"] Cons.prems by (simp add: quiet.io_ret)
  next
    case (Cons p ps')
    show ?thesis
    proof (cases a)
      case None
      then show ?thesis using rest Cons by simp
    next
      case (Some e)
      then have e: "affine x (moves x e) (checkExpr e Ordinary)" using Cons.prems by (simp add: good_def)
      show ?thesis
        unfolding Some \<open>ps = p # ps'\<close> match_args.simps
        by (rule af_bind [OF e, where k = "moves_in x (lsub as)"],
            intro af_after [OF quiet.io_report_if] af_then [OF rest] quiet.io_ret) simp
    qed
  qed
qed

lemma af_block_loop:
  "(\<And>y. Some y \<in> set es \<Longrightarrow> good x y) \<Longrightarrow> affine x (moves_in x (lsub es)) (block_loop checkExpr t es)"
proof (induction es arbitrary: t)
  case Nil
  show ?case by (simp add: af_quiet quiet.io_ret)
next
  case (Cons a es)
  then show ?case
    by (cases a) (auto simp: good_def intro!: af_bind [OF _ _ refl])
qed

lemma af_block: "affine x k m \<Longrightarrow> affine x k (block_scope m)"
  by (subst affine_def) (simp add: affine_block)

lemma af_region: "affine x k m \<Longrightarrow> affine x k (region_scope kind m)"
  by (subst affine_def) (simp add: affine_region)

lemma af_block_opt:
  assumes "\<And>y b'. b = Some b' \<Longrightarrow> Some y \<in> set (blk_expressions b') \<Longrightarrow> good x y"
  shows "affine x (moves_in x (opt_list (map_option subexprs_block b))) (check_block_opt checkExpr b)"
proof (cases b)
  case (Some b')
  then show ?thesis
    using af_block [OF af_block_loop [of "blk_expressions b'" x unitType]] assms
    by (simp add: check_block_opt_def checkBlock_with_def subexprs_block_eq)
qed (simp add: check_block_opt_def af_quiet quiet.io_ret)


subsection \<open>The methods of the checker\<close>

lemma af_binary:
  assumes "\<And>y. l = Some y \<or> r = Some y \<Longrightarrow> good x y"
  shows "affine x (moves x (BinaryExpr n op l r)) (checkBinary checkExpr n op l r)"
  unfolding checkBinary_def
  by (rule af_bind [OF af_opt af_then [OF af_opt]]) (use assms in \<open>auto intro!: quiet_intros\<close>)

lemma af_index_parts:
  assumes "\<And>y. obj = Some y \<or> i = Some y \<Longrightarrow> good x y"
  shows "affine x (moves_in x (osub obj) + moves_in x (osub i)) (check_index_parts checkExpr n obj i)"
  unfolding check_index_parts_def
  by (rule af_bind [OF af_opt af_then [OF af_opt]]) (use assms in \<open>auto intro!: quiet_intros\<close>)

lemma af_index:
  assumes "\<And>y. obj = Some y \<or> i = Some y \<Longrightarrow> good x y"
  shows "affine x (moves x (IndexExpr n obj i)) (checkIndex checkExpr n obj i)"
  unfolding checkIndex_def
  by (rule af_then_eq [OF af_index_parts]) (use assms in \<open>auto intro!: quiet_intros\<close>)

lemma af_array:
  assumes "\<And>y. Some y \<in> set es \<Longrightarrow> good x y"
  shows "affine x (moves x (ArrayLiteralExpr n es)) (checkArrayLiteral checkExpr n es)"
proof (cases es)
  case Nil
  then show ?thesis by (simp add: checkArrayLiteral_def af_invalid)
next
  case (Cons e es')
  have e: "affine x (moves_in x (osub e)) (check_opt checkExpr e Ordinary invalidType)"
    using assms Cons by (intro af_opt) simp
  have es': "affine x (moves_in x (lsub es'))
      (for_each es' (\<lambda>y. do {
         current \<leftarrow> check_opt checkExpr y Ordinary invalidType;
         report_if (\<not> sameType t current) (opt_span y (node_span n)) ''array elements must have matching type''}))" for t
    unfolding moves_lsub using assms Cons by (intro af_for_each af_then af_opt quiet.io_report_if) simp
  show ?thesis
    unfolding Cons checkArrayLiteral_def list.case
    by (rule af_bind [OF e af_after [OF quiet.io_report_if af_then [OF es' quiet.io_ret]]]) simp
qed

lemma af_field_access:
  assumes "\<And>y. obj = Some y \<Longrightarrow> good x y"
  shows "affine x (moves x (FieldAccessExpr n obj f)) (checkFieldAccess checkExpr n obj f)"
  unfolding checkFieldAccess_def
  by (rule af_then_eq [OF af_opt]; (intro quiet_intros)?; simp add: assms)

lemma af_return:
  assumes "\<And>y. v = Some y \<Longrightarrow> good x y"
  shows "affine x (moves x (ReturnExpr n v)) (checkReturn checkExpr n v)"
  unfolding checkReturn_def
  by (rule af_then_eq [OF af_opt]; (intro quiet_intros)?; simp add: assms)

lemma af_condition:
  assumes "\<And>y. c = Some y \<Longrightarrow> good x y"
  shows "affine x (moves_in x (osub c)) (check_condition checkExpr n c msg)"
  unfolding check_condition_def
  by (rule af_then_eq [OF af_opt]; (intro quiet_intros)?; simp add: assms)

lemma af_declare: "name \<noteq> x \<Longrightarrow> affine x 0 (declare_binding name b)"
  by (simp add: affine_def affine_declare)

lemma af_modify_other:
  "snd r \<noteq> x \<Longrightarrow> (\<And>b. binding_frame b (f b)) \<Longrightarrow> affine x 0 (modify_binding r f)"
  by (simp add: affine_def affine_modify_other)

lemma af_binding:
  assumes "name \<noteq> x" "\<And>y. i = Some y \<Longrightarrow> good x y"
  shows "affine x (moves x (BindingExpr n v name t i)) (checkBinding checkExpr n v name t i)"
  unfolding checkBinding_def Let_def
  by (rule af_bind [OF af_opt, where k = 0], use assms(2) in blast,
      (rule af_after, intro quiet_intros)+, rule af_then [OF af_declare [OF assms(1)]], rule quiet.io_ret) simp

lemma af_if_expr:
  assumes "\<And>y. c = Some y \<or> e = Some y \<Longrightarrow> good x y"
    and "\<And>y b. t = Some b \<Longrightarrow> Some y \<in> set (blk_expressions b) \<Longrightarrow> good x y"
  shows "affine x (moves x (IfExpr n c t e)) (checkIf checkExpr n c t e)"
proof -
  have "affine x (moves_in x (osub e))
      (case e of None \<Rightarrow> ret unitType
       | Some e \<Rightarrow> do {
           elseType \<leftarrow> checkExpr e Ordinary;
           if \<not> sameType tt elseType
           then invalid_with (node_span n) (''if branch type '' @ q (ty_name tt) @
                  '' does not match else branch type '' @ q (ty_name elseType))
           else ret tt})" for tt
    using assms(1) by (cases e) (auto simp: good_def intro!: af_quiet af_then quiet_intros)
  from af_bind [OF af_condition af_bind [OF af_block_opt this refl]] assms show ?thesis
    unfolding checkIf_def by simp
qed

lemma af_while:
  assumes "\<And>y. c = Some y \<Longrightarrow> good x y"
    and "\<And>y b'. b = Some b' \<Longrightarrow> Some y \<in> set (blk_expressions b') \<Longrightarrow> good x y"
  shows "affine x (moves x (WhileExpr n c b)) (checkWhile checkExpr n c b)"
  unfolding checkWhile_def
  by (rule af_bind [OF af_condition af_then [OF af_block_opt quiet.io_ret]]) (use assms in auto)

lemma af_freeze:
  assumes "\<And>y. v = Some y \<Longrightarrow> good x y"
  shows "affine x (moves x (FreezeExpr n v)) (checkFreeze checkExpr n v)"
  unfolding checkFreeze_def
  by (intro af_if af_invalid; rule af_then_eq [OF af_opt]; (intro quiet_intros)?; simp add: assms)

lemma af_merge:
  assumes "\<And>y. v = Some y \<Longrightarrow> good x y"
  shows "affine x (moves x (MergeExpr n v)) (checkMerge checkExpr n v)"
  unfolding checkMerge_def
  by (intro af_if af_invalid af_after [OF quiet.io_gets] af_after [OF quiet.io_report_if];
      rule af_then_eq [OF af_opt]; (intro quiet_intros)?; simp add: assms)

lemma af_check_init:
  assumes "\<And>y. fi_value fi = Some y \<Longrightarrow> good x y"
  shows "affine x (moves_in x (subexprs_init fi)) (check_init checkExpr res f fi)"
  unfolding check_init_def subexprs_init_eq
  by (rule af_then [OF af_opt]; (intro quiet_intros)?; simp add: assms)

lemma af_init_loop:
  "(\<And>fi y. fi \<in> set fis \<Longrightarrow> fi_value fi = Some y \<Longrightarrow> good x y) \<Longrightarrow>
   affine x (moves_in x (concat (map subexprs_init fis))) (init_loop checkExpr res fs ini fis)"
proof (induction fis arbitrary: ini)
  case Nil
  show ?case by (simp add: af_quiet quiet.io_ret)
next
  case (Cons fi fis)
  have first: "affine x (moves_in x (subexprs_init fi))
      (case um_find fs (fi_name fi) of
         None \<Rightarrow> do {
           report (node_span (fi_node fi)) (''type '' @ q (ty_name res) @ '' has no field '' @ q (fi_name fi));
           check_opt checkExpr (fi_value fi) Ordinary unitType;
           ret ()}
       | Some field \<Rightarrow> check_init checkExpr res field fi)"
    using Cons.prems
    by (auto split: option.splits intro!: af_report af_check_init frame.io_intros frame.io_check_opt frame.checkExpr_kept)
  have rest: "affine x (moves_in x (concat (map subexprs_init fis))) (init_loop checkExpr res fs ini fis)" for ini
    using Cons.prems by (intro Cons.IH) auto
  have "frame.io (init_loop checkExpr res fs ini fis)"
    by (intro frame.io_init_loop frame.checkExpr_kept)
  then show ?case
    unfolding init_loop.simps by (intro af_if af_report af_bind [OF first rest]) simp_all
qed

lemma typeFromAst_name: "ty_name (fst (run_state (typeFromAst t) s)) = type_ref_name t"
  by (cases t) (simp add: arrayType_def case_prod_beta Let_def)

lemma af_new_fields:
  assumes "\<And>fi y. fi \<in> set fis \<Longrightarrow> fi_value fi = Some y \<Longrightarrow> good x y"
  shows "affine x (moves_in x (concat (map subexprs_init fis))) (new_fields checkExpr n t result fis)"
  unfolding new_fields_def
  by (intro af_after [OF quiet.io_gets] af_option af_invalid, rule af_then_eq [OF af_init_loop];
      (intro quiet_intros)?; simp add: assms)

lemma af_new:
  assumes "names_type (NewExpr n t st fis)" "\<And>fi y. fi \<in> set fis \<Longrightarrow> fi_value fi = Some y \<Longrightarrow> good x y"
  shows "affine x (moves x (NewExpr n t st fis)) (checkNew checkExpr n t st fis)"
proof (cases "fis = []")
  case True
  then show ?thesis
    unfolding checkNew_def by (simp only: subexprs.simps, simp) (intro af_quiet quiet_intros)
next
  case False
  let ?k = "moves_in x (concat (map subexprs_init fis))"
  from False assms(1) obtain tr where tr: "t = Some tr" "type_ref_name tr \<noteq> ''<invalid>''"
    by (auto split: option.splits)
  have fields: "affine x ?k (new_fields checkExpr n t r fis)" for r
    using assms(2) by (rule af_new_fields)
  have "affine_at x (0 + ?k) (checkNew checkExpr n t st fis) s" if s: "checkable s" for s
    unfolding checkNew_def
  proof (rule affine_bind [OF s])
    show "affine_at x 0 (typeFromAst_or t invalidType) s" by (intro affine_quiet quiet_intros)
    fix result s'
    assume "run_state (typeFromAst_or t invalidType) s = (result, s')" "checkable s'"
    moreover from this have "\<not> isInvalid result"
      using typeFromAst_name [of tr s] tr by (simp add: typeFromAst_or_def isInvalid_def)
    ultimately show "affine_at x ?k (do {
        check_strategy n st result;
        if isInvalid result \<or> fis = [] then ret result else new_fields checkExpr n t result fis}) s'"
      using af_after [OF quiet.io_check_strategy [of n st result] fields [of result]] False by (simp add: affine_def)
  qed
  then show ?thesis by (simp add: affine_def)
qed

lemma af_move: "affine x (moves x (MoveExpr n v)) (checkMove n v)"
proof (cases "asNameExpr v")
  case None
  then show ?thesis by (simp add: checkMove_def af_invalid del: subexprs.simps)
next
  case (Some p)
  then obtain nn y where v: "v = Some (NameExpr nn y)"
    by (cases v rule: asNameExpr.cases) auto
  have "affine_at x (if x = y then 1 else 0) (checkMove n v) s" if s: "checkable s" for s
  proof (cases "ref_of y s")
    case None
    with v s show ?thesis by (simp add: checkMove_def lookup_def affine_gets affine_invalid_with)
  next
    case (Some r)
    have r: "snd r = y" using lookup_found [OF Some] by simp
    let ?b = "deref r (scopes s)"
    have run: "run_state (checkMove n v) s = (b_type ?b, modified r (\<lambda>b. b\<lparr>b_availability := Moved\<rparr>) s)"
      if "b_availability ?b = Available"
      using that v Some by (simp add: checkMove_def lookup_def binding_def)
    have other: "affine_at x k (checkMove n v) s" if "b_availability ?b \<noteq> Available" for k
      using that v Some s by (cases "b_availability ?b")
        (auto simp: checkMove_def lookup_def binding_def intro!: affine_gets affine_invalid_with)
    show ?thesis
    proof (cases "b_availability ?b = Available")
      case True
      have "avail x s = Some Available" if "x = y" using that Some True by (simp add: avail_def)
      with r Some show ?thesis
        by (auto simp: affine_at_def run [OF True] accounts_def avail_modified_self avail_modified_other
            intro!: modified_frame)
    qed (rule other)
  qed
  then show ?thesis using v by (simp add: affine_def)
qed

lemma af_assign_binding:
  assumes "name \<noteq> x" shows "affine x 0 (assign_binding n nn name v sp)"
proof -
  have bridge: "affine x 0 (assign_bridge n name r v sp)" if "snd r \<noteq> x" for r
    unfolding assign_bridge_def binding_def
    by (intro af_after [OF quiet.io_gets] af_if af_invalid af_then [OF af_modify_other] quiet.io_ret that) simp
  have "affine_at x 0 (assign_binding n nn name v sp) s" if s: "checkable s" for s
  proof (cases "ref_of name s")
    case None
    with s show ?thesis by (simp add: assign_binding_def lookup_def affine_gets affine_invalid_with)
  next
    case (Some r)
    have r: "snd r \<noteq> x" using lookup_found [OF Some] assms by simp
    have "affine x 0 (do {
        b \<leftarrow> binding r;
        if \<not> b_isVar b then invalid_with (node_span n) (''cannot assign to let binding '' @ q name)
        else if b_bridgeSlot b then assign_bridge n name r v sp
        else do {
          ok \<leftarrow> checkEscape v OuterBinding (b_regionDepth b) sp;
          if \<not> ok then ret invalidType
          else if \<not> sameType (b_type b) v
          then invalid_with sp (''assignment type '' @ q (ty_name v) @
                 '' does not match binding type '' @ q (ty_name (b_type b)))
          else do {set_availability r Available; ret unitType}}})"
      unfolding binding_def
      by (intro af_after [OF quiet.io_gets] af_if af_invalid bridge af_after [OF quiet.io_checkEscape]
            af_quiet [OF quiet.io_ret] af_then [OF af_modify_other] quiet.io_ret r) simp
    with s Some show ?thesis
      unfolding assign_binding_def lookup_def by (intro affine_gets) (simp add: affine_def)
  qed
  then show ?thesis by (simp add: affine_def)
qed

lemma af_assign:
  assumes "\<not> rebinds x (AssignExpr n target val)" "\<And>y. val = Some y \<Longrightarrow> good x y"
    and "\<And>y tn f. target = Some (FieldAccessExpr tn (Some y) f) \<Longrightarrow> good x y"
    and "\<And>y tn obj i. target = Some (IndexExpr tn obj i) \<Longrightarrow> obj = Some y \<or> i = Some y \<Longrightarrow> good x y"
  shows "affine x (moves x (AssignExpr n target val)) (checkAssign checkExpr n target val)"
proof -
  have field: "affine x (moves_in x (osub obj)) (checkFieldAssign checkExpr tn obj f val v sp)"
    if "target = Some (FieldAccessExpr tn obj f)" for tn obj f v sp
    unfolding checkFieldAssign_def
    by (rule af_then [OF af_opt]; (intro quiet_intros)?; use that assms(3) in simp)
  have index: "affine x (moves_in x (osub obj) + moves_in x (osub i)) (checkIndexAssign checkExpr tn obj i v sp)"
    if "target = Some (IndexExpr tn obj i)" for tn obj i v sp
    unfolding checkIndexAssign_def
    by (rule af_then [OF af_index_parts]; (intro quiet_intros)?; use that assms(4) in blast)
  have rest: "affine x (moves_in x (osub target)) (let valueSpan = opt_span val (node_span n) in
     case target of
       Some (NameExpr nn name) \<Rightarrow> assign_binding n nn name v valueSpan
     | Some (FieldAccessExpr fn obj fieldName) \<Rightarrow> checkFieldAssign checkExpr fn obj fieldName val v valueSpan
     | Some (IndexExpr im obj index) \<Rightarrow> checkIndexAssign checkExpr im obj index v valueSpan
     | _ \<Rightarrow> invalid_with (node_span n) ''assignment target must be a binding, field, or index'')" for v
    using assms(1) field index af_assign_binding
    by (cases target; cases "the target") (auto intro: af_invalid simp del: subexprs.simps(1,3,4,6,8-18))
  show ?thesis
    unfolding checkAssign_def
    by (rule af_bind [OF af_opt rest]) (use assms(2) in \<open>auto split: option.splits\<close>)
qed


subsection \<open>Calls and regions\<close>

lemma resolve_found:
  assumes "resolvable s" "fst (run_state (resolveFunctionName p d sp) s) = Some k"
  shows "um_contains (all_functions s) k"
proof -
  have imported: "um_contains (all_functions s) k'"
    if "k' \<in> set (importedMatches (um_contains (all_functions s)) name is)" for k' name "is"
    using that by (induction "is") (auto simp: Let_def split: if_splits)
  have simple: "um_contains (all_functions s) k'" if "fst (run_state (resolve_simple name sp) s) = Some k'" for k' name
    using that assms(1)
    by (auto simp: resolve_simple_def resolvable_def report_def split: option.splits list.splits dest!: map_of_SomeD)
  have "um_contains (all_functions s) k'" if "fst (run_state (resolve_local name e sp) s) = Some k'" for k' name e
    using that simple imported [of _ name "decl_imports e"]
    by (auto simp: resolve_local_def Let_def report_def split: if_splits list.splits)
  moreover have "um_contains (all_functions s) k'" if "fst (run_state (resolve_qualified p d) s) = Some k'" for k' p d
    using that assms(1)
    by (auto simp: resolve_qualified_def resolvable_def Let_def split: option.splits if_splits dest!: map_of_SomeD)
  ultimately show ?thesis
    using assms(2) simple by (auto simp: resolveFunctionName_def split: list.splits option.splits if_splits)
qed

lemma quiet_tables:
  assumes "quiet.io m" "run_state m s = (v, t)"
  shows "scopes t = scopes s" "all_functions t = all_functions s"
    "currentGenericParams t = currentGenericParams s" "structs t = structs s"
proof -
  have q: "scopes t = scopes s" "tables t = tables s"
    using assms by (auto simp: state_io_rel_def quiet_def dest: spec [of _ s])
  then show "scopes t = scopes s" "all_functions t = all_functions s"
    "currentGenericParams t = currentGenericParams s" "structs t = structs s"
    by (metis tables_sel)+
qed

lemma af_resolved_call:
  assumes "\<And>y. Some y \<in> set as \<Longrightarrow> good x y"
  shows "affine x (moves_in x (lsub as)) (checkResolvedFunctionCall checkExpr n as sig f sp)"
  unfolding checkResolvedFunctionCall_def
  by (intro af_if af_report af_after [OF quiet.io_report_if] af_then [OF af_match_args] quiet.io_ret
        frame.io_intros frame.io_check_args frame.checkExpr_kept assms)

lemma af_function_call:
  assumes "\<And>y. Some y \<in> set as \<Longrightarrow> good x y"
  shows "affine x (moves_in x (lsub as)) (checkFunctionCall checkExpr n as f sp)"
proof -
  have main: "affine_at x (0 + moves_in x (lsub as)) (resolveFunctionName [f] d sp \<bind> (\<lambda>resolved.
      case resolved of
        None \<Rightarrow> do {report sp (''undefined function '' @ q f); check_args checkExpr as; ret invalidType}
      | Some key \<Rightarrow> do {
          sig \<leftarrow> gets (\<lambda>s. um_find (all_functions s) key);
          case sig of
            None \<Rightarrow> ret invalidType
          | Some sig \<Rightarrow> checkResolvedFunctionCall checkExpr n as sig f sp})) s"
    if s: "checkable s" for s d
  proof (rule affine_bind [OF s affine_quiet [OF quiet.io_resolve]])
    fix resolved t
    assume run: "run_state (resolveFunctionName [f] d sp) s = (resolved, t)" and t: "checkable t"
    have "um_contains (all_functions t) key" if "resolved = Some key" for key
      using resolve_found [of s "[f]" d sp key] s run that quiet_tables(2) [OF quiet.io_resolve run]
      by (simp add: checkable_def)
    then show "affine_at x (moves_in x (lsub as)) (case resolved of
        None \<Rightarrow> do {report sp (''undefined function '' @ q f); check_args checkExpr as; ret invalidType}
      | Some key \<Rightarrow> do {
          sig \<leftarrow> gets (\<lambda>s. um_find (all_functions s) key);
          case sig of
            None \<Rightarrow> ret invalidType
          | Some sig \<Rightarrow> checkResolvedFunctionCall checkExpr n as sig f sp}) t"
      using t af_resolved_call [OF assms]
      by (auto simp: affine_def um_contains_find split: option.splits
          intro!: affine_report affine_gets frame.io_intros frame.io_check_args frame.checkExpr_kept)
  qed
  show ?thesis
    unfolding checkFunctionCall_def affine_def by (intro allI impI affine_gets main [unfolded add_0])
qed

lemma af_method_arguments:
  assumes "\<And>y. Some y \<in> set as \<Longrightarrow> good x y"
  shows "affine x (moves_in x (lsub as)) (methodArgumentsMatch checkExpr n as f m)"
  unfolding methodArgumentsMatch_def
  by (intro af_after [OF quiet.io_report_if] af_then [OF af_match_args] quiet.io_ret assms)

lemma af_call_method:
  assumes "\<And>y. Some y \<in> set as \<Longrightarrow> good x y"
  shows "affine x (moves_in x (lsub as)) (call_method checkExpr n as cn obj f typeLevel receiver m)"
  unfolding call_method_def
  by (intro af_after [OF quiet.io_report_if] af_then [OF af_method_arguments] quiet.io_ret assms)

lemma affine_generic_call:
  assumes "\<And>y. Some y \<in> set as \<Longrightarrow> good x y" "checkable s"
    and "um_contains (currentGenericParams s) (ty_name receiver)"
  shows "affine_at x (moves_in x (lsub as)) (checkGenericMethodCall checkExpr n as cn obj f receiver) s"
proof -
  obtain g where g: "um_find (currentGenericParams s) (ty_name receiver) = Some g"
    using assms(3) by (auto simp: um_contains_find)
  have "affine x (moves_in x (lsub as)) (do {
      report_if c sp msg;
      methodArgumentsMatch checkExpr n as f m;
      ret (mi_returnType m)})" for c sp msg m
    by (intro af_after [OF quiet.io_report_if] af_then [OF af_method_arguments] quiet.io_ret assms(1))
  then show ?thesis
    unfolding checkGenericMethodCall_def lookupGenericParam_def using assms(2)
    by (intro affine_gets)
       (auto simp: g affine_def split: list.splits
         intro!: affine_report affine_invalid_with frame.io_intros frame.io_check_args frame.checkExpr_kept)
qed

lemma af_receiver:
  assumes "\<And>y. obj = Some y \<Longrightarrow> good x y" "typeLevel \<noteq> None \<Longrightarrow> asNameExpr obj \<noteq> None"
  shows "affine x (moves_in x (osub obj))
    (case typeLevel of Some t \<Rightarrow> ret (mk_type NoCap t) | None \<Rightarrow> check_opt checkExpr obj Operand invalidType)"
proof (cases typeLevel)
  case None
  then show ?thesis using af_opt [OF assms(1)] by simp
next
  case (Some t)
  with assms(2) obtain nn y where "obj = Some (NameExpr nn y)"
    by (cases obj rule: asNameExpr.cases) auto
  then show ?thesis using Some by (simp add: af_quiet quiet.io_ret)
qed

lemma type_level_name_found:
  "run_state (type_level_name obj) s = (Some t, s') \<Longrightarrow> asNameExpr obj \<noteq> None"
  by (cases "asNameExpr obj") (auto simp: type_level_name_def)

lemma af_method_call:
  assumes args: "\<And>y. Some y \<in> set as \<Longrightarrow> good x y" and obj: "\<And>y. obj = Some y \<Longrightarrow> good x y"
  shows "affine x (moves_in x (osub obj) + moves_in x (lsub as)) (checkMethodCall checkExpr n as cn obj f)"
proof -
  note io = frame.io_intros frame.io_check_args frame.checkExpr_kept
  have visit: "affine x (moves_in x (lsub as)) (do {check_args checkExpr as; ret invalidType})"
    using args by (intro af_then [OF af_args] quiet.io_ret)
  have call: "affine x (moves_in x (lsub as)) (call_method checkExpr n as cn obj f typeLevel receiver m)"
    for typeLevel receiver m
    using args by (rule af_call_method)
  have "affine_at x (0 + (moves_in x (osub obj) + moves_in x (lsub as))) (checkMethodCall checkExpr n as cn obj f) s"
    if s: "checkable s" for s
    unfolding checkMethodCall_def
  proof (rule affine_bind [OF s affine_quiet [OF quiet.io_type_level_name]], rule affine_bind)
    fix typeLevel t
    assume run: "run_state (type_level_name obj) s = (typeLevel, t)" and t: "checkable t"
    show "checkable t" by (rule t)
    have "typeLevel \<noteq> None \<Longrightarrow> asNameExpr obj \<noteq> None" using type_level_name_found run by blast
    then show "affine_at x (moves_in x (osub obj)) (case typeLevel of
        None \<Rightarrow> check_opt checkExpr obj Operand invalidType | Some t \<Rightarrow> ret (mk_type NoCap t)) t"
      using af_receiver [OF obj] t by (simp add: affine_def)
  next
    fix typeLevel :: "string option" and t receiver u
    assume u: "checkable u"
    have gen: "affine_at x (moves_in x (lsub as)) (checkGenericMethodCall checkExpr n as cn obj f receiver) u"
      if "um_contains (currentGenericParams u) (ty_name receiver)"
      using args u that by (rule affine_generic_call)
    show "affine_at x (moves_in x (lsub as)) (do {
       generic \<leftarrow> isGenericTypeName (ty_name receiver);
       info \<leftarrow> gets (\<lambda>s. um_find (structs s) (ty_name receiver));
       if isInvalid receiver then do {check_args checkExpr as; ret invalidType}
       else if typeLevel = None \<and> generic then checkGenericMethodCall checkExpr n as cn obj f receiver
       else case info of
         None \<Rightarrow> invalid_with (node_span cn) (''type '' @ q (ty_name receiver) @ '' has no methods'')
       | Some info \<Rightarrow>
           (case um_find (si_methods info) f of
              None \<Rightarrow> do {
                report (node_span cn) (''type '' @ q (ty_name receiver) @ '' has no method '' @ q f);
                check_args checkExpr as;
                ret invalidType}
            | Some method \<Rightarrow> call_method checkExpr n as cn obj f (typeLevel \<noteq> None) receiver method)}) u"
      unfolding isGenericTypeName_def using u visit call gen
      by (intro affine_gets)
         (auto simp: affine_def split: option.splits
            intro!: affine_report affine_invalid_with io)
  qed
  then show ?thesis by (simp add: affine_def)
qed

lemma af_call:
  assumes args: "\<And>y. Some y \<in> set as \<Longrightarrow> good x y"
    and obj: "\<And>y cn f. callee = Some (FieldAccessExpr cn (Some y) f) \<Longrightarrow> good x y"
  shows "affine x (moves x (CallExpr n callee as)) (checkCall checkExpr n callee as)"
proof -
  let ?k = "moves_in x (osub callee) + moves_in x (lsub as)"
  have shape: "affine x ?k (call_by_shape checkExpr n callee as)"
  proof (cases "\<exists>cn obj f. callee = Some (FieldAccessExpr cn obj f)")
    case True
    then obtain cn obj f where c: "callee = Some (FieldAccessExpr cn obj f)" by blast
    then have "affine x (moves_in x (osub obj) + moves_in x (lsub as)) (checkMethodCall checkExpr n as cn obj f)"
      using obj by (intro af_method_call [OF args]) auto
    then show ?thesis by (simp add: c call_by_shape_def)
  next
    case False
    then show ?thesis
      using af_function_call [OF args]
      by (auto simp: call_by_shape_def simp del: subexprs.simps(1,3-18) split: option.splits expr.splits
            intro!: af_report frame.io_intros frame.io_check_args frame.checkExpr_kept)
  qed
  have builtin: "affine x ?k (checkFunctionCall checkExpr n as f sp)"
    if "callee = Some c" "qualifiedCoreBuiltinName c = Some f" for c f sp
    using af_function_call [OF args] builtin_has_no_moves [OF that(2)] that(1) by simp
  have path: "affine_at x (0 + ?k) (do {
      resolved \<leftarrow> resolve_path_call c;
      case resolved of
        Some (sig, name) \<Rightarrow> checkResolvedFunctionCall checkExpr n as sig name (expr_span c)
      | None \<Rightarrow> call_by_shape checkExpr n callee as}) s" if s: "checkable s" and c: "callee = Some c" for c s
  proof (rule affine_bind [OF s affine_quiet [OF quiet.io_resolve_path_call]])
    fix resolved t
    assume run: "run_state (resolve_path_call c) s = (resolved, t)" and t: "checkable t"
    have "pathFromFieldAccess c \<noteq> []" if "resolved \<noteq> None"
      by (rule ccontr) (use run that in \<open>simp add: resolve_path_call_def\<close>)
    then have "moves x c = 0" if "resolved \<noteq> None"
      using that path_has_no_moves by blast
    then show "affine_at x ?k (case resolved of
        Some (sig, name) \<Rightarrow> checkResolvedFunctionCall checkExpr n as sig name (expr_span c)
      | None \<Rightarrow> call_by_shape checkExpr n callee as) t"
      using shape af_resolved_call [OF args] t c by (auto simp: affine_def split: option.splits)
  qed
  have "affine x ?k (checkCall checkExpr n callee as)"
  proof (cases callee)
    case None
    then show ?thesis using shape by (simp add: checkCall_def)
  next
    case (Some c)
    show ?thesis
    proof (cases "qualifiedCoreBuiltinName c")
      case None
      then show ?thesis
        unfolding affine_def checkCall_def Some option.case None
        using path [OF _ Some] unfolding Some add_0 by blast
    next
      case (Some f)
      then show ?thesis using builtin [OF \<open>callee = Some c\<close> Some] by (simp add: checkCall_def \<open>callee = Some c\<close>)
    qed
  qed
  then show ?thesis by simp
qed

lemma quiet_snd: "quiet.io m \<Longrightarrow> quiet s (snd (run_state m s))"
  by (simp add: state_io_rel_def)

lemma quiet_same:
  assumes "quiet.io m" "run_state m s = (v, t)" "diags t = diags s"
  shows "t = s"
proof -
  have "scopes t = scopes s" "tables t = tables s"
    using assms(1,2) by (auto simp: state_io_rel_def quiet_def dest: spec [of _ s])
  with assms(3) show ?thesis by (cases s; cases t) (simp add: tables_def)
qed

lemma affine_reported:
  assumes "checkable s" "quiet.io m" "run_state m s = (v, t)" "diags t \<noteq> diags s" "frame.io (f v)"
  shows "affine_at x k (m \<bind> f) s"
proof -
  define u where "u = snd (run_state (f v) t)"
  have t: "sema_frame s t" using affine_quiet [OF assms(2), of x s] assms(3) by (simp add: affine_at_def)
  have u: "sema_frame t u" using assms(5) by (simp add: state_io_rel_def u_def)
  have "checkable t" using checkable_frame assms(1) t by blast
  then have "diags u \<noteq> diags s"
    using t u assms(1,4) diags_antisym [of s t u] by (auto simp: sema_frame_def checkable_def)
  then show ?thesis
    using frame.R_trans [OF t u] assms(3) by (simp add: affine_at_def u_def)
qed

text \<open>Without a diagnostic the source of a region block names an available binding.\<close>

lemma report_if_silent: "diags (snd (run_state (report_if c sp msg) s)) = diags s \<Longrightarrow> \<not> c"
  using engine.report_changes [of Error sp msg "diags s"]
  by (auto simp: report_if_def report_def DiagnosticEngine_error_def split: if_splits)

lemma checkName_silent:
  assumes "run_state (checkName n y c) s = (t, s')" "diags s' = diags s"
  shows "\<exists>r. ref_of y s = Some r \<and> b_availability (deref r (scopes s)) = Available \<and> t = b_type (deref r (scopes s))"
proof -
  have "diags (snd (run_state (invalid_with sp msg) s)) \<noteq> diags s" for sp msg
    using engine.report_changes [of Error sp msg "diags s"]
    by (simp add: invalid_with_def report_def DiagnosticEngine_error_def)
  then have *: "run_state (invalid_with sp msg) s \<noteq> (t, s')" for sp msg
    using assms(2) by (metis snd_conv)
  show ?thesis
    using assms(1) * by (cases "b_availability (deref (the (ref_of y s)) (scopes s))")
      (auto simp: checkName_def lookup_def binding_def split: option.splits if_splits)
qed

lemma region_source_silent:
  assumes run: "run_state (region_source n source) s = ((r, t), s')" and silent: "diags s' = diags s"
  shows "\<exists>nn y r0. source = Some (NameExpr nn y) \<and> r = Some r0 \<and> ref_of y s = Some r0 \<and>
    b_availability (deref r0 (scopes s)) = Available \<and> t = b_type (deref r0 (scopes s)) \<and> ty_capability t = Iso"
proof (cases "asNameExpr source")
  case None
  then have "snd (run_state (report_if True (opt_span source (node_span n))
      ''enter/explore source must be an iso binding'') s) = s'"
    using run by (simp add: region_source_def split: prod.splits)
  then show ?thesis using report_if_silent silent by metis
next
  case (Some p)
  then obtain nn y where source: "source = Some (NameExpr nn y)"
    by (cases source rule: asNameExpr.cases) auto
  obtain t1 s1 where s1: "run_state (checkName nn y Operand) s = (t1, s1)" by fastforce
  have r: "r = ref_of y s" "t1 = t"
    and s': "snd (run_state (report_if (ref_of y s = None \<or> ty_capability t \<noteq> Iso) (expr_span (NameExpr nn y))
      ''enter/explore source must be an iso binding'') s1) = s'"
    using run s1 by (auto simp: region_source_def source lookup_def opt_span_def case_prod_beta)
  have "quiet s s1" using quiet_snd [OF quiet.io_checkName [of nn y Operand], of s] s1 by simp
  moreover have "quiet s1 s'" unfolding s' [symmetric] by (intro quiet_snd quiet.io_report_if)
  ultimately have same: "diags s1 = diags s"
    using silent diags_antisym [of s s1 s'] by (simp add: quiet_def)
  then have "diags (snd (run_state (report_if (ref_of y s = None \<or> ty_capability t \<noteq> Iso) (expr_span (NameExpr nn y))
      ''enter/explore source must be an iso binding'') s1)) = diags s1"
    by (simp only: s' silent)
  then have "\<not> (ref_of y s = None \<or> ty_capability t \<noteq> Iso)" by (rule report_if_silent)
  then have "ty_capability t = Iso" by simp
  with checkName_silent [OF s1 same] r source show ?thesis by auto
qed

text \<open>Opening the source, checking the body and closing it accounts for the moves of the body: if the
  name is the source itself, the body finds it borrowed and cannot move it.\<close>

definition borrowed :: "binding_ref \<Rightarrow> 'a chk \<Rightarrow> 'a chk" where
  "borrowed r body = do {
     previousAvailability \<leftarrow> openBorrowRegionSource (Some r);
     result \<leftarrow> body;
     restoreRegionSource (Some r) previousAvailability;
     ret result}"

lemma af_borrowed_other:
  assumes "snd r \<noteq> x" "affine x k body"
  shows "affine x k (borrowed r body)"
proof -
  have "affine x 0 (openBorrowRegionSource (Some r))"
    unfolding openBorrowRegionSource_def option.case binding_def
    by (intro af_after [OF quiet.io_gets] af_then [OF af_if] af_modify_other af_quiet quiet.io_ret assms(1)) simp
  moreover have "affine x k (do {result \<leftarrow> body; restoreRegionSource (Some r) p; ret result})" for p
    unfolding restoreRegionSource_def option.case
    by (rule af_bind [OF assms(2) af_then [OF af_modify_other]]) (auto simp: assms(1) intro: quiet.io_ret)
  ultimately show ?thesis
    unfolding borrowed_def by (rule af_bind) simp
qed

lemma affine_borrowed_self:
  assumes s: "checkable s" and r: "ref_of x s = Some r" "b_availability (deref r (scopes s)) = Available"
    and body: "affine x k body"
  shows "affine_at x k (borrowed r body) s"
proof -
  let ?s1 = "modified r (\<lambda>b. b\<lparr>b_availability := OpenBorrowed\<rparr>) s"
  obtain v t1 where t1: "run_state body ?s1 = (v, t1)" by fastforce
  let ?t2 = "modified r (\<lambda>b. b\<lparr>b_availability := Available\<rparr>) t1"
  have run: "run_state (borrowed r body) s = (v, ?t2)"
    using r(2) t1 by (simp add: borrowed_def openBorrowRegionSource_def restoreRegionSource_def binding_def)
  have f1: "sema_frame s ?s1" by (rule modified_frame) simp
  then have "checkable ?s1" using checkable_frame s by blast
  then have f2: "sema_frame ?s1 t1" and acc: "diags t1 = diags ?s1 \<Longrightarrow> accounts x k ?s1 t1"
    using body t1 by (auto simp: affine_def affine_at_def)
  have f3: "sema_frame t1 ?t2" by (rule modified_frame) simp
  have "accounts x k s ?t2" if "diags ?t2 = diags s"
  proof -
    have "accounts x k ?s1 t1" using that acc by (simp add: modified_def)
    then have "k = 0" and t1: "ref_of x t1 = Some r"
      using avail_modified_self [OF r(1)] r(1) by (auto simp: accounts_def)
    with r avail_modified_self [OF t1] show ?thesis by (simp add: accounts_def avail_def)
  qed
  then show ?thesis
    using frame.R_trans [OF frame.R_trans [OF f1 f2] f3] by (simp add: affine_at_def run)
qed

lemma af_region_body:
  assumes "name \<noteq> x" "\<And>y b'. b = Some b' \<Longrightarrow> Some y \<in> set (blk_expressions b') \<Longrightarrow> good x y"
  shows "affine x (moves_in x (opt_list (map_option subexprs_block b))) (region_body checkExpr n k name b t)"
proof -
  have "affine x 0 (declare_bridge n k name t)"
    unfolding declare_bridge_def Let_def using assms(1)
    by (intro af_if af_after [OF quiet.io_gets] af_declare af_quiet quiet.io_ret)
  then show ?thesis
    unfolding region_body_def by (intro af_region, rule af_bind [OF _ af_block_opt]) (use assms in auto)
qed

lemma checkRegion_borrowed:
  assumes "run_state (region_source n source) s = ((Some r, t), s)"
  shows "run_state (checkRegion rec n k source name b) s = run_state (do {
     result \<leftarrow> borrowed r (region_body rec n k name b t);
     depth \<leftarrow> gets regionDepth;
     checkEscape result RegionBlockResult depth (node_span n);
     ret result}) s"
  using assms by (simp add: checkRegion_def borrowed_def)

lemma af_region_expr:
  assumes "name \<noteq> x" "\<And>y b'. b = Some b' \<Longrightarrow> Some y \<in> set (blk_expressions b') \<Longrightarrow> good x y"
  shows "affine x (moves x (RegionExpr n k source name b)) (checkRegion checkExpr n k source name b)"
  unfolding affine_def
proof (intro allI impI)
  fix s assume s: "checkable s"
  let ?k = "moves_in x (opt_list (map_option subexprs_block b))"
  obtain r t s' where run: "run_state (region_source n source) s = ((r, t), s')" by (metis prod.collapse)
  show "affine_at x (moves x (RegionExpr n k source name b)) (checkRegion checkExpr n k source name b) s"
  proof (cases "diags s' = diags s")
    case False
    show ?thesis
      unfolding checkRegion_def
      by (rule affine_reported [OF s quiet.io_region_source run False])
         (unfold region_body_def openBorrowRegionSource_def restoreRegionSource_def declare_bridge_def prod.case,
          intro frame.io_intros frame.io_plain frame.R_availability frame.R_region frame.R_declare
            frame.io_check_block_opt frame.checkExpr_kept)
  next
    case True
    then obtain nn y r0 where src: "source = Some (NameExpr nn y)" "r = Some r0" "ref_of y s = Some r0"
      "b_availability (deref r0 (scopes s)) = Available"
      using region_source_silent [OF run] by blast
    have body: "affine x ?k (region_body checkExpr n k name b t)"
      using assms by (rule af_region_body)
    have "affine_at x ?k (borrowed r0 (region_body checkExpr n k name b t)) s"
    proof (cases "x = y")
      case True
      then show ?thesis using affine_borrowed_self [OF s _ src(4) body] src(3) by simp
    next
      case False
      then have "snd r0 \<noteq> x" using lookup_found [OF src(3)] by simp
      then show ?thesis using af_borrowed_other [OF _ body] s by (simp add: affine_def)
    qed
    then have "affine_at x (?k + 0) (do {
       result \<leftarrow> borrowed r0 (region_body checkExpr n k name b t);
       depth \<leftarrow> gets regionDepth;
       checkEscape result RegionBlockResult depth (node_span n);
       ret result}) s"
      by (rule affine_bind [OF s]) (intro affine_quiet quiet_intros)
    moreover have "run_state (region_source n source) s = ((Some r0, t), s)"
      using run src(2) quiet_same [OF quiet.io_region_source run True] by simp
    ultimately show ?thesis
      using src(1) by (simp add: affine_at_def checkRegion_borrowed)
  qed
qed


subsection \<open>All expressions\<close>

lemma block_plain:
  "plain_uses x (subexprs_block b) \<Longrightarrow> Some y \<in> set (blk_expressions b) \<Longrightarrow> plain_uses x (subexprs y)"
  using lsub_plain [of x "blk_expressions b" y] by (simp add: subexprs_block_eq)

lemma init_plain:
  "plain_uses x (concat (map subexprs_init fis)) \<Longrightarrow> fi \<in> set fis \<Longrightarrow> fi_value fi = Some y \<Longrightarrow> plain_uses x (subexprs y)"
  by (induction fis) (auto simp: subexprs_init_eq)

lemma good_expr: "plain_uses x (subexprs e) \<Longrightarrow> affine x (moves x e) (checkExpr e ctx)"
proof (induction e ctx rule: checkExpr.induct)
  case (1 n kind src suffix ctx) show ?case by (simp add: af_quiet quiet.io_ret)
next
  case (2 n name ctx) show ?case by (simp add: af_quiet quiet.io_checkName)
next
  case (3 n op lhs rhs ctx) then show ?case
    by (simp only: checkExpr.simps) (intro af_binary, auto simp: good_def)
next
  case (4 n target val ctx) then show ?case
    by (simp only: checkExpr.simps) (intro af_assign, auto simp: good_def)
next
  case (5 n obj f ctx) then show ?case
    by (simp only: checkExpr.simps) (intro af_field_access, auto simp: good_def)
next
  case (6 n es ctx) then show ?case
    by (simp only: checkExpr.simps) (intro af_array, simp add: good_def lsub_plain)
next
  case (7 n obj index ctx) then show ?case
    by (simp only: checkExpr.simps) (intro af_index, auto simp: good_def)
next
  case (8 n v name t i ctx) then show ?case
    by (simp only: checkExpr.simps) (intro af_binding, auto simp: good_def)
next
  case (9 n v ctx) show ?case by (simp only: checkExpr.simps) (rule af_move)
next
  case (10 n t st fis ctx)
  then have "names_type (NewExpr n t st fis)" "\<And>fi y. fi \<in> set fis \<Longrightarrow> fi_value fi = Some y \<Longrightarrow> good x y"
    by (auto simp: good_def dest: init_plain)
  then show ?case unfolding checkExpr.simps by (rule af_new)
next
  case (11 n v ctx) then show ?case
    by (simp only: checkExpr.simps) (intro af_freeze, auto simp: good_def)
next
  case (12 n v ctx) then show ?case
    by (simp only: checkExpr.simps) (intro af_merge, auto simp: good_def)
next
  case (13 n c t e ctx) then show ?case
    by (simp only: checkExpr.simps) (intro af_if_expr, auto simp: good_def dest: block_plain)
next
  case (14 n c b ctx) then show ?case
    by (simp only: checkExpr.simps) (intro af_while, auto simp: good_def dest: block_plain)
next
  case (15 n k s name b ctx) then show ?case
    by (simp only: checkExpr.simps) (intro af_region_expr, auto simp: good_def dest: block_plain)
next
  case (16 n v ctx) then show ?case
    by (simp only: checkExpr.simps) (intro af_return, auto simp: good_def)
next
  case (17 b ctx) then show ?case
    by (simp only: checkExpr.simps) (use af_block_opt [of "Some b" x] in \<open>auto simp: good_def dest: block_plain\<close>)
next
  case (18 n callee args ctx) then show ?case
    by (simp only: checkExpr.simps) (intro af_call, auto simp: good_def lsub_plain)
qed



end
