(* ===== verification/Gura_Sema_Decls.thy ===== *)
theory Gura_Sema_Decls
  imports Gura_Sema
begin

section \<open>Collecting and checking declarations\<close>

text \<open>
  The declaration level of \<^verbatim>\<open>src/hir/Sema.cpp\<close>: the tables of modules, structs, traits and functions,
  the methods of implementations, conformance to traits, and the check of each declaration. A method
  that fills a reference argument (\<^verbatim>\<open>StructInfo& info\<close>) returns it.
\<close>

primrec foldM :: "('b \<Rightarrow> 'a \<Rightarrow> 'b chk) \<Rightarrow> 'b \<Rightarrow> 'a list \<Rightarrow> 'b chk" where
  "foldM f acc [] = ret acc"
| "foldM f acc (x # xs) = do {acc' \<leftarrow> f acc x; foldM f acc' xs}"


subsection \<open>Modules and methods\<close>

definition set_module :: "decl \<Rightarrow> (string, module_info) unordered_map \<Rightarrow> (string, module_info) unordered_map" where
  "set_module d m =
     um_set (joinPath (decl_modulePath d)) \<lparr>mo_path = decl_modulePath d, mo_imports = decl_imports d\<rparr> m"

definition collectModules :: "ast_file \<Rightarrow> unit chk" where
  "collectModules f = do {
     update (\<lambda>s. s\<lparr>modules := []\<rparr>);
     for_each (sf_declarations f) (\<lambda>d. case d of
       None \<Rightarrow> ret ()
     | Some d \<Rightarrow>
         if decl_modulePath d = [] then ret ()
         else update (\<lambda>s. s\<lparr>modules := set_module d (modules s)\<rparr>))}"

fun receiver_param :: "fn_decl \<Rightarrow> param option" where
  "receiver_param m =
     (case fn_params m of [] \<Rightarrow> None | p # _ \<Rightarrow> if pm_name p = ''self'' then Some p else None)"

definition needs_self :: "fn_decl \<Rightarrow> string" where
  "needs_self m = ''method '' @ q (fn_name m) @ '' must declare self as its first parameter''"

fun param_types :: "param list \<Rightarrow> htype list chk" where
  "param_types [] = ret []"
| "param_types (p # ps) = do {
     t \<leftarrow> typeFromAst_or (pm_type p) invalidType;
     ts \<leftarrow> param_types ps;
     ret (t # ts)}"

definition method_rest :: "fn_decl \<Rightarrow> htype \<Rightarrow> bool \<Rightarrow> method_info option chk" where
  "method_rest m receiverType hasReceiver = do {
     returnType \<leftarrow> typeFromAst_or (fn_returnType m) unitType;
     ps \<leftarrow> param_types (if hasReceiver then tl (fn_params m) else fn_params m);
     ret (Some \<lparr>mi_params = ps, mi_receiverType = receiverType, mi_returnType = returnType,
                mi_hasReceiver = hasReceiver, mi_decl = Some m, mi_span = node_span m\<rparr>)}"

definition makeMethodInfo :: "fn_decl \<Rightarrow> string \<Rightarrow> bool \<Rightarrow> method_info option chk" where
  "makeMethodInfo m selfTypeName requireReceiver =
     (if fn_genericParams m \<noteq> []
      then do {report (node_span m) ''generic methods are not supported yet''; ret None}
      else case receiver_param m of
        None \<Rightarrow>
          (if requireReceiver then do {report (node_span m) (needs_self m); ret None}
           else method_rest m (mk_type NoCap []) False)
      | Some p \<Rightarrow>
          (case pm_type p of
             None \<Rightarrow> do {report (node_span m) (needs_self m); ret None}
           | Some t \<Rightarrow> do {
               receiverType \<leftarrow> typeFromAst t;
               method_rest m (with_name selfTypeName receiverType) True}))"

definition collectMethod :: "fn_decl \<Rightarrow> string \<Rightarrow> bool \<Rightarrow> struct_info \<Rightarrow> struct_info chk" where
  "collectMethod m selfTypeName requireReceiver info =
     (if um_contains (si_methods info) (fn_name m)
      then do {report (node_span m) (''method '' @ q (fn_name m) @ '' is already defined''); ret info}
      else do {
        mi \<leftarrow> makeMethodInfo m selfTypeName requireReceiver;
        ret (case mi of
               None \<Rightarrow> info
             | Some mi \<Rightarrow> info\<lparr>si_methods := um_emplace (fn_name m) mi (si_methods info)\<rparr>)})"

definition collectMethods :: "fn_decl option list \<Rightarrow> string \<Rightarrow> bool \<Rightarrow> struct_info \<Rightarrow> struct_info chk" where
  "collectMethods ms selfTypeName requireReceiver info =
     foldM (\<lambda>info m. case m of Some m \<Rightarrow> collectMethod m selfTypeName requireReceiver info | None \<Rightarrow> ret info)
       info ms"

definition collectTraitMethod :: "fn_decl \<Rightarrow> string \<Rightarrow> trait_info \<Rightarrow> trait_info chk" where
  "collectTraitMethod m traitName info =
     (if um_contains (ti_methods info) (fn_name m)
      then do {
        report (node_span m) (''method '' @ q (fn_name m) @ '' is already defined in trait '' @ q traitName);
        ret info}
      else if fn_body m \<noteq> None
      then do {report (node_span m) (''trait method '' @ q (fn_name m) @ '' must not have a body''); ret info}
      else do {
        mi \<leftarrow> makeMethodInfo m ''<Self>'' True;
        ret (case mi of
               None \<Rightarrow> info
             | Some mi \<Rightarrow> info\<lparr>ti_methods := um_emplace (fn_name m) mi (ti_methods info)\<rparr>)})"


subsection \<open>Structs, traits and implementations\<close>

definition collect_field :: "struct_info \<Rightarrow> field_decl \<Rightarrow> struct_info chk" where
  "collect_field info f =
     (if um_contains (si_fields info) (fd_name f)
      then do {report (node_span f) (''field '' @ q (fd_name f) @ '' is already defined''); ret info}
      else do {
        t \<leftarrow> typeFromAst_or (fd_type f) invalidType;
        report_if (ty_isArray t) (case fd_type f of Some x \<Rightarrow> tr_span x | None \<Rightarrow> node_span f)
          ''array fields are not supported yet'';
        ret (info\<lparr>si_fields := um_emplace (fd_name f)
               \<lparr>f_type = t, f_isVar = fd_isVar f, f_span = node_span f\<rparr> (si_fields info)\<rparr>)})"

definition collect_struct :: "struct_decl \<Rightarrow> unit chk" where
  "collect_struct d = do {
     info \<leftarrow> foldM collect_field \<lparr>si_fields = [], si_methods = [], si_span = node_span d\<rparr> (sd_fields d);
     info \<leftarrow> collectMethods (sd_methods d) (sd_name d) True info;
     known \<leftarrow> gets (\<lambda>s. um_contains (structs s) (sd_name d));
     if known then report (node_span d) (''struct '' @ q (sd_name d) @ '' is already defined'')
     else update (\<lambda>s. s\<lparr>structs := um_emplace (sd_name d) info (structs s)\<rparr>)}"

definition collectStructs :: "ast_file \<Rightarrow> unit chk" where
  "collectStructs f = do {
     update (\<lambda>s. s\<lparr>structs := []\<rparr>);
     for_each (sf_declarations f) (\<lambda>d. case d of Some (DStruct d) \<Rightarrow> collect_struct d | _ \<Rightarrow> ret ())}"

definition collect_trait :: "trait_decl \<Rightarrow> unit chk" where
  "collect_trait d = do {
     isStruct \<leftarrow> gets (\<lambda>s. um_contains (structs s) (td_name d));
     isTrait \<leftarrow> gets (\<lambda>s. um_contains (traits s) (td_name d));
     if isStruct
     then report (node_span d) (''trait '' @ q (td_name d) @ '' conflicts with a struct of the same name'')
     else if isTrait then report (node_span d) (''trait '' @ q (td_name d) @ '' is already defined'')
     else do {
       info \<leftarrow> foldM (\<lambda>info m. case m of Some m \<Rightarrow> collectTraitMethod m (td_name d) info | None \<Rightarrow> ret info)
                 \<lparr>ti_methods = [], ti_span = node_span d\<rparr> (td_methods d);
       update (\<lambda>s. s\<lparr>traits := um_emplace (td_name d) info (traits s)\<rparr>)}}"

definition collectTraits :: "ast_file \<Rightarrow> unit chk" where
  "collectTraits f = do {
     update (\<lambda>s. s\<lparr>traits := []\<rparr>);
     for_each (sf_declarations f) (\<lambda>d. case d of Some (DTrait d) \<Rightarrow> collect_trait d | _ \<Rightarrow> ret ())}"

definition collect_impl :: "impl_decl \<Rightarrow> unit chk" where
  "collect_impl d = do {
     ts \<leftarrow> gets traits;
     (case id_traitName d of
        Some t \<Rightarrow> report_if (\<not> um_contains ts t) (node_span d) (''trait '' @ q t @ '' is not defined'')
      | None \<Rightarrow> ret ());
     info \<leftarrow> gets (\<lambda>s. um_find (structs s) (id_typeName d));
     case info of
       None \<Rightarrow> report (node_span d) (''impl target type '' @ q (id_typeName d) @ '' is not defined'')
     | Some info \<Rightarrow> do {
         info' \<leftarrow> collectMethods (id_methods d) (id_typeName d) False info;
         update (\<lambda>s. s\<lparr>structs := um_set (id_typeName d) info' (structs s)\<rparr>)}}"

definition collectImplMethods :: "ast_file \<Rightarrow> unit chk" where
  "collectImplMethods f =
     for_each (sf_declarations f) (\<lambda>d. case d of Some (DImpl d) \<Rightarrow> collect_impl d | _ \<Rightarrow> ret ())"

fun impl_methods :: "fn_decl option list \<Rightarrow> (string, fn_decl) unordered_map \<Rightarrow> (string, fn_decl) unordered_map" where
  "impl_methods [] acc = acc"
| "impl_methods (None # ms) acc = impl_methods ms acc"
| "impl_methods (Some m # ms) acc = impl_methods ms (um_emplace (fn_name m) m acc)"

definition check_trait_method ::
    "impl_decl \<Rightarrow> string \<Rightarrow> (string, fn_decl) unordered_map \<Rightarrow> string \<times> method_info \<Rightarrow> unit chk" where
  "check_trait_method d traitName implMethods entry =
     (case entry of (methodName, expected) \<Rightarrow>
        (case um_find implMethods methodName of
           None \<Rightarrow> report (node_span d) (''impl of trait '' @ q traitName @ '' for type '' @ q (id_typeName d)
                     @ '' is missing method '' @ q methodName)
         | Some m \<Rightarrow> do {
             actual \<leftarrow> makeMethodInfo m (id_typeName d) True;
             (case actual of
                None \<Rightarrow> ret ()
              | Some actual \<Rightarrow> report_if (\<not> sameMethodSignature expected actual) (node_span m)
                  (''method '' @ q methodName @ '' signature does not match trait '' @ q traitName))}))"

definition validate_members :: "impl_decl \<Rightarrow> string \<Rightarrow> trait_info \<Rightarrow> unit chk" where
  "validate_members d traitName trait = (
     let implMethods = impl_methods (id_methods d) [] in do {
       for_each (ti_methods trait) (check_trait_method d traitName implMethods);
       for_each implMethods (\<lambda>(methodName, m).
         report_if (\<not> um_contains (ti_methods trait) methodName) (node_span m)
           (''method '' @ q methodName @ '' is not a member of trait '' @ q traitName))})"

definition validate_impl :: "impl_decl \<Rightarrow> unit chk" where
  "validate_impl d =
     (case id_traitName d of
        None \<Rightarrow> ret ()
      | Some traitName \<Rightarrow> do {
          trait \<leftarrow> gets (\<lambda>s. um_find (traits s) traitName);
          known \<leftarrow> gets (\<lambda>s. um_contains (structs s) (id_typeName d));
          case trait of
            None \<Rightarrow> ret ()
          | Some trait \<Rightarrow> if \<not> known then ret () else validate_members d traitName trait})"

definition validateTraitImpls :: "ast_file \<Rightarrow> unit chk" where
  "validateTraitImpls f =
     for_each (sf_declarations f) (\<lambda>d. case d of Some (DImpl d) \<Rightarrow> validate_impl d | _ \<Rightarrow> ret ())"


subsection \<open>Function signatures\<close>

definition push_simple_key ::
    "string \<Rightarrow> string \<Rightarrow> (string, string list) unordered_map \<Rightarrow> (string, string list) unordered_map" where
  "push_simple_key name key m = um_set name ((case um_find m name of Some ks \<Rightarrow> ks | None \<Rightarrow> []) @ [key]) m"

definition addBuiltin :: "string \<Rightarrow> htype \<Rightarrow> htype list \<Rightarrow> unit chk" where
  "addBuiltin name returnType params = update (\<lambda>s. s\<lparr>
     all_functions := um_emplace name
       \<lparr>fs_params = params, fs_returnType = returnType, fs_genericParams = [], fs_span = default_span\<rparr>
       (all_functions s),
     simpleFunctionKeys := push_simple_key name name (simpleFunctionKeys s),
     qualifiedFunctionKeys := um_set (''std.core.'' @ name) name (qualifiedFunctionKeys s)\<rparr>)"

fun signature_params :: "span \<Rightarrow> param list \<Rightarrow> htype list chk" where
  "signature_params sp [] = ret []"
| "signature_params sp (p # ps) = do {
     t \<leftarrow> typeFromAst_or (pm_type p) invalidType;
     report_if (ty_isArray t \<and> ty_capability t \<noteq> Mut) (case pm_type p of Some x \<Rightarrow> tr_span x | None \<Rightarrow> sp)
       ''array parameters currently require mut [i64]'';
     ts \<leftarrow> signature_params sp ps;
     ret (t # ts)}"

definition function_key :: "fn_decl \<Rightarrow> string" where
  "function_key fn = (if d_modulePath fn = [] then fn_name fn else qualifiedName (d_modulePath fn) (fn_name fn))"

definition collect_function :: "fn_decl \<Rightarrow> unit chk" where
  "collect_function fn = do {
     returnType \<leftarrow> typeFromAst_or (fn_returnType fn) unitType;
     report_if (ty_isArray returnType)
       (case fn_returnType fn of Some t \<Rightarrow> tr_span t | None \<Rightarrow> node_span fn) ''array return types are not supported yet'';
     ps \<leftarrow> signature_params (node_span fn) (fn_params fn);
     let key = function_key fn;
     fs \<leftarrow> gets all_functions;
     if um_contains fs key
     then report (node_span fn) (''function '' @ q key @ '' is already defined'')
     else if d_modulePath fn = [] \<and> um_contains fs (fn_name fn)
     then report (node_span fn) (''function '' @ q (fn_name fn) @ '' is already defined'')
     else update (\<lambda>s. s\<lparr>
       all_functions := um_emplace key
         \<lparr>fs_params = ps, fs_returnType = returnType, fs_genericParams = fn_genericParams fn,
          fs_span = node_span fn\<rparr> (all_functions s),
       simpleFunctionKeys := push_simple_key (fn_name fn) key (simpleFunctionKeys s),
       qualifiedFunctionKeys :=
         (if d_modulePath fn \<noteq> [] then um_set key key (qualifiedFunctionKeys s) else qualifiedFunctionKeys s)\<rparr>)}"

definition collectFunctionSignatures :: "ast_file \<Rightarrow> unit chk" where
  "collectFunctionSignatures f = do {
     update (\<lambda>s. s\<lparr>all_functions := [], qualifiedFunctionKeys := [], simpleFunctionKeys := []\<rparr>);
     addBuiltin ''puts'' (numericType ''i32'') [cstringType];
     addBuiltin ''print'' unitType [cstringType];
     addBuiltin ''println'' unitType [cstringType];
     addBuiltin ''print_i64'' unitType [numericType ''i64''];
     addBuiltin ''println_i64'' unitType [numericType ''i64''];
     addBuiltin ''readln_i64'' (numericType ''i64'') [];
     for_each (sf_declarations f) (\<lambda>d. case d of Some (DFn fn) \<Rightarrow> collect_function fn | _ \<Rightarrow> ret ())}"


subsection \<open>Checking declarations\<close>

fun collect_bounds :: "string \<Rightarrow> string list \<Rightarrow> trait_bound list \<Rightarrow> string list chk" where
  "collect_bounds name acc [] = ret acc"
| "collect_bounds name acc (b # bs) = do {
     ts \<leftarrow> gets traits;
     if \<not> um_contains ts (tb_name b)
     then do {report (tb_span b) (''trait '' @ q (tb_name b) @ '' is not defined''); collect_bounds name acc bs}
     else if tb_name b \<in> set acc
     then do {
       report (tb_span b) (''trait bound '' @ q (tb_name b) @ '' is repeated for generic parameter '' @ q name);
       collect_bounds name acc bs}
     else collect_bounds name (acc @ [tb_name b]) bs}"

definition add_generic :: "generic_env \<Rightarrow> generic_param \<Rightarrow> generic_env chk" where
  "add_generic env p = do {
     ss \<leftarrow> gets structs;
     let name = gp_name p;
     if um_contains env name
     then do {report (gp_span p) (''generic parameter '' @ q name @ '' is already defined''); ret env}
     else if um_contains ss name
     then do {
       report (gp_span p) (''generic parameter '' @ q name @ '' conflicts with a struct of the same name'');
       ret env}
     else if isBuiltinTypeName name
     then do {
       report (gp_span p) (''generic parameter '' @ q name @ '' conflicts with a builtin type name'');
       ret env}
     else do {
       bounds \<leftarrow> collect_bounds name [] (gp_bounds p);
       ret (um_emplace name \<lparr>gi_bounds = bounds, gi_span = gp_span p\<rparr> env)}}"

definition makeGenericEnv :: "fn_decl \<Rightarrow> generic_env chk" where
  "makeGenericEnv fn = foldM add_generic [] (fn_genericParams fn)"

definition declare_param :: "(htype \<Rightarrow> htype) \<Rightarrow> param \<Rightarrow> unit chk" where
  "declare_param adjust p =
     (case pm_type p of
        None \<Rightarrow> ret ()
      | Some tr \<Rightarrow> do {
          t \<leftarrow> typeFromAst tr;
          depth \<leftarrow> gets regionDepth;
          declare_binding (pm_name p)
            (default_binding\<lparr>b_type := adjust t, b_span := tr_span tr, b_origin := OriginOrdinary,
               b_regionDepth := depth\<rparr>)})"

fun declare_method_params :: "string \<Rightarrow> param list \<Rightarrow> unit chk" where
  "declare_method_params self [] = ret ()"
| "declare_method_params self (p # ps) = do {
     declare_param (if pm_name p = ''self'' then with_name self else id) p;
     for_each ps (declare_param id)}"

definition check_body :: "fn_decl \<Rightarrow> unit chk" where
  "check_body fn = (case fn_body fn of Some b \<Rightarrow> do {checkBlock b; ret ()} | None \<Rightarrow> ret ())"

definition check_in_scope :: "unit chk \<Rightarrow> fn_decl \<Rightarrow> unit chk" where
  "check_in_scope declare_params fn = do {
     pushScope;
     declare_params;
     check_body fn;
     popScope}"

definition no_error :: "bool chk" where
  "no_error = gets (\<lambda>s. \<not> DiagnosticEngine_hasError (diags s))"

definition checkFn :: "fn_decl \<Rightarrow> bool chk" where
  "checkFn fn = do {
     previousReturnType \<leftarrow> gets currentReturnType;
     previousGenericParams \<leftarrow> gets currentGenericParams;
     env \<leftarrow> makeGenericEnv fn;
     update (\<lambda>s. s\<lparr>currentGenericParams := env\<rparr>);
     returnType \<leftarrow> typeFromAst_or (fn_returnType fn) unitType;
     update (\<lambda>s. s\<lparr>currentReturnType := returnType\<rparr>);
     check_in_scope (for_each (fn_params fn) (declare_param id)) fn;
     update (\<lambda>s. s\<lparr>currentGenericParams := previousGenericParams, currentReturnType := previousReturnType\<rparr>);
     no_error}"

definition checkMethod :: "string \<Rightarrow> fn_decl \<Rightarrow> bool chk" where
  "checkMethod selfTypeName fn = do {
     previousReturnType \<leftarrow> gets currentReturnType;
     returnType \<leftarrow> typeFromAst_or (fn_returnType fn) unitType;
     update (\<lambda>s. s\<lparr>currentReturnType := returnType\<rparr>);
     check_in_scope (declare_method_params selfTypeName (fn_params fn)) fn;
     update (\<lambda>s. s\<lparr>currentReturnType := previousReturnType\<rparr>);
     no_error}"

fun check_methods :: "string \<Rightarrow> fn_decl option list \<Rightarrow> bool chk" where
  "check_methods self [] = ret True"
| "check_methods self (None # ms) = check_methods self ms"
| "check_methods self (Some m # ms) = do {
     ok \<leftarrow> checkMethod self m;
     rest \<leftarrow> check_methods self ms;
     ret (ok \<and> rest)}"

fun checkDecl :: "decl \<Rightarrow> bool chk" where
  "checkDecl (DStruct d) = do {ok \<leftarrow> check_methods (sd_name d) (sd_methods d); e \<leftarrow> no_error; ret (ok \<and> e)}"
| "checkDecl (DTrait d) = no_error"
| "checkDecl (DImpl d) = do {ok \<leftarrow> check_methods (id_typeName d) (id_methods d); e \<leftarrow> no_error; ret (ok \<and> e)}"
| "checkDecl (DFn fn) = checkFn fn"

fun check_decls :: "decl option list \<Rightarrow> bool chk" where
  "check_decls [] = ret True"
| "check_decls (None # ds) = do {check_decls ds; ret False}"
| "check_decls (Some d # ds) = do {
     update (\<lambda>s. s\<lparr>currentDecl := Some d\<rparr>);
     ok \<leftarrow> checkDecl d;
     update (\<lambda>s. s\<lparr>currentDecl := None\<rparr>);
     rest \<leftarrow> check_decls ds;
     ret (ok \<and> rest)}"

definition Sema_check :: "ast_file \<Rightarrow> bool chk" where
  "Sema_check f = do {
     collectModules f;
     collectStructs f;
     collectTraits f;
     collectImplMethods f;
     collectFunctionSignatures f;
     validateTraitImpls f;
     ok \<leftarrow> check_decls (sf_declarations f);
     e \<leftarrow> no_error;
     ret (ok \<and> e)}"

end
