(* ===== verification/Gura_Sema_Verdict.thy ===== *)
theory Gura_Sema_Verdict
  imports Gura_Sema_Moves Gura_Sema_Decls
begin

section \<open>The verdict of the checker\<close>

text \<open>
  The checker reports errors only and never takes one back, so that its verdict is whether an error was
  reported; the function tables it collects resolve; a program it accepts conforms to its traits and
  moves no binding twice. The relation \<open>only_errors\<close> (diagnostics grow by errors) interprets the interface
  \<open>kept_by_checker\<close> of \<^verbatim>\<open>Gura_Sema_Frame\<close>.
\<close>

subsection \<open>Only errors are reported\<close>

definition only_errors :: "sema \<Rightarrow> sema \<Rightarrow> bool" where
  "only_errors s t \<longleftrightarrow>
     (\<exists>ds. diagnostics (diags t) = diagnostics (diags s) @ ds \<and> (\<forall>d \<in> set ds. diag_severity d = Error))"

lemma only_errors_same: "diags t = diags s \<Longrightarrow> only_errors s t"
  by (simp add: only_errors_def)

lemma only_errors_trans: "only_errors s t \<Longrightarrow> only_errors t u \<Longrightarrow> only_errors s u"
  unfolding only_errors_def by (metis UnE append.assoc set_append)

lemma only_errors_report: "only_errors s (s\<lparr>diags := DiagnosticEngine_error sp msg (diags s)\<rparr>)"
  by (simp add: only_errors_def DiagnosticEngine_error_def DiagnosticEngine_report_def)

interpretation errors: kept_relation only_errors
  by unfold_locales (auto intro: only_errors_same only_errors_trans only_errors_report)

lemma errors_update: "(\<And>s. diags (f s) = diags s) \<Longrightarrow> errors.io (update f)"
  by (simp add: state_io_rel_def only_errors_same)

lemma errors_block:
  assumes "errors.io m" shows "errors.io (block_scope m)"
  unfolding block_scope_def pushScope_def popScope_def
  by (intro errors.io_intros errors_update assms) simp_all

lemma errors_region:
  assumes "errors.io m" shows "errors.io (region_scope kind m)"
  unfolding region_scope_defs by (intro errors.io_intros errors_update assms) simp_all

lemma errors_declare: "errors.io (declare_binding name b)"
  unfolding declare_binding_def pushScope_def by (intro errors.io_intros errors_update) simp_all

interpretation errors: kept_by_checker only_errors
  by unfold_locales
     (auto intro: errors_declare errors_block errors_region errors_update simp: modify_binding_def)

lemma no_error_no_change:
  assumes "only_errors s t" "\<not> DiagnosticEngine_hasError (diags t)"
  shows "diags t = diags s"
proof -
  obtain ds where ds: "diagnostics (diags t) = diagnostics (diags s) @ ds" "\<forall>d \<in> set ds. diag_severity d = Error"
    using assms(1) by (auto simp: only_errors_def)
  then have "ds = []"
    using assms(2) by (cases ds) (auto simp: engine.has_error_entries)
  with ds show ?thesis by (simp add: diagnostics_eq)
qed

lemma error_kept: "only_errors s t \<Longrightarrow> DiagnosticEngine_hasError (diags s) \<Longrightarrow> DiagnosticEngine_hasError (diags t)"
  by (auto simp: only_errors_def engine.has_error_entries)


subsection \<open>The declaration phases\<close>

text \<open>The phases that collect declarations leave the scopes alone and keep the function keys resolvable.\<close>

definition calm :: "sema \<Rightarrow> sema \<Rightarrow> bool" where
  "calm s t \<longleftrightarrow> only_errors s t \<and> scopes t = scopes s \<and> (resolvable s \<longrightarrow> resolvable t)"

interpretation calm: kept_relation calm
  by unfold_locales (auto simp: calm_def resolvable_def intro: only_errors_same only_errors_report only_errors_trans)

lemma calm_update:
  "(\<And>s. diags (f s) = diags s \<and> scopes (f s) = scopes s \<and> (resolvable s \<longrightarrow> resolvable (f s))) \<Longrightarrow> calm.io (update f)"
  by (simp add: state_io_rel_def calm_def only_errors_same)

lemma calm_foldM: "(\<And>acc x. x \<in> set xs \<Longrightarrow> calm.io (f acc x)) \<Longrightarrow> calm.io (foldM f acc xs)"
  by (induction xs arbitrary: acc) (auto intro!: calm.io_intros)

lemma calm_params: "calm.io (param_types ps)" "calm.io (signature_params sp ps)"
  by (induction ps) (auto intro!: calm.io_intros calm.io_plain)

lemma calm_makeMethodInfo: "calm.io (makeMethodInfo m self req)"
  unfolding makeMethodInfo_def method_rest_def
  by (intro calm.io_intros calm.io_plain calm_params)

lemma calm_collectMethods: "calm.io (collectMethods ms self req info)"
  unfolding collectMethods_def collectMethod_def
  by (intro calm_foldM calm.io_intros calm_makeMethodInfo)

lemma calm_collectModules: "calm.io (collectModules f)"
  unfolding collectModules_def
  by (intro calm.io_intros calm_update) (auto simp: resolvable_def)

lemma calm_collectStructs: "calm.io (collectStructs f)"
  unfolding collectStructs_def collect_struct_def collect_field_def
  by (intro calm.io_intros calm_update)
     (auto split: option.splits decl.splits simp: resolvable_def
       intro!: calm.io_intros calm_update calm_foldM calm.io_plain calm_collectMethods)

lemma calm_collectTraits: "calm.io (collectTraits f)"
  unfolding collectTraits_def collect_trait_def collectTraitMethod_def
  by (intro calm.io_intros calm_update)
     (auto split: option.splits decl.splits simp: resolvable_def
       intro!: calm.io_intros calm_update calm_foldM calm_makeMethodInfo)

lemma calm_collectImplMethods: "calm.io (collectImplMethods f)"
  unfolding collectImplMethods_def collect_impl_def
  by (auto split: option.splits decl.splits simp: resolvable_def
       intro!: calm.io_intros calm_update calm.io_plain calm_collectMethods)

lemma calm_validateTraitImpls: "calm.io (validateTraitImpls f)"
  unfolding validateTraitImpls_def validate_impl_def validate_members_def check_trait_method_def
  by (auto split: option.splits decl.splits
       intro!: calm.io_intros calm.io_plain calm_makeMethodInfo)

lemma um_set_entry: "p \<in> set (um_set k v m) \<Longrightarrow> p = (k, v) \<or> p \<in> set m"
  by (induction k v m rule: um_set.induct) (auto split: if_splits)

lemma push_simple_key_entry:
  assumes "p \<in> set (push_simple_key name key m)" "k \<in> set (snd p)"
  shows "k = key \<or> (\<exists>p' \<in> set m. k \<in> set (snd p'))"
  using assms
  by (auto simp: push_simple_key_def dest!: um_set_entry split: option.splits dest: map_of_SomeD) (metis map_of_SomeD snd_conv)

lemma resolvable_add:
  assumes "resolvable s" "um_contains fs key" "\<And>k. um_contains (all_functions s) k \<Longrightarrow> um_contains fs k"
    and "\<And>p. p \<in> set qs \<Longrightarrow> snd p = key \<or> p \<in> set (qualifiedFunctionKeys s)"
  shows "resolvable (s\<lparr>all_functions := fs, simpleFunctionKeys := push_simple_key name key (simpleFunctionKeys s),
    qualifiedFunctionKeys := qs\<rparr>)"
  using assms by (auto simp: resolvable_def dest: push_simple_key_entry) (metis snd_conv)

lemma um_contains_emplace: "um_contains (um_emplace k v m) x \<longleftrightarrow> x = k \<or> um_contains m x"
  by (auto simp: um_emplace_def um_contains_iff)

lemma calm_addBuiltin: "calm.io (addBuiltin name t ps)"
  unfolding addBuiltin_def
  by (intro calm_update) (auto simp: um_contains_emplace intro!: resolvable_add dest!: um_set_entry)

lemma calm_collect_function: "calm.io (collect_function fn)"
proof -
  have "resolvable s \<Longrightarrow> resolvable (s\<lparr>
       all_functions := um_emplace key sig (all_functions s),
       simpleFunctionKeys := push_simple_key name key (simpleFunctionKeys s),
       qualifiedFunctionKeys :=
         (if c then um_set key key (qualifiedFunctionKeys s) else qualifiedFunctionKeys s)\<rparr>)" for s key sig name c
    by (rule resolvable_add) (auto simp: um_contains_emplace dest!: um_set_entry split: if_splits)
  then show ?thesis
    unfolding collect_function_def
    by (intro calm.io_intros calm.io_plain calm_params calm_update) auto
qed

lemma collectFunctionSignatures_resolvable:
  assumes "run_state (collectFunctionSignatures f) s = ((), t)"
  shows "only_errors s t \<and> scopes t = scopes s \<and> resolvable t"
proof -
  let ?s0 = "s\<lparr>all_functions := [], qualifiedFunctionKeys := [], simpleFunctionKeys := []\<rparr>"
  let ?rest = "do {
     addBuiltin ''puts'' (numericType ''i32'') [cstringType];
     addBuiltin ''print'' unitType [cstringType];
     addBuiltin ''println'' unitType [cstringType];
     addBuiltin ''print_i64'' unitType [numericType ''i64''];
     addBuiltin ''println_i64'' unitType [numericType ''i64''];
     addBuiltin ''readln_i64'' (numericType ''i64'') [];
     for_each (sf_declarations f) (\<lambda>d. case d of Some (DFn fn) \<Rightarrow> collect_function fn | _ \<Rightarrow> ret ())}"
  have "run_state ?rest ?s0 = ((), t)"
    using assms unfolding collectFunctionSignatures_def by (elim run_bindE) simp
  moreover have "calm.io ?rest"
    by (auto intro!: calm.io_intros calm_addBuiltin calm_collect_function split: option.splits decl.splits)
  ultimately have "calm ?s0 t"
    unfolding state_io_rel_def by (metis snd_conv)
  moreover have "resolvable ?s0" by (simp add: resolvable_def)
  ultimately show ?thesis by (simp add: calm_def only_errors_def)
qed

text \<open>Name resolution never dangles: after the signatures of a file have been collected, whatever key
  the resolution of a function name returns, from any declaration and for any path, is the key of a
  collected function, and its signature is found.\<close>

lemma resolved_function_exists:
  assumes "run_state (collectFunctionSignatures f) s = ((), t)"
    and "run_state (resolveFunctionName p d sp) t = (Some key, u)"
  shows "\<exists>sig. um_find (all_functions t) key = Some sig"
  using resolve_found [of t p d sp key] collectFunctionSignatures_resolvable [OF assms(1)] assms(2)
  by (simp add: um_contains_find)

subsection \<open>Checking the declarations\<close>

text \<open>What is left behind between two declarations, and what a body that was checked silently satisfies.\<close>

definition between_decls :: "sema \<Rightarrow> bool" where
  "between_decls s \<longleftrightarrow> scopes s = [] \<and> resolvable s"

definition body_moves_once :: "fn_decl \<Rightarrow> bool" where
  "body_moves_once fn \<longleftrightarrow>
     (\<forall>b x. fn_body fn = Some b \<longrightarrow> plain_uses x (subexprs_block b) \<longrightarrow> moves_in x (subexprs_block b) \<le> 1)"

lemma frame_declare_param: "frame.io (declare_param g p)"
  unfolding declare_param_def by (intro frame.io_intros frame.io_plain frame.R_declare)

lemma frame_declare_method_params: "frame.io (declare_method_params self ps)"
  by (cases ps) (auto intro!: frame.io_intros frame_declare_param)

lemma frame_check_body: "frame.io (check_body fn)"
  unfolding check_body_def by (intro frame.io_intros frame.checkBlock_kept)

lemma affine_check_body:
  assumes "checkable s" "diags (snd (run_state (check_body fn) s)) = diags s"
  shows "body_moves_once fn"
  unfolding body_moves_once_def
proof (intro allI impI)
  fix b x assume b: "fn_body fn = Some b" and plain: "plain_uses x (subexprs_block b)"
  have "good x y" if "Some y \<in> set (blk_expressions b)" for y
    using that plain good_expr block_plain unfolding good_def by blast
  then have "affine x (moves_in x (subexprs_block b)) (check_block_opt checkExpr (Some b))"
    using af_block_opt [of "Some b" x] by simp
  then have "affine x (moves_in x (subexprs_block b)) (check_body fn)"
    by (simp add: check_body_def b checkBlock_def check_block_opt_def af_then quiet.io_ret)
  then show "moves_in x (subexprs_block b) \<le> 1"
    using assms by (auto simp: affine_def affine_at_def accounts_def)
qed

lemma in_scope:
  assumes s: "between_decls s" and ps: "frame.io ps" "errors.io ps"
    and run: "run_state (check_in_scope ps fn) s = ((), t)"
  shows "between_decls t \<and> tables t = tables s \<and> only_errors s t \<and> (diags t = diags s \<longrightarrow> body_moves_once fn)"
proof -
  let ?s1 = "s\<lparr>scopes := [[]]\<rparr>"
  define s2 where "s2 = snd (run_state ps ?s1)"
  define s3 where "s3 = snd (run_state (check_body fn) s2)"
  have t: "t = s3\<lparr>scopes := butlast (scopes s3)\<rparr>"
    using run s by (simp add: check_in_scope_def pushScope_def popScope_def s2_def s3_def between_decls_def case_prod_beta)
  have s1: "checkable ?s1" using s by (simp add: checkable_def wf_scopes_def between_decls_def resolvable_def)
  have f2: "sema_frame ?s1 s2" using ps(1) by (simp add: state_io_rel_def s2_def)
  then have s2: "checkable s2" using checkable_frame s1 by blast
  have f3: "sema_frame s2 s3" using frame_check_body by (simp add: state_io_rel_def s3_def)
  then have s3: "checkable s3" using checkable_frame s2 by blast
  have wf: "wf_scopes (scopes ?s1)" "wf_scopes (scopes s2)" using s1 s2 by (simp_all add: checkable_def)
  have "length (scopes s3) = 1"
    using frame_length [OF f2 wf(1)] frame_length [OF f3 wf(2)] by simp
  then have scopes: "scopes t = []" by (cases "scopes s3") (auto simp: t)
  have tabs: "tables t = tables s" using f2 f3 wf by (simp add: sema_frame_def t)
  have res: "resolvable t" using s3 by (simp add: t checkable_def resolvable_def)
  have e12: "only_errors ?s1 s2" using ps(2) by (simp add: state_io_rel_def s2_def)
  have "errors.io (check_body fn)"
    unfolding check_body_def by (intro errors.io_intros errors.checkBlock_kept)
  then have e23: "only_errors s2 s3" by (simp add: state_io_rel_def s3_def)
  have errs: "only_errors s t"
    using only_errors_trans [OF e12 e23] by (simp add: only_errors_def t)
  have "body_moves_once fn" if "diags t = diags s"
  proof (rule affine_check_body [OF s2])
    have "extends_diags ?s1 s2" "extends_diags s2 s3" using f2 f3 wf by (auto simp: sema_frame_def)
    then have "diags s2 = diags ?s1" using diags_antisym [of ?s1 s2 s3] that by (simp add: t)
    then show "diags (snd (run_state (check_body fn) s2)) = diags s2" using that by (simp add: t s3_def)
  qed
  with scopes tabs res errs show ?thesis by (simp add: between_decls_def)
qed

definition fn_checked :: "fn_decl \<Rightarrow> sema \<Rightarrow> bool \<times> sema \<Rightarrow> bool" where
  "fn_checked fn s r \<longleftrightarrow> between_decls (snd r) \<and> only_errors s (snd r) \<and>
     fst r = (\<not> DiagnosticEngine_hasError (diags (snd r))) \<and>
     (\<not> DiagnosticEngine_hasError (diags (snd r)) \<longrightarrow> body_moves_once fn)"

lemma calm_makeGenericEnv: "calm.io (makeGenericEnv fn)"
proof -
  have "calm.io (collect_bounds name acc bs)" for name acc bs
    by (induction name acc bs rule: collect_bounds.induct) (auto intro!: calm.io_intros)
  then show ?thesis
    unfolding makeGenericEnv_def add_generic_def by (intro calm_foldM calm.io_intros)
qed

lemma calm_between: "calm s t \<Longrightarrow> between_decls s \<Longrightarrow> between_decls t \<and> only_errors s t"
  by (simp add: calm_def between_decls_def)

lemma fn_checked_scope:
  assumes "between_decls s" "calm.io pre" "run_state pre s = ((), s1)" "frame.io ps" "errors.io ps"
    and "run_state (check_in_scope ps fn) s1 = ((), t)" "diags u = diags t" "scopes u = scopes t"
    and "resolvable t \<Longrightarrow> resolvable u"
  shows "fn_checked fn s (\<not> DiagnosticEngine_hasError (diags u), u)"
proof -
  have "calm s s1" using assms(2,3) unfolding state_io_rel_def by (metis snd_conv)
  then have s1: "between_decls s1" "only_errors s s1" using calm_between assms(1) by auto
  from in_scope [OF s1(1) assms(4,5,6)] have t: "between_decls t" "only_errors s1 t"
    "diags t = diags s1 \<Longrightarrow> body_moves_once fn" by auto
  have "body_moves_once fn" if "\<not> DiagnosticEngine_hasError (diags u)"
    using t(3) no_error_no_change [OF t(2)] that assms(7) by simp
  moreover have "only_errors s u"
    using only_errors_trans [OF s1(2) t(2)] assms(7) by (simp add: only_errors_def)
  ultimately show ?thesis
    using t(1) assms(7-9) by (simp add: fn_checked_def between_decls_def)
qed

lemma errors_declare_param: "errors.io (declare_param g p)"
  unfolding declare_param_def by (intro errors.io_intros errors.io_plain errors_declare)

lemma errors_declare_method_params: "errors.io (declare_method_params self ps)"
  by (cases ps) (auto intro!: errors.io_intros errors_declare_param)

lemma fn_checked_checkFn:
  assumes s: "between_decls s"
  shows "fn_checked fn s (run_state (checkFn fn) s)"
proof -
  let ?pre = "do {
     env \<leftarrow> makeGenericEnv fn;
     update (\<lambda>s. s\<lparr>currentGenericParams := env\<rparr>);
     returnType \<leftarrow> typeFromAst_or (fn_returnType fn) unitType;
     update (\<lambda>s. s\<lparr>currentReturnType := returnType\<rparr>)}"
  let ?ps = "for_each (fn_params fn) (declare_param id)"
  define s1 where "s1 = snd (run_state ?pre s)"
  define t where "t = snd (run_state (check_in_scope ?ps fn) s1)"
  define u where "u = t\<lparr>currentGenericParams := currentGenericParams s, currentReturnType := currentReturnType s\<rparr>"
  have run: "run_state (checkFn fn) s = (\<not> DiagnosticEngine_hasError (diags u), u)"
    by (simp add: checkFn_def no_error_def s1_def t_def u_def case_prod_beta)
  show ?thesis
    unfolding run
  proof (rule fn_checked_scope [OF s])
    show "calm.io ?pre"
      by (intro calm.io_intros calm_makeGenericEnv calm.io_plain calm_update) (auto simp: resolvable_def)
    show "run_state ?pre s = ((), s1)" "run_state (check_in_scope ?ps fn) s1 = ((), t)"
      by (simp_all add: s1_def t_def prod_eq_iff)
    show "frame.io ?ps" by (intro frame.io_for_each frame_declare_param)
    show "errors.io ?ps" by (intro errors.io_for_each errors_declare_param)
  qed (simp_all add: u_def resolvable_def)
qed

lemma fn_checked_checkMethod:
  assumes s: "between_decls s"
  shows "fn_checked fn s (run_state (checkMethod self fn) s)"
proof -
  let ?pre = "do {
     returnType \<leftarrow> typeFromAst_or (fn_returnType fn) unitType;
     update (\<lambda>s. s\<lparr>currentReturnType := returnType\<rparr>)}"
  let ?ps = "declare_method_params self (fn_params fn)"
  define s1 where "s1 = snd (run_state ?pre s)"
  define t where "t = snd (run_state (check_in_scope ?ps fn) s1)"
  define u where "u = t\<lparr>currentReturnType := currentReturnType s\<rparr>"
  have run: "run_state (checkMethod self fn) s = (\<not> DiagnosticEngine_hasError (diags u), u)"
    by (simp add: checkMethod_def no_error_def s1_def t_def u_def case_prod_beta)
  show ?thesis
    unfolding run
  proof (rule fn_checked_scope [OF s])
    show "calm.io ?pre"
      by (intro calm.io_intros calm.io_plain calm_update) (auto simp: resolvable_def)
    show "run_state ?pre s = ((), s1)" "run_state (check_in_scope ?ps fn) s1 = ((), t)"
      by (simp_all add: s1_def t_def prod_eq_iff)
  qed (simp_all add: u_def resolvable_def frame_declare_method_params errors_declare_method_params)
qed

text \<open>The functions and methods with a body that a declaration has checked.\<close>

fun decl_functions :: "decl \<Rightarrow> fn_decl list" where
  "decl_functions (DFn fn) = [fn]"
| "decl_functions (DStruct d) = concat (map (\<lambda>m. case m of Some m \<Rightarrow> [m] | None \<Rightarrow> []) (sd_methods d))"
| "decl_functions (DTrait d) = []"
| "decl_functions (DImpl d) = concat (map (\<lambda>m. case m of Some m \<Rightarrow> [m] | None \<Rightarrow> []) (id_methods d))"

definition all_checked :: "fn_decl list \<Rightarrow> sema \<Rightarrow> bool \<times> sema \<Rightarrow> bool" where
  "all_checked fns s r \<longleftrightarrow> between_decls (snd r) \<and> only_errors s (snd r) \<and>
     (\<not> DiagnosticEngine_hasError (diags (snd r)) \<longrightarrow> fst r \<and> (\<forall>fn \<in> set fns. body_moves_once fn))"

lemma all_checked_step:
  assumes s: "fn_checked fn s (ok, s1)" and rest: "all_checked fns s1 (ok', t)"
  shows "all_checked (fn # fns) s (ok \<and> ok', t)"
proof -
  have e: "only_errors s s1" "only_errors s1 t"
    using s rest by (auto simp: fn_checked_def all_checked_def)
  then have "\<not> DiagnosticEngine_hasError (diags t) \<Longrightarrow> \<not> DiagnosticEngine_hasError (diags s1)"
    using error_kept by blast
  with s rest only_errors_trans [OF e] show ?thesis
    by (auto simp: fn_checked_def all_checked_def)
qed

lemma all_checked_methods:
  "between_decls s \<Longrightarrow>
   all_checked (concat (map (\<lambda>m. case m of Some m \<Rightarrow> [m] | None \<Rightarrow> []) ms)) s (run_state (check_methods self ms) s)"
proof (induction self ms arbitrary: s rule: check_methods.induct)
  case (1 self)
  then show ?case by (simp add: all_checked_def errors.R_refl)
next
  case (2 self ms)
  then show ?case by simp
next
  case (3 self m ms)
  obtain ok s1 where m: "run_state (checkMethod self m) s = (ok, s1)" by fastforce
  obtain ok' t where ms: "run_state (check_methods self ms) s1 = (ok', t)" by fastforce
  have "fn_checked m s (ok, s1)" using fn_checked_checkMethod [OF 3(2), of m self] m by simp
  moreover from this have "between_decls s1" by (simp add: fn_checked_def)
  with 3(1) ms have "all_checked (concat (map (\<lambda>m. case m of Some m \<Rightarrow> [m] | None \<Rightarrow> []) ms)) s1 (ok', t)"
    by metis
  ultimately show ?case using all_checked_step m ms by simp
qed

lemma all_checked_no_error:
  "all_checked fns s (run_state m s) \<Longrightarrow>
   all_checked fns s (run_state (do {ok \<leftarrow> m; e \<leftarrow> no_error; ret (ok \<and> e)}) s)"
  by (auto simp: all_checked_def no_error_def case_prod_beta)

lemma all_checked_decl: "between_decls s \<Longrightarrow> all_checked (decl_functions d) s (run_state (checkDecl d) s)"
proof (induction d rule: checkDecl.induct)
  case (1 d)
  then show ?case unfolding checkDecl.simps decl_functions.simps
    by (intro all_checked_no_error all_checked_methods)
next
  case (2 d)
  then show ?case by (simp add: all_checked_def no_error_def errors.R_refl)
next
  case (3 d)
  then show ?case unfolding checkDecl.simps decl_functions.simps
    by (intro all_checked_no_error all_checked_methods)
next
  case (4 fn)
  then show ?case using fn_checked_checkFn [of s fn] by (simp add: fn_checked_def all_checked_def)
qed


subsection \<open>The verdict\<close>

definition program_functions :: "decl option list \<Rightarrow> fn_decl list" where
  "program_functions ds = concat (map (\<lambda>d. case d of Some d \<Rightarrow> decl_functions d | None \<Rightarrow> []) ds)"

definition decls_checked :: "decl option list \<Rightarrow> sema \<Rightarrow> bool \<times> sema \<Rightarrow> bool" where
  "decls_checked ds s r \<longleftrightarrow> between_decls (snd r) \<and> only_errors s (snd r) \<and>
     (fst r \<longrightarrow> None \<notin> set ds) \<and>
     (\<not> DiagnosticEngine_hasError (diags (snd r)) \<longrightarrow>
        (fst r \<longleftrightarrow> None \<notin> set ds) \<and> (\<forall>fn \<in> set (program_functions ds). body_moves_once fn))"

lemma between_currentDecl: "between_decls (s\<lparr>currentDecl := d\<rparr>) \<longleftrightarrow> between_decls s"
  by (simp add: between_decls_def resolvable_def)

lemma only_errors_currentDecl:
  "only_errors (s\<lparr>currentDecl := d\<rparr>) t \<longleftrightarrow> only_errors s t" "only_errors s (t\<lparr>currentDecl := d\<rparr>) \<longleftrightarrow> only_errors s t"
  by (simp_all add: only_errors_def)

lemma decls_checked_loop: "between_decls s \<Longrightarrow> decls_checked ds s (run_state (check_decls ds) s)"
proof (induction ds arbitrary: s rule: check_decls.induct)
  case 1
  then show ?case by (simp add: decls_checked_def program_functions_def errors.R_refl)
next
  case (2 ds)
  obtain ok t where "run_state (check_decls ds) s = (ok, t)" by fastforce
  with 2 show ?case by (fastforce simp: decls_checked_def program_functions_def)
next
  case (3 d ds)
  let ?s1 = "s\<lparr>currentDecl := Some d\<rparr>"
  obtain ok s2 where d: "run_state (checkDecl d) ?s1 = (ok, s2)" by fastforce
  let ?s3 = "s2\<lparr>currentDecl := None\<rparr>"
  obtain ok' t where ds: "run_state (check_decls ds) ?s3 = (ok', t)" by fastforce
  have cd: "all_checked (decl_functions d) ?s1 (ok, s2)"
    using all_checked_decl [of ?s1 d] 3(2) d by (simp add: between_currentDecl)
  then have rest: "decls_checked ds ?s3 (ok', t)"
    using 3(1) [of ?s3] ds by (simp add: all_checked_def between_currentDecl)
  have e: "only_errors s s2" "only_errors s2 t"
    using cd rest by (simp_all add: all_checked_def decls_checked_def only_errors_currentDecl)
  have "\<not> DiagnosticEngine_hasError (diags t) \<Longrightarrow> \<not> DiagnosticEngine_hasError (diags s2)"
    using error_kept [OF e(2)] by blast
  with cd rest only_errors_trans [OF e] show ?case
    by (auto simp: d ds decls_checked_def all_checked_def program_functions_def)
qed

definition collected :: "ast_file \<Rightarrow> unit chk" where
  "collected f = do {
     collectModules f;
     collectStructs f;
     collectTraits f;
     collectImplMethods f;
     collectFunctionSignatures f;
     validateTraitImpls f}"

lemma collected_between:
  assumes "scopes s = []" "run_state (collected f) s = ((), t)"
  shows "between_decls t \<and> only_errors s t"
proof -
  let ?pre = "do {collectModules f; collectStructs f; collectTraits f; collectImplMethods f}"
  have "run_state (?pre \<bind> (\<lambda>_. do {collectFunctionSignatures f; validateTraitImpls f})) s = ((), t)"
    using assms(2) by (simp add: collected_def)
  then obtain s1 s2 where 1: "run_state ?pre s = ((), s1)"
    and 2: "run_state (collectFunctionSignatures f) s1 = ((), s2)" and 3: "run_state (validateTraitImpls f) s2 = ((), t)"
    by (elim run_bindE) auto
  have "calm.io ?pre"
    by (intro calm.io_intros calm_collectModules calm_collectStructs calm_collectTraits calm_collectImplMethods)
  with 1 have "calm s s1" unfolding state_io_rel_def by (metis snd_conv)
  moreover have "calm s2 t" using 3 calm_validateTraitImpls [of f] unfolding state_io_rel_def by (metis snd_conv)
  ultimately show ?thesis
    using collectFunctionSignatures_resolvable [OF 2] assms(1)
    by (auto simp: calm_def between_decls_def intro: only_errors_trans)
qed

lemma Sema_check_run:
  assumes "scopes s = []"
  shows "\<exists>ok t. run_state (Sema_check f) s = (ok \<and> \<not> DiagnosticEngine_hasError (diags t), t) \<and>
    decls_checked (sf_declarations f) s (ok, t)"
proof -
  obtain s1 where s1: "run_state (collected f) s = ((), s1)" by (metis old.unit.exhaust prod.collapse)
  obtain ok t where t: "run_state (check_decls (sf_declarations f)) s1 = (ok, t)" by fastforce
  have "Sema_check f = collected f \<bind> (\<lambda>_. do {
      ok \<leftarrow> check_decls (sf_declarations f); e \<leftarrow> no_error; ret (ok \<and> e)})"
    by (simp add: Sema_check_def collected_def)
  then have "run_state (Sema_check f) s = (ok \<and> \<not> DiagnosticEngine_hasError (diags t), t)"
    using s1 t by (simp add: no_error_def)
  moreover have "decls_checked (sf_declarations f) s (ok, t)"
    using decls_checked_loop [of s1 "sf_declarations f"] collected_between [OF assms s1] t
    by (auto simp: decls_checked_def intro: only_errors_trans)
  ultimately show ?thesis by blast
qed

text \<open>C18. The verdict of the checker: a file is accepted exactly when every declaration was parsed (none is
  null) and no error is recorded at the end; and the checker itself only ever adds errors to the record.\<close>

theorem Sema_check_verdict:
  assumes "run_state (Sema_check f) (Sema_init de) = (ok, t)"
  shows "(ok \<longleftrightarrow> None \<notin> set (sf_declarations f) \<and> \<not> DiagnosticEngine_hasError (diags t)) \<and>
    (\<exists>ds. diagnostics (diags t) = diagnostics de @ ds \<and> (\<forall>d \<in> set ds. diag_severity d = Error))"
proof -
  have "scopes (Sema_init de) = []" "diags (Sema_init de) = de" by (simp_all add: Sema_init_def)
  with Sema_check_run [of "Sema_init de" f] assms show ?thesis
    by (auto simp: decls_checked_def only_errors_def)
qed



text \<open>A file with one function that moves its isolated parameter.\<close>

definition sample_fn :: fn_decl where
  "sample_fn = \<lparr>node_id = 0, node_span = default_span, d_modulePath = [], d_imports = [], fn_name = ''f'',
     fn_genericParams = [],
     fn_params = [\<lparr>pm_name = ''p'', pm_type = Some (TypeRef sample_node Cap_Iso ''N'' [''N''] False False None)\<rparr>],
     fn_returnType = None,
     fn_body = Some (BlockExpr sample_node
       [Some (BindingExpr sample_node False ''w'' None (Some (MoveExpr sample_node (sample_name ''p''))))])\<rparr>"

definition sample_file :: ast_file where
  "sample_file = \<lparr>node_id = 0, node_span = default_span, sf_explicitModule = None, sf_resolvedModule = [],
     sf_imports = [], sf_declarations = [Some (DFn sample_fn)]\<rparr>"

lemma sample_collect_steps:
  "run_state (collectModules sample_file) s = ((), s\<lparr>modules := []\<rparr>)"
  "run_state (collectStructs sample_file) s = ((), s\<lparr>structs := []\<rparr>)"
  "run_state (collectTraits sample_file) s = ((), s\<lparr>traits := []\<rparr>)"
  "run_state (collectImplMethods sample_file) s = ((), s)"
  "run_state (validateTraitImpls sample_file) s = ((), s)"
  by (simp_all add: collectModules_def collectStructs_def collectTraits_def collectImplMethods_def
      validateTraitImpls_def sample_file_def sample_fn_def)

lemma addBuiltin_sel:
  "diags (snd (run_state (addBuiltin n t ps) s)) = diags s" "scopes (snd (run_state (addBuiltin n t ps) s)) = scopes s"
  "regionDepth (snd (run_state (addBuiltin n t ps) s)) = regionDepth s"
  "um_contains (all_functions (snd (run_state (addBuiltin n t ps) s))) k \<longleftrightarrow> k = n \<or> um_contains (all_functions s) k"
  by (simp_all add: addBuiltin_def um_contains_emplace)

lemma sample_collect_function:
  assumes "\<not> um_contains (all_functions s) ''f''"
  shows "diags (snd (run_state (collect_function sample_fn) s)) = diags s \<and>
    scopes (snd (run_state (collect_function sample_fn) s)) = scopes s \<and>
    regionDepth (snd (run_state (collect_function sample_fn) s)) = regionDepth s"
  using assms
  by (simp add: collect_function_def sample_fn_def typeFromAst_or_def report_if_def function_key_def unitType_def
      capabilityFromAst_def Let_def)

lemma sample_signatures:
  "diags (snd (run_state (collectFunctionSignatures sample_file) s)) = diags s \<and>
   scopes (snd (run_state (collectFunctionSignatures sample_file) s)) = scopes s \<and>
   regionDepth (snd (run_state (collectFunctionSignatures sample_file) s)) = regionDepth s"
  by (simp add: collectFunctionSignatures_def sample_file_def case_prod_beta addBuiltin_sel sample_collect_function
      um_contains_iff [where m = "[]"])

lemma sample_declarations: "sf_declarations sample_file = [Some (DFn sample_fn)]"
  by (simp add: sample_file_def)

lemma declare_silent:
  "scopes u \<noteq> [] \<Longrightarrow> \<not> um_contains (last (scopes u)) name \<Longrightarrow>
   run_state (declare_binding name b) u = ((), u\<lparr>scopes := map_last (um_emplace name b) (scopes u)\<rparr>)"
  by (simp add: declare_binding_def)

lemma binding_silent:
  assumes "run_state (check_opt checkExpr i Ordinary unitType) u = (init, m)"
    and "scopes m \<noteq> []" "\<not> um_contains (last (scopes m)) name"
  shows "diags (snd (run_state (checkBinding checkExpr n v name None i) u)) = diags m"
proof -
  have "run_state (checkEscape t LocalBinding d sp) w = (True, w)" for t d sp w
    by (simp add: checkEscape_def)
  then show ?thesis
    using assms by (simp add: checkBinding_def typeFromAst_or_def report_if_def Let_def declare_silent)
qed

lemma sample_fn_sel:
  "fn_genericParams sample_fn = []" "fn_returnType sample_fn = None"
  "fn_params sample_fn =
     [\<lparr>pm_name = ''p'', pm_type = Some (TypeRef sample_node Cap_Iso ''N'' [''N''] False False None)\<rparr>]"
  by (simp_all add: sample_fn_def)

lemma sample_move:
  assumes "scopes u = [[(''p'', b)], []]" "b_availability b = Available"
  shows "run_state (checkMove sample_node (sample_name ''p'')) u =
    (b_type b, modified (0, ''p'') (\<lambda>b. b\<lparr>b_availability := Moved\<rparr>) u)"
  using assms by (simp add: checkMove_def lookup_def binding_def deref_def um_contains_def)

lemma sample_body:
  assumes "scopes u = [[(''p'', b)]]" "b_availability b = Available"
  shows "diags (snd (run_state (check_body sample_fn) u)) = diags u"
proof -
  let ?o = "block_opened u"
  let ?m = "modified (0, ''p'') (\<lambda>b. b\<lparr>b_availability := Moved\<rparr>) ?o"
  have move: "run_state (checkMove sample_node (sample_name ''p'')) ?o = (b_type b, ?m)"
    using assms by (intro sample_move) (simp_all add: block_opened_def)
  have m: "scopes ?m \<noteq> []" "\<not> um_contains (last (scopes ?m)) ''w''" "diags ?m = diags u"
    using assms by (simp_all add: modified_def block_opened_def um_contains_def)
  have "diags (snd (run_state (checkBinding checkExpr sample_node False ''w'' None (Some (MoveExpr sample_node (sample_name ''p'')))) ?o)) = diags u"
    using binding_silent [of "Some (MoveExpr sample_node (sample_name ''p''))", OF _ m(1,2)] move m(3)
    by (simp add: check_opt_def)
  then show ?thesis
    by (simp add: check_body_def sample_fn_def checkBlock_def checkBlock_with_def run_block_scope block_closed_def
        case_prod_beta)
qed

lemma sample_check_fn:
  assumes "diags s = \<lparr>diagnostics = []\<rparr>" "scopes s = []"
  shows "fst (run_state (checkFn sample_fn) s) \<and> diags (snd (run_state (checkFn sample_fn) s)) = \<lparr>diagnostics = []\<rparr>"
proof -
  let ?b = "default_binding\<lparr>b_type := mk_type Iso ''N'', b_span := default_span, b_origin := OriginOrdinary,
     b_regionDepth := regionDepth s\<rparr>"
  let ?u = "s\<lparr>currentGenericParams := [], currentReturnType := unitType, scopes := [[(''p'', ?b)]]\<rparr>"
  have "diags (snd (run_state (check_body sample_fn) ?u)) = \<lparr>diagnostics = []\<rparr>"
    using sample_body [of ?u ?b] assms by (simp add: default_binding_def)
  then show ?thesis
    using assms
    by (simp add: checkFn_def makeGenericEnv_def typeFromAst_or_def check_in_scope_def declare_param_def pushScope_def
        popScope_def declare_silent map_last_def um_emplace_def um_contains_def no_error_def case_prod_beta
        DiagnosticEngine_hasError_def capabilityFromAst_def sample_fn_sel sample_node_def)
qed

lemma sample_accepted: "fst (run_state (Sema_check sample_file) (Sema_init \<lparr>diagnostics = []\<rparr>))"
  using sample_check_fn [of "(snd (run_state (collectFunctionSignatures sample_file)
      ((Sema_init \<lparr>diagnostics = []\<rparr>)\<lparr>modules := [], structs := [], traits := []\<rparr>)))\<lparr>currentDecl := Some (DFn sample_fn)\<rparr>"]
    sample_signatures [of "(Sema_init \<lparr>diagnostics = []\<rparr>)\<lparr>modules := [], structs := [], traits := []\<rparr>"]
  by (simp add: Sema_check_def sample_collect_steps sample_declarations case_prod_beta no_error_def
      DiagnosticEngine_hasError_def Sema_init_def)

theorem Sema_check_verdict_witness:
  "fst (run_state (Sema_check sample_file) (Sema_init \<lparr>diagnostics = []\<rparr>)) \<longleftrightarrow>
   None \<notin> set (sf_declarations sample_file) \<and>
   \<not> DiagnosticEngine_hasError (diags (snd (run_state (Sema_check sample_file) (Sema_init \<lparr>diagnostics = []\<rparr>))))"
  using Sema_check_verdict [OF prod.collapse [symmetric], of sample_file "\<lparr>diagnostics = []\<rparr>"] by blast


end
