(* ===== verification/Gura_Sema_Traits.thy ===== *)
theory Gura_Sema_Traits
  imports Gura_Sema_Verdict
begin

section \<open>Conformance to traits\<close>

text \<open>
  An implementation of a trait that is validated without a diagnostic provides every method of the trait
  with the same signature, and nothing else. Validation changes nothing but the diagnostics, so that
  without a diagnostic every step of it runs in the same state.
\<close>

subsection \<open>Silent runs\<close>

lemma bind_silent:
  assumes "quiet.io m" "\<And>v. quiet.io (f v)" "diags (snd (run_state (m \<bind> f) s)) = diags s"
  shows "run_state m s = (fst (run_state m s), s) \<and> diags (snd (run_state (f (fst (run_state m s))) s)) = diags s"
proof -
  obtain v t where m: "run_state m s = (v, t)" by fastforce
  have q: "quiet s t" "quiet t (snd (run_state (f v) t))"
    using quiet_snd [OF assms(1), of s] quiet_snd [OF assms(2)] m by auto
  then have "diags t = diags s"
    using diags_antisym [of s t "snd (run_state (f v) t)"] assms(3) m by (simp add: quiet_def)
  then have "t = s" using quiet_same [OF assms(1) m] by simp
  with m assms(3) show ?thesis by simp
qed

lemma for_each_silent:
  assumes "\<And>x. quiet.io (f x)" "diags (snd (run_state (for_each xs f) s)) = diags s" "x \<in> set xs"
  shows "diags (snd (run_state (f x) s)) = diags s"
  using assms(2,3)
proof (induction xs)
  case (Cons y ys)
  have "run_state (f y) s = (fst (run_state (f y) s), s) \<and> diags (snd (run_state (for_each ys f) s)) = diags s"
    using Cons.prems(1) unfolding for_each.simps by (intro bind_silent assms(1) quiet.io_for_each)
  with Cons show ?case by (metis set_ConsD snd_conv)
qed simp

lemma quiet_params: "quiet.io (param_types ps)"
  by (induction ps) (auto intro!: quiet_intros)

lemma quiet_makeMethodInfo: "quiet.io (makeMethodInfo m self req)"
  unfolding makeMethodInfo_def method_rest_def by (intro quiet_intros quiet_params)

lemma quiet_check_trait_method: "quiet.io (check_trait_method d tn ms entry)"
  unfolding check_trait_method_def by (intro quiet_intros quiet_makeMethodInfo)

lemma quiet_validate_impl: "quiet.io (validate_impl d)"
  unfolding validate_impl_def validate_members_def by (intro quiet_intros quiet_check_trait_method)

lemma report_not_silent: "diags (snd (run_state (report sp msg) s)) \<noteq> diags s"
  using engine.report_changes [of Error sp msg "diags s"] by (simp add: report_def DiagnosticEngine_error_def)

lemma makeMethodInfo_silent:
  assumes "diags (snd (run_state (makeMethodInfo m self req) s)) = diags s"
  shows "fst (run_state (makeMethodInfo m self req) s) \<noteq> None"
  using assms report_not_silent
  by (auto simp: makeMethodInfo_def method_rest_def case_prod_beta split: if_splits option.splits)

lemma check_trait_method_silent:
  assumes "diags (snd (run_state (check_trait_method d tn ms (name, expected)) s)) = diags s"
  shows "\<exists>m info. um_find ms name = Some m \<and> fst (run_state (makeMethodInfo m (id_typeName d) True) s) = Some info \<and>
    sameMethodSignature expected info"
proof (cases "um_find ms name")
  case None
  then show ?thesis using assms report_not_silent by (simp add: check_trait_method_def)
next
  case (Some m)
  let ?f = "\<lambda>actual. case actual of
      None \<Rightarrow> ret ()
    | Some actual \<Rightarrow> report_if (\<not> sameMethodSignature expected actual) (node_span m)
        (''method '' @ q name @ '' signature does not match trait '' @ q tn)"
  have f: "quiet.io (?f v)" for v by (intro quiet_intros)
  have "diags (snd (run_state (makeMethodInfo m (id_typeName d) True \<bind> ?f) s)) = diags s"
    using assms unfolding check_trait_method_def Some prod.case option.case .
  note silent = bind_silent [OF quiet_makeMethodInfo f this]
  then obtain info where info: "fst (run_state (makeMethodInfo m (id_typeName d) True) s) = Some info"
    using makeMethodInfo_silent by (metis not_None_eq snd_conv)
  then have "sameMethodSignature expected info"
    using silent report_if_silent by fastforce
  with Some info show ?thesis by blast
qed

text \<open>C17. An implementation that is validated without a diagnostic conforms to its trait: for every method
  of the trait it has a method of that name whose receiver, parameter and result types match, and every
  method it has belongs to the trait.\<close>

theorem validated_impl_conforms:
  assumes "run_state (validateTraitImpls f) s = ((), t)" "diags t = diags s"
    and "Some (DImpl d) \<in> set (sf_declarations f)" "id_traitName d = Some tn"
    and "um_find (traits s) tn = Some trait" "um_contains (structs s) (id_typeName d)"
  shows "(\<forall>(name, expected) \<in> set (ti_methods trait).
      \<exists>m info. um_find (impl_methods (id_methods d) []) name = Some m \<and>
        fst (run_state (makeMethodInfo m (id_typeName d) True) s) = Some info \<and>
        sameMethodSignature expected info) \<and>
    (\<forall>(name, m) \<in> set (impl_methods (id_methods d) []). um_contains (ti_methods trait) name)"
proof -
  let ?ms = "impl_methods (id_methods d) []"
  let ?A = "for_each (ti_methods trait) (check_trait_method d tn ?ms)"
  let ?B = "for_each ?ms (\<lambda>(methodName, m). report_if (\<not> um_contains (ti_methods trait) methodName) (node_span m)
      (''method '' @ q methodName @ '' is not a member of trait '' @ q tn))"
  let ?h = "\<lambda>x. case x of Some (DImpl d) \<Rightarrow> validate_impl d | _ \<Rightarrow> ret ()"
  have q: "quiet.io (?h x)" for x
    by (auto intro: quiet.io_ret quiet_validate_impl split: option.splits decl.splits)
  have "diags (snd (run_state (for_each (sf_declarations f) ?h) s)) = diags s"
    using assms(1,2) by (simp add: validateTraitImpls_def)
  from for_each_silent [OF q this assms(3)] have "diags (snd (run_state (validate_impl d) s)) = diags s"
    by simp
  then have "diags (snd (run_state (validate_members d tn trait) s)) = diags s"
    using assms(4-6) by (simp add: validate_impl_def)
  then have "diags (snd (run_state (?A \<bind> (\<lambda>_. ?B)) s)) = diags s"
    unfolding validate_members_def Let_def .
  moreover have B: "quiet.io ?B" by (intro quiet_intros)
  moreover have A: "quiet.io ?A" by (intro quiet.io_for_each quiet_check_trait_method)
  ultimately have silent: "diags (snd (run_state ?A s)) = diags s" "diags (snd (run_state ?B s)) = diags s"
    using bind_silent [of ?A "\<lambda>_. ?B" s] by (metis snd_conv)+
  have "\<exists>m info. um_find ?ms name = Some m \<and> fst (run_state (makeMethodInfo m (id_typeName d) True) s) = Some info \<and>
      sameMethodSignature expected info" if "(name, expected) \<in> set (ti_methods trait)" for name expected
    using for_each_silent [OF quiet_check_trait_method silent(1) that] by (rule check_trait_method_silent)
  moreover have "um_contains (ti_methods trait) name" if m: "(name, m) \<in> set ?ms" for name m
    using for_each_silent [OF _ silent(2) m] report_if_silent quiet.io_report_if by fastforce
  ultimately show ?thesis by blast
qed


text \<open>A trait with one method, a struct, and an implementation that provides it.\<close>

definition sample_method :: fn_decl where
  "sample_method = \<lparr>node_id = 0, node_span = default_span, d_modulePath = [], d_imports = [], fn_name = ''m'',
     fn_genericParams = [],
     fn_params = [\<lparr>pm_name = ''self'', pm_type = Some (TypeRef sample_node Cap_Mut ''S'' [''S''] False False None)\<rparr>],
     fn_returnType = None, fn_body = None\<rparr>"

definition sample_impl :: impl_decl where
  "sample_impl = \<lparr>node_id = 0, node_span = default_span, d_modulePath = [], d_imports = [], id_typeName = ''S'',
     id_traitName = Some ''T'', id_methods = [Some sample_method]\<rparr>"

definition sample_expected :: method_info where
  "sample_expected = \<lparr>mi_params = [], mi_receiverType = mk_type Mut ''<Self>'', mi_returnType = unitType,
     mi_hasReceiver = True, mi_decl = None, mi_span = default_span\<rparr>"

definition sample_impl_file :: ast_file where
  "sample_impl_file = \<lparr>node_id = 0, node_span = default_span, sf_explicitModule = None, sf_resolvedModule = [],
     sf_imports = [], sf_declarations = [Some (DImpl sample_impl)]\<rparr>"

definition sample_traits :: sema where
  "sample_traits = (Sema_init \<lparr>diagnostics = []\<rparr>)\<lparr>
     structs := [(''S'', \<lparr>si_fields = [], si_methods = [], si_span = default_span\<rparr>)],
     traits := [(''T'', \<lparr>ti_methods = [(''m'', sample_expected)], ti_span = default_span\<rparr>)]\<rparr>"

lemma sample_validate: "run_state (validateTraitImpls sample_impl_file) sample_traits = ((), sample_traits)"
  by (simp add: validateTraitImpls_def sample_impl_file_def sample_impl_def sample_traits_def validate_impl_def
      validate_members_def check_trait_method_def sample_method_def makeMethodInfo_def method_rest_def
      typeFromAst_or_def report_if_def um_emplace_def um_contains_def sameMethodSignature_def sample_expected_def
      capabilityFromAst_def sameType_refl unitType_def Sema_init_def)

theorem validated_impl_conforms_witness:
  "\<exists>m info. um_find (impl_methods (id_methods sample_impl) []) ''m'' = Some m \<and>
     fst (run_state (makeMethodInfo m ''S'' True) sample_traits) = Some info \<and> sameMethodSignature sample_expected info"
proof -
  let ?trait = "\<lparr>ti_methods = [(''m'', sample_expected)], ti_span = default_span\<rparr> :: trait_info"
  have "Some (DImpl sample_impl) \<in> set (sf_declarations sample_impl_file)" "id_traitName sample_impl = Some ''T''"
    "um_find (traits sample_traits) ''T'' = Some ?trait" "um_contains (structs sample_traits) (id_typeName sample_impl)"
    by (simp_all add: sample_impl_file_def sample_impl_def sample_traits_def um_contains_def)
  from validated_impl_conforms [OF sample_validate refl this] show ?thesis
    by (simp add: sample_impl_def)
qed

end
