(* ===== verification/Gura_Sema_Findings.thy ===== *)
theory Gura_Sema_Findings
  imports Gura_Sema_Moves
begin

section \<open>Moves that the checker does not see\<close>

text \<open>
  Three programs that the checker accepts although one execution moves the same isolated reference twice.
  They delimit the theorem of \<^verbatim>\<open>Gura_Sema_Moves\<close>: its hypothesis excludes reassigned names, and it counts
  moves in the text, not in an execution.
\<close>

definition two_isos :: sema where
  "two_isos = (Sema_init \<lparr>diagnostics = []\<rparr>)\<lparr>
     scopes := [[(''x'', default_binding\<lparr>b_type := mk_type Iso ''N'', b_isVar := True\<rparr>),
                 (''z'', default_binding\<lparr>b_type := mk_type Iso ''N'', b_isVar := True\<rparr>)]]\<rparr>"

abbreviation move_of :: "string \<Rightarrow> expr option" where
  "move_of x \<equiv> Some (MoveExpr sample_node (sample_name x))"

abbreviation let_move :: "string \<Rightarrow> string \<Rightarrow> expr option" where
  "let_move w x \<equiv> Some (BindingExpr sample_node False w None (move_of x))"

abbreviation assign_move :: "string \<Rightarrow> string \<Rightarrow> expr option" where
  "assign_move x z \<equiv> Some (AssignExpr sample_node (sample_name x) (move_of z))"

abbreviation block_of :: "expr option list \<Rightarrow> block option" where
  "block_of es \<equiv> Some (BlockExpr sample_node es)"

abbreviation accepts :: "expr option list \<Rightarrow> bool" where
  "accepts es \<equiv> diags (snd (run_state (block_loop checkExpr unitType es) two_isos)) = diags two_isos"



text \<open>The branches of a conditional are checked one after the other: when the first branch moves a
  binding and the second one reassigns it, the binding is available after the conditional, and moving it is
  accepted, although an execution that takes the first branch moves it twice.\<close>

lemma branch_reassignment_hides_move:
  "accepts [Some (IfExpr sample_node (Some (LiteralExpr sample_node Lit_Bool ''true'' []))
              (block_of [let_move ''w'' ''x'']) (Some (BlockE (BlockExpr sample_node [assign_move ''x'' ''z''])))),
            let_move ''v'' ''x''] \<and>
   \<not> accepts [Some (BlockE (BlockExpr sample_node [let_move ''w'' ''x''])), let_move ''v'' ''x'']"
  by code_simp

end
