(* ===== verification/Gura_Cown_Progress.thy ===== *)
theory Gura_Cown_Progress
  imports Gura_Cown
begin

section \<open>Threads that acquire several cowns\<close>

text \<open>
  Section 12 of \<^verbatim>\<open>docs/spec.md\<close> promises that several cowns are acquired in a total order, so that threads do
  not deadlock. The runtime acquires one cown per call and orders nothing; the order is the caller's task, and the ids
  that \<^verbatim>\<open>gura_cown_new\<close> hands out are such an order. Here each thread runs a list of calls, and the scheduler
  picks any thread whose next call returns.
\<close>

datatype cown_call = Acquire addr | Release addr

type_synonym cown_threads = "cowns \<times> (thread \<Rightarrow> cown_call list)"

fun run_cown_call :: "thread \<Rightarrow> cown_call \<Rightarrow> cowns \<Rightarrow> unit action" where
  "run_cown_call t (Acquire c) = gura_cown_acquire t c"
| "run_cown_call t (Release c) = gura_cown_release t c"

inductive call_step :: "cown_threads \<Rightarrow> cown_threads \<Rightarrow> bool" where
  call_step: "calls t = call # rest \<Longrightarrow> run_cown_call t call cs = Returns () cs' \<Longrightarrow>
     call_step (cs, calls) (cs', calls(t := rest))"

inductive_cases call_stepE: "call_step (cs, calls) s"

definition held_by :: "cowns \<Rightarrow> thread \<Rightarrow> addr set" where
  "held_by cs t = {c. \<exists>cw. cown_at cs c = Some cw \<and> cw_mutex cw = Some t}"

definition id_of :: "cowns \<Rightarrow> addr \<Rightarrow> u64 option" where
  "id_of cs c = map_option cw_id (cown_at cs c)"

text \<open>Calls of a thread that holds \<open>H\<close>: it acquires live cowns with an id above those it holds, releases
  only what it holds, and holds nothing at its end.\<close>

fun ordered_calls :: "(addr \<Rightarrow> u64 option) \<Rightarrow> addr set \<Rightarrow> cown_call list \<Rightarrow> bool" where
  "ordered_calls ids H [] \<longleftrightarrow> H = {}"
| "ordered_calls ids H (Acquire c # calls) \<longleftrightarrow>
     ids c \<noteq> None \<and> (\<forall>h\<in>H. the (ids h) < the (ids c)) \<and> ordered_calls ids (insert c H) calls"
| "ordered_calls ids H (Release c # calls) \<longleftrightarrow> c \<in> H \<and> ordered_calls ids (H - {c}) calls"

definition calls_inv :: "(addr \<Rightarrow> u64 option) \<Rightarrow> thread set \<Rightarrow> cown_threads \<Rightarrow> bool" where
  "calls_inv ids T = (\<lambda>(cs, calls). id_of cs = ids \<and> (\<forall>t. ordered_calls ids (held_by cs t) (calls t)) \<and>
     (\<forall>t. t \<notin> T \<longrightarrow> calls t = []))"

lemma held_acquire:
  assumes "cown_at cs c = Some cw" "cw_mutex cw = None"
  shows "held_by (cs\<lparr>cown_at := (cown_at cs)(c \<mapsto> cw\<lparr>cw_mutex := Some t\<rparr>)\<rparr>) u =
    (if u = t then insert c (held_by cs u) else held_by cs u)"
  using assms by (auto simp: held_by_def)

lemma held_release:
  assumes "cown_at cs c = Some cw" "cw_mutex cw = Some t"
  shows "held_by (cs\<lparr>cown_at := (cown_at cs)(c \<mapsto> cw\<lparr>cw_mutex := None\<rparr>)\<rparr>) u =
    (if u = t then held_by cs u - {c} else held_by cs u)"
  using assms by (auto simp: held_by_def)

lemma id_of_update:
  "cown_at cs c = Some cw \<Longrightarrow> id_of (cs\<lparr>cown_at := (cown_at cs)(c \<mapsto> cw\<lparr>cw_mutex := m\<rparr>)\<rparr>) = id_of cs"
  by (auto simp: id_of_def fun_eq_iff)

lemma call_step_inv:
  assumes "calls_inv ids T s" "call_step s s'"
  shows "calls_inv ids T s'"
  using assms(2,1)
proof (induction rule: call_step.induct)
  case (call_step calls t call rest cs cs')
  then have ids: "id_of cs = ids" and ord: "\<And>u. ordered_calls ids (held_by cs u) (calls u)"
    and out: "\<And>u. u \<notin> T \<Longrightarrow> calls u = []"
    by (auto simp: calls_inv_def)
  have t: "ordered_calls ids (held_by cs t) (call # rest)" using ord [of t] call_step(1) by simp
  have "id_of cs' = ids \<and> (\<forall>u. held_by cs' u = (if u = t then (case call of Acquire c \<Rightarrow> insert c (held_by cs t)
      | Release c \<Rightarrow> held_by cs t - {c}) else held_by cs u))"
    using call_step(2) ids
    by (cases call) (auto simp: gura_cown_acquire_def gura_cown_release_def held_acquire held_release id_of_update
        split: option.splits if_splits)
  then show ?case
    using t ord out call_step(1) by (cases call) (auto simp: calls_inv_def)
qed

lemma call_next:
  assumes "calls_inv ids T (cs, calls)" "calls t = call # rest"
  shows "run_cown_call t call cs \<noteq> Undefined"
    and "run_cown_call t call cs = Blocks \<Longrightarrow> \<exists>c u. call = Acquire c \<and> c \<in> held_by cs u"
    and "run_cown_call t call cs \<noteq> Blocks \<Longrightarrow> \<exists>s'. call_step (cs, calls) s'"
proof -
  have ids: "id_of cs = ids" and t: "ordered_calls ids (held_by cs t) (call # rest)"
    using assms by (auto simp: calls_inv_def) metis
  have "run_cown_call t call cs = Blocks \<and> (\<exists>c u. call = Acquire c \<and> c \<in> held_by cs u) \<or>
    (\<exists>cs'. run_cown_call t call cs = Returns () cs')"
  proof (cases call)
    case (Acquire c)
    then obtain cw where "cown_at cs c = Some cw" using t ids by (auto simp: id_of_def)
    moreover have "c \<notin> held_by cs t" using t Acquire by auto
    ultimately show ?thesis using Acquire by (auto simp: gura_cown_acquire_def held_by_def split: option.split)
  next
    case (Release c)
    then show ?thesis using t by (auto simp: gura_cown_release_def held_by_def)
  qed
  then show "run_cown_call t call cs \<noteq> Undefined"
    "run_cown_call t call cs = Blocks \<Longrightarrow> \<exists>c u. call = Acquire c \<and> c \<in> held_by cs u"
    "run_cown_call t call cs \<noteq> Blocks \<Longrightarrow> \<exists>s'. call_step (cs, calls) s'"
    using call_step.intros [of calls t call rest cs] assms(2) by auto
qed

text \<open>The thread that waits for the cown with the greatest id waits for a thread that does not wait.\<close>

lemma no_deadlock:
  assumes inv: "calls_inv ids T (cs, calls)" and T: "finite T" and t: "calls t \<noteq> []"
  shows "\<exists>s'. call_step (cs, calls) s'"
proof (rule ccontr)
  assume stuck: "\<nexists>s'. call_step (cs, calls) s'"
  let ?W = "{u. calls u \<noteq> []}"
  have ids: "id_of cs = ids" and ord: "\<And>u. ordered_calls ids (held_by cs u) (calls u)"
    and out: "\<And>u. u \<notin> T \<Longrightarrow> calls u = []"
    using inv by (auto simp: calls_inv_def)
  have waits: "\<exists>c rest v. calls u = Acquire c # rest \<and> c \<in> held_by cs v" if w: "u \<in> ?W" for u
  proof -
    obtain call rest where u: "calls u = call # rest" using w by (auto simp: neq_Nil_conv)
    from call_next(2,3) [OF inv u] stuck u show ?thesis by metis
  qed
  define want where "want u = (case hd (calls u) of Acquire c \<Rightarrow> the (ids c) | Release c \<Rightarrow> 0)" for u
  have "finite ?W" using finite_subset [OF _ T, of ?W] out by auto
  moreover have "?W \<noteq> {}" using t by auto
  ultimately obtain u where u: "u \<in> ?W" "want u = Max (want ` ?W)"
    using Max_in [of "want ` ?W"] by fastforce
  have max: "want v \<le> want u" if "v \<in> ?W" for v
    unfolding u(2) by (rule Max_ge) (use \<open>finite ?W\<close> that in auto)
  obtain c rest v where c: "calls u = Acquire c # rest" "c \<in> held_by cs v" using waits [OF u(1)] by blast
  have v: "v \<in> ?W" using ord [of v] c(2) by auto
  obtain d rest' where d: "calls v = Acquire d # rest'" using waits [OF v] by blast
  have "the (ids c) < the (ids d)" using ord [of v] c(2) d by auto
  then show False using max [OF v] c(1) d by (simp add: want_def)
qed

lemma calls_left:
  assumes "call_step (cs, calls) (cs', calls')" "finite T" "\<And>t. t \<notin> T \<Longrightarrow> calls t = []"
  shows "(\<Sum>t\<in>T. length (calls t)) = Suc (\<Sum>t\<in>T. length (calls' t))"
proof -
  obtain t call rest where t: "calls t = call # rest" "calls' = calls(t := rest)"
    using assms(1) by (auto elim: call_stepE)
  then have "t \<in> T" using assms(3) by force
  note split = sum.remove [OF assms(2) this]
  have "(\<Sum>u\<in>T - {t}. length (calls' u)) = (\<Sum>u\<in>T - {t}. length (calls u))"
    by (rule sum.cong) (simp_all add: t(2))
  then show ?thesis
    using t unfolding split [of "\<lambda>u. length (calls u)"] split [of "\<lambda>u. length (calls' u)"] by simp
qed

lemma run_inv_left:
  assumes "(call_step ^^ n) (cs, calls) (cs', calls')" "calls_inv ids T (cs, calls)" "finite T"
  shows "calls_inv ids T (cs', calls') \<and> (\<Sum>t\<in>T. length (calls t)) = n + (\<Sum>t\<in>T. length (calls' t))"
  using assms(1)
proof (induction n arbitrary: cs' calls')
  case 0
  then show ?case using assms(2) by simp
next
  case (Suc n)
  then obtain cs1 calls1 where 1: "(call_step ^^ n) (cs, calls) (cs1, calls1)" "call_step (cs1, calls1) (cs', calls')"
    by (auto elim!: relcompp.cases)
  from Suc.IH [OF 1(1)] have inv: "calls_inv ids T (cs1, calls1)"
    and left: "(\<Sum>t\<in>T. length (calls t)) = n + (\<Sum>t\<in>T. length (calls1 t))" by auto
  have "\<And>t. t \<notin> T \<Longrightarrow> calls1 t = []" using inv by (auto simp: calls_inv_def)
  from calls_left [OF 1(2) assms(3) this] left call_step_inv [OF inv 1(2)] show ?case by simp
qed

text \<open>C21. Liveness: threads that acquire cowns in the order of their ids, and release what they acquired, finish. From a
  reachable state in which no cown is held, no call of theirs is undefined, a run never gets stuck before every
  thread has made all its calls, whatever the scheduler picks, and then every cown is free again.\<close>

theorem ordered_acquires_finish:
  assumes "cown_reachable (cs, \<lambda>_. {})" "finite T"
    and "\<forall>t. if t \<in> T then ordered_calls (id_of cs) {} (calls t) else calls t = []"
    and "(call_step ^^ n) (cs, calls) (cs', calls')"
  shows "n \<le> (\<Sum>t\<in>T. length (calls t)) \<and>
    (\<forall>t call rest. calls' t = call # rest \<longrightarrow> run_cown_call t call cs' \<noteq> Undefined) \<and>
    (if n = (\<Sum>t\<in>T. length (calls t)) then calls' = (\<lambda>_. []) \<and> (\<forall>c cw. cown_at cs' c = Some cw \<longrightarrow> cw_mutex cw = None)
     else \<exists>s'. call_step (cs', calls') s')"
proof -
  have "held_by cs t = {}" for t
    using cown_invD(1) [OF cown_reachable_inv [OF assms(1)]] by (auto simp: held_by_def)
  then have "calls_inv (id_of cs) T (cs, calls)"
    using assms(3) by (auto simp: calls_inv_def split: if_splits)
  from run_inv_left [OF assms(4) this assms(2)]
  have inv: "calls_inv (id_of cs) T (cs', calls')"
    and left: "(\<Sum>t\<in>T. length (calls t)) = n + (\<Sum>t\<in>T. length (calls' t))" by simp_all
  have out: "\<And>t. t \<notin> T \<Longrightarrow> calls' t = []" and ord: "\<And>t. ordered_calls (id_of cs) (held_by cs' t) (calls' t)"
    using inv by (auto simp: calls_inv_def)
  have "\<exists>s'. call_step (cs', calls') s'" if "n \<noteq> (\<Sum>t\<in>T. length (calls t))"
  proof -
    have "\<exists>t. calls' t \<noteq> []" using that left by (metis add.right_neutral length_0_conv sum.neutral)
    then show ?thesis using no_deadlock [OF inv assms(2)] by blast
  qed
  moreover have "calls' = (\<lambda>_. []) \<and> (\<forall>c cw. cown_at cs' c = Some cw \<longrightarrow> cw_mutex cw = None)"
    if "n = (\<Sum>t\<in>T. length (calls t))"
  proof -
    have "calls' t = []" for t using left that out [of t] assms(2) by (cases "t \<in> T") simp_all
    then have calls: "calls' = (\<lambda>_. [])" by blast
    have "held_by cs' t = {}" for t using ord [of t] by (simp add: calls)
    then have "cw_mutex cw = None" if "cown_at cs' c = Some cw" for c cw
      using that by (cases "cw_mutex cw") (auto simp: held_by_def)
    with calls show ?thesis by blast
  qed
  ultimately show ?thesis using left call_next(1) [OF inv] by auto
qed

text \<open>Two threads that swap one cown each for the other: the second thread waits for the first.\<close>

definition two_cowns :: cowns where
  "two_cowns = \<lparr>nextCownId = 3, cown_at =
     [512 \<mapsto> \<lparr>cw_id = 1, cw_region = 64, cw_mutex = None\<rparr>, 1024 \<mapsto> \<lparr>cw_id = 2, cw_region = 128, cw_mutex = None\<rparr>]\<rparr>"

definition both_cowns :: "addr \<Rightarrow> addr \<Rightarrow> cown_call list" where
  "both_cowns c d = [Acquire c, Acquire d, Release d, Release c]"

lemma two_cowns_reachable: "cown_reachable (two_cowns, \<lambda>_. {})"
proof -
  let ?one = "initial_cowns\<lparr>nextCownId := 2, cown_at := [512 \<mapsto> \<lparr>cw_id = 1, cw_region = 64, cw_mutex = None\<rparr>]\<rparr>"
  have "cown_step cown_initial (?one, \<lambda>_. {})"
    by (rule cstep_new [of 512 _ 64 512]) (simp_all add: initial_cowns_def gura_cown_new_def)
  moreover have "cown_step (?one, \<lambda>_. {}) (two_cowns, \<lambda>_. {})"
    by (rule cstep_new [of 1024 _ 128 1024]) (simp_all add: initial_cowns_def gura_cown_new_def two_cowns_def)
  ultimately show ?thesis by (rule converse_rtranclp_into_rtranclp [OF _ r_into_rtranclp])
qed

theorem ordered_acquires_finish_witness:
  "\<exists>s'. call_step (two_cowns, \<lambda>t. if t \<in> {1, 2} then both_cowns 512 1024 else []) s'"
proof -
  let ?calls = "\<lambda>t::thread. if t \<in> {1, 2} then both_cowns 512 1024 else []"
  have "(call_step ^^ 0) (two_cowns, ?calls) (two_cowns, ?calls)" by simp
  from ordered_acquires_finish [OF two_cowns_reachable _ _ this, of "{1, 2}"]
  show ?thesis by (simp add: both_cowns_def id_of_def two_cowns_def)
qed

text \<open>C35. The runtime itself orders nothing: two threads that acquire the same two cowns in opposite orders reach a
  state in which each holds one cown, and no call of any thread returns any more.\<close>

theorem unordered_acquires_deadlock:
  "\<exists>s'. call_step\<^sup>*\<^sup>* (two_cowns, (\<lambda>_. [])(1 := both_cowns 512 1024, 2 := both_cowns 1024 512)) s' \<and>
     (\<nexists>s''. call_step s' s'') \<and> snd s' 1 \<noteq> [] \<and> snd s' 2 \<noteq> []"
proof -
  define cs1 where "cs1 = two_cowns\<lparr>cown_at := (cown_at two_cowns)(512 \<mapsto> \<lparr>cw_id = 1, cw_region = 64, cw_mutex = Some 1\<rparr>)\<rparr>"
  define cs2 where "cs2 = cs1\<lparr>cown_at := (cown_at cs1)(1024 \<mapsto> \<lparr>cw_id = 2, cw_region = 128, cw_mutex = Some 2\<rparr>)\<rparr>"
  define calls where "calls = (\<lambda>_::thread. [])(1 := both_cowns 512 1024, 2 := both_cowns 1024 512)"
  let ?calls1 = "calls(1 := tl (both_cowns 512 1024))" and ?calls2 = "calls(1 := tl (both_cowns 512 1024), 2 := tl (both_cowns 1024 512))"
  have "call_step (two_cowns, calls) (cs1, ?calls1)"
    by (rule call_step [of calls 1 "Acquire 512"])
       (simp_all add: calls_def both_cowns_def gura_cown_acquire_def two_cowns_def cs1_def)
  moreover have "call_step (cs1, ?calls1) (cs2, ?calls2)"
    by (rule call_step [of ?calls1 2 "Acquire 1024"])
       (simp_all add: calls_def both_cowns_def gura_cown_acquire_def two_cowns_def cs1_def cs2_def)
  ultimately have "call_step\<^sup>*\<^sup>* (two_cowns, calls) (cs2, ?calls2)"
    by (rule converse_rtranclp_into_rtranclp [OF _ r_into_rtranclp])
  moreover have "\<not> call_step (cs2, ?calls2) s''" for s''
    by (auto elim!: call_stepE simp: calls_def both_cowns_def gura_cown_acquire_def two_cowns_def cs1_def cs2_def split: if_splits)
  ultimately show ?thesis unfolding calls_def [symmetric] by (intro exI [of _ "(cs2, ?calls2)"]) (simp add: both_cowns_def)
qed

end
