(* ===== verification/Gura_CodeGen.thy ===== *)
theory Gura_CodeGen
  imports Gura_Sema_State Gura_Lexer
begin

section \<open>The code generator: module, builder and layouts\<close>

text \<open>
  The model of \<^verbatim>\<open>src/codegen/LLVMCodeGen.cpp\<close>. LLVM itself is not part of the repository: the model
  records the calls that \<^verbatim>\<open>ModuleEmitter\<close> makes on the builder, one \<open>ll_instr\<close> per call, in the block at
  the insertion point, and uses of LLVM only what the emitter asks it: the type of a value it created, whether
  the insertion block ends in a terminator, the parent function and its argument list. A constant is recorded as
  it is passed to LLVM (an integer before truncation to its type, the text given to \<^verbatim>\<open>strtod\<close>, the type
  whose allocation size the data layout is asked for); constant folding and the renaming of equal names are
  LLVM's and are not modelled. An \<^verbatim>\<open>llvm::Value*\<close> that may be null is an option; dereferencing a null
  value, or handing one to the builder, raises the flag \<open>em_crashed\<close>.
\<close>

datatype ll_type = LVoid | LPtr | LI1 | LI32 | LI64 | LFloat | LDouble | LArray ll_type nat | LStruct string

datatype ll_value =
    ConstInt ll_type int
  | ConstFP ll_type string
  | ConstNull ll_type
  | UndefV ll_type
  | SizeOf ll_type
  | ArgV nat ll_type
  | AllocaV nat ll_type
  | GlobalStr nat
  | InstrV nat ll_type

fun value_type :: "ll_value \<Rightarrow> ll_type" where
  "value_type (ConstInt t _) = t"
| "value_type (ConstFP t _) = t"
| "value_type (ConstNull t) = t"
| "value_type (UndefV t) = t"
| "value_type (SizeOf _) = LI64"
| "value_type (ArgV _ t) = t"
| "value_type (AllocaV _ _) = LPtr"
| "value_type (GlobalStr _) = LPtr"
| "value_type (InstrV _ t) = t"

fun allocated_type :: "ll_value \<Rightarrow> ll_type" where
  "allocated_type (AllocaV _ t) = t"
| "allocated_type v = value_type v"

datatype runtime_fn =
    RegionNewIso | RegionEnter | RegionExit | RegionExplore | RegionExploreExit | RegionBridge
  | RegionSetBridgeType | RegionFreeze | RegionMerge | Puts | Printf | Scanf

fun runtime_symbol :: "runtime_fn \<Rightarrow> string" where
  "runtime_symbol RegionNewIso = ''__gura_region_new_iso''"
| "runtime_symbol RegionEnter = ''__gura_region_enter''"
| "runtime_symbol RegionExit = ''__gura_region_exit''"
| "runtime_symbol RegionExplore = ''__gura_region_explore''"
| "runtime_symbol RegionExploreExit = ''__gura_region_explore_exit''"
| "runtime_symbol RegionBridge = ''__gura_region_bridge''"
| "runtime_symbol RegionSetBridgeType = ''__gura_region_set_bridge_type''"
| "runtime_symbol RegionFreeze = ''__gura_region_freeze''"
| "runtime_symbol RegionMerge = ''__gura_region_merge''"
| "runtime_symbol Puts = ''puts''"
| "runtime_symbol Printf = ''printf''"
| "runtime_symbol Scanf = ''scanf''"

text \<open>Result type, parameter types and whether the function takes more arguments.\<close>

fun runtime_type :: "runtime_fn \<Rightarrow> ll_type \<times> ll_type list \<times> bool" where
  "runtime_type RegionNewIso = (LPtr, [LI64, LI32], False)"
| "runtime_type RegionEnter = (LVoid, [LPtr], False)"
| "runtime_type RegionExit = (LVoid, [LPtr, LPtr], False)"
| "runtime_type RegionExplore = (LVoid, [LPtr], False)"
| "runtime_type RegionExploreExit = (LVoid, [LPtr], False)"
| "runtime_type RegionBridge = (LPtr, [LPtr], False)"
| "runtime_type RegionSetBridgeType = (LVoid, [LPtr, LI64], False)"
| "runtime_type RegionFreeze = (LPtr, [LPtr], False)"
| "runtime_type RegionMerge = (LPtr, [LPtr, LPtr], False)"
| "runtime_type Puts = (LI32, [LPtr], False)"
| "runtime_type Printf = (LI32, [LPtr], True)"
| "runtime_type Scanf = (LI32, [LPtr], True)"

datatype ll_callee = Extern runtime_fn | Fn nat

datatype ll_binop =
    FAdd | NSWAdd | FSub | NSWSub | FMul | NSWMul | FDiv | SDiv | SRem
  | FCmpOEQ | ICmpEQ | FCmpONE | ICmpNE | FCmpOLT | ICmpSLT | FCmpOLE | ICmpSLE | FCmpOGT | ICmpSGT
  | FCmpOGE | ICmpSGE

definition is_comparison :: "ll_binop \<Rightarrow> bool" where
  "is_comparison op \<longleftrightarrow>
     op \<in> {FCmpOEQ, ICmpEQ, FCmpONE, ICmpNE, FCmpOLT, ICmpSLT, FCmpOLE, ICmpSLE, FCmpOGT, ICmpSGT, FCmpOGE, ICmpSGE}"

datatype ll_instr =
    Alloca nat ll_type string
  | Store ll_value ll_value
  | Load nat ll_type ll_value string
  | InsertValue nat ll_value ll_value nat string
  | Binop nat ll_binop ll_value ll_value string
  | InBoundsGEP nat ll_type ll_value "ll_value list" string
  | StructGEP nat ll_type ll_value nat string
  | SExt nat ll_value string
  | Call nat ll_callee "ll_value list" string
  | Ret "ll_value option"
  | Br nat
  | CondBr ll_value nat nat

fun is_terminator :: "ll_instr \<Rightarrow> bool" where
  "is_terminator (Ret _) = True"
| "is_terminator (Br _) = True"
| "is_terminator (CondBr _ _ _) = True"
| "is_terminator _ = False"

record ll_block =
  bb_name :: string
  bb_instrs :: "ll_instr list"

record ll_function =
  lf_name :: string
  lf_returnType :: ll_type
  lf_params :: "(string \<times> ll_type) list"
  lf_blocks :: "nat list"

record field_layout =
  fl_index :: nat
  fl_type :: ll_type

record method_layout =
  ml_structName :: string
  ml_decl :: fn_decl
  ml_function :: "nat option"

record struct_layout =
  sl_type :: ll_type
  sl_typeId :: nat
  sl_fieldNames :: "string list"
  sl_fields :: "(string, field_layout) unordered_map"
  sl_methods :: "(string, method_layout) unordered_map"
  sl_associated :: "(string, method_layout) unordered_map"

type_synonym layouts = "(string, struct_layout) unordered_map"

text \<open>
  The state of \<^verbatim>\<open>ModuleEmitter\<close>. Functions and blocks are numbered in the order of their creation;
  \<open>em_insert\<close> is the block of the insertion point and \<open>em_fn\<close> its parent function.
\<close>

record emitter =
  em_module :: "ll_function list"
  em_blocks :: "ll_block list"
  em_bodies :: "(string, ll_type list) unordered_map"
  em_strings :: "(string \<times> string) list"
  em_externs :: "runtime_fn list"
  em_insert :: nat
  em_fn :: nat
  em_next :: nat
  em_functions :: "(string, nat) unordered_map"
  em_simpleKeys :: "(string, string list) unordered_map"
  em_currentDecl :: "fn_decl option"
  em_values :: "(string, ll_value) unordered_map"
  em_pointerValues :: "(string, ll_value) unordered_map"
  em_arrayPointers :: "(string, ll_value) unordered_map"
  em_pointerStructTypes :: "(string, ll_type) unordered_map"
  em_regionStructTypes :: "(string, ll_type) unordered_map"
  em_bridgeSlots :: "(string, ll_value) unordered_map"
  em_activeRegions :: "ll_value list"
  em_layouts :: layouts
  em_crashed :: bool

definition ModuleEmitter_init :: emitter where
  "ModuleEmitter_init =
     \<lparr>em_module = [], em_blocks = [], em_bodies = [], em_strings = [], em_externs = [], em_insert = 0, em_fn = 0,
      em_next = 0, em_functions = [], em_simpleKeys = [], em_currentDecl = None, em_values = [],
      em_pointerValues = [], em_arrayPointers = [], em_pointerStructTypes = [], em_regionStructTypes = [],
      em_bridgeSlots = [], em_activeRegions = [], em_layouts = [], em_crashed = False\<rparr>"

type_synonym 'a em = "(emitter, 'a) state"


subsection \<open>The builder\<close>

definition fresh :: "nat em" where
  "fresh = do {
     i \<leftarrow> gets em_next;
     update (\<lambda>s. s\<lparr>em_next := i + 1\<rparr>);
     ret i}"

definition insert_instr :: "ll_instr \<Rightarrow> unit em" where
  "insert_instr i = update (\<lambda>s. s\<lparr>em_blocks :=
     (em_blocks s)[em_insert s := (em_blocks s ! em_insert s)\<lparr>bb_instrs := bb_instrs (em_blocks s ! em_insert s) @ [i]\<rparr>]\<rparr>)"

definition build :: "(nat \<Rightarrow> ll_instr) \<Rightarrow> ll_type \<Rightarrow> ll_value em" where
  "build mk t = do {i \<leftarrow> fresh; insert_instr (mk i); ret (InstrV i t)}"

definition crash :: "unit em" where
  "crash = update (\<lambda>s. s\<lparr>em_crashed := True\<rparr>)"

abbreviation i64_zero :: ll_value where
  "i64_zero \<equiv> ConstInt LI64 0"

abbreviation null_ptr :: ll_value where
  "null_ptr \<equiv> ConstNull LPtr"

definition need :: "ll_value option \<Rightarrow> ll_value em" where
  "need v = (case v of Some v \<Rightarrow> ret v | None \<Rightarrow> do {crash; ret i64_zero})"

definition has_terminator :: "bool em" where
  "has_terminator = gets (\<lambda>s.
     let is = bb_instrs (em_blocks s ! em_insert s) in is \<noteq> [] \<and> is_terminator (last is))"

definition return_type :: "ll_type em" where
  "return_type = gets (\<lambda>s. lf_returnType (em_module s ! em_fn s))"

definition ll_new_block :: "string \<Rightarrow> nat em" where
  "ll_new_block name = do {
     b \<leftarrow> gets (\<lambda>s. length (em_blocks s));
     update (\<lambda>s. s\<lparr>em_blocks := em_blocks s @ [\<lparr>bb_name = name, bb_instrs = []\<rparr>]\<rparr>);
     ret b}"

definition attach_block :: "nat \<Rightarrow> unit em" where
  "attach_block b = update (\<lambda>s. s\<lparr>em_module :=
     (em_module s)[em_fn s := (em_module s ! em_fn s)\<lparr>lf_blocks := lf_blocks (em_module s ! em_fn s) @ [b]\<rparr>]\<rparr>)"

definition set_insert_point :: "nat \<Rightarrow> unit em" where
  "set_insert_point b = update (\<lambda>s. s\<lparr>em_insert := b\<rparr>)"

definition create_store :: "ll_value \<Rightarrow> ll_value \<Rightarrow> unit em" where
  "create_store v p = insert_instr (Store v p)"

definition create_load :: "ll_type \<Rightarrow> ll_value \<Rightarrow> string \<Rightarrow> ll_value em" where
  "create_load t p name = build (\<lambda>i. Load i t p name) t"

definition create_insert :: "ll_value \<Rightarrow> ll_value \<Rightarrow> nat \<Rightarrow> string \<Rightarrow> ll_value em" where
  "create_insert agg v k name = build (\<lambda>i. InsertValue i agg v k name) (value_type agg)"

definition create_binop :: "ll_binop \<Rightarrow> ll_value \<Rightarrow> ll_value \<Rightarrow> string \<Rightarrow> ll_value em" where
  "create_binop op l r name =
     build (\<lambda>i. Binop i op l r name) (if is_comparison op then LI1 else value_type l)"

definition create_gep :: "ll_type \<Rightarrow> ll_value \<Rightarrow> ll_value list \<Rightarrow> string \<Rightarrow> ll_value em" where
  "create_gep t p is name = build (\<lambda>i. InBoundsGEP i t p is name) LPtr"

definition create_global_string :: "string \<Rightarrow> string \<Rightarrow> ll_value em" where
  "create_global_string txt name = do {
     g \<leftarrow> gets (\<lambda>s. length (em_strings s));
     update (\<lambda>s. s\<lparr>em_strings := em_strings s @ [(txt, name)]\<rparr>);
     ret (GlobalStr g)}"

text \<open>\<^verbatim>\<open>module_.getOrInsertFunction\<close> with the call that follows it.\<close>

definition call_runtime :: "runtime_fn \<Rightarrow> ll_value list \<Rightarrow> string \<Rightarrow> ll_value em" where
  "call_runtime f args name = do {
     update (\<lambda>s. s\<lparr>em_externs := List.insert f (em_externs s)\<rparr>);
     build (\<lambda>i. Call i (Extern f) args name) (fst (runtime_type f))}"

definition call_function :: "nat \<Rightarrow> ll_value list \<Rightarrow> string \<Rightarrow> ll_value em" where
  "call_function f args name = do {
     t \<leftarrow> gets (\<lambda>s. lf_returnType (em_module s ! f));
     build (\<lambda>i. Call i (Fn f) args name) t}"

text \<open>An alloca goes to the front of the entry block of the current function.\<close>

definition createEntryAlloca :: "string \<Rightarrow> ll_type \<Rightarrow> ll_value em" where
  "createEntryAlloca name t = do {
     i \<leftarrow> fresh;
     entry \<leftarrow> gets (\<lambda>s. hd (lf_blocks (em_module s ! em_fn s)));
     update (\<lambda>s. s\<lparr>em_blocks :=
       (em_blocks s)[entry := (em_blocks s ! entry)\<lparr>bb_instrs := Alloca i t name # bb_instrs (em_blocks s ! entry)\<rparr>]\<rparr>);
     ret (AllocaV i t)}"


subsection \<open>Names and types\<close>

definition manglePath :: "string \<Rightarrow> string" where
  "manglePath key =
     (if key = ''main'' \<or> CHR ''.'' \<notin> set key then key
      else if length ''.main'' \<le> length key \<and> drop (length key - length ''.main'') key = ''.main'' then ''main''
      else ''gura_'' @ map (\<lambda>ch. if ch = CHR ''.'' then CHR ''_'' else ch) key)"

definition mangleMethodName :: "string \<Rightarrow> string \<Rightarrow> string" where
  "mangleMethodName structName methodName = structName @ ''_'' @ methodName"

definition functionKey :: "fn_decl \<Rightarrow> string" where
  "functionKey fn = (if d_modulePath fn = [] then fn_name fn else qualifiedName (d_modulePath fn) (fn_name fn))"

fun ll_typeFromAst :: "layouts \<Rightarrow> type_ref option \<Rightarrow> ll_type" where
  "ll_typeFromAst ls None = LVoid"
| "ll_typeFromAst ls (Some (TypeRef n cap name p opt isArray elem)) =
     (if name = ''unit'' then LVoid
      else if isArray then LArray (ll_typeFromAst ls elem) 0
      else if cap = Cap_Iso then LPtr
      else if name = ''bool'' then LI1
      else if name = ''i32'' then LI32
      else if name = ''f32'' then LFloat
      else if name = ''f64'' then LDouble
      else case um_find ls name of Some layout \<Rightarrow> sl_type layout | None \<Rightarrow> LI64)"

definition parameterTypeFromAst :: "layouts \<Rightarrow> type_ref option \<Rightarrow> ll_type" where
  "parameterTypeFromAst ls t =
     (if (case t of Some t \<Rightarrow> tr_isArray t | None \<Rightarrow> False) then LPtr else ll_typeFromAst ls t)"

definition regionStrategyValue :: "string \<Rightarrow> int" where
  "regionStrategyValue strategy =
     (if strategy = [] \<or> strategy = ''Arena'' then 0
      else if strategy = ''RC'' then 1
      else if strategy = ''GC'' then 2
      else if strategy = ''Manual'' then 3
      else 0)"


subsection \<open>Literals\<close>

fun decode_escapes :: "string \<Rightarrow> string" where
  "decode_escapes [] = []"
| "decode_escapes [c] = [c]"
| "decode_escapes (c # d # cs) =
     (if c \<noteq> CHR 0x5C then c # decode_escapes (d # cs)
      else (if d = CHR ''n'' then CHR 0x0A
            else if d = CHR ''t'' then CHR 0x09
            else if d = CHR 0x22 then CHR 0x22
            else if d = CHR 0x5C then CHR 0x5C
            else if d = CHR ''0'' then CHR 0x00
            else d) # decode_escapes cs)"

definition decodeStringLiteral :: "string \<Rightarrow> string" where
  "decodeStringLiteral txt =
     decode_escapes (if 2 \<le> length txt \<and> hd txt = CHR 0x22 \<and> last txt = CHR 0x22
                     then butlast (tl txt) else txt)"

text \<open>
  \<^verbatim>\<open>std::from_chars\<close> on an \<^verbatim>\<open>int64_t\<close>: the longest prefix of an optional minus sign and digits; the
  value is not written when there is no digit or when the number does not fit.
\<close>

definition from_chars_i64 :: "string \<Rightarrow> int" where
  "from_chars_i64 txt =
     (let neg = txt \<noteq> [] \<and> hd txt = CHR ''-'';
          ds = takeWhile isdigit (if neg then tl txt else txt);
          v = (if neg then - int (dec_value ds) else int (dec_value ds))
      in if ds = [] \<or> v < - (2 ^ 63) \<or> 2 ^ 63 \<le> v then 0 else v)"

definition without_suffix :: "string \<Rightarrow> string \<Rightarrow> string" where
  "without_suffix txt suffix = take (length txt - length suffix) txt"

definition emitLiteral :: "literal_kind \<Rightarrow> string \<Rightarrow> string \<Rightarrow> ll_value em" where
  "emitLiteral kind txt suffix =
     (case kind of
        Lit_Bool \<Rightarrow> ret (ConstInt LI1 (if txt = ''true'' then 1 else 0))
      | Lit_Integer \<Rightarrow>
          ret (ConstInt (if suffix = ''i32'' then LI32 else LI64) (from_chars_i64 (without_suffix txt suffix)))
      | Lit_Float \<Rightarrow> ret (ConstFP (if suffix = ''f32'' then LFloat else LDouble) (without_suffix txt suffix))
      | Lit_String \<Rightarrow> create_global_string (decodeStringLiteral txt) ''.str''
      | _ \<Rightarrow> ret i64_zero)"


subsection \<open>Struct layouts and methods\<close>

definition add_layout :: "decl option \<Rightarrow> nat \<times> layouts \<Rightarrow> nat \<times> layouts" where
  "add_layout d acc =
     (case d of
        Some (DStruct sd) \<Rightarrow>
          (fst acc + 1,
           um_emplace (sd_name sd)
             \<lparr>sl_type = LStruct (sd_name sd), sl_typeId = fst acc, sl_fieldNames = [], sl_fields = [],
              sl_methods = [], sl_associated = []\<rparr> (snd acc))
      | _ \<Rightarrow> acc)"

fun layout_fields :: "layouts \<Rightarrow> nat \<Rightarrow> field_decl list \<Rightarrow> struct_layout \<Rightarrow> struct_layout" where
  "layout_fields ls i [] layout = layout"
| "layout_fields ls i (f # fs) layout =
     layout_fields ls (i + 1) fs (layout\<lparr>
       sl_fieldNames := sl_fieldNames layout @ [fd_name f],
       sl_fields := um_emplace (fd_name f) \<lparr>fl_index = i, fl_type = ll_typeFromAst ls (fd_type f)\<rparr> (sl_fields layout)\<rparr>)"

definition set_struct_body :: "struct_decl \<Rightarrow> unit em" where
  "set_struct_body sd = update (\<lambda>s. s\<lparr>
     em_layouts := um_modify (sd_name sd) (layout_fields (em_layouts s) 0 (sd_fields sd)) (em_layouts s),
     em_bodies := um_set (sd_name sd) (map (\<lambda>f. ll_typeFromAst (em_layouts s) (fd_type f)) (sd_fields sd)) (em_bodies s)\<rparr>)"

definition ll_collectStructs :: "ast_file \<Rightarrow> unit em" where
  "ll_collectStructs f = do {
     update (\<lambda>s. s\<lparr>em_layouts := snd (fold add_layout (sf_declarations f) (1, em_layouts s))\<rparr>);
     for_each (sf_declarations f) (\<lambda>d. case d of Some (DStruct sd) \<Rightarrow> set_struct_body sd | _ \<Rightarrow> ret ())}"

definition has_self :: "fn_decl \<Rightarrow> bool" where
  "has_self fn \<longleftrightarrow> fn_params fn \<noteq> [] \<and> pm_name (hd (fn_params fn)) = ''self''"

definition ll_collectMethod :: "string \<Rightarrow> fn_decl \<Rightarrow> unit em" where
  "ll_collectMethod structName fn =
     (let layout = \<lparr>ml_structName = structName, ml_decl = fn, ml_function = None\<rparr> in
      update (\<lambda>s. s\<lparr>em_layouts := um_modify structName (\<lambda>l.
        if has_self fn then l\<lparr>sl_methods := um_emplace (fn_name fn) layout (sl_methods l)\<rparr>
        else l\<lparr>sl_associated := um_emplace (fn_name fn) layout (sl_associated l)\<rparr>) (em_layouts s)\<rparr>))"

definition ll_collectMethods :: "ast_file \<Rightarrow> unit em" where
  "ll_collectMethods f =
     for_each (sf_declarations f) (\<lambda>d. case d of
         Some (DStruct sd) \<Rightarrow> for_each (sd_methods sd) (\<lambda>m. case m of Some m \<Rightarrow> ll_collectMethod (sd_name sd) m | None \<Rightarrow> ret ())
       | Some (DImpl i) \<Rightarrow>
           (if id_traitName i \<noteq> None then ret ()
            else for_each (id_methods i) (\<lambda>m. case m of Some m \<Rightarrow> ll_collectMethod (id_typeName i) m | None \<Rightarrow> ret ()))
       | _ \<Rightarrow> ret ())"


subsection \<open>Function keys and declarations\<close>

definition registerFunctionKey :: "fn_decl \<Rightarrow> unit em" where
  "registerFunctionKey fn = update (\<lambda>s. s\<lparr>em_simpleKeys :=
     um_set (fn_name fn) ((case um_find (em_simpleKeys s) (fn_name fn) of Some ks \<Rightarrow> ks | None \<Rightarrow> []) @ [functionKey fn])
       (em_simpleKeys s)\<rparr>)"

fun resolve_alias :: "(string \<Rightarrow> bool) \<Rightarrow> path \<Rightarrow> import_decl list \<Rightarrow> string option" where
  "resolve_alias isFunction p [] = None"
| "resolve_alias isFunction p (i # is) =
     (if imp_alias i \<noteq> Some (hd p) then resolve_alias isFunction p is
      else let key = joinPath (imp_path i @ tl p) in
        if isFunction key then Some key else resolve_alias isFunction p is)"

definition resolveFunctionKey :: "emitter \<Rightarrow> path \<Rightarrow> string option" where
  "resolveFunctionKey s p =
     (case p of
        [] \<Rightarrow> None
      | [name] \<Rightarrow> (case um_find (em_simpleKeys s) name of Some [k] \<Rightarrow> Some k | _ \<Rightarrow> None)
      | _ \<Rightarrow>
          (let isFunction = um_contains (em_functions s) in
           case (case em_currentDecl s of Some d \<Rightarrow> resolve_alias isFunction p (d_imports d) | None \<Rightarrow> None) of
             Some key \<Rightarrow> Some key
           | None \<Rightarrow> (if isFunction (joinPath p) then Some (joinPath p) else None)))"

definition add_function :: "ll_function \<Rightarrow> nat em" where
  "add_function fn = do {
     i \<leftarrow> gets (\<lambda>s. length (em_module s));
     update (\<lambda>s. s\<lparr>em_module := em_module s @ [fn]\<rparr>);
     ret i}"

definition declareFunction :: "fn_decl \<Rightarrow> unit em" where
  "declareFunction fn = do {
     ls \<leftarrow> gets em_layouts;
     i \<leftarrow> add_function
       \<lparr>lf_name = manglePath (functionKey fn), lf_returnType = ll_typeFromAst ls (fn_returnType fn),
        lf_params = map (\<lambda>p. (pm_name p, parameterTypeFromAst ls (pm_type p))) (fn_params fn), lf_blocks = []\<rparr>;
     update (\<lambda>s. s\<lparr>em_functions := um_emplace (functionKey fn) i (em_functions s)\<rparr>)}"

definition declareMethod :: "string \<Rightarrow> string \<Rightarrow> bool \<Rightarrow> method_layout \<Rightarrow> method_layout em" where
  "declareMethod structName methodName hasReceiver m = do {
     ls \<leftarrow> gets em_layouts;
     let ps = fn_params (ml_decl m);
     i \<leftarrow> add_function
       \<lparr>lf_name = mangleMethodName structName methodName,
        lf_returnType = ll_typeFromAst ls (fn_returnType (ml_decl m)),
        lf_params = (if hasReceiver then [(pm_name (hd ps), LPtr)] else [])
          @ map (\<lambda>p. (pm_name p, parameterTypeFromAst ls (pm_type p))) (if hasReceiver then tl ps else ps),
        lf_blocks = []\<rparr>;
     ret (m\<lparr>ml_function := Some i\<rparr>)}"

definition declare_group ::
    "string \<Rightarrow> bool \<Rightarrow> (string, method_layout) unordered_map \<Rightarrow> (string, method_layout) unordered_map em" where
  "declare_group structName hasReceiver ms =
     traverse_list (\<lambda>(name, m). do {m' \<leftarrow> declareMethod structName name hasReceiver m; ret (name, m')}) ms"

definition declareMethods :: "unit em" where
  "declareMethods = do {
     ls \<leftarrow> gets em_layouts;
     ls' \<leftarrow> traverse_list (\<lambda>(structName, layout). do {
       ms \<leftarrow> declare_group structName True (sl_methods layout);
       as \<leftarrow> declare_group structName False (sl_associated layout);
       ret (structName, layout\<lparr>sl_methods := ms, sl_associated := as\<rparr>)}) ls;
     update (\<lambda>s. s\<lparr>em_layouts := ls'\<rparr>)}"

end
