(* ===== verification/Gura_CodeGen_Expr.thy ===== *)
theory Gura_CodeGen_Expr
  imports Gura_CodeGen Gura_Sema
begin

section \<open>The code generator: expressions, functions, modules\<close>

text \<open>
  The \<^verbatim>\<open>emit...\<close> methods of \<^verbatim>\<open>ModuleEmitter\<close>. As in the checker, a method takes the recursive call
  \<open>rec\<close> as its first argument and \<^verbatim>\<open>emitExpr\<close> closes the recursion.
\<close>

type_synonym expr_emitter = "expr \<Rightarrow> ll_value option em"

definition some_of :: "ll_value em \<Rightarrow> ll_value option em" where
  "some_of m = do {v \<leftarrow> m; ret (Some v)}"

definition emit_opt :: "expr_emitter \<Rightarrow> expr option \<Rightarrow> ll_value option \<Rightarrow> ll_value option em" where
  "emit_opt rec e dflt = (case e of Some e \<Rightarrow> rec e | None \<Rightarrow> ret dflt)"

definition emit_operand :: "expr_emitter \<Rightarrow> expr option \<Rightarrow> ll_value option \<Rightarrow> ll_value em" where
  "emit_operand rec e dflt = do {v \<leftarrow> emit_opt rec e dflt; need v}"

definition emitName :: "string \<Rightarrow> ll_value option em" where
  "emitName name = do {
     slot \<leftarrow> gets (\<lambda>s. um_find (em_values s) name);
     case slot of
       None \<Rightarrow> ret (Some i64_zero)
     | Some slot \<Rightarrow> some_of (create_load (allocated_type slot) slot name)}"

fun is_array_type :: "ll_type \<Rightarrow> bool" where
  "is_array_type (LArray _ _) = True"
| "is_array_type _ = False"

definition emitBinding :: "expr_emitter \<Rightarrow> string \<Rightarrow> type_ref option \<Rightarrow> expr option \<Rightarrow> ll_value option em" where
  "emitBinding rec name type init = do {
     v \<leftarrow> emit_operand rec init (Some i64_zero);
     ls \<leftarrow> gets em_layouts;
     slot \<leftarrow> createEntryAlloca name
       (if \<not> is_array_type (value_type v) \<and> type \<noteq> None then ll_typeFromAst ls type else value_type v);
     create_store v slot;
     update (\<lambda>s. s\<lparr>em_values := um_set name slot (em_values s)\<rparr>);
     (case type of
        Some t \<Rightarrow>
          (if tr_capability t = Cap_Iso \<and> um_contains ls (tr_name t)
           then update (\<lambda>s. s\<lparr>em_regionStructTypes :=
                  um_set name (sl_type (the (um_find ls (tr_name t)))) (em_regionStructTypes s)\<rparr>)
           else ret ())
      | None \<Rightarrow> ret ());
     ret None}"

fun insert_fields :: "expr_emitter \<Rightarrow> struct_layout \<Rightarrow> ll_value \<Rightarrow> field_init list \<Rightarrow> ll_value em" where
  "insert_fields rec layout v [] = ret v"
| "insert_fields rec layout v (fi # fis) =
     (case um_find (sl_fields layout) (fi_name fi) of
        None \<Rightarrow> insert_fields rec layout v fis
      | Some field \<Rightarrow> do {
          x \<leftarrow> emit_operand rec (fi_value fi) (Some (ConstNull (fl_type field)));
          v' \<leftarrow> create_insert v x (fl_index field) (fi_name fi);
          insert_fields rec layout v' fis})"

definition emitNew :: "expr_emitter \<Rightarrow> type_ref option \<Rightarrow> string \<Rightarrow> field_init list \<Rightarrow> ll_value option em" where
  "emitNew rec type strategy fis = do {
     ls \<leftarrow> gets em_layouts;
     case Option.bind type (\<lambda>t. um_find ls (tr_name t)) of
       None \<Rightarrow> ret (Some i64_zero)
     | Some layout \<Rightarrow>
         (if tr_capability (the type) = Cap_Iso then do {
            region \<leftarrow> call_runtime RegionNewIso
              [SizeOf (sl_type layout), ConstInt LI32 (regionStrategyValue strategy)] ''region'';
            call_runtime RegionSetBridgeType [region, ConstInt LI64 (int (sl_typeId layout))] [];
            ret (Some region)}
          else some_of (insert_fields rec layout (UndefV (sl_type layout)) fis))}"

definition emitFreeze :: "expr_emitter \<Rightarrow> expr option \<Rightarrow> ll_value option em" where
  "emitFreeze rec v = do {
     region \<leftarrow> emit_operand rec v (Some null_ptr);
     some_of (call_runtime RegionFreeze [region] ''frozen'')}"

definition emitMerge :: "expr_emitter \<Rightarrow> expr option \<Rightarrow> ll_value option em" where
  "emitMerge rec v = do {
     source \<leftarrow> emit_operand rec v (Some null_ptr);
     target \<leftarrow> gets (\<lambda>s. if em_activeRegions s = [] then null_ptr else last (em_activeRegions s));
     some_of (call_runtime RegionMerge [target, source] ''merged'')}"

fun block_statements :: "expr_emitter \<Rightarrow> ll_value option \<Rightarrow> expr option list \<Rightarrow> ll_value option em" where
  "block_statements rec result [] = ret result"
| "block_statements rec result (e # es) = do {
     stop \<leftarrow> has_terminator;
     if stop then ret result
     else case e of
       None \<Rightarrow> block_statements rec result es
     | Some x \<Rightarrow> do {v \<leftarrow> rec x; block_statements rec v es}}"

definition emitBlock_with :: "expr_emitter \<Rightarrow> block \<Rightarrow> ll_value option em" where
  "emitBlock_with rec b = block_statements rec None (blk_expressions b)"

definition emit_block_opt :: "expr_emitter \<Rightarrow> block option \<Rightarrow> ll_value option em" where
  "emit_block_opt rec b = (case b of Some b \<Rightarrow> emitBlock_with rec b | None \<Rightarrow> ret None)"


subsection \<open>Regions\<close>

definition um_erase :: "'k \<Rightarrow> ('k, 'v) unordered_map \<Rightarrow> ('k, 'v) unordered_map" where
  "um_erase k m = filter (\<lambda>(k', v). k' \<noteq> k) m"

definition open_region_code :: "region_kind \<Rightarrow> ll_value \<Rightarrow> unit em" where
  "open_region_code kind region = do {
     call_runtime (if kind = Region_Enter then RegionEnter else RegionExplore) [region] [];
     if kind = Region_Enter
     then update (\<lambda>s. s\<lparr>em_activeRegions := em_activeRegions s @ [region]\<rparr>) else ret ()}"

definition bind_bridge :: "string \<Rightarrow> expr option \<Rightarrow> ll_value \<Rightarrow> ll_value em" where
  "bind_bridge name source region = do {
     bridge \<leftarrow> call_runtime RegionBridge [region] ''bridge'';
     slot \<leftarrow> createEntryAlloca name (value_type bridge);
     create_store bridge slot;
     update (\<lambda>s. s\<lparr>em_bridgeSlots := um_set name slot (em_bridgeSlots s),
                  em_pointerValues := um_set name bridge (em_pointerValues s)\<rparr>);
     (case asNameExpr source of
        Some (_, sourceName) \<Rightarrow> update (\<lambda>s.
          case um_find (em_regionStructTypes s) sourceName of
            Some t \<Rightarrow> s\<lparr>em_pointerStructTypes := um_set name t (em_pointerStructTypes s)\<rparr>
          | None \<Rightarrow> s)
      | None \<Rightarrow> ret ());
     ret slot}"

definition close_region_code :: "region_kind \<Rightarrow> string \<Rightarrow> ll_value \<Rightarrow> ll_value \<Rightarrow> unit em" where
  "close_region_code kind name region slot =
     (if kind = Region_Enter then do {
        currentBridge \<leftarrow> create_load (allocated_type slot) slot (name @ ''.bridge'');
        call_runtime RegionExit [region, currentBridge] [];
        update (\<lambda>s. s\<lparr>em_activeRegions := butlast (em_activeRegions s)\<rparr>)}
      else do {call_runtime RegionExploreExit [region] []; ret ()})"

definition emitRegion ::
    "expr_emitter \<Rightarrow> region_kind \<Rightarrow> expr option \<Rightarrow> string \<Rightarrow> block option \<Rightarrow> ll_value option em" where
  "emitRegion rec kind source name body = do {
     region \<leftarrow> emit_operand rec source (Some null_ptr);
     open_region_code kind region;
     slot \<leftarrow> bind_bridge name source region;
     result \<leftarrow> emit_block_opt rec body;
     close_region_code kind name region slot;
     update (\<lambda>s. s\<lparr>em_bridgeSlots := um_erase name (em_bridgeSlots s),
                  em_pointerValues := um_erase name (em_pointerValues s),
                  em_pointerStructTypes := um_erase name (em_pointerStructTypes s)\<rparr>);
     ret result}"


subsection \<open>Fields, arrays and assignments\<close>

definition struct_object :: "string \<Rightarrow> emitter \<Rightarrow> (ll_value \<times> ll_type) option" where
  "struct_object name s =
     (case um_find (em_values s) name of
        Some slot \<Rightarrow> Some (slot, allocated_type slot)
      | None \<Rightarrow>
          (case (um_find (em_pointerValues s) name, um_find (em_pointerStructTypes s) name) of
             (Some p, Some t) \<Rightarrow> Some (p, t)
           | _ \<Rightarrow> None))"

definition struct_layout_of :: "layouts \<Rightarrow> ll_type \<Rightarrow> struct_layout option" where
  "struct_layout_of ls t = (case t of LStruct name \<Rightarrow> (if name = [] then None else um_find ls name) | _ \<Rightarrow> None)"

definition fieldSlot :: "expr option \<Rightarrow> string \<Rightarrow> (ll_value \<times> field_layout) option em" where
  "fieldSlot obj fieldName =
     (case asNameExpr obj of
        None \<Rightarrow> ret None
      | Some (_, name) \<Rightarrow> do {
          obj \<leftarrow> gets (struct_object name);
          ls \<leftarrow> gets em_layouts;
          case obj of
            None \<Rightarrow> ret None
          | Some (address, t) \<Rightarrow>
              (case Option.bind (struct_layout_of ls t) (\<lambda>l. um_find (sl_fields l) fieldName) of
                 None \<Rightarrow> ret None
               | Some field \<Rightarrow> do {
                   p \<leftarrow> build (\<lambda>i. StructGEP i t address (fl_index field) (fieldName @ ''.addr'')) LPtr;
                   ret (Some (p, field))})})"

definition emitFieldAccess :: "expr option \<Rightarrow> string \<Rightarrow> ll_value option em" where
  "emitFieldAccess obj fieldName = do {
     slot \<leftarrow> fieldSlot obj fieldName;
     case slot of
       None \<Rightarrow> ret (Some i64_zero)
     | Some (p, field) \<Rightarrow> some_of (create_load (fl_type field) p fieldName)}"

fun array_elements :: "expr_emitter \<Rightarrow> ll_value \<Rightarrow> nat \<Rightarrow> expr option list \<Rightarrow> ll_value em" where
  "array_elements rec v i [] = ret v"
| "array_elements rec v i (e # es) = do {
     x \<leftarrow> emit_operand rec e (Some i64_zero);
     v' \<leftarrow> create_insert v x i ''array.elem'';
     array_elements rec v' (i + 1) es}"

definition emitArrayLiteral :: "expr_emitter \<Rightarrow> expr option list \<Rightarrow> ll_value option em" where
  "emitArrayLiteral rec elements =
     some_of (array_elements rec (UndefV (LArray LI64 (length elements))) 0 elements)"

definition indexSlot :: "expr_emitter \<Rightarrow> expr option \<Rightarrow> expr option \<Rightarrow> ll_value option em" where
  "indexSlot rec obj index =
     (case asNameExpr obj of
        None \<Rightarrow> ret None
      | Some (_, name) \<Rightarrow> do {
          v \<leftarrow> emit_operand rec index (Some i64_zero);
          v \<leftarrow> (if value_type v = LI32 then build (\<lambda>i. SExt i v ''idx.ext'') LI64 else ret v);
          pointer \<leftarrow> gets (\<lambda>s. um_find (em_arrayPointers s) name);
          slot \<leftarrow> gets (\<lambda>s. um_find (em_values s) name);
          case pointer of
            Some p \<Rightarrow> some_of (create_gep LI64 p [v] ''array.elem.addr'')
          | None \<Rightarrow>
              (case slot of
                 None \<Rightarrow> ret None
               | Some slot \<Rightarrow>
                   (if is_array_type (allocated_type slot)
                    then some_of (create_gep (allocated_type slot) slot [i64_zero, v] ''array.elem.addr'')
                    else ret None))})"

definition emitIndexAccess :: "expr_emitter \<Rightarrow> expr option \<Rightarrow> expr option \<Rightarrow> ll_value option em" where
  "emitIndexAccess rec obj index = do {
     slot \<leftarrow> indexSlot rec obj index;
     case slot of
       None \<Rightarrow> ret (Some i64_zero)
     | Some p \<Rightarrow> some_of (create_load LI64 p ''array.load'')}"

definition store_to :: "ll_value option \<Rightarrow> ll_value option \<Rightarrow> ll_value option em" where
  "store_to v slot =
     (case slot of
        None \<Rightarrow> ret None
      | Some p \<Rightarrow> do {x \<leftarrow> need v; create_store x p; ret (Some x)})"

definition assign_name :: "ll_value option \<Rightarrow> string \<Rightarrow> ll_value option em" where
  "assign_name v name = do {
     bridge \<leftarrow> gets (\<lambda>s. um_find (em_bridgeSlots s) name);
     slot \<leftarrow> gets (\<lambda>s. um_find (em_values s) name);
     case bridge of
       Some b \<Rightarrow> do {
         x \<leftarrow> need v;
         create_store x b;
         update (\<lambda>s. s\<lparr>em_pointerValues := um_set name x (em_pointerValues s)\<rparr>);
         ret (Some x)}
     | None \<Rightarrow> store_to v slot}"

definition emitAssign :: "expr_emitter \<Rightarrow> expr option \<Rightarrow> expr option \<Rightarrow> ll_value option em" where
  "emitAssign rec target val = do {
     v \<leftarrow> emit_opt rec val (Some i64_zero);
     case target of
       Some (NameExpr _ name) \<Rightarrow> assign_name v name
     | Some (FieldAccessExpr _ obj fieldName) \<Rightarrow> do {
         slot \<leftarrow> fieldSlot obj fieldName;
         store_to v (map_option fst slot)}
     | Some (IndexExpr _ obj index) \<Rightarrow> do {
         slot \<leftarrow> indexSlot rec obj index;
         store_to v slot}
     | _ \<Rightarrow> ret None}"


subsection \<open>Operators\<close>

definition binary_opcode :: "string \<Rightarrow> bool \<Rightarrow> (ll_binop \<times> string) option" where
  "binary_opcode op isFloat =
     (if op = ''+'' then Some (if isFloat then FAdd else NSWAdd, ''addtmp'')
      else if op = ''-'' then Some (if isFloat then FSub else NSWSub, ''subtmp'')
      else if op = ''*'' then Some (if isFloat then FMul else NSWMul, ''multmp'')
      else if op = ''/'' then Some (if isFloat then FDiv else SDiv, ''divtmp'')
      else if op = ''%'' then Some (SRem, ''modtmp'')
      else if op = ''=='' then Some (if isFloat then FCmpOEQ else ICmpEQ, ''eqtmp'')
      else if op = ''!='' then Some (if isFloat then FCmpONE else ICmpNE, ''netmp'')
      else if op = ''<'' then Some (if isFloat then FCmpOLT else ICmpSLT, ''lttmp'')
      else if op = ''<='' then Some (if isFloat then FCmpOLE else ICmpSLE, ''letmp'')
      else if op = ''>'' then Some (if isFloat then FCmpOGT else ICmpSGT, ''gttmp'')
      else if op = ''>='' then Some (if isFloat then FCmpOGE else ICmpSGE, ''getmp'')
      else None)"

definition emitBinary :: "expr_emitter \<Rightarrow> string \<Rightarrow> expr option \<Rightarrow> expr option \<Rightarrow> ll_value option em" where
  "emitBinary rec op lhs rhs = do {
     l \<leftarrow> emit_opt rec lhs None;
     r \<leftarrow> emit_opt rec rhs None;
     let isFloat = (case l of Some v \<Rightarrow> value_type v = LFloat \<or> value_type v = LDouble | None \<Rightarrow> False);
     case binary_opcode op isFloat of
       None \<Rightarrow> ret (Some i64_zero)
     | Some (opcode, name) \<Rightarrow> do {
         x \<leftarrow> need l;
         y \<leftarrow> need r;
         some_of (create_binop opcode x y name)}}"


subsection \<open>Calls\<close>

definition emitCallArgument :: "expr_emitter \<Rightarrow> expr \<Rightarrow> ll_type \<Rightarrow> ll_value option em" where
  "emitCallArgument rec argument expectedType =
     (if expectedType \<noteq> LPtr then rec argument
      else case asNameExpr (Some argument) of
        None \<Rightarrow> rec argument
      | Some (_, name) \<Rightarrow> do {
          pointer \<leftarrow> gets (\<lambda>s. um_find (em_arrayPointers s) name);
          slot \<leftarrow> gets (\<lambda>s. um_find (em_values s) name);
          case pointer of
            Some p \<Rightarrow> ret (Some p)
          | None \<Rightarrow>
              (case slot of
                 None \<Rightarrow> rec argument
               | Some slot \<Rightarrow>
                   (if is_array_type (allocated_type slot)
                    then some_of (create_gep (allocated_type slot) slot [i64_zero, i64_zero] (name @ ''.data''))
                    else rec argument))})"

fun call_arguments :: "expr_emitter \<Rightarrow> ll_type list \<Rightarrow> expr option list \<Rightarrow> ll_value list em" where
  "call_arguments rec tys [] = ret []"
| "call_arguments rec tys (a # as) = do {
     v \<leftarrow> (case a of
            Some e \<Rightarrow> emitCallArgument rec e (case tys of t # _ \<Rightarrow> t | [] \<Rightarrow> LI64)
          | None \<Rightarrow> ret (Some i64_zero));
     x \<leftarrow> need v;
     xs \<leftarrow> call_arguments rec (tl tys) as;
     ret (x # xs)}"

fun plain_arguments :: "expr_emitter \<Rightarrow> expr option list \<Rightarrow> ll_value list em" where
  "plain_arguments rec [] = ret []"
| "plain_arguments rec (a # as) = do {
     x \<leftarrow> emit_operand rec a (Some i64_zero);
     xs \<leftarrow> plain_arguments rec as;
     ret (x # xs)}"

definition emitReadlnI64 :: "ll_value option em" where
  "emitReadlnI64 = do {
     slot \<leftarrow> createEntryAlloca ''readln.value'' LI64;
     format \<leftarrow> create_global_string ''%lld'' ''.scanf.i64'';
     call_runtime Scanf [format, slot] [];
     some_of (create_load LI64 slot ''readln.load'')}"

definition print_format :: "string \<Rightarrow> (string \<times> string) option" where
  "print_format name =
     (if name = ''print'' then Some (''%s'', ''.printf.str'')
      else if name = ''println'' then Some (''%s'' @ [CHR 0x0A], ''.printf.strln'')
      else if name = ''print_i64'' then Some (''%lld'', ''.printf.i64'')
      else if name = ''println_i64'' then Some (''%lld'' @ [CHR 0x0A], ''.printf.i64ln'')
      else None)"

definition emitPrintCall :: "expr_emitter \<Rightarrow> string \<Rightarrow> expr option list \<Rightarrow> ll_value option em" where
  "emitPrintCall rec name arguments =
     (if name = ''readln_i64'' then emitReadlnI64
      else case print_format name of
        None \<Rightarrow> ret None
      | Some (format, label) \<Rightarrow> do {
          f \<leftarrow> create_global_string format label;
          vs \<leftarrow> (case arguments of
                  Some e # _ \<Rightarrow> do {x \<leftarrow> emit_operand rec (Some e) None; ret [x]}
                | _ \<Rightarrow> ret []);
          call_runtime Printf (f # vs) [];
          ret (Some (ConstNull LI64))})"

definition call_declared :: "expr_emitter \<Rightarrow> nat \<Rightarrow> expr option list \<Rightarrow> ll_value option em" where
  "call_declared rec f arguments = do {
     fn \<leftarrow> gets (\<lambda>s. em_module s ! f);
     xs \<leftarrow> call_arguments rec (map snd (lf_params fn)) arguments;
     some_of (call_function f xs (if lf_returnType fn = LVoid then [] else ''calltmp''))}"

definition method_function :: "method_layout \<Rightarrow> nat" where
  "method_function m = (case ml_function m of Some f \<Rightarrow> f | None \<Rightarrow> 0)"

datatype method_target = Associated nat | OnObject nat ll_value

definition method_target :: "emitter \<Rightarrow> string \<Rightarrow> string \<Rightarrow> method_target option" where
  "method_target s name fieldName =
     (case Option.bind (um_find (em_layouts s) name) (\<lambda>l. um_find (sl_associated l) fieldName) of
        Some m \<Rightarrow> Some (Associated (method_function m))
      | None \<Rightarrow>
          (case um_find (em_values s) name of
             None \<Rightarrow> None
           | Some slot \<Rightarrow>
               map_option (\<lambda>m. OnObject (method_function m) slot)
                 (Option.bind (struct_layout_of (em_layouts s) (allocated_type slot)) (\<lambda>l. um_find (sl_methods l) fieldName))))"

definition emitMethodCall :: "expr_emitter \<Rightarrow> expr option \<Rightarrow> string \<Rightarrow> expr option list \<Rightarrow> ll_value option em" where
  "emitMethodCall rec obj fieldName arguments =
     (case asNameExpr obj of
        None \<Rightarrow> ret None
      | Some (_, name) \<Rightarrow> do {
          target \<leftarrow> gets (\<lambda>s. method_target s name fieldName);
          case target of
            None \<Rightarrow> ret None
          | Some (Associated f) \<Rightarrow> do {
              xs \<leftarrow> plain_arguments rec arguments;
              some_of (call_function f xs ''calltmp'')}
          | Some (OnObject f slot) \<Rightarrow> do {
              xs \<leftarrow> plain_arguments rec arguments;
              some_of (call_function f (slot # xs) ''calltmp'')}})"

definition call_by_name :: "expr_emitter \<Rightarrow> string \<Rightarrow> expr option list \<Rightarrow> ll_value option em" where
  "call_by_name rec name arguments = do {
     builtin \<leftarrow> emitPrintCall rec name arguments;
     case builtin of
       Some v \<Rightarrow> ret (Some v)
     | None \<Rightarrow> do {
         f \<leftarrow> gets (\<lambda>s. um_find (em_functions s) name);
         case f of
           Some f \<Rightarrow> call_declared rec f arguments
         | None \<Rightarrow> do {
             xs \<leftarrow> plain_arguments rec arguments;
             if name = ''puts'' then some_of (call_runtime Puts xs ''calltmp'')
             else ret (Some i64_zero)}}}"

definition call_unresolved :: "expr_emitter \<Rightarrow> expr option \<Rightarrow> expr option list \<Rightarrow> ll_value option em" where
  "call_unresolved rec callee arguments = do {
     meth \<leftarrow> (case callee of
       Some (FieldAccessExpr _ obj fieldName) \<Rightarrow> emitMethodCall rec obj fieldName arguments
     | _ \<Rightarrow> ret None);
     case meth of
       Some v \<Rightarrow> ret (Some v)
     | None \<Rightarrow>
         (case asNameExpr callee of
            None \<Rightarrow> ret (Some i64_zero)
          | Some (_, name) \<Rightarrow> call_by_name rec name arguments)}"

definition resolved_callee :: "emitter \<Rightarrow> expr option \<Rightarrow> nat option" where
  "resolved_callee s callee =
     Option.bind callee (\<lambda>c. Option.bind (resolveFunctionKey s (pathFromFieldAccess c)) (um_find (em_functions s)))"

definition emitCall :: "expr_emitter \<Rightarrow> expr option \<Rightarrow> expr option list \<Rightarrow> ll_value option em" where
  "emitCall rec callee arguments = do {
     builtin \<leftarrow> (case Option.bind callee qualifiedCoreBuiltinName of
       Some name \<Rightarrow> emitPrintCall rec name arguments
     | None \<Rightarrow> ret None);
     case builtin of
       Some v \<Rightarrow> ret (Some v)
     | None \<Rightarrow> do {
         f \<leftarrow> gets (\<lambda>s. resolved_callee s callee);
         case f of
           Some f \<Rightarrow> call_declared rec f arguments
         | None \<Rightarrow> call_unresolved rec callee arguments}}"


subsection \<open>Control flow\<close>

definition branch_if_open :: "nat \<Rightarrow> unit em" where
  "branch_if_open b = do {
     stop \<leftarrow> has_terminator;
     if stop then ret () else insert_instr (Br b)}"

definition emitWhile :: "expr_emitter \<Rightarrow> expr option \<Rightarrow> block option \<Rightarrow> ll_value option em" where
  "emitWhile rec cond body = do {
     conditionBlock \<leftarrow> ll_new_block ''while.cond'';
     attach_block conditionBlock;
     bodyBlock \<leftarrow> ll_new_block ''while.body'';
     exitBlock \<leftarrow> ll_new_block ''while.end'';
     insert_instr (Br conditionBlock);
     set_insert_point conditionBlock;
     c \<leftarrow> emit_operand rec cond (Some (ConstInt LI1 0));
     insert_instr (CondBr c bodyBlock exitBlock);
     attach_block bodyBlock;
     set_insert_point bodyBlock;
     emit_block_opt rec body;
     branch_if_open conditionBlock;
     attach_block exitBlock;
     set_insert_point exitBlock;
     ret None}"

definition emitIf :: "expr_emitter \<Rightarrow> expr option \<Rightarrow> block option \<Rightarrow> expr option \<Rightarrow> ll_value option em" where
  "emitIf rec cond thenB elseE = do {
     c \<leftarrow> emit_operand rec cond (Some (ConstInt LI1 0));
     thenBlock \<leftarrow> ll_new_block ''if.then'';
     attach_block thenBlock;
     elseBlock \<leftarrow> ll_new_block ''if.else'';
     mergeBlock \<leftarrow> ll_new_block ''if.end'';
     insert_instr (CondBr c thenBlock elseBlock);
     set_insert_point thenBlock;
     emit_block_opt rec thenB;
     branch_if_open mergeBlock;
     attach_block elseBlock;
     set_insert_point elseBlock;
     emit_opt rec elseE None;
     branch_if_open mergeBlock;
     attach_block mergeBlock;
     set_insert_point mergeBlock;
     ret None}"

definition emitReturn :: "expr_emitter \<Rightarrow> expr option \<Rightarrow> ll_value option em" where
  "emitReturn rec v = do {
     x \<leftarrow> emit_opt rec v None;
     t \<leftarrow> return_type;
     i \<leftarrow> fresh;
     insert_instr (Ret (if t = LVoid then None else x));
     ret (Some (InstrV i LVoid))}"


subsection \<open>Closing the recursion\<close>

lemma emit_opt_cong [fundef_cong]:
  "e = e' \<Longrightarrow> d = d' \<Longrightarrow> (\<And>x. e' = Some x \<Longrightarrow> rec x = rec' x) \<Longrightarrow> emit_opt rec e d = emit_opt rec' e' d'"
  by (auto simp: emit_opt_def split: option.splits)

lemma emit_operand_cong:
  "(\<And>x. e = Some x \<Longrightarrow> rec x = rec' x) \<Longrightarrow> emit_operand rec e d = emit_operand rec' e d"
  unfolding emit_operand_def by (simp cong: emit_opt_cong)

lemma block_statements_cong:
  "(\<And>x. Some x \<in> set es \<Longrightarrow> rec x = rec' x) \<Longrightarrow> block_statements rec v es = block_statements rec' v es"
  by (induction es arbitrary: v) (auto split: option.split intro!: arg_cong2 [where f = State_Monad.bind])

lemma emit_block_opt_cong [fundef_cong]:
  "b = b' \<Longrightarrow> (\<And>x y. b' = Some y \<Longrightarrow> Some x \<in> set (blk_expressions y) \<Longrightarrow> rec x = rec' x) \<Longrightarrow>
   emit_block_opt rec b = emit_block_opt rec' b'"
  by (auto simp: emit_block_opt_def emitBlock_with_def split: option.splits intro!: block_statements_cong)

lemma emitBinding_cong [fundef_cong]:
  "name = name' \<Longrightarrow> t = t' \<Longrightarrow> i = i' \<Longrightarrow> (\<And>x. i' = Some x \<Longrightarrow> rec x = rec' x) \<Longrightarrow>
   emitBinding rec name t i = emitBinding rec' name' t' i'"
  by (simp add: emitBinding_def cong: emit_operand_cong)

lemma insert_fields_cong:
  "(\<And>x fi. fi \<in> set fis \<Longrightarrow> fi_value fi = Some x \<Longrightarrow> rec x = rec' x) \<Longrightarrow>
   insert_fields rec layout v fis = insert_fields rec' layout v fis"
proof (induction fis arbitrary: v)
  case (Cons fi fis)
  then have x: "emit_operand rec (fi_value fi) d = emit_operand rec' (fi_value fi) d" for d
    by (intro emit_operand_cong) auto
  have "insert_fields rec layout v fis = insert_fields rec' layout v fis" for v
    using Cons.prems by (intro Cons.IH) auto
  then show ?case by (simp only: insert_fields.simps x)
qed simp

lemma emitNew_cong [fundef_cong]:
  assumes "t = t'" "st = st'" "fis = fis'"
    and "\<And>x fi. fi \<in> set fis' \<Longrightarrow> fi_value fi = Some x \<Longrightarrow> rec x = rec' x"
  shows "emitNew rec t st fis = emitNew rec' t' st' fis'"
proof -
  have args: "insert_fields rec layout v fis = insert_fields rec' layout v fis" for layout v
    using assms by (intro insert_fields_cong) auto
  show ?thesis unfolding emitNew_def assms(1-3) [symmetric] args ..
qed

lemma emitFreeze_cong [fundef_cong]:
  "v = v' \<Longrightarrow> (\<And>x. v' = Some x \<Longrightarrow> rec x = rec' x) \<Longrightarrow> emitFreeze rec v = emitFreeze rec' v'"
  by (simp add: emitFreeze_def cong: emit_operand_cong)

lemma emitMerge_cong [fundef_cong]:
  "v = v' \<Longrightarrow> (\<And>x. v' = Some x \<Longrightarrow> rec x = rec' x) \<Longrightarrow> emitMerge rec v = emitMerge rec' v'"
  by (simp add: emitMerge_def cong: emit_operand_cong)

lemma emitRegion_cong [fundef_cong]:
  "k = k' \<Longrightarrow> e = e' \<Longrightarrow> name = name' \<Longrightarrow> b = b' \<Longrightarrow> (\<And>x. e' = Some x \<Longrightarrow> rec x = rec' x) \<Longrightarrow>
   (\<And>x y. b' = Some y \<Longrightarrow> Some x \<in> set (blk_expressions y) \<Longrightarrow> rec x = rec' x) \<Longrightarrow>
   emitRegion rec k e name b = emitRegion rec' k' e' name' b'"
  by (simp add: emitRegion_def cong: emit_operand_cong emit_block_opt_cong)

lemma emitArrayLiteral_cong [fundef_cong]:
  assumes "es = es'" "\<And>x. Some x \<in> set es' \<Longrightarrow> rec x = rec' x"
  shows "emitArrayLiteral rec es = emitArrayLiteral rec' es'"
proof -
  have "array_elements rec v i xs = array_elements rec' v i xs" if "set xs \<subseteq> set es" for v i xs
    using that
  proof (induction xs arbitrary: v i)
    case (Cons e xs)
    then have x: "emit_operand rec e d = emit_operand rec' e d" for d
      using assms by (intro emit_operand_cong) auto
    have "array_elements rec v i xs = array_elements rec' v i xs" for v i
      using Cons.prems by (intro Cons.IH) auto
    then show ?case by (simp only: array_elements.simps x)
  qed simp
  then show ?thesis unfolding emitArrayLiteral_def assms(1) [symmetric] by simp
qed

lemma indexSlot_cong:
  "(\<And>x. i = Some x \<Longrightarrow> rec x = rec' x) \<Longrightarrow> indexSlot rec obj i = indexSlot rec' obj i"
  unfolding indexSlot_def by (subst emit_operand_cong [of i rec rec']) simp_all

lemma emitIndexAccess_cong [fundef_cong]:
  "obj = obj' \<Longrightarrow> i = i' \<Longrightarrow> (\<And>x. i' = Some x \<Longrightarrow> rec x = rec' x) \<Longrightarrow>
   emitIndexAccess rec obj i = emitIndexAccess rec' obj' i'"
  unfolding emitIndexAccess_def by (subst indexSlot_cong [of i rec rec']) simp_all

lemma emitAssign_cong [fundef_cong]:
  assumes "target = target'" "v = v'" "\<And>x. v' = Some x \<Longrightarrow> rec x = rec' x"
    and "\<And>x n obj. target' = Some (IndexExpr n obj (Some x)) \<Longrightarrow> rec x = rec' x"
  shows "emitAssign rec target v = emitAssign rec' target' v'"
proof -
  have "indexSlot rec obj i = indexSlot rec' obj i" if "target = Some (IndexExpr n obj i)" for n obj i
    using that assms by (intro indexSlot_cong) auto
  then show ?thesis
    unfolding emitAssign_def assms(1,2) [symmetric] using assms(2,3)
    by (cases target; cases "the target") (simp_all cong: emit_opt_cong)
qed

lemma emitBinary_cong [fundef_cong]:
  "op = op' \<Longrightarrow> l = l' \<Longrightarrow> r = r' \<Longrightarrow> (\<And>x. l' = Some x \<or> r' = Some x \<Longrightarrow> rec x = rec' x) \<Longrightarrow>
   emitBinary rec op l r = emitBinary rec' op' l' r'"
  by (simp add: emitBinary_def cong: emit_opt_cong)

lemma argument_lists_cong:
  assumes "\<And>x. Some x \<in> set as \<Longrightarrow> rec x = rec' x"
  shows "plain_arguments rec as = plain_arguments rec' as" and "call_arguments rec tys as = call_arguments rec' tys as"
proof -
  show "plain_arguments rec as = plain_arguments rec' as"
    using assms
  proof (induction as)
    case (Cons a as)
    then have x: "emit_operand rec a d = emit_operand rec' a d" for d
      by (intro emit_operand_cong) auto
    have "plain_arguments rec as = plain_arguments rec' as"
      using Cons.prems by (intro Cons.IH) auto
    then show ?case by (simp only: plain_arguments.simps x)
  qed simp
  show "call_arguments rec tys as = call_arguments rec' tys as"
    using assms
  proof (induction as arbitrary: tys)
    case (Cons a as)
    have "rec e = rec' e" if "a = Some e" for e
      using that Cons.prems by simp
    then have "emitCallArgument rec e t = emitCallArgument rec' e t" if "a = Some e" for e t
      using that by (simp only: emitCallArgument_def)
    then have x: "(case a of Some e \<Rightarrow> emitCallArgument rec e t | None \<Rightarrow> d) =
        (case a of Some e \<Rightarrow> emitCallArgument rec' e t | None \<Rightarrow> d)" for t d
      by (simp split: option.split)
    have "call_arguments rec tys as = call_arguments rec' tys as" for tys
      using Cons.prems by (intro Cons.IH) auto
    then show ?case by (simp only: call_arguments.simps x)
  qed simp
qed

lemma emitPrintCall_cong:
  assumes "\<And>x. Some x \<in> set as \<Longrightarrow> rec x = rec' x"
  shows "emitPrintCall rec name as = emitPrintCall rec' name as"
proof -
  have "emit_operand rec (Some e) d = emit_operand rec' (Some e) d" if "as = Some e # as'" for e as' d
    using that assms by (intro emit_operand_cong) auto
  then show ?thesis by (simp add: emitPrintCall_def cong: list.case_cong option.case_cong)
qed

lemma emitCall_cong [fundef_cong]:
  assumes "callee = callee'" "as = as'" "\<And>x. Some x \<in> set as' \<Longrightarrow> rec x = rec' x"
  shows "emitCall rec callee as = emitCall rec' callee' as'"
proof -
  have x: "plain_arguments rec as = plain_arguments rec' as" "call_arguments rec tys as = call_arguments rec' tys as"
    "emitPrintCall rec name as = emitPrintCall rec' name as" for tys name
    using assms by (auto intro: argument_lists_cong emitPrintCall_cong)
  show ?thesis
    unfolding assms(1,2) [symmetric] emitCall_def call_unresolved_def call_by_name_def call_declared_def
      emitMethodCall_def x ..
qed

lemma emitReturn_cong [fundef_cong]:
  "v = v' \<Longrightarrow> (\<And>x. v' = Some x \<Longrightarrow> rec x = rec' x) \<Longrightarrow> emitReturn rec v = emitReturn rec' v'"
  by (simp add: emitReturn_def cong: emit_opt_cong)

lemma emitWhile_cong [fundef_cong]:
  "c = c' \<Longrightarrow> b = b' \<Longrightarrow> (\<And>x. c' = Some x \<Longrightarrow> rec x = rec' x) \<Longrightarrow>
   (\<And>x y. b' = Some y \<Longrightarrow> Some x \<in> set (blk_expressions y) \<Longrightarrow> rec x = rec' x) \<Longrightarrow>
   emitWhile rec c b = emitWhile rec' c' b'"
  by (simp add: emitWhile_def cong: emit_operand_cong emit_block_opt_cong)

lemma emitIf_cong [fundef_cong]:
  "c = c' \<Longrightarrow> t = t' \<Longrightarrow> e = e' \<Longrightarrow> (\<And>x. c' = Some x \<or> e' = Some x \<Longrightarrow> rec x = rec' x) \<Longrightarrow>
   (\<And>x y. t' = Some y \<Longrightarrow> Some x \<in> set (blk_expressions y) \<Longrightarrow> rec x = rec' x) \<Longrightarrow>
   emitIf rec c t e = emitIf rec' c' t' e'"
  by (simp add: emitIf_def cong: emit_operand_cong emit_opt_cong emit_block_opt_cong)

function emitExpr :: "expr \<Rightarrow> ll_value option em" where
  "emitExpr (LiteralExpr n kind txt suffix) = some_of (emitLiteral kind txt suffix)"
| "emitExpr (NameExpr n name) = emitName name"
| "emitExpr (BinaryExpr n op lhs rhs) = emitBinary emitExpr op lhs rhs"
| "emitExpr (BindingExpr n isVar name type initializer) = emitBinding emitExpr name type initializer"
| "emitExpr (AssignExpr n target val) = emitAssign emitExpr target val"
| "emitExpr (FieldAccessExpr n obj fieldName) = emitFieldAccess obj fieldName"
| "emitExpr (ArrayLiteralExpr n elements) = emitArrayLiteral emitExpr elements"
| "emitExpr (IndexExpr n obj index) = emitIndexAccess emitExpr obj index"
| "emitExpr (MoveExpr n val) = emit_opt emitExpr val (Some null_ptr)"
| "emitExpr (NewExpr n type strategy fis) = emitNew emitExpr type strategy fis"
| "emitExpr (FreezeExpr n val) = emitFreeze emitExpr val"
| "emitExpr (MergeExpr n val) = emitMerge emitExpr val"
| "emitExpr (RegionExpr n kind source bindingName body) = emitRegion emitExpr kind source bindingName body"
| "emitExpr (ReturnExpr n val) = emitReturn emitExpr val"
| "emitExpr (IfExpr n condition thenBlock elseBranch) = emitIf emitExpr condition thenBlock elseBranch"
| "emitExpr (WhileExpr n condition body) = emitWhile emitExpr condition body"
| "emitExpr (CallExpr n callee arguments) = emitCall emitExpr callee arguments"
| "emitExpr (BlockE b) = emit_block_opt emitExpr (Some b)"
  by pat_completeness auto

termination emitExpr
  by (relation "measure size") (auto dest: size_block size_args size_init)

definition emitBlock :: "block \<Rightarrow> ll_value option em" where
  "emitBlock b = emitBlock_with emitExpr b"


subsection \<open>Functions, methods and the module\<close>

definition emitDefaultReturn :: "unit em" where
  "emitDefaultReturn = do {
     stop \<leftarrow> has_terminator;
     t \<leftarrow> return_type;
     if stop then ret ()
     else if t = LVoid then insert_instr (Ret None)
     else insert_instr (Ret (Some (ConstNull t)))}"

definition clear_bindings :: "unit em" where
  "clear_bindings = update (\<lambda>s. s\<lparr>em_values := [], em_pointerValues := [], em_arrayPointers := [],
     em_pointerStructTypes := [], em_regionStructTypes := [], em_bridgeSlots := [], em_activeRegions := []\<rparr>)"

definition bind_param :: "nat \<Rightarrow> ll_type \<Rightarrow> param \<Rightarrow> unit em" where
  "bind_param i t p =
     (if (case pm_type p of Some ty \<Rightarrow> tr_isArray ty | None \<Rightarrow> False)
      then update (\<lambda>s. s\<lparr>em_arrayPointers := um_emplace (pm_name p) (ArgV i t) (em_arrayPointers s)\<rparr>)
      else do {
        slot \<leftarrow> createEntryAlloca (pm_name p) t;
        create_store (ArgV i t) slot;
        update (\<lambda>s. s\<lparr>em_values := um_emplace (pm_name p) slot (em_values s)\<rparr>)})"

fun bind_params :: "nat \<Rightarrow> (string \<times> ll_type) list \<Rightarrow> param list \<Rightarrow> unit em" where
  "bind_params i (a # args) (p # ps) = do {bind_param i (snd a) p; bind_params (i + 1) args ps}"
| "bind_params i _ _ = ret ()"

definition open_function :: "nat \<Rightarrow> unit em" where
  "open_function f = do {
     update (\<lambda>s. s\<lparr>em_fn := f\<rparr>);
     entry \<leftarrow> ll_new_block ''entry'';
     attach_block entry;
     set_insert_point entry;
     clear_bindings}"

definition emit_body :: "fn_decl \<Rightarrow> unit em" where
  "emit_body fn = do {
     (case fn_body fn of Some b \<Rightarrow> do {emitBlock b; ret ()} | None \<Rightarrow> ret ());
     emitDefaultReturn}"

definition emit_function_code :: "nat \<Rightarrow> fn_decl \<Rightarrow> unit em" where
  "emit_function_code f fn = do {
     open_function f;
     args \<leftarrow> gets (\<lambda>s. lf_params (em_module s ! f));
     bind_params 0 args (fn_params fn);
     emit_body fn}"

definition emitFunction :: "fn_decl \<Rightarrow> unit em" where
  "emitFunction fn = do {
     previousDecl \<leftarrow> gets em_currentDecl;
     update (\<lambda>s. s\<lparr>em_currentDecl := Some fn\<rparr>);
     f \<leftarrow> gets (\<lambda>s. um_find (em_functions s) (functionKey fn));
     (case f of Some f \<Rightarrow> emit_function_code f fn | None \<Rightarrow> crash);
     update (\<lambda>s. s\<lparr>em_currentDecl := previousDecl\<rparr>)}"

definition bind_receiver :: "method_layout \<Rightarrow> unit em" where
  "bind_receiver m = update (\<lambda>s.
     let self = pm_name (hd (fn_params (ml_decl m))) in s\<lparr>
       em_pointerValues := um_emplace self (ArgV 0 LPtr) (em_pointerValues s),
       em_pointerStructTypes := um_emplace self (case um_find (em_layouts s) (ml_structName m) of
         Some l \<Rightarrow> sl_type l | None \<Rightarrow> LVoid) (em_pointerStructTypes s)\<rparr>)"

definition emit_method_code :: "nat \<Rightarrow> bool \<Rightarrow> method_layout \<Rightarrow> unit em" where
  "emit_method_code f hasReceiver m = do {
     open_function f;
     args \<leftarrow> gets (\<lambda>s. lf_params (em_module s ! f));
     (if hasReceiver then do {bind_receiver m; bind_params 1 (tl args) (tl (fn_params (ml_decl m)))}
      else bind_params 0 args (fn_params (ml_decl m)));
     emit_body (ml_decl m)}"

definition emitMethod :: "bool \<Rightarrow> method_layout \<Rightarrow> unit em" where
  "emitMethod hasReceiver m =
     (case ml_function m of Some f \<Rightarrow> emit_method_code f hasReceiver m | None \<Rightarrow> crash)"

definition emitMethods :: "unit em" where
  "emitMethods = do {
     ls \<leftarrow> gets em_layouts;
     for_each ls (\<lambda>(_, layout). do {
       for_each (sl_methods layout) (\<lambda>(_, m). emitMethod True m);
       for_each (sl_associated layout) (\<lambda>(_, m). emitMethod False m)})}"

definition for_each_fn :: "ast_file \<Rightarrow> (fn_decl \<Rightarrow> unit em) \<Rightarrow> unit em" where
  "for_each_fn f body = for_each (sf_declarations f) (\<lambda>d. case d of
     Some (DFn fn) \<Rightarrow> if fn_genericParams fn = [] then body fn else ret ()
   | _ \<Rightarrow> ret ())"

definition emit_module :: "ast_file \<Rightarrow> unit em" where
  "emit_module f = do {
     ll_collectStructs f;
     ll_collectMethods f;
     for_each_fn f registerFunctionKey;
     for_each_fn f declareFunction;
     declareMethods;
     for_each_fn f emitFunction;
     emitMethods}"

text \<open>
  \<^verbatim>\<open>LLVMCodeGen::emitModule\<close>: whether LLVM was found is a build option, and the printing of the module is
  LLVM's.
\<close>

definition emitModule :: "bool \<Rightarrow> (emitter \<Rightarrow> string) \<Rightarrow> ast_file \<Rightarrow> string" where
  "emitModule has_llvm print_module f =
     (if has_llvm then print_module (snd (run_state (emit_module f) ModuleEmitter_init))
      else ''; LLVM support not found at configure time'' @ [CHR 0x0A])"

end
