(* ===== verification/Gura_CodeGen_Flow.thy ===== *)
theory Gura_CodeGen_Flow
  imports Gura_CodeGen_Expr
begin

section \<open>The control flow of emitted functions\<close>

text \<open>
  An emitted function is checked like bytecode: every block is assigned the regions that are open when it
  starts. A block is closed when its only terminator is its last instruction, its region calls push and pop that
  stack, and each successor expects the stack it leaves; a returning block must leave no region open. This theory
  states the invariant of the emitter that gives it and proves that the builder calls keep it.
\<close>

type_synonym open_regions = "(region_kind \<times> ll_value) list"

fun region_step :: "open_regions \<Rightarrow> ll_instr \<Rightarrow> open_regions option" where
  "region_step S (Call n (Extern f) args name) =
     (case (f, args) of
        (RegionEnter, [r]) \<Rightarrow> Some ((Region_Enter, r) # S)
      | (RegionExplore, [r]) \<Rightarrow> Some ((Region_Explore, r) # S)
      | (RegionExit, r # _) \<Rightarrow> (case S of (k, r') # S' \<Rightarrow> if k = Region_Enter \<and> r' = r then Some S' else None | [] \<Rightarrow> None)
      | (RegionExploreExit, r # _) \<Rightarrow>
          (case S of (k, r') # S' \<Rightarrow> if k = Region_Explore \<and> r' = r then Some S' else None | [] \<Rightarrow> None)
      | (RegionEnter, _) \<Rightarrow> None
      | (RegionExplore, _) \<Rightarrow> None
      | (RegionExit, _) \<Rightarrow> None
      | (RegionExploreExit, _) \<Rightarrow> None
      | _ \<Rightarrow> Some S)"
| "region_step S i = Some S"

fun region_effect :: "open_regions \<Rightarrow> ll_instr list \<Rightarrow> open_regions option" where
  "region_effect S [] = Some S"
| "region_effect S (i # is) = (case region_step S i of Some S' \<Rightarrow> region_effect S' is | None \<Rightarrow> None)"

lemma region_effect_append:
  "region_effect S (is @ js) = (case region_effect S is of Some S' \<Rightarrow> region_effect S' js | None \<Rightarrow> None)"
  by (induction "is" arbitrary: S) (auto split: option.split)

definition neutral :: "ll_instr \<Rightarrow> bool" where
  "neutral i \<longleftrightarrow> \<not> is_terminator i \<and> (\<forall>S. region_step S i = Some S)"

definition open_code :: "open_regions \<Rightarrow> ll_instr list \<Rightarrow> open_regions \<Rightarrow> bool" where
  "open_code S0 is S \<longleftrightarrow> (\<forall>i\<in>set is. \<not> is_terminator i) \<and> region_effect S0 is = Some S"

fun exits_to :: "(nat \<Rightarrow> open_regions) \<Rightarrow> nat set \<Rightarrow> open_regions \<Rightarrow> ll_instr \<Rightarrow> bool" where
  "exits_to L T S (Ret v) \<longleftrightarrow> S = []"
| "exits_to L T S (Br b) \<longleftrightarrow> b \<in> T \<and> L b = S"
| "exits_to L T S (CondBr c b b') \<longleftrightarrow> b \<in> T \<and> b' \<in> T \<and> L b = S \<and> L b' = S"
| "exits_to L T S _ \<longleftrightarrow> False"

definition closed_code :: "(nat \<Rightarrow> open_regions) \<Rightarrow> nat set \<Rightarrow> open_regions \<Rightarrow> ll_instr list \<Rightarrow> bool" where
  "closed_code L T S0 is \<longleftrightarrow> (\<exists>body t S. is = body @ [t] \<and> open_code S0 body S \<and> exits_to L T S t)"

abbreviation code_of :: "ll_block list \<Rightarrow> nat \<Rightarrow> ll_instr list" where
  "code_of bs b \<equiv> bb_instrs (bs ! b)"

abbreviation fn_blocks :: "emitter \<Rightarrow> nat list" where
  "fn_blocks s \<equiv> lf_blocks (em_module s ! em_fn s)"

text \<open>The blocks outside the insertion point; \<open>P\<close> are the blocks created but not yet attached.\<close>

definition wf_blocks :: "emitter \<Rightarrow> (nat \<Rightarrow> open_regions) \<Rightarrow> nat set \<Rightarrow> bool" where
  "wf_blocks s L P \<longleftrightarrow>
     em_fn s < length (em_module s) \<and> fn_blocks s \<noteq> [] \<and> distinct (fn_blocks s) \<and>
     set (fn_blocks s) \<union> P \<subseteq> {..<length (em_blocks s)} \<and> em_insert s \<in> set (fn_blocks s) \<and>
     P \<inter> set (fn_blocks s) = {} \<and> L (hd (fn_blocks s)) = [] \<and>
     (\<forall>p\<in>P. code_of (em_blocks s) p = []) \<and>
     (\<forall>b\<in>set (fn_blocks s). b \<noteq> em_insert s \<longrightarrow> closed_code L (set (fn_blocks s) \<union> P) (L b) (code_of (em_blocks s) b))"

definition opened :: "emitter \<Rightarrow> (nat \<Rightarrow> open_regions) \<Rightarrow> nat set \<Rightarrow> open_regions \<Rightarrow> bool" where
  "opened s L P S \<longleftrightarrow> wf_blocks s L P \<and> open_code (L (em_insert s)) (code_of (em_blocks s) (em_insert s)) S"

definition finished :: "emitter \<Rightarrow> (nat \<Rightarrow> open_regions) \<Rightarrow> nat set \<Rightarrow> bool" where
  "finished s L P \<longleftrightarrow> wf_blocks s L P \<and>
     closed_code L (set (fn_blocks s) \<union> P) (L (em_insert s)) (code_of (em_blocks s) (em_insert s))"

text \<open>What emitting code leaves alone: other functions, their blocks, and the tables.\<close>

definition framed_from :: "nat \<Rightarrow> emitter \<Rightarrow> emitter \<Rightarrow> bool" where
  "framed_from n s t \<longleftrightarrow>
     em_fn t = em_fn s \<and> length (em_module t) = length (em_module s) \<and>
     (\<forall>g. g \<noteq> em_fn s \<longrightarrow> em_module t ! g = em_module s ! g) \<and>
     (\<exists>extra. em_module t ! em_fn s = (em_module s ! em_fn s)\<lparr>lf_blocks := fn_blocks s @ extra\<rparr> \<and>
        set extra \<subseteq> {n..<length (em_blocks t)}) \<and>
     length (em_blocks s) \<le> length (em_blocks t) \<and>
     (\<forall>b<n. b \<notin> set (fn_blocks s) \<longrightarrow> em_blocks t ! b = em_blocks s ! b) \<and>
     em_functions t = em_functions s \<and> em_layouts t = em_layouts s \<and> em_currentDecl t = em_currentDecl s \<and> em_simpleKeys t = em_simpleKeys s"

abbreviation framed :: "emitter \<Rightarrow> emitter \<Rightarrow> bool" where
  "framed s t \<equiv> framed_from (length (em_blocks s)) s t"

definition agree_below :: "nat \<Rightarrow> (nat \<Rightarrow> 'a) \<Rightarrow> (nat \<Rightarrow> 'a) \<Rightarrow> bool" where
  "agree_below n L L' \<longleftrightarrow> (\<forall>b<n. L' b = L b)"

lemma framed_refl [simp]: "framed_from n s s"
  unfolding framed_from_def by (intro conjI exI [of _ "[]"]) auto

lemma framed_mono: "framed_from n s t \<Longrightarrow> k \<le> n \<Longrightarrow> framed_from k s t"
proof -
  assume st: "framed_from n s t" and k: "k \<le> n"
  then obtain extra where "em_module t ! em_fn s = (em_module s ! em_fn s)\<lparr>lf_blocks := fn_blocks s @ extra\<rparr>"
    "set extra \<subseteq> {k..<length (em_blocks t)}" unfolding framed_from_def by force
  with st k show ?thesis unfolding framed_from_def by (intro conjI exI [of _ extra]) auto
qed

lemma framed_from_trans:
  assumes st: "framed_from n s t" and tu: "framed_from n t u" shows "framed_from n s u"
proof -
  from st obtain e1 where e1: "em_module t ! em_fn s = (em_module s ! em_fn s)\<lparr>lf_blocks := fn_blocks s @ e1\<rparr>"
    "set e1 \<subseteq> {n..<length (em_blocks t)}" unfolding framed_from_def by blast
  from tu st obtain e2 where e2: "em_module u ! em_fn s = (em_module t ! em_fn s)\<lparr>lf_blocks := lf_blocks (em_module t ! em_fn s) @ e2\<rparr>"
    "set e2 \<subseteq> {n..<length (em_blocks u)}" unfolding framed_from_def by metis
  have le: "length (em_blocks s) \<le> length (em_blocks t)" "length (em_blocks t) \<le> length (em_blocks u)"
    using st tu by (auto simp: framed_from_def)
  have "em_module u ! em_fn s = (em_module s ! em_fn s)\<lparr>lf_blocks := fn_blocks s @ (e1 @ e2)\<rparr>"
    unfolding e2(1) unfolding e1(1) by simp
  moreover have "set (e1 @ e2) \<subseteq> {n..<length (em_blocks u)}"
    using e1(2) e2(2) le by force
  moreover have "em_blocks u ! b = em_blocks s ! b" if "b < n" "b \<notin> set (fn_blocks s)" for b
  proof -
    have "b \<notin> set (fn_blocks t)" using that e1 st by (auto simp: framed_from_def)
    then show ?thesis using that st tu le by (simp add: framed_from_def)
  qed
  moreover have "em_module u ! g = em_module s ! g" if "g \<noteq> em_fn s" for g
    using that st tu unfolding framed_from_def by metis
  ultimately have main: "\<exists>extra. em_module u ! em_fn s = (em_module s ! em_fn s)\<lparr>lf_blocks := fn_blocks s @ extra\<rparr> \<and>
        set extra \<subseteq> {n..<length (em_blocks u)}"
      "\<forall>b<n. b \<notin> set (fn_blocks s) \<longrightarrow> em_blocks u ! b = em_blocks s ! b"
      "\<forall>g. g \<noteq> em_fn s \<longrightarrow> em_module u ! g = em_module s ! g"
    by blast+
  have "em_fn u = em_fn s" "length (em_module u) = length (em_module s)" "em_functions u = em_functions s"
    "em_layouts u = em_layouts s" "em_currentDecl u = em_currentDecl s" "em_simpleKeys u = em_simpleKeys s" "length (em_blocks s) \<le> length (em_blocks u)"
    using st tu le by (simp_all add: framed_from_def)
  with main show ?thesis unfolding framed_from_def by blast
qed

lemma framed_length: "framed_from n s t \<Longrightarrow> length (em_blocks s) \<le> length (em_blocks t)"
  by (simp add: framed_from_def)

lemma framed_trans: "framed_from n s t \<Longrightarrow> framed t u \<Longrightarrow> n \<le> length (em_blocks s) \<Longrightarrow> framed_from n s u"
  using framed_from_trans framed_mono framed_length by (meson le_trans)

lemma agree_refl [simp]: "agree_below n L L"
  by (simp add: agree_below_def)

lemma agree_trans: "agree_below n L L' \<Longrightarrow> agree_below m L' L'' \<Longrightarrow> n \<le> m \<Longrightarrow> agree_below n L L''"
  by (simp add: agree_below_def)


subsection \<open>Where a return may stand\<close>

text \<open>
  A \<open>return\<close> may stand as a statement of a block that is a function body or a branch, not inside an operand and
  not inside a region.
\<close>

datatype return_mode = Statement | Operand | InRegion

fun operand_mode :: "return_mode \<Rightarrow> return_mode" where
  "operand_mode InRegion = InRegion"
| "operand_mode _ = Operand"

fun branch_mode :: "return_mode \<Rightarrow> return_mode" where
  "branch_mode InRegion = InRegion"
| "branch_mode _ = Statement"

lemma operand_mode_simps [simp]:
  "operand_mode m \<noteq> Statement" "operand_mode m = InRegion \<longleftrightarrow> m = InRegion"
  "operand_mode (operand_mode m) = operand_mode m"
  by (cases m; simp)+

lemma branch_mode_simps [simp]: "branch_mode m = InRegion \<longleftrightarrow> m = InRegion" "branch_mode m = Statement \<longleftrightarrow> m \<noteq> InRegion"
  by (cases m; simp)+

text \<open>One piece of emitted code, in a given mode.\<close>

definition flow :: "return_mode \<Rightarrow> emitter \<Rightarrow> emitter \<Rightarrow> bool" where
  "flow m s t \<longleftrightarrow>
     (\<forall>L P S. opened s L P S \<and> (m \<noteq> InRegion \<longrightarrow> S = []) \<longrightarrow>
        framed s t \<and> (\<exists>L'. agree_below (length (em_blocks s)) L L' \<and>
          (opened t L' P S \<or> m = Statement \<and> finished t L' P)))"

definition flows :: "return_mode \<Rightarrow> 'a em \<Rightarrow> bool" where
  "flows m c \<longleftrightarrow> (\<forall>s. flow m s (snd (run_state c s)))"

lemma flowD:
  assumes "flow m s t" "opened s L P S" "m \<noteq> InRegion \<longrightarrow> S = []"
  obtains L' where "framed s t" "agree_below (length (em_blocks s)) L L'"
    "opened t L' P S \<or> m = Statement \<and> finished t L' P"
  using assms unfolding flow_def by blast

lemma flow_refl [simp]: "flow m s s"
  unfolding flow_def by (auto intro!: exI)

lemma flow_trans:
  assumes st: "flow (operand_mode m) s t" and tu: "flow m t u" shows "flow m s u"
  unfolding flow_def
proof (intro allI impI, elim conjE)
  fix L P S
  assume s: "opened s L P S" and S: "m \<noteq> InRegion \<longrightarrow> S = []"
  have S': "operand_mode m \<noteq> InRegion \<longrightarrow> S = []" using S by simp
  obtain L1 where 1: "framed s t" "agree_below (length (em_blocks s)) L L1" "opened t L1 P S"
    using flowD [OF st s S'] by auto
  obtain L2 where 2: "framed t u" "agree_below (length (em_blocks t)) L1 L2"
    "opened u L2 P S \<or> m = Statement \<and> finished u L2 P"
    using flowD [OF tu 1(3) S] by auto
  show "framed s u \<and> (\<exists>L'. agree_below (length (em_blocks s)) L L' \<and>
      (opened u L' P S \<or> m = Statement \<and> finished u L' P))"
    using framed_trans [OF 1(1) 2(1) order_refl] agree_trans [OF 1(2) 2(2) framed_length [OF 1(1)]] 2(3) by blast
qed

lemma flow_weaken: "flow InRegion s t \<Longrightarrow> flow m s t"
  unfolding flow_def by blast

lemma flow_operand: "flow (operand_mode m) s t \<Longrightarrow> flow m s t"
  unfolding flow_def by (cases m) (auto; blast)+


subsection \<open>The builder calls\<close>

lemma flow_tables:
  assumes "em_module t = em_module s" "em_blocks t = em_blocks s" "em_fn t = em_fn s" "em_insert t = em_insert s"
    "em_functions t = em_functions s" "em_layouts t = em_layouts s" "em_currentDecl t = em_currentDecl s" "em_simpleKeys t = em_simpleKeys s"
  shows "flow m s t"
proof -
  have "opened t L P S = opened s L P S" for L P S
    unfolding opened_def wf_blocks_def assms ..
  moreover have "framed s t"
    unfolding framed_from_def assms by (intro conjI exI [of _ "[]"]) auto
  ultimately show ?thesis unfolding flow_def by (auto intro!: exI)
qed

definition map_code :: "nat \<Rightarrow> (ll_instr list \<Rightarrow> ll_instr list) \<Rightarrow> emitter \<Rightarrow> emitter" where
  "map_code b f s = s\<lparr>em_blocks := (em_blocks s)[b := (em_blocks s ! b)\<lparr>bb_instrs := f (code_of (em_blocks s) b)\<rparr>]\<rparr>"

lemma map_code_sel [simp]:
  "em_module (map_code b f s) = em_module s" "em_fn (map_code b f s) = em_fn s" "em_insert (map_code b f s) = em_insert s"
  "length (em_blocks (map_code b f s)) = length (em_blocks s)" "em_functions (map_code b f s) = em_functions s"
  "em_layouts (map_code b f s) = em_layouts s" "em_currentDecl (map_code b f s) = em_currentDecl s" "em_simpleKeys (map_code b f s) = em_simpleKeys s"
  by (simp_all add: map_code_def)

lemma code_map_code:
  "b < length (em_blocks s) \<Longrightarrow>
   code_of (em_blocks (map_code b f s)) c = (if c = b then f (code_of (em_blocks s) b) else code_of (em_blocks s) c)"
  by (simp add: map_code_def nth_list_update)

lemma framed_map_code: "b \<in> set (fn_blocks s) \<Longrightarrow> framed_from n s (map_code b f s)"
proof -
  assume b: "b \<in> set (fn_blocks s)"
  then have "em_blocks (map_code b f s) ! c = em_blocks s ! c" if "c \<notin> set (fn_blocks s)" for c
    using that by (metis (no_types, lifting) map_code_def nth_list_update_neq emitter.select_convs(2)
      emitter.surjective emitter.update_convs(2))
  then show ?thesis unfolding framed_from_def by (intro conjI exI [of _ "[]"]) auto
qed

lemma run_insert_instr: "snd (run_state (insert_instr i) s) = map_code (em_insert s) (\<lambda>is. is @ [i]) s"
  by (simp add: insert_instr_def map_code_def)

lemma wf_blocks_current:
  assumes "wf_blocks s L P" shows "wf_blocks (map_code (em_insert s) f s) L P"
proof -
  have "em_insert s < length (em_blocks s)" "\<forall>p\<in>P. p \<noteq> em_insert s"
    using assms by (auto simp: wf_blocks_def)
  then show ?thesis using assms by (simp add: wf_blocks_def code_map_code)
qed

lemma opened_current:
  assumes "opened s L P S" "open_code (L (em_insert s)) (f (code_of (em_blocks s) (em_insert s))) S'"
  shows "opened (map_code (em_insert s) f s) L P S'"
proof -
  have "em_insert s < length (em_blocks s)" using assms(1) by (auto simp: opened_def wf_blocks_def)
  then show ?thesis using assms wf_blocks_current by (simp add: opened_def code_map_code)
qed

lemma opened_insert: "opened s L P S \<Longrightarrow> em_insert s \<in> set (fn_blocks s)"
  by (simp add: opened_def wf_blocks_def)

lemma opened_step:
  assumes "opened s L P S" "\<not> is_terminator i" "region_step S i = Some S'"
  shows "opened (map_code (em_insert s) (\<lambda>is. is @ [i]) s) L P S'"
  using assms by (intro opened_current) (auto simp: opened_def open_code_def region_effect_append)

lemma flow_insert_instr: "neutral i \<Longrightarrow> flow m s (snd (run_state (insert_instr i) s))"
  unfolding flow_def run_insert_instr neutral_def
  by (intro allI impI conjI framed_map_code exI) (auto dest: opened_insert opened_step)

lemma front_alloca:
  "open_code S0 (Alloca i t name # is) S \<longleftrightarrow> open_code S0 is S"
  "closed_code L T S0 is \<Longrightarrow> closed_code L T S0 (Alloca i t name # is)"
proof -
  show open_iff: "open_code S0 (Alloca i t name # is) S \<longleftrightarrow> open_code S0 is S" for "is" S
    by (auto simp: open_code_def)
  assume "closed_code L T S0 is"
  then obtain body u S where "is = body @ [u]" "open_code S0 body S" "exits_to L T S u"
    by (auto simp: closed_code_def)
  then have "Alloca i t name # is = (Alloca i t name # body) @ [u]" "open_code S0 (Alloca i t name # body) S"
    "exits_to L T S u"
    using open_iff by simp_all
  then show "closed_code L T S0 (Alloca i t name # is)" unfolding closed_code_def by blast
qed

lemma run_createEntryAlloca:
  "snd (run_state (createEntryAlloca name t) s) =
     map_code (hd (fn_blocks s)) ((#) (Alloca (em_next s) t name)) (s\<lparr>em_next := em_next s + 1\<rparr>)"
  by (simp add: createEntryAlloca_def fresh_def map_code_def)

lemma flow_front_alloca: "flow m s (map_code (hd (fn_blocks s)) ((#) (Alloca i t name)) s)"
  unfolding flow_def
proof (intro allI impI, elim conjE)
  fix L P S
  assume s: "opened s L P S"
  let ?e = "hd (fn_blocks s)" and ?t = "map_code (hd (fn_blocks s)) ((#) (Alloca i t name)) s"
  have e: "?e \<in> set (fn_blocks s)" using s by (simp add: opened_def wf_blocks_def)
  moreover have "set (fn_blocks s) \<subseteq> {..<length (em_blocks s)}" "P \<inter> set (fn_blocks s) = {}"
    using s by (simp_all add: opened_def wf_blocks_def)
  ultimately have e': "?e < length (em_blocks s)" "?e \<notin> P" by blast+
  have "closed_code L (set (fn_blocks s) \<union> P) (L ?e) (code_of (em_blocks s) ?e)" if "?e \<noteq> em_insert s"
    using s e that unfolding opened_def wf_blocks_def by blast
  then have "wf_blocks ?t L P"
    using s e' by (auto simp: opened_def wf_blocks_def code_map_code intro: front_alloca)
  moreover have "open_code (L (em_insert ?t)) (code_of (em_blocks ?t) (em_insert ?t)) S"
    using s e' by (auto simp: opened_def code_map_code front_alloca)
  ultimately have "opened ?t L P S" by (simp add: opened_def)
  then show "framed s ?t \<and> (\<exists>L'. agree_below (length (em_blocks s)) L L' \<and>
      (opened ?t L' P S \<or> m = Statement \<and> finished ?t L' P))"
    using framed_map_code [OF e] by (blast intro: agree_refl)
qed


subsection \<open>Composing pieces of code\<close>

lemma flows_ret: "flows m (ret x)"
  by (simp add: flows_def)

lemma flows_gets: "flows m (gets f)"
  by (simp add: flows_def)

lemma flows_bind:
  assumes "flows (operand_mode m) c" "\<And>x. flows m (f x)" shows "flows m (c \<bind> f)"
  unfolding flows_def
proof
  fix s
  obtain x t where "run_state c s = (x, t)" by fastforce
  then show "flow m s (snd (run_state (c \<bind> f) s))"
    using assms flow_trans [of m s t "snd (run_state (f x) t)"] by (auto simp: flows_def dest: spec [of _ s])
qed

lemma flows_if: "(c \<Longrightarrow> flows m a) \<Longrightarrow> (\<not> c \<Longrightarrow> flows m b) \<Longrightarrow> flows m (if c then a else b)"
  by simp

lemma flows_option:
  "(x = None \<Longrightarrow> flows m a) \<Longrightarrow> (\<And>y. x = Some y \<Longrightarrow> flows m (f y)) \<Longrightarrow>
   flows m (case x of None \<Rightarrow> a | Some y \<Rightarrow> f y)"
  by (cases x) auto

lemma flows_prod: "(\<And>a b. x = (a, b) \<Longrightarrow> flows m (f a b)) \<Longrightarrow> flows m (case x of (a, b) \<Rightarrow> f a b)"
  by (cases x) auto

lemma flows_list:
  "(x = [] \<Longrightarrow> flows m a) \<Longrightarrow> (\<And>y ys. x = y # ys \<Longrightarrow> flows m (f y ys)) \<Longrightarrow>
   flows m (case x of [] \<Rightarrow> a | y # ys \<Rightarrow> f y ys)"
  by (cases x) auto

lemma flows_let: "flows m (f x) \<Longrightarrow> flows m (Let x f)"
  by simp

lemma flows_operand: "flows (operand_mode m) c \<Longrightarrow> flows m c"
  by (simp add: flows_def flow_operand)

lemma flows_for_each: "m \<noteq> Statement \<Longrightarrow> (\<And>x. x \<in> set xs \<Longrightarrow> flows m (f x)) \<Longrightarrow> flows m (for_each xs f)"
proof (induction xs)
  case (Cons x xs)
  have "operand_mode m = m" using Cons.prems(1) by (cases m) auto
  with Cons show ?case by (auto intro!: flows_bind)
qed (simp add: flows_ret)

lemmas flows_intros = flows_ret flows_gets flows_bind flows_if flows_option flows_prod flows_list flows_let

lemma flows_fresh: "flows m fresh"
  by (simp add: flows_def fresh_def flow_tables)

lemma flows_crash: "flows m crash"
  by (simp add: flows_def crash_def flow_tables)

lemma flows_has_terminator: "flows m has_terminator"
  unfolding has_terminator_def by (rule flows_gets)

lemma flows_return_type: "flows m return_type"
  unfolding return_type_def by (rule flows_gets)

lemma flows_insert_instr: "neutral i \<Longrightarrow> flows m (insert_instr i)"
  by (simp add: flows_def flow_insert_instr)

lemma flows_build: "(\<And>i. neutral (mk i)) \<Longrightarrow> flows m (build mk t)"
  unfolding build_def by (intro flows_intros flows_fresh flows_insert_instr)

lemma neutral_simps [simp]:
  "neutral (Store v p)" "neutral (Load i t p name)" "neutral (InsertValue i agg v k name)" "neutral (Binop i op l r name)"
  "neutral (InBoundsGEP i t p is name)" "neutral (StructGEP i t p k name)" "neutral (SExt i v name)"
  "neutral (Call i (Fn f) args name)"
  by (simp_all add: neutral_def)

lemma neutral_extern [simp]:
  "f \<notin> {RegionEnter, RegionExit, RegionExplore, RegionExploreExit} \<Longrightarrow> neutral (Call i (Extern f) args name)"
  by (cases f) (auto simp: neutral_def)

lemma flows_createEntryAlloca: "flows m (createEntryAlloca name t)"
  unfolding flows_def run_createEntryAlloca
proof
  fix s :: emitter
  let ?s = "s\<lparr>em_next := em_next s + 1\<rparr>"
  have "flow (operand_mode m) s ?s" by (rule flow_tables) simp_all
  moreover have "flow m ?s (map_code (hd (fn_blocks ?s)) ((#) (Alloca (em_next s) t name)) ?s)"
    by (rule flow_front_alloca)
  ultimately show "flow m s (map_code (hd (fn_blocks s)) ((#) (Alloca (em_next s) t name)) ?s)"
    by (auto dest: flow_trans)
qed

lemma flows_need: "flows m (need v)"
  unfolding need_def by (intro flows_intros flows_crash)

lemma flows_some_of: "flows (operand_mode m) c \<Longrightarrow> flows m (some_of c)"
  unfolding some_of_def by (intro flows_intros)

lemma flows_creates:
  "flows m (create_store v p)" "flows m (create_load t p name)" "flows m (create_insert agg v k name)"
  "flows m (create_binop op l r name)" "flows m (create_gep t p is name)"
  unfolding create_store_def create_load_def create_insert_def create_binop_def create_gep_def
  by (intro flows_build flows_insert_instr; simp)+

lemma flows_update:
  "(\<And>s. em_module (f s) = em_module s \<and> em_blocks (f s) = em_blocks s \<and> em_fn (f s) = em_fn s \<and> em_insert (f s) = em_insert s \<and>
     em_functions (f s) = em_functions s \<and> em_layouts (f s) = em_layouts s \<and> em_currentDecl (f s) = em_currentDecl s \<and> em_simpleKeys (f s) = em_simpleKeys s) \<Longrightarrow>
   flows m (update f)"
  by (simp add: flows_def flow_tables)

lemma flows_global_string: "flows m (create_global_string txt name)"
  unfolding create_global_string_def by (intro flows_intros flows_update) simp

lemma flows_call_runtime:
  "f \<notin> {RegionEnter, RegionExit, RegionExplore, RegionExploreExit} \<Longrightarrow> flows m (call_runtime f args name)"
  unfolding call_runtime_def by (intro flows_intros flows_update flows_build neutral_extern) simp_all

lemma flows_call_function: "flows m (call_function f args name)"
  unfolding call_function_def by (intro flows_intros flows_build) simp

lemmas flows_builder = flows_need flows_creates flows_global_string flows_call_function flows_createEntryAlloca
  flows_has_terminator flows_return_type

end
