(* ===== verification/Gura_CodeGen_Wf.thy ===== *)
theory Gura_CodeGen_Wf
  imports Gura_CodeGen_Flow
begin

section \<open>Emitted functions are well formed\<close>

text \<open>
  The blocks of conditionals and loops, the brackets of regions, and the statement for whole function bodies:
  when every \<^verbatim>\<open>return\<close> stands as a statement outside the regions, all blocks end in their only
  terminator and every path opens and closes regions in LIFO order.
\<close>

subsection \<open>Closing a block and entering the next\<close>

lemma opened_tables:
  assumes "em_module t = em_module s" "em_blocks t = em_blocks s" "em_fn t = em_fn s" "em_insert t = em_insert s"
  shows "opened t L P S = opened s L P S" "finished t L P = finished s L P"
  unfolding opened_def finished_def wf_blocks_def assms by (rule refl)+

lemma opened_not_terminated: "opened s L P S \<Longrightarrow> \<not> fst (run_state has_terminator s)"
  using last_in_set [of "code_of (em_blocks s) (em_insert s)"]
  by (auto simp: opened_def open_code_def has_terminator_def Let_def)

lemma finished_terminated: "finished s L P \<Longrightarrow> fst (run_state has_terminator s)"
  by (auto simp: finished_def closed_code_def has_terminator_def Let_def elim: exits_to.elims)

lemma run_has_terminator [simp]: "snd (run_state has_terminator s) = s"
  by (simp add: has_terminator_def)

lemma opened_exit:
  assumes "opened s L P S" "exits_to L (set (fn_blocks s) \<union> P) S t"
  shows "finished (map_code (em_insert s) (\<lambda>is. is @ [t]) s) L P"
proof -
  have "em_insert s < length (em_blocks s)" using assms(1) by (auto simp: opened_def wf_blocks_def)
  moreover have "closed_code L (set (fn_blocks s) \<union> P) (L (em_insert s)) (code_of (em_blocks s) (em_insert s) @ [t])"
    using assms unfolding closed_code_def opened_def by blast
  ultimately show ?thesis
    using assms(1) wf_blocks_current by (simp add: finished_def opened_def code_map_code)
qed

definition enter_block :: "nat \<Rightarrow> emitter \<Rightarrow> emitter" where
  "enter_block b s = s\<lparr>
     em_module := (em_module s)[em_fn s := (em_module s ! em_fn s)\<lparr>lf_blocks := fn_blocks s @ [b]\<rparr>],
     em_insert := b\<rparr>"

lemma run_enter_block:
  "run_state (do {attach_block b; set_insert_point b}) s = ((), enter_block b s)"
  by (simp add: attach_block_def set_insert_point_def enter_block_def)

lemma enter_block_sel [simp]:
  "em_blocks (enter_block b s) = em_blocks s" "em_fn (enter_block b s) = em_fn s" "em_insert (enter_block b s) = b"
  "length (em_module (enter_block b s)) = length (em_module s)" "em_functions (enter_block b s) = em_functions s"
  "em_layouts (enter_block b s) = em_layouts s" "em_currentDecl (enter_block b s) = em_currentDecl s" "em_simpleKeys (enter_block b s) = em_simpleKeys s"
  by (simp_all add: enter_block_def)

lemma fn_blocks_enter [simp]:
  "em_fn s < length (em_module s) \<Longrightarrow> lf_blocks (em_module (enter_block b s) ! em_fn s) = fn_blocks s @ [b]"
  by (simp add: enter_block_def)

lemma snd_bind: "snd (run_state (c \<bind> f) s) = snd (run_state (f (fst (run_state c s))) (snd (run_state c s)))"
  by (simp split: prod.split)

lemma framed_enter: "em_fn s < length (em_module s) \<Longrightarrow> n \<le> b \<Longrightarrow> b < length (em_blocks s) \<Longrightarrow> framed_from n s (enter_block b s)"
  unfolding framed_from_def by (intro conjI exI [of _ "[b]"]) (auto simp: enter_block_def)

lemma finished_valid: "finished s L P \<Longrightarrow> em_fn s < length (em_module s)"
  by (simp add: finished_def wf_blocks_def)

lemma opened_valid: "opened s L P S \<Longrightarrow> em_fn s < length (em_module s)"
  by (simp add: opened_def wf_blocks_def)

lemma wf_blocksD:
  assumes "wf_blocks s L P"
  shows "fn_blocks s \<noteq> []" "distinct (fn_blocks s)" "set (fn_blocks s) \<subseteq> {..<length (em_blocks s)}"
    "P \<subseteq> {..<length (em_blocks s)}" "em_insert s \<in> set (fn_blocks s)" "P \<inter> set (fn_blocks s) = {}"
    "L (hd (fn_blocks s)) = []" "\<And>p. p \<in> P \<Longrightarrow> code_of (em_blocks s) p = []"
  using assms by (simp_all add: wf_blocks_def)

lemma finished_enter:
  assumes s: "finished s L P" and b: "b \<in> P"
  shows "opened (enter_block b s) L (P - {b}) (L b)"
proof -
  have fn: "em_fn s < length (em_module s)" using s by (rule finished_valid)
  have "wf_blocks s L P" using s by (simp add: finished_def)
  note wf = wf_blocksD [OF this]
  have B: "set (fn_blocks s) \<union> P = set (fn_blocks s @ [b]) \<union> (P - {b})" using b by auto
  have "wf_blocks (enter_block b s) L (P - {b})"
    unfolding wf_blocks_def enter_block_sel(2) fn_blocks_enter [OF fn]
  proof (intro conjI ballI impI)
    fix c assume "c \<in> set (fn_blocks s @ [b])" "c \<noteq> em_insert (enter_block b s)"
    then have c: "c \<in> set (fn_blocks s)" by auto
    have "closed_code L (set (fn_blocks s) \<union> P) (L c) (code_of (em_blocks s) c)"
      using s c unfolding finished_def wf_blocks_def by (cases "c = em_insert s") blast+
    then show "closed_code L (set (fn_blocks s @ [b]) \<union> (P - {b})) (L c) (code_of (em_blocks (enter_block b s)) c)"
      unfolding B by simp
  next
    fix p assume "p \<in> P - {b}" then show "code_of (em_blocks (enter_block b s)) p = []" using wf by simp
  next
    show "set (fn_blocks s @ [b]) \<union> (P - {b}) \<subseteq> {..<length (em_blocks (enter_block b s))}"
      using wf(3,4) b by auto
  next
    show "distinct (fn_blocks s @ [b])" "(P - {b}) \<inter> set (fn_blocks s @ [b]) = {}" using wf(2,6) b by auto
  qed (use wf(1,7) fn in simp_all)
  moreover have "code_of (em_blocks s) b = []" using s b by (auto simp: finished_def wf_blocks_def)
  ultimately show ?thesis by (simp add: opened_def open_code_def)
qed

lemma exits_to_cong:
  "exits_to L T S t \<Longrightarrow> T \<subseteq> T' \<Longrightarrow> (\<And>b. b \<in> T \<Longrightarrow> L' b = L b) \<Longrightarrow> exits_to L' T' S t"
  by (cases t) auto

lemma closed_code_cong:
  "closed_code L T S0 is \<Longrightarrow> T \<subseteq> T' \<Longrightarrow> (\<And>b. b \<in> T \<Longrightarrow> L' b = L b) \<Longrightarrow> closed_code L' T' S0 is"
  unfolding closed_code_def by (elim exE conjE, intro exI conjI) (assumption | erule exits_to_cong)+

definition add_block :: "string \<Rightarrow> emitter \<Rightarrow> emitter" where
  "add_block name s = s\<lparr>em_blocks := em_blocks s @ [\<lparr>bb_name = name, bb_instrs = []\<rparr>]\<rparr>"

lemma add_block_sel [simp]:
  "em_module (add_block name s) = em_module s" "em_fn (add_block name s) = em_fn s"
  "em_insert (add_block name s) = em_insert s" "length (em_blocks (add_block name s)) = Suc (length (em_blocks s))"
  by (simp_all add: add_block_def)

lemma framed_add_block: "n \<le> length (em_blocks s) \<Longrightarrow> framed_from n s (add_block name s)"
  unfolding framed_from_def by (intro conjI exI [of _ "[]"]) (auto simp: add_block_def nth_append)

lemma opened_add_block:
  assumes s: "opened s L P S"
  shows "opened (add_block name s) (L(length (em_blocks s) := X)) (insert (length (em_blocks s)) P) S"
proof -
  let ?n = "length (em_blocks s)" and ?L = "L(length (em_blocks s) := X)"
  have "wf_blocks s L P" using s by (simp add: opened_def)
  note wf = wf_blocksD [OF this]
  have lt: "b < ?n" if "b \<in> set (fn_blocks s) \<union> P" for b
    using s that by (auto simp: opened_def wf_blocks_def)
  have code: "code_of (em_blocks (add_block name s)) b = (if b < ?n then code_of (em_blocks s) b else [])" if "b \<le> ?n" for b
    using that by (simp add: add_block_def nth_append)
  have L: "?L b = L b" if "b \<in> set (fn_blocks s) \<union> P" for b
    using lt [OF that] by simp
  have cur: "em_insert s \<in> set (fn_blocks s)" using s by (rule opened_insert)
  have "wf_blocks (add_block name s) ?L (insert ?n P)"
    unfolding wf_blocks_def add_block_sel
  proof (intro conjI ballI impI)
    fix b assume b: "b \<in> set (fn_blocks s)" "b \<noteq> em_insert s"
    then have "closed_code L (set (fn_blocks s) \<union> P) (L b) (code_of (em_blocks s) b)"
      using s unfolding opened_def wf_blocks_def by blast
    then have "closed_code ?L (set (fn_blocks s) \<union> insert ?n P) (L b) (code_of (em_blocks s) b)"
      by (rule closed_code_cong) (use L in auto)
    then show "closed_code ?L (set (fn_blocks s) \<union> insert ?n P) (?L b) (code_of (em_blocks (add_block name s)) b)"
      using code L b lt by (auto simp: less_imp_le)
  next
    fix p assume "p \<in> insert ?n P"
    then show "code_of (em_blocks (add_block name s)) p = []"
      using code [of p] lt [of p] wf(8) [of p] by (cases "p = ?n") (simp_all add: less_imp_le)
  next
    show "?L (hd (fn_blocks s)) = []" using L [of "hd (fn_blocks s)"] wf(1,7) by simp
  next
    show "set (fn_blocks s) \<union> insert ?n P \<subseteq> {..<Suc ?n}" using wf(3,4) by auto
  next
    show "insert ?n P \<inter> set (fn_blocks s) = {}" using wf(3,6) by auto
  qed (use wf(1,2) cur opened_valid [OF s] in simp_all)
  moreover have "open_code (?L (em_insert s)) (code_of (em_blocks (add_block name s)) (em_insert s)) S"
    using s code [of "em_insert s"] lt [of "em_insert s"] L [of "em_insert s"] cur by (simp add: opened_def)
  ultimately show ?thesis by (simp add: opened_def)
qed

lemma run_branch_if_open:
  "run_state (branch_if_open b) s =
     (if fst (run_state has_terminator s) then ((), s) else run_state (insert_instr (Br b)) s)"
  by (simp add: branch_if_open_def has_terminator_def)

lemma branch_finishes:
  assumes "opened s L P S \<or> finished s L P" "b \<in> set (fn_blocks s) \<union> P" "L b = S"
    "em_insert s \<in> set (fn_blocks s)"
  obtains t where "snd (run_state (branch_if_open b) s) = t" "finished t L P" "framed_from n s t"
    "fn_blocks t = fn_blocks s" "length (em_blocks t) = length (em_blocks s)"
proof (cases "finished s L P")
  case True
  then have "snd (run_state (branch_if_open b) s) = s"
    using finished_terminated by (simp add: run_branch_if_open)
  then show ?thesis using that True by simp
next
  case False
  with assms have s: "opened s L P S" by blast
  let ?t = "map_code (em_insert s) (\<lambda>is. is @ [Br b]) s"
  have "snd (run_state (branch_if_open b) s) = ?t"
    using opened_not_terminated [OF s] by (simp add: run_branch_if_open run_insert_instr)
  moreover have "finished ?t L P" using opened_exit [OF s, of "Br b"] assms(2,3) by simp
  ultimately show ?thesis using that framed_map_code [OF assms(4)] by simp
qed

lemma finished_insert: "finished s L P \<Longrightarrow> em_insert s \<in> set (fn_blocks s)"
  by (simp add: finished_def wf_blocks_def)

definition close_and_enter :: "nat \<Rightarrow> nat \<Rightarrow> unit em" where
  "close_and_enter b b' = do {branch_if_open b; attach_block b'; set_insert_point b'}"

definition exit_and_enter :: "ll_instr \<Rightarrow> nat \<Rightarrow> unit em" where
  "exit_and_enter t b' = do {insert_instr t; attach_block b'; set_insert_point b'}"

text \<open>What holds after entering a block \<open>b\<close> that was pending.\<close>

definition entered :: "nat \<Rightarrow> emitter \<Rightarrow> (nat \<Rightarrow> open_regions) \<Rightarrow> nat set \<Rightarrow> nat \<Rightarrow> emitter \<Rightarrow> bool" where
  "entered n s L P b t \<longleftrightarrow>
     opened t L (P - {b}) (L b) \<and> framed_from n s t \<and> length (em_blocks t) = length (em_blocks s) \<and>
     set (fn_blocks t) = insert b (set (fn_blocks s))"

lemma finished_enteredI:
  assumes "finished t L P" "framed_from n s t" "length (em_blocks t) = length (em_blocks s)" "fn_blocks t = fn_blocks s"
    "b \<in> P" "n \<le> b"
  shows "entered n s L P b (enter_block b t)"
proof -
  have "b < length (em_blocks t)" using assms(1,5) by (auto simp: finished_def wf_blocks_def)
  then have "framed_from n t (enter_block b t)" using assms(6) finished_valid [OF assms(1)] by (intro framed_enter)
  then show ?thesis
    using assms finished_enter [OF assms(1,5)] finished_valid [OF assms(1)] framed_from_trans [OF assms(2)]
    by (simp add: entered_def)
qed

lemma close_and_enter:
  assumes "opened s L P S \<or> finished s L P" "b \<in> set (fn_blocks s) \<union> P" "L b = S" "b' \<in> P" "n \<le> b'"
  shows "entered n s L P b' (snd (run_state (close_and_enter b b') s))"
proof -
  have "em_insert s \<in> set (fn_blocks s)" using assms(1) opened_insert finished_insert by blast
  then obtain t where t: "snd (run_state (branch_if_open b) s) = t" "finished t L P" "framed_from n s t"
    "fn_blocks t = fn_blocks s" "length (em_blocks t) = length (em_blocks s)"
    using branch_finishes [OF assms(1-3)] by metis
  have "snd (run_state (close_and_enter b b') s) = enter_block b' t"
    unfolding close_and_enter_def snd_bind [of "branch_if_open b"] t(1) run_enter_block by simp
  then show ?thesis using finished_enteredI [OF t(2,3,5,4) assms(4,5)] by simp
qed

lemma exit_and_enter:
  assumes "opened s L P S" "exits_to L (set (fn_blocks s) \<union> P) S t" "b' \<in> P" "n \<le> b'"
  shows "entered n s L P b' (snd (run_state (exit_and_enter t b') s))"
proof -
  let ?t = "map_code (em_insert s) (\<lambda>is. is @ [t]) s"
  have "snd (run_state (exit_and_enter t b') s) = enter_block b' ?t"
    unfolding exit_and_enter_def snd_bind [of "insert_instr t"] run_insert_instr run_enter_block by simp
  moreover have "finished ?t L P" using opened_exit [OF assms(1,2)] .
  ultimately show ?thesis
    using finished_enteredI [of ?t L P n s b'] framed_map_code [OF opened_insert [OF assms(1)]] assms(3,4) by simp
qed


subsection \<open>Conditionals and loops\<close>

definition three_blocks :: "(nat \<Rightarrow> ll_instr) \<Rightarrow> string \<Rightarrow> string \<Rightarrow> string \<Rightarrow> nat em" where
  "three_blocks t n1 n2 n3 = do {
     b \<leftarrow> ll_new_block n1;
     attach_block b;
     ll_new_block n2;
     ll_new_block n3;
     insert_instr (t b);
     set_insert_point b;
     ret b}"

lemma ll_new_block_run: "run_state (ll_new_block name) s = (length (em_blocks s), add_block name s)"
  by (simp add: ll_new_block_def add_block_def)

lemma run_three_blocks:
  assumes "em_insert s < length (em_blocks s)"
  shows "run_state (three_blocks t n1 n2 n3) s = (length (em_blocks s),
     snd (run_state (exit_and_enter (t (length (em_blocks s))) (length (em_blocks s)))
       (add_block n3 (add_block n2 (add_block n1 s)))))"
  using assms
  by (simp add: three_blocks_def ll_new_block_run exit_and_enter_def attach_block_def set_insert_point_def
      insert_instr_def add_block_def nth_append)

lemma three_blocks:
  assumes s: "opened s L P S" and n: "n = length (em_blocks s)" and t: "t n = Br n \<or> t n = CondBr c n (n + 1)"
    and L1: "L1 = L(n := S, n + 1 := S, n + 2 := S)"
    and r: "run_state (three_blocks t n1 n2 n3) s = (b, s1)"
  shows "b = n \<and> opened s1 L1 (P \<union> {n + 1, n + 2}) S \<and> framed_from n s s1 \<and> length (em_blocks s1) = n + 3 \<and>
    n \<in> set (fn_blocks s1)"
proof -
  let ?u = "add_block n3 (add_block n2 (add_block n1 s))" and ?P = "insert (n + 2) (insert (n + 1) (insert n P))"
  have cur: "em_insert s < n" using s n by (auto simp: opened_def wf_blocks_def)
  have u: "opened ?u L1 ?P S"
    using opened_add_block [OF opened_add_block [OF opened_add_block [OF s]], where X = S and X = S and X = S]
    unfolding L1 n by (simp add: numeral_2_eq_2)
  have "exits_to L1 (set (fn_blocks ?u) \<union> ?P) S (t n)" using t L1 by auto
  then have e: "entered n ?u L1 ?P n (snd (run_state (exit_and_enter (t n) n) ?u))"
    by (rule exit_and_enter [OF u]) auto
  have "framed_from n s ?u"
    using framed_from_trans framed_add_block by (metis add_block_sel(4) le_SucI n order_refl)
  moreover have "?P - {n} = P \<union> {n + 1, n + 2}" "L1 n = S"
    using s n L1 by (auto simp: opened_def wf_blocks_def)
  moreover have "b = n" "s1 = snd (run_state (exit_and_enter (t n) n) ?u)"
    using r run_three_blocks [of s t n1 n2 n3] cur n by auto
  ultimately show ?thesis
    using e n framed_from_trans [of n s ?u s1] by (simp add: entered_def)
qed

lemma emitIf_blocks:
  "emitIf rec cond thenB elseE = do {
     c \<leftarrow> emit_operand rec cond (Some (ConstInt LI1 0));
     b \<leftarrow> three_blocks (\<lambda>b. CondBr c b (b + 1)) ''if.then'' ''if.else'' ''if.end'';
     emit_block_opt rec thenB;
     close_and_enter (b + 2) (b + 1);
     emit_opt rec elseE None;
     close_and_enter (b + 2) (b + 2);
     ret None}"
  by (rule state_ext)
     (simp add: emitIf_def three_blocks_def close_and_enter_def ll_new_block_run attach_block_def set_insert_point_def
        split: prod.splits)

lemma emitWhile_blocks:
  "emitWhile rec cond body = do {
     b \<leftarrow> three_blocks Br ''while.cond'' ''while.body'' ''while.end'';
     c \<leftarrow> emit_operand rec cond (Some (ConstInt LI1 0));
     exit_and_enter (CondBr c (b + 1) (b + 2)) (b + 1);
     emit_block_opt rec body;
     close_and_enter b (b + 2);
     ret None}"
  by (rule state_ext)
     (simp add: emitWhile_def three_blocks_def close_and_enter_def exit_and_enter_def ll_new_block_run attach_block_def
        set_insert_point_def split: prod.splits)

text \<open>The frame together with the labels of the blocks there were.\<close>

definition reaches :: "nat \<Rightarrow> emitter \<Rightarrow> (nat \<Rightarrow> open_regions) \<Rightarrow> emitter \<Rightarrow> (nat \<Rightarrow> open_regions) \<Rightarrow> bool" where
  "reaches n s L t L' \<longleftrightarrow> n \<le> length (em_blocks s) \<and> framed_from n s t \<and> agree_below (length (em_blocks s)) L L'"

lemma reaches_trans: "reaches n s L t L' \<Longrightarrow> reaches n t L' u L'' \<Longrightarrow> reaches n s L u L''"
  unfolding reaches_def using framed_from_trans agree_trans framed_length by blast

lemma reachesD:
  assumes "reaches n s L t L'"
  shows "length (em_blocks s) \<le> length (em_blocks t)" "set (fn_blocks s) \<subseteq> set (fn_blocks t)"
    "\<And>b. b < length (em_blocks s) \<Longrightarrow> L' b = L b"
  using assms by (auto simp: reaches_def framed_from_def agree_below_def)

lemma flowsD:
  assumes c: "flows m c" and s: "opened s L P S" and S: "m \<noteq> InRegion \<Longrightarrow> S = []" and n: "n \<le> length (em_blocks s)"
  obtains L' where "reaches n s L (snd (run_state c s)) L'"
    "opened (snd (run_state c s)) L' P S \<or> m = Statement \<and> finished (snd (run_state c s)) L' P"
proof -
  have "flow m s (snd (run_state c s))" using c by (simp add: flows_def)
  with s S obtain L' where "framed s (snd (run_state c s))" "agree_below (length (em_blocks s)) L L'"
    "opened (snd (run_state c s)) L' P S \<or> m = Statement \<and> finished (snd (run_state c s)) L' P"
    by (blast elim: flowD)
  then show ?thesis using that [of L'] n framed_mono by (simp add: reaches_def)
qed

lemma flowsI:
  assumes "\<And>s L P S. opened s L P S \<Longrightarrow> (m \<noteq> InRegion \<Longrightarrow> S = []) \<Longrightarrow>
     \<exists>t L'. snd (run_state c s) = t \<and> reaches (length (em_blocks s)) s L t L' \<and> opened t L' P S"
  shows "flows m c"
  unfolding flows_def flow_def
proof (intro allI impI, elim conjE)
  fix s L P S
  assume "opened s L P S" "m \<noteq> InRegion \<longrightarrow> S = []"
  then obtain L' where "reaches (length (em_blocks s)) s L (snd (run_state c s)) L'" "opened (snd (run_state c s)) L' P S"
    using assms by metis
  then show "framed s (snd (run_state c s)) \<and> (\<exists>L'. agree_below (length (em_blocks s)) L L' \<and>
      (opened (snd (run_state c s)) L' P S \<or> m = Statement \<and> finished (snd (run_state c s)) L' P))"
    unfolding reaches_def by blast
qed

lemma pending_below: "opened s L P S \<Longrightarrow> p \<in> P \<Longrightarrow> p < length (em_blocks s)"
  by (auto simp: opened_def wf_blocks_def)

lemma entered_reaches: "entered n s L P b t \<Longrightarrow> n \<le> length (em_blocks s) \<Longrightarrow> reaches n s L t L"
  by (simp add: entered_def reaches_def)

text \<open>A body emitted in a block, after which the code goes on in the pending block \<open>b'\<close>.\<close>

lemma branch_segment:
  assumes c: "flows (branch_mode m) c" and s: "opened s L P S" and S: "m \<noteq> InRegion \<Longrightarrow> S = []"
    and n: "n \<le> length (em_blocks s)" and b: "b \<in> set (fn_blocks s) \<union> P" "b < length (em_blocks s)" "L b = S"
    and b': "b' \<in> P" "n \<le> b'"
    and t: "t = snd (run_state (close_and_enter b b') (snd (run_state c s)))"
  obtains L' where "reaches n s L t L'" "opened t L' (P - {b'}) (L b')"
proof -
  let ?s1 = "snd (run_state c s)"
  obtain L' where L': "reaches n s L ?s1 L'" "opened ?s1 L' P S \<or> finished ?s1 L' P"
    using flowsD [OF c s _ n] S by (metis branch_mode_simps(1))
  have "b \<in> set (fn_blocks ?s1) \<union> P" using b(1) reachesD(2) [OF L'(1)] by blast
  moreover have "L' b = S" "L' b' = L b'" using reachesD(3) [OF L'(1)] b(2,3) pending_below [OF s b'(1)] by simp_all
  ultimately have e: "entered n ?s1 L' P b' t" unfolding t using close_and_enter [OF L'(2)] b' by blast
  have "reaches n ?s1 L' t L'" using e n reachesD(1) [OF L'(1)] by (intro entered_reaches) auto
  with L'(1) e show ?thesis using that reaches_trans \<open>L' b' = L b'\<close> unfolding entered_def by metis
qed

lemma three_pending: "opened s L P S \<Longrightarrow> n = length (em_blocks s) \<Longrightarrow> P \<union> {n + 1, n + 2} - {n + 1} - {n + 2} = P"
  using pending_below [of s L P S] by fastforce

lemma flows_emitIf:
  assumes c: "flows (operand_mode m) (emit_operand rec cond (Some (ConstInt LI1 0)))"
    and t: "flows (branch_mode m) (emit_block_opt rec thenB)" and e: "flows (branch_mode m) (emit_opt rec elseE None)"
  shows "flows m (emitIf rec cond thenB elseE)"
  unfolding emitIf_blocks
proof (rule flows_bind [OF c], rule flowsI)
  fix c s L P S
  assume s: "opened s L P S" and S: "m \<noteq> InRegion \<Longrightarrow> S = []"
  define n e f where n: "n = length (em_blocks s)" and ef: "e = n + 1" "f = n + 2"
  define L1 where L1: "L1 = L(n := S, n + 1 := S, n + 2 := S)"
  define P1 where P1: "P1 = P \<union> {n + 1, n + 2}"
  obtain b s1 where r: "run_state (three_blocks (\<lambda>b. CondBr c b (b + 1)) ''if.then'' ''if.else'' ''if.end'') s = (b, s1)"
    by fastforce
  have s1: "b = n" "opened s1 L1 P1 S" "framed_from n s s1" "length (em_blocks s1) = n + 3"
    using three_blocks [OF s n _ L1 r] unfolding P1 by auto
  define s2 where s2: "s2 = snd (run_state (close_and_enter f e) (snd (run_state (emit_block_opt rec thenB) s1)))"
  define s3 where s3: "s3 = snd (run_state (close_and_enter f f) (snd (run_state (emit_opt rec elseE None) s2)))"
  have lab: "L1 e = S" "L1 f = S" "e \<in> P1" "f \<in> P1" "n \<le> e" "n \<le> f" "e \<noteq> f" "f < n + 3" "e < n + 3"
    by (auto simp: L1 P1 ef)
  have "n \<le> length (em_blocks s1)" "f < length (em_blocks s1)" using s1(4) lab(8) by simp_all
  then obtain L2 where L2: "reaches n s1 L1 s2 L2" "opened s2 L2 (P1 - {e}) S"
    using branch_segment [OF t s1(2) S _ _ _ lab(2) lab(3,5) s2] lab(1,4) by (metis UnI2)
  have len: "n \<le> length (em_blocks s2)" "f < length (em_blocks s2)" "L2 f = S" "f \<in> P1 - {e}"
    using reachesD(1,3) [OF L2(1)] s1(4) lab by auto
  obtain L3 where L3: "reaches n s2 L2 s3 L3" "opened s3 L3 (P1 - {e} - {f}) S"
    using branch_segment [OF e L2(2) S len(1) _ len(2,3,4) lab(6) s3] len(3,4) by (metis UnI2)
  have "reaches n s L s1 L1" using s1(3) n by (simp add: reaches_def L1 agree_below_def)
  then have "reaches n s L s3 L3" using L2(1) L3(1) reaches_trans by blast
  moreover have "opened s3 L3 P S" using L3(2) three_pending [OF s n] by (simp add: P1 ef)
  moreover have "snd (run_state (do {
       b \<leftarrow> three_blocks (\<lambda>b. CondBr c b (b + 1)) ''if.then'' ''if.else'' ''if.end'';
       emit_block_opt rec thenB; close_and_enter (b + 2) (b + 1); emit_opt rec elseE None;
       close_and_enter (b + 2) (b + 2); ret None}) s) = s3"
    unfolding snd_bind r by (simp add: snd_bind s1(1) s2 s3 ef del: run_state_bind)
  ultimately show "\<exists>t L'. snd (run_state (do {
       b \<leftarrow> three_blocks (\<lambda>b. CondBr c b (b + 1)) ''if.then'' ''if.else'' ''if.end'';
       emit_block_opt rec thenB; close_and_enter (b + 2) (b + 1); emit_opt rec elseE None;
       close_and_enter (b + 2) (b + 2); ret None}) s) = t \<and> reaches (length (em_blocks s)) s L t L' \<and> opened t L' P S"
    unfolding n by blast
qed

lemma flows_emitWhile:
  assumes c: "flows (operand_mode m) (emit_operand rec cond (Some (ConstInt LI1 0)))"
    and b: "flows (branch_mode m) (emit_block_opt rec body)"
  shows "flows m (emitWhile rec cond body)"
  unfolding emitWhile_blocks
proof (rule flowsI)
  fix s L P S
  assume s: "opened s L P S" and S: "m \<noteq> InRegion \<Longrightarrow> S = []"
  define n e f where n: "n = length (em_blocks s)" and ef: "e = n + 1" "f = n + 2"
  define L1 where L1: "L1 = L(n := S, n + 1 := S, n + 2 := S)"
  define P1 where P1: "P1 = P \<union> {n + 1, n + 2}"
  obtain b s1 where r: "run_state (three_blocks Br ''while.cond'' ''while.body'' ''while.end'') s = (b, s1)"
    by fastforce
  have s1: "b = n" "opened s1 L1 P1 S" "framed_from n s s1" "length (em_blocks s1) = n + 3" "n \<in> set (fn_blocks s1)"
    using three_blocks [OF s n _ L1 r] unfolding P1 by auto
  obtain v s2 where v: "run_state (emit_operand rec cond (Some (ConstInt LI1 0))) s1 = (v, s2)" by fastforce
  define s3 where s3: "s3 = snd (run_state (exit_and_enter (CondBr v e f) e) s2)"
  define s4 where s4: "s4 = snd (run_state (close_and_enter n f) (snd (run_state (emit_block_opt rec body) s3)))"
  have lab: "L1 n = S" "L1 e = S" "L1 f = S" "e \<in> P1" "f \<in> P1" "n \<le> e" "n \<le> f" "e \<noteq> f" "f < n + 3" "e < n + 3"
    by (auto simp: L1 P1 ef)
  have n1: "n \<le> length (em_blocks s1)" "f < length (em_blocks s1)" "e < length (em_blocks s1)" "n < length (em_blocks s1)"
    using s1(4) lab(9,10) by simp_all
  obtain L2 where L2: "reaches n s1 L1 s2 L2" "opened s2 L2 P1 S"
    using flowsD [OF c s1(2) _ n1(1)] S v by (metis operand_mode_simps(1,2) snd_conv)
  have lab2: "L2 n = S" "L2 e = S" "L2 f = S" using reachesD(3) [OF L2(1)] n1 lab by simp_all
  have len: "n \<le> length (em_blocks s2)" "n < length (em_blocks s2)" using reachesD(1) [OF L2(1)] n1 by simp_all
  have en: "entered n s2 L2 P1 e s3"
    unfolding s3 using lab lab2 by (intro exit_and_enter [OF L2(2)]) auto
  then have o3: "opened s3 L2 (P1 - {e}) S" "length (em_blocks s3) = length (em_blocks s2)" "n \<in> set (fn_blocks s3)"
    using lab2 s1(5) reachesD(2) [OF L2(1)] by (auto simp: entered_def)
  obtain L4 where L4: "reaches n s3 L2 s4 L4" "opened s4 L4 (P1 - {e} - {f}) S"
    using branch_segment [OF b o3(1) S _ _ _ lab2(1) _ lab(7) s4] o3(2,3) len lab lab2(3)
    by (metis DiffI UnI1 singletonD)
  have "reaches n s L s1 L1" using s1(3) n by (simp add: reaches_def L1 agree_below_def)
  then have "reaches n s L s4 L4" using L2(1) entered_reaches [OF en len(1)] L4(1) reaches_trans by blast
  moreover have "opened s4 L4 P S" using L4(2) three_pending [OF s n] by (simp add: P1 ef)
  moreover have "snd (run_state (do {
       b \<leftarrow> three_blocks Br ''while.cond'' ''while.body'' ''while.end'';
       c \<leftarrow> emit_operand rec cond (Some (ConstInt LI1 0));
       exit_and_enter (CondBr c (b + 1) (b + 2)) (b + 1); emit_block_opt rec body; close_and_enter b (b + 2); ret None}) s) = s4"
    unfolding snd_bind r by (simp add: snd_bind s1(1) v s3 s4 ef del: run_state_bind)
  ultimately show "\<exists>t L'. snd (run_state (do {
       b \<leftarrow> three_blocks Br ''while.cond'' ''while.body'' ''while.end'';
       c \<leftarrow> emit_operand rec cond (Some (ConstInt LI1 0));
       exit_and_enter (CondBr c (b + 1) (b + 2)) (b + 1); emit_block_opt rec body; close_and_enter b (b + 2); ret None}) s) = t \<and>
     reaches (length (em_blocks s)) s L t L' \<and> opened t L' P S"
    unfolding n by blast
qed


subsection \<open>Blocks and returns\<close>

lemma block_statements_finished: "finished s L P \<Longrightarrow> snd (run_state (block_statements rec v es) s) = s"
  using finished_terminated [of s L P] by (cases es) (simp_all add: snd_bind del: run_state_bind)

lemma flows_block_statements:
  "(\<And>x. Some x \<in> set es \<Longrightarrow> flows m (rec x)) \<Longrightarrow> flows m (block_statements rec v es)"
proof (induction es arbitrary: v)
  case (Cons e es)
  have IH: "flows m (block_statements rec w es)" for w using Cons by simp
  show ?case
  proof (cases e)
    case None
    then show ?thesis by (simp add: IH flows_intros flows_builder)
  next
    case (Some x)
    have x: "flows m (rec x)" using Cons.prems Some by simp
    have "flow m s (snd (run_state (do {v \<leftarrow> rec x; block_statements rec v es}) s))" for s
      unfolding flow_def
    proof (intro allI impI, elim conjE)
      fix L P S
      assume s: "opened s L P S" and S: "m \<noteq> InRegion \<longrightarrow> S = []"
      let ?n = "length (em_blocks s)" and ?t = "snd (run_state (rec x) s)"
      let ?u = "snd (run_state (do {v \<leftarrow> rec x; block_statements rec v es}) s)"
      obtain L1 where L1: "reaches ?n s L ?t L1" "opened ?t L1 P S \<or> m = Statement \<and> finished ?t L1 P"
        using flowsD [OF x s] S by (metis order_refl)
      have u: "?u = snd (run_state (block_statements rec (fst (run_state (rec x) s)) es) ?t)" by (rule snd_bind)
      have "\<exists>L2. reaches ?n ?t L1 ?u L2 \<and> (opened ?u L2 P S \<or> m = Statement \<and> finished ?u L2 P)"
      proof (cases "opened ?t L1 P S")
        case True
        then show ?thesis using flowsD [OF IH True] S reachesD(1) [OF L1(1)] unfolding u by metis
      next
        case False
        then show ?thesis using L1 block_statements_finished [of ?t] reachesD(1) [OF L1(1)] unfolding u
          by (auto simp: reaches_def intro!: exI [of _ L1])
      qed
      then obtain L2 where "reaches ?n s L ?u L2" "opened ?u L2 P S \<or> m = Statement \<and> finished ?u L2 P"
        using reaches_trans [OF L1(1)] by blast
      then show "framed s ?u \<and> (\<exists>L'. agree_below ?n L L' \<and> (opened ?u L' P S \<or> m = Statement \<and> finished ?u L' P))"
        unfolding reaches_def by blast
    qed
    then have "flows m (do {v \<leftarrow> rec x; block_statements rec v es})" by (simp add: flows_def)
    then show ?thesis
      unfolding block_statements.simps Some option.case
      by (intro flows_bind [OF flows_has_terminator] flows_if flows_ret)
  qed
qed (simp add: flows_ret)

lemma flows_block:
  "(\<And>x y. b = Some y \<Longrightarrow> Some x \<in> set (blk_expressions y) \<Longrightarrow> flows m (rec x)) \<Longrightarrow> flows m (emit_block_opt rec b)"
  unfolding emit_block_opt_def emitBlock_with_def by (intro flows_intros flows_block_statements)

lemma flows_Ret: "flows Statement (insert_instr (Ret v))"
  unfolding flows_def flow_def run_insert_instr
proof (intro allI impI, elim conjE)
  fix s L P S
  assume s: "opened s L P S" and S: "Statement \<noteq> InRegion \<longrightarrow> S = []"
  let ?t = "map_code (em_insert s) (\<lambda>is. is @ [Ret v]) s"
  have "finished ?t L P" using S by (intro opened_exit [OF s]) simp
  then show "framed s ?t \<and>
      (\<exists>L'. agree_below (length (em_blocks s)) L L' \<and> (opened ?t L' P S \<or> Statement = Statement \<and> finished ?t L' P))"
    using framed_map_code [OF opened_insert [OF s]] by (blast intro: agree_refl)
qed


subsection \<open>Regions\<close>

lemma opened_call:
  assumes s: "opened s L P S" and S': "\<And>n. region_step S (Call n (Extern f) args name) = Some S'"
    and t: "t = snd (run_state (call_runtime f args name) s)"
  shows "reaches (length (em_blocks s)) s L t L" "opened t L P S'"
proof -
  let ?s = "s\<lparr>em_externs := List.insert f (em_externs s), em_next := em_next s + 1\<rparr>"
  let ?i = "Call (em_next s) (Extern f) args name"
  have t': "t = map_code (em_insert ?s) (\<lambda>is. is @ [?i]) ?s"
    unfolding t call_runtime_def build_def fresh_def by (simp add: snd_bind insert_instr_def map_code_def)
  have s': "opened ?s L P S" using s opened_tables(1) [of ?s s] by simp
  then show "opened t L P S'" unfolding t' using opened_step [OF s' _ S'] by simp
  have "framed_from (length (em_blocks s)) s ?s"
    unfolding framed_from_def by (intro conjI exI [of _ "[]"]) auto
  then show "reaches (length (em_blocks s)) s L t L"
    using framed_from_trans [OF _ framed_map_code [OF opened_insert [OF s']]] unfolding t' by (simp add: reaches_def)
qed

lemma run_call_enter:
  "snd (run_state (open_region_code k r) s) =
     (if k = Region_Enter
      then (snd (run_state (call_runtime RegionEnter [r] []) s))\<lparr>em_activeRegions := em_activeRegions s @ [r]\<rparr>
      else snd (run_state (call_runtime RegionExplore [r] []) s))"
  by (simp add: open_region_code_def call_runtime_def build_def fresh_def insert_instr_def)

lemma reaches_tables:
  assumes "reaches n s L t L'" "em_module u = em_module t" "em_blocks u = em_blocks t" "em_fn u = em_fn t"
    "em_functions u = em_functions t" "em_layouts u = em_layouts t" "em_currentDecl u = em_currentDecl t" "em_simpleKeys u = em_simpleKeys t"
  shows "reaches n s L u L'"
  using assms(1) unfolding reaches_def framed_from_def assms(2-) .

lemma opened_region:
  assumes s: "opened s L P S" and t: "t = snd (run_state (open_region_code k r) s)"
  shows "reaches (length (em_blocks s)) s L t L" "opened t L P ((k, r) # S)"
proof -
  let ?u = "snd (run_state (call_runtime (if k = Region_Enter then RegionEnter else RegionExplore) [r] []) s)"
  have "region_step S (Call n (Extern (if k = Region_Enter then RegionEnter else RegionExplore)) [r] []) =
      Some ((k, r) # S)" for n by (cases k) simp_all
  from opened_call [OF s this refl]
  have u: "reaches (length (em_blocks s)) s L ?u L" "opened ?u L P ((k, r) # S)" .
  have t': "t = (if k = Region_Enter then ?u\<lparr>em_activeRegions := em_activeRegions s @ [r]\<rparr> else ?u)"
    unfolding t run_call_enter by simp
  show "reaches (length (em_blocks s)) s L t L" using reaches_tables [OF u(1), of t] by (simp add: t')
  show "opened t L P ((k, r) # S)" using u(2) opened_tables(1) [of t ?u] by (simp add: t')
qed

definition region_code :: "expr_emitter \<Rightarrow> region_kind \<Rightarrow> string \<Rightarrow> expr option \<Rightarrow> block option \<Rightarrow> ll_value \<Rightarrow> (ll_value option \<times> ll_value) em" where
  "region_code rec kind name source body region = do {
     slot \<leftarrow> bind_bridge name source region;
     result \<leftarrow> emit_block_opt rec body;
     ret (result, slot)}"

lemma flows_region_code:
  "flows InRegion (emit_block_opt rec body) \<Longrightarrow> flows InRegion (region_code rec kind name source body region)"
  unfolding region_code_def bind_bridge_def
  by (intro flows_intros flows_builder flows_call_runtime flows_update) (simp_all split: option.split)

lemma emitRegion_code:
  "emitRegion rec kind source name body = do {
     region \<leftarrow> emit_operand rec source (Some null_ptr);
     open_region_code kind region;
     (result, slot) \<leftarrow> region_code rec kind name source body region;
     close_region_code kind name region slot;
     update (\<lambda>s. s\<lparr>em_bridgeSlots := um_erase name (em_bridgeSlots s),
                  em_pointerValues := um_erase name (em_pointerValues s),
                  em_pointerStructTypes := um_erase name (em_pointerStructTypes s)\<rparr>);
     ret result}"
  by (simp add: emitRegion_def region_code_def)

lemma closed_region:
  assumes s: "opened s L P ((k, r) # S)" and t: "t = snd (run_state (close_region_code k name r slot) s)"
  obtains L' where "reaches (length (em_blocks s)) s L t L'" "opened t L' P S"
proof (cases "k = Region_Enter")
  case False
  then have k: "k = Region_Explore" by (cases k) auto
  have t': "t = snd (run_state (call_runtime RegionExploreExit [r] []) s)"
    unfolding t by (simp add: close_region_code_def k snd_bind del: run_state_bind)
  have "region_step ((k, r) # S) (Call n (Extern RegionExploreExit) [r] []) = Some S" for n by (simp add: k)
  from that [OF opened_call [OF s this t']] show ?thesis .
next
  case True
  obtain v u where v: "run_state (create_load (allocated_type slot) slot (name @ ''.bridge'')) s = (v, u)" by fastforce
  obtain L1 where L1: "reaches (length (em_blocks s)) s L u L1" "opened u L1 P ((k, r) # S)"
    using flowsD [OF flows_creates(2) [of InRegion "allocated_type slot" slot "name @ ''.bridge''"] s _ order_refl] v
    by (metis return_mode.distinct(3) snd_conv)
  let ?w = "snd (run_state (call_runtime RegionExit [r, v] []) u)"
  have w: "reaches (length (em_blocks u)) u L1 ?w L1" "opened ?w L1 P S"
    using opened_call [OF L1(2) _ refl, of RegionExit "[r, v]" "[]" S] True by simp_all
  have t': "t = ?w\<lparr>em_activeRegions := butlast (em_activeRegions ?w)\<rparr>"
    unfolding t by (simp add: close_region_code_def True snd_bind v del: run_state_bind)
  have "reaches (length (em_blocks s)) u L1 ?w L1"
    using w(1) reachesD(1) [OF L1(1)] framed_mono by (auto simp: reaches_def)
  then have "reaches (length (em_blocks s)) s L t L1"
    using reaches_tables [OF reaches_trans [OF L1(1)]] by (simp add: t')
  moreover have "opened t L1 P S" using w(2) opened_tables(1) [of t ?w] by (simp add: t')
  ultimately show ?thesis by (rule that)
qed

lemma flows_emitRegion:
  assumes e: "flows (operand_mode m) (emit_operand rec source (Some null_ptr))"
    and b: "flows InRegion (emit_block_opt rec body)"
  shows "flows m (emitRegion rec kind source name body)"
  unfolding emitRegion_code
proof (rule flows_bind [OF e], rule flowsI)
  fix r s L P S
  assume s: "opened s L P S"
  let ?n = "length (em_blocks s)"
  define s1 where s1: "s1 = snd (run_state (open_region_code kind r) s)"
  have r1: "reaches ?n s L s1 L" "opened s1 L P ((kind, r) # S)" using opened_region [OF s s1] by auto
  obtain result slot s2 where s2: "run_state (region_code rec kind name source body r) s1 = ((result, slot), s2)"
    by (metis prod.exhaust)
  obtain L2 where r2: "reaches ?n s1 L s2 L2" "opened s2 L2 P ((kind, r) # S)"
    using flowsD [OF flows_region_code [OF b, of kind name source r] r1(2) _ reachesD(1) [OF r1(1)]] s2
    by (metis return_mode.distinct(3) snd_conv)
  define s3 where s3: "s3 = snd (run_state (close_region_code kind name r slot) s2)"
  obtain L3 where r3: "reaches (length (em_blocks s2)) s2 L2 s3 L3" "opened s3 L3 P S"
    using closed_region [OF r2(2) s3] by blast
  have n: "?n \<le> length (em_blocks s2)" using reachesD(1) [OF r1(1)] reachesD(1) [OF r2(1)] by simp
  then have "reaches ?n s2 L2 s3 L3" using r3(1) framed_mono by (auto simp: reaches_def)
  then have r4: "reaches ?n s L s3 L3" using r1(1) r2(1) reaches_trans by blast
  define t where t: "t = s3\<lparr>em_bridgeSlots := um_erase name (em_bridgeSlots s3),
    em_pointerValues := um_erase name (em_pointerValues s3),
    em_pointerStructTypes := um_erase name (em_pointerStructTypes s3)\<rparr>"
  have "reaches ?n s L t L3" using reaches_tables [OF r4, of t] by (simp add: t)
  moreover have "opened t L3 P S" using r3(2) opened_tables(1) [of t s3] by (simp add: t)
  moreover have "snd (run_state (do {
     open_region_code kind r;
     (result, slot) \<leftarrow> region_code rec kind name source body r;
     close_region_code kind name r slot;
     update (\<lambda>s. s\<lparr>em_bridgeSlots := um_erase name (em_bridgeSlots s),
                  em_pointerValues := um_erase name (em_pointerValues s),
                  em_pointerStructTypes := um_erase name (em_pointerStructTypes s)\<rparr>);
     ret result}) s) = t"
    unfolding snd_bind s1 [symmetric] s2 by (simp add: snd_bind s2 s3 t del: run_state_bind)
  ultimately show "\<exists>t L'. snd (run_state (do {
     open_region_code kind r;
     (result, slot) \<leftarrow> region_code rec kind name source body r;
     close_region_code kind name r slot;
     update (\<lambda>s. s\<lparr>em_bridgeSlots := um_erase name (em_bridgeSlots s),
                  em_pointerValues := um_erase name (em_pointerValues s),
                  em_pointerStructTypes := um_erase name (em_pointerStructTypes s)\<rparr>);
     ret result}) s) = t \<and> reaches ?n s L t L' \<and> opened t L' P S" by blast
qed

end
