(* ===== verification/Gura_CodeGen_Props.thy ===== *)
theory Gura_CodeGen_Props
  imports Gura_CodeGen_Wf
begin

section \<open>The emitter keeps functions well formed\<close>

text \<open>
  Every \<^verbatim>\<open>emit...\<close> method keeps the invariant of the control flow; \<open>returns_ok\<close> says of an expression where its
  returns stand.
\<close>

subsection \<open>The methods, one by one\<close>

lemma flows_emit_opt: "(\<And>x. e = Some x \<Longrightarrow> flows m (rec x)) \<Longrightarrow> flows m (emit_opt rec e d)"
  unfolding emit_opt_def by (intro flows_intros)

lemma flows_emit_operand:
  "(\<And>x. e = Some x \<Longrightarrow> flows (operand_mode m) (rec x)) \<Longrightarrow> flows m (emit_operand rec e d)"
  unfolding emit_operand_def by (intro flows_intros flows_builder flows_emit_opt)

lemma flows_emitName: "flows m (emitName name)"
  unfolding emitName_def by (intro flows_intros flows_some_of flows_builder)

lemma flows_emitLiteral: "flows m (emitLiteral k txt suffix)"
  unfolding emitLiteral_def by (cases k; simp add: flows_ret flows_global_string)

lemma flows_emitBinding:
  "(\<And>x. i = Some x \<Longrightarrow> flows (operand_mode m) (rec x)) \<Longrightarrow> flows m (emitBinding rec name t i)"
  unfolding emitBinding_def
  by (intro flows_intros flows_builder flows_update flows_emit_operand) simp_all

lemma flows_insert_fields:
  "(\<And>x fi. fi \<in> set fis \<Longrightarrow> fi_value fi = Some x \<Longrightarrow> flows (operand_mode m) (rec x)) \<Longrightarrow>
   flows m (insert_fields rec layout v fis)"
proof (induction fis arbitrary: v)
  case (Cons fi fis)
  have "flows m (insert_fields rec layout v fis)" for v using Cons.prems by (intro Cons.IH) auto
  then show ?case
    using Cons.prems [of fi]
    by (simp only: insert_fields.simps) (intro flows_intros flows_builder flows_emit_operand; simp)
qed (simp add: flows_ret)

lemma flows_emitNew:
  "(\<And>x fi. fi \<in> set fis \<Longrightarrow> fi_value fi = Some x \<Longrightarrow> flows (operand_mode m) (rec x)) \<Longrightarrow>
   flows m (emitNew rec t st fis)"
  unfolding emitNew_def
  by (intro flows_intros flows_some_of flows_call_runtime flows_insert_fields) simp_all

lemma flows_emitFreeze:
  "(\<And>x. v = Some x \<Longrightarrow> flows (operand_mode m) (rec x)) \<Longrightarrow> flows m (emitFreeze rec v)"
  unfolding emitFreeze_def by (intro flows_intros flows_some_of flows_call_runtime flows_emit_operand) simp_all

lemma flows_emitMerge:
  "(\<And>x. v = Some x \<Longrightarrow> flows (operand_mode m) (rec x)) \<Longrightarrow> flows m (emitMerge rec v)"
  unfolding emitMerge_def by (intro flows_intros flows_some_of flows_call_runtime flows_emit_operand) simp_all

lemma flows_fieldSlot: "flows m (fieldSlot obj f)"
  unfolding fieldSlot_def by (intro flows_intros flows_build) simp

lemma flows_emitFieldAccess: "flows m (emitFieldAccess obj f)"
  unfolding emitFieldAccess_def by (intro flows_intros flows_some_of flows_builder flows_fieldSlot)

lemma flows_array_elements:
  "(\<And>x. Some x \<in> set es \<Longrightarrow> flows (operand_mode m) (rec x)) \<Longrightarrow> flows m (array_elements rec v i es)"
proof (induction es arbitrary: v i)
  case (Cons e es)
  have "flows m (array_elements rec v i es)" for v i using Cons by simp
  then show ?case
    using Cons.prems
    by (simp only: array_elements.simps) (intro flows_intros flows_builder flows_emit_operand; simp)
qed (simp add: flows_ret)

lemma flows_emitArrayLiteral:
  "(\<And>x. Some x \<in> set es \<Longrightarrow> flows (operand_mode m) (rec x)) \<Longrightarrow> flows m (emitArrayLiteral rec es)"
  unfolding emitArrayLiteral_def by (intro flows_some_of flows_array_elements) simp

lemma flows_indexSlot:
  "(\<And>x. i = Some x \<Longrightarrow> flows (operand_mode m) (rec x)) \<Longrightarrow> flows m (indexSlot rec obj i)"
  unfolding indexSlot_def
  by (intro flows_intros flows_some_of flows_builder flows_build flows_emit_operand) simp_all

lemma flows_emitIndexAccess:
  "(\<And>x. i = Some x \<Longrightarrow> flows (operand_mode m) (rec x)) \<Longrightarrow> flows m (emitIndexAccess rec obj i)"
  unfolding emitIndexAccess_def
  by (intro flows_intros flows_some_of flows_builder flows_indexSlot) simp

lemma flows_store_to: "flows m (store_to v slot)"
  unfolding store_to_def by (intro flows_intros flows_builder)

lemma flows_assign_name: "flows m (assign_name v name)"
  unfolding assign_name_def by (intro flows_intros flows_builder flows_update flows_store_to) simp

lemma flows_emitAssign:
  assumes "\<And>x. v = Some x \<Longrightarrow> flows (operand_mode m) (rec x)"
    and "\<And>x n obj. target = Some (IndexExpr n obj (Some x)) \<Longrightarrow> flows (operand_mode m) (rec x)"
  shows "flows m (emitAssign rec target v)"
proof -
  have "flows m (case target of
       Some (NameExpr _ name) \<Rightarrow> assign_name w name
     | Some (FieldAccessExpr _ obj fieldName) \<Rightarrow> do {slot \<leftarrow> fieldSlot obj fieldName; store_to w (map_option fst slot)}
     | Some (IndexExpr _ obj index) \<Rightarrow> do {slot \<leftarrow> indexSlot rec obj index; store_to w slot}
     | _ \<Rightarrow> ret None)" for w
    using assms(2)
    by (auto split: option.split expr.split
        intro!: flows_ret flows_assign_name flows_bind flows_fieldSlot flows_store_to flows_indexSlot)
  then show ?thesis unfolding emitAssign_def by (intro flows_bind flows_emit_opt assms(1)) simp_all
qed

lemma flows_emitBinary:
  "(\<And>x. l = Some x \<or> r = Some x \<Longrightarrow> flows (operand_mode m) (rec x)) \<Longrightarrow> flows m (emitBinary rec op l r)"
  unfolding emitBinary_def
  by (intro flows_intros flows_some_of flows_builder flows_emit_opt) simp_all

lemma flows_emitReturn:
  "(\<And>x. v = Some x \<Longrightarrow> flows Operand (rec x)) \<Longrightarrow> flows Statement (emitReturn rec v)"
proof -
  assume v: "\<And>x. v = Some x \<Longrightarrow> flows Operand (rec x)"
  have tail: "flow m s (snd (run_state (do {i \<leftarrow> insert_instr (Ret w); ret (Some (InstrV k LVoid))}) s))"
    if "flow m s (snd (run_state (insert_instr (Ret w)) s))" for m s w k
    using that by (simp add: snd_bind del: run_state_bind)
  have exit: "flows Statement (do {insert_instr (Ret w); ret (Some (InstrV k LVoid))})" for w k
    using flows_Ret tail unfolding flows_def by blast
  show ?thesis
    unfolding emitReturn_def
    by (rule flows_bind, simp add: flows_emit_opt v, rule flows_bind, rule flows_return_type,
        rule flows_bind, rule flows_fresh, rule exit)
qed


subsection \<open>Calls\<close>

lemma flows_emitCallArgument:
  "(\<And>x. e = x \<Longrightarrow> flows m (rec x)) \<Longrightarrow> flows m (emitCallArgument rec e t)"
  unfolding emitCallArgument_def by (intro flows_intros flows_some_of flows_builder) simp_all

lemma flows_arguments:
  assumes "\<And>x. Some x \<in> set as \<Longrightarrow> flows (operand_mode m) (rec x)"
  shows "flows m (plain_arguments rec as)" "flows m (call_arguments rec tys as)"
proof -
  show "flows m (plain_arguments rec as)"
    using assms
  proof (induction as arbitrary: m)
    case (Cons a as)
    have "flows (operand_mode m) (plain_arguments rec as)" using Cons.prems by (intro Cons.IH) auto
    then show ?case
      using Cons.prems by (simp only: plain_arguments.simps) (intro flows_intros flows_emit_operand; simp)
  qed (simp add: flows_ret)
  show "flows m (call_arguments rec tys as)"
    using assms
  proof (induction as arbitrary: tys m)
    case (Cons a as)
    have "flows (operand_mode m) (call_arguments rec tys as)" for tys using Cons.prems by (intro Cons.IH) auto
    then show ?case
      using Cons.prems
      by (simp only: call_arguments.simps) (intro flows_intros flows_builder flows_emitCallArgument; simp)
  qed (simp add: flows_ret)
qed

lemma flows_emitPrintCall:
  "(\<And>x. Some x \<in> set as \<Longrightarrow> flows (operand_mode m) (rec x)) \<Longrightarrow> flows m (emitPrintCall rec name as)"
  unfolding emitPrintCall_def emitReadlnI64_def
  by (intro flows_intros flows_some_of flows_builder flows_call_runtime flows_emit_operand) auto

lemma flows_call_declared:
  "(\<And>x. Some x \<in> set as \<Longrightarrow> flows (operand_mode m) (rec x)) \<Longrightarrow> flows m (call_declared rec f as)"
  unfolding call_declared_def
  by (intro flows_intros flows_some_of flows_builder flows_arguments) simp_all

lemma flows_emitCall:
  assumes "\<And>x. Some x \<in> set as \<Longrightarrow> flows (operand_mode m) (rec x)"
  shows "flows m (emitCall rec callee as)"
proof -
  have args: "\<And>x. Some x \<in> set as \<Longrightarrow> flows (operand_mode (operand_mode m)) (rec x)" using assms by simp
  have meth: "flows (operand_mode m) (emitMethodCall rec obj f as)" for obj f
    unfolding emitMethodCall_def
    by (intro flows_intros flows_some_of flows_builder flows_arguments)
       (auto split: method_target.split intro!: flows_intros flows_some_of flows_builder flows_arguments simp: assms)
  have name: "flows m (call_by_name rec name as)" for name
    unfolding call_by_name_def
    by (intro flows_intros flows_some_of flows_call_runtime flows_call_declared flows_emitPrintCall flows_arguments)
       (simp_all add: assms)
  have "flows m (call_unresolved rec callee as)"
    unfolding call_unresolved_def
    by (intro flows_intros name) (auto split: option.split expr.split intro!: meth flows_ret)
  then show ?thesis
    unfolding emitCall_def
    by (intro flows_intros flows_call_declared flows_emitPrintCall) (simp_all add: assms)
qed


subsection \<open>Where returns stand\<close>

function returns_ok :: "return_mode \<Rightarrow> expr \<Rightarrow> bool" where
  "returns_ok m (LiteralExpr n k txt suffix) = True"
| "returns_ok m (NameExpr n name) = True"
| "returns_ok m (BinaryExpr n op l r) =
     (pred_option (returns_ok (operand_mode m)) l \<and> pred_option (returns_ok (operand_mode m)) r)"
| "returns_ok m (BindingExpr n v name t i) = pred_option (returns_ok (operand_mode m)) i"
| "returns_ok m (AssignExpr n target v) =
     (pred_option (returns_ok (operand_mode m)) target \<and> pred_option (returns_ok (operand_mode m)) v)"
| "returns_ok m (FieldAccessExpr n obj f) = pred_option (returns_ok (operand_mode m)) obj"
| "returns_ok m (ArrayLiteralExpr n es) = list_all (pred_option (returns_ok (operand_mode m))) es"
| "returns_ok m (IndexExpr n obj i) =
     (pred_option (returns_ok (operand_mode m)) obj \<and> pred_option (returns_ok (operand_mode m)) i)"
| "returns_ok m (MoveExpr n v) = pred_option (returns_ok (operand_mode m)) v"
| "returns_ok m (NewExpr n t st fis) = list_all (\<lambda>fi. pred_option (returns_ok (operand_mode m)) (fi_value fi)) fis"
| "returns_ok m (CallExpr n callee as) =
     (pred_option (returns_ok (operand_mode m)) callee \<and> list_all (pred_option (returns_ok (operand_mode m))) as)"
| "returns_ok m (FreezeExpr n v) = pred_option (returns_ok (operand_mode m)) v"
| "returns_ok m (MergeExpr n v) = pred_option (returns_ok (operand_mode m)) v"
| "returns_ok m (IfExpr n c t e) =
     (pred_option (returns_ok (operand_mode m)) c \<and>
      pred_option (\<lambda>b. list_all (pred_option (returns_ok (branch_mode m))) (blk_expressions b)) t \<and>
      pred_option (returns_ok (branch_mode m)) e)"
| "returns_ok m (WhileExpr n c b) =
     (pred_option (returns_ok (operand_mode m)) c \<and>
      pred_option (\<lambda>b. list_all (pred_option (returns_ok (branch_mode m))) (blk_expressions b)) b)"
| "returns_ok m (BlockE b) = list_all (pred_option (returns_ok m)) (blk_expressions b)"
| "returns_ok m (RegionExpr n k s name b) =
     (pred_option (returns_ok (operand_mode m)) s \<and>
      pred_option (\<lambda>b. list_all (pred_option (returns_ok InRegion)) (blk_expressions b)) b)"
| "returns_ok m (ReturnExpr n v) = (m = Statement \<and> pred_option (returns_ok Operand) v)"
  by pat_completeness auto

termination returns_ok
  by (relation "measure (size \<circ> snd)") (auto dest: size_block size_args size_init)

theorem emitExpr_flows: "returns_ok m e \<Longrightarrow> flows m (emitExpr e)"
proof (induction e arbitrary: m rule: emitExpr.induct)
  case (1 n kind src suffix) show ?case by (simp add: flows_some_of flows_emitLiteral)
next
  case (2 n name) show ?case by (simp add: flows_emitName)
next
  case (3 n op lhs rhs)
  then show ?case by (simp only: emitExpr.simps) (intro flows_emitBinary; auto)
next
  case (4 n isVar name type i)
  then show ?case by (simp only: emitExpr.simps) (intro flows_emitBinding; auto)
next
  case (5 n target v)
  then show ?case by (simp only: emitExpr.simps) (intro flows_emitAssign; force)
next
  case (6 n obj f) show ?case by (simp add: flows_emitFieldAccess)
next
  case (7 n es)
  then show ?case by (simp only: emitExpr.simps) (intro flows_emitArrayLiteral; force simp: list_all_iff)
next
  case (8 n obj i)
  then show ?case by (simp only: emitExpr.simps) (intro flows_emitIndexAccess; auto)
next
  case (9 n v)
  then show ?case by (simp only: emitExpr.simps) (rule flows_emit_opt, rule flows_operand, auto)
next
  case (10 n t st fis)
  then show ?case by (simp only: emitExpr.simps) (intro flows_emitNew; force simp: list_all_iff)
next
  case (11 n v)
  then show ?case by (simp only: emitExpr.simps) (intro flows_emitFreeze; auto)
next
  case (12 n v)
  then show ?case by (simp only: emitExpr.simps) (intro flows_emitMerge; auto)
next
  case (13 n k s name b)
  then show ?case
    by (simp only: emitExpr.simps) (intro flows_emitRegion flows_emit_operand flows_block; force simp: list_all_iff)
next
  case (14 n v)
  then show ?case by (simp only: emitExpr.simps returns_ok.simps) (auto intro!: flows_emitReturn)
next
  case (15 n c t e)
  then show ?case
    by (simp only: emitExpr.simps)
       (intro flows_emitIf flows_emit_operand flows_block flows_emit_opt; force simp: list_all_iff)
next
  case (16 n c b)
  then show ?case
    by (simp only: emitExpr.simps) (intro flows_emitWhile flows_emit_operand flows_block; force simp: list_all_iff)
next
  case (17 n callee args)
  then show ?case by (simp only: emitExpr.simps) (intro flows_emitCall; force simp: list_all_iff)
next
  case (18 b)
  then show ?case by (simp only: emitExpr.simps) (intro flows_block; force simp: list_all_iff)
qed

end
