(* ===== verification/Gura_CodeGen_Module.thy ===== *)
theory Gura_CodeGen_Module
  imports Gura_CodeGen_Props
begin

section \<open>Whole functions and modules\<close>

definition function_wf :: "ll_block list \<Rightarrow> ll_function \<Rightarrow> bool" where
  "function_wf bs fn \<longleftrightarrow>
     lf_blocks fn \<noteq> [] \<and> distinct (lf_blocks fn) \<and> set (lf_blocks fn) \<subseteq> {..<length bs} \<and>
     (\<exists>L. L (hd (lf_blocks fn)) = [] \<and>
        (\<forall>b\<in>set (lf_blocks fn). closed_code L (set (lf_blocks fn)) (L b) (code_of bs b)))"

definition block_ok :: "return_mode \<Rightarrow> block option \<Rightarrow> bool" where
  "block_ok m b = pred_option (\<lambda>b. list_all (pred_option (returns_ok m)) (blk_expressions b)) b"

lemma finished_function_wf: "finished s L {} \<Longrightarrow> function_wf (em_blocks s) (em_module s ! em_fn s)"
proof -
  assume s: "finished s L {}"
  then have "closed_code L (set (fn_blocks s)) (L b) (code_of (em_blocks s) b)" if "b \<in> set (fn_blocks s)" for b
    using that unfolding finished_def wf_blocks_def by (cases "b = em_insert s") auto
  then show ?thesis
    using s unfolding finished_def wf_blocks_def function_wf_def by auto
qed

lemma flows_emitBlock: "block_ok m (Some b) \<Longrightarrow> flows m (emitBlock b)"
  unfolding emitBlock_def emitBlock_with_def block_ok_def
  by (intro flows_block_statements emitExpr_flows) (force simp: list_all_iff)

lemma flows_bind_param: "flows m (bind_param i t p)"
  unfolding bind_param_def by (intro flows_intros flows_builder flows_update) simp_all

lemma flows_bind_params: "flows m (bind_params i args ps)"
proof (induction i args ps arbitrary: m rule: bind_params.induct)
  case (1 i a args p ps)
  then show ?case by (simp only: bind_params.simps) (intro flows_bind flows_bind_param)
qed (simp_all add: flows_ret)

text \<open>A computation that starts in an open block of a function body and completes the function.\<close>

definition completes :: "emitter \<Rightarrow> emitter \<Rightarrow> bool" where
  "completes s t \<longleftrightarrow> framed s t \<and> function_wf (em_blocks t) (em_module t ! em_fn t)"

lemma default_return:
  assumes "opened s L {} [] \<or> finished s L {}"
  shows "framed_from n s (snd (run_state emitDefaultReturn s))" "finished (snd (run_state emitDefaultReturn s)) L {}"
proof -
  have run: "snd (run_state emitDefaultReturn s) = (if fst (run_state has_terminator s) then s
      else map_code (em_insert s) (\<lambda>is. is @ [Ret (if fst (run_state return_type s) = LVoid then None
        else Some (ConstNull (fst (run_state return_type s))))]) s)"
    by (simp add: emitDefaultReturn_def has_terminator_def return_type_def run_insert_instr)
  have "framed_from n s (snd (run_state emitDefaultReturn s)) \<and> finished (snd (run_state emitDefaultReturn s)) L {}"
  proof (cases "finished s L {}")
    case True
    then show ?thesis using finished_terminated [OF True] by (simp add: run)
  next
    case False
    with assms have s: "opened s L {} []" by blast
    have "finished (map_code (em_insert s) (\<lambda>is. is @ [Ret v]) s) L {}" for v
      by (rule opened_exit [OF s]) simp
    then show ?thesis
      using opened_not_terminated [OF s] framed_map_code [OF opened_insert [OF s]] by (simp add: run)
  qed
  then show "framed_from n s (snd (run_state emitDefaultReturn s))" "finished (snd (run_state emitDefaultReturn s)) L {}"
    by blast+
qed

lemma emit_body_completes:
  assumes b: "block_ok Statement (fn_body fn)" and s: "opened s L {} []"
  shows "completes s (snd (run_state (emit_body fn) s))"
proof -
  let ?c = "case fn_body fn of Some b \<Rightarrow> do {emitBlock b; ret ()} | None \<Rightarrow> ret ()"
  have "flows Statement (do {emitBlock b; ret ()})" if "fn_body fn = Some b" for b
  proof -
    have "flows Statement (emitBlock b)" using assms(1) that by (intro flows_emitBlock) simp
    then show ?thesis by (simp add: flows_def snd_bind del: run_state_bind)
  qed
  then have "flows Statement ?c" by (intro flows_option flows_ret)
  from flowsD [OF this s _ order_refl]
  obtain L' where L': "reaches (length (em_blocks s)) s L (snd (run_state ?c s)) L'"
    "opened (snd (run_state ?c s)) L' {} [] \<or> finished (snd (run_state ?c s)) L' {}" by blast
  let ?t = "snd (run_state (emit_body fn) s)"
  have t: "?t = snd (run_state emitDefaultReturn (snd (run_state ?c s)))"
    unfolding emit_body_def by (simp add: snd_bind del: run_state_bind)
  have "framed s ?t" "finished ?t L' {}"
    unfolding t using L' default_return [OF L'(2)] framed_from_trans by (auto simp: reaches_def)
  then show ?thesis unfolding completes_def using finished_function_wf by blast
qed

text \<open>What emitting the code of one function does to the module.\<close>

definition emitted :: "nat \<Rightarrow> emitter \<Rightarrow> emitter \<Rightarrow> bool" where
  "emitted f s t \<longleftrightarrow>
     function_wf (em_blocks t) (em_module t ! f) \<and> length (em_module t) = length (em_module s) \<and>
     (\<forall>g. g \<noteq> f \<longrightarrow> em_module t ! g = em_module s ! g) \<and>
     (em_module t ! f)\<lparr>lf_blocks := []\<rparr> = (em_module s ! f)\<lparr>lf_blocks := []\<rparr> \<and>
     hd (lf_blocks (em_module t ! f)) = length (em_blocks s) \<and>
     length (em_blocks s) \<le> length (em_blocks t) \<and>
     (\<forall>b<length (em_blocks s). em_blocks t ! b = em_blocks s ! b) \<and>
     em_functions t = em_functions s \<and> em_layouts t = em_layouts s \<and> em_currentDecl t = em_currentDecl s \<and> em_simpleKeys t = em_simpleKeys s"

lemma run_open_function:
  "snd (run_state (open_function f) s) =
     snd (run_state clear_bindings (enter_block (length (em_blocks s)) (add_block ''entry'' (s\<lparr>em_fn := f\<rparr>))))"
  by (simp add: open_function_def ll_new_block_run attach_block_def set_insert_point_def enter_block_def)

lemma open_function_opened:
  assumes "f < length (em_module s)" "lf_blocks (em_module s ! f) = []" and t: "t = snd (run_state (open_function f) s)"
  shows "opened t (\<lambda>_. []) {} []"
    and "em_fn t = f" "length (em_module t) = length (em_module s)" "length (em_blocks t) = Suc (length (em_blocks s))"
      "fn_blocks t = [length (em_blocks s)]" "\<And>g. g \<noteq> f \<Longrightarrow> em_module t ! g = em_module s ! g"
      "\<And>b. b < length (em_blocks s) \<Longrightarrow> em_blocks t ! b = em_blocks s ! b"
      "em_functions t = em_functions s" "em_layouts t = em_layouts s" "em_currentDecl t = em_currentDecl s" "em_simpleKeys t = em_simpleKeys s"
      "(em_module t ! f)\<lparr>lf_blocks := []\<rparr> = (em_module s ! f)\<lparr>lf_blocks := []\<rparr>"
proof -
  show sel: "em_fn t = f" "length (em_module t) = length (em_module s)" "length (em_blocks t) = Suc (length (em_blocks s))"
      "fn_blocks t = [length (em_blocks s)]" "\<And>g. g \<noteq> f \<Longrightarrow> em_module t ! g = em_module s ! g"
      "\<And>b. b < length (em_blocks s) \<Longrightarrow> em_blocks t ! b = em_blocks s ! b"
      "em_functions t = em_functions s" "em_layouts t = em_layouts s" "em_currentDecl t = em_currentDecl s" "em_simpleKeys t = em_simpleKeys s"
      "(em_module t ! f)\<lparr>lf_blocks := []\<rparr> = (em_module s ! f)\<lparr>lf_blocks := []\<rparr>"
    using assms by (simp_all add: run_open_function clear_bindings_def enter_block_def add_block_def nth_append)
  have "code_of (em_blocks t) (length (em_blocks s)) = []" "em_insert t = length (em_blocks s)"
    using assms by (simp_all add: run_open_function clear_bindings_def enter_block_def add_block_def)
  then show "opened t (\<lambda>_. []) {} []"
    using sel assms(1) by (simp add: opened_def wf_blocks_def open_code_def)
qed

lemma framed_emitted:
  assumes o: "f < length (em_module s)" "lf_blocks (em_module s ! f) = []" "u = snd (run_state (open_function f) s)"
    and u: "completes u t"
  shows "emitted f s t"
proof -
  note op = open_function_opened [OF o]
  have fr: "framed u t" "function_wf (em_blocks t) (em_module t ! em_fn t)" using u by (auto simp: completes_def)
  have "em_blocks t ! b = em_blocks s ! b" if "b < length (em_blocks s)" for b
    using that fr(1) op(4,5,7) by (simp add: framed_from_def)
  moreover have "em_module t ! g = em_module s ! g" if "g \<noteq> f" for g
    using that fr(1) op(2,6) by (simp add: framed_from_def)
  moreover have "em_fn t = f" "length (em_module t) = length (em_module s)" "length (em_blocks s) \<le> length (em_blocks t)"
    "em_functions t = em_functions s" "em_layouts t = em_layouts s" "em_currentDecl t = em_currentDecl s" "em_simpleKeys t = em_simpleKeys s"
    using fr(1) op by (auto simp: framed_from_def)
  moreover have "(em_module t ! f)\<lparr>lf_blocks := []\<rparr> = (em_module s ! f)\<lparr>lf_blocks := []\<rparr>"
    using fr(1) op(2,12) by (auto simp: framed_from_def)
  moreover have "hd (lf_blocks (em_module t ! f)) = length (em_blocks s)"
    using fr(1) op(2,5) by (auto simp: framed_from_def)
  ultimately show ?thesis using fr(2) by (simp add: emitted_def)
qed

lemma emit_after_open:
  assumes o: "f < length (em_module s)" "lf_blocks (em_module s ! f) = []" and b: "block_ok Statement (fn_body fn)"
    and c: "\<And>args. flows InRegion (c args)"
  shows "emitted f s (snd (run_state (do {
     open_function f; args \<leftarrow> gets (\<lambda>s. lf_params (em_module s ! f)); c args; emit_body fn}) s))"
proof -
  define u where u: "u = snd (run_state (open_function f) s)"
  define args where args: "args = lf_params (em_module u ! f)"
  let ?v = "snd (run_state (c args) u)"
  have "opened u (\<lambda>_. []) {} []" using open_function_opened(1) [OF o u] .
  from flowsD [OF c [of args] this _ order_refl]
  obtain L where L: "reaches (length (em_blocks u)) u (\<lambda>_. []) ?v L" "opened ?v L {} []" by force
  have "completes ?v (snd (run_state (emit_body fn) ?v))" by (rule emit_body_completes [OF b L(2)])
  then have "completes u (snd (run_state (emit_body fn) ?v))"
    using L(1) framed_trans [of "length (em_blocks u)" u ?v] unfolding completes_def reaches_def by blast
  then show ?thesis
    using framed_emitted [OF o u] unfolding args u by (simp add: snd_bind del: run_state_bind)
qed

lemma emit_function_code_emitted:
  assumes "f < length (em_module s)" "lf_blocks (em_module s ! f) = []" "block_ok Statement (fn_body fn)"
  shows "emitted f s (snd (run_state (emit_function_code f fn) s))"
  unfolding emit_function_code_def by (rule emit_after_open [OF assms flows_bind_params])

lemma emit_method_code_emitted:
  assumes "f < length (em_module s)" "lf_blocks (em_module s ! f) = []" "block_ok Statement (fn_body (ml_decl m))"
  shows "emitted f s (snd (run_state (emit_method_code f r m) s))"
proof -
  have "flows InRegion (if r then do {bind_receiver m; bind_params 1 (tl args) (tl (fn_params (ml_decl m)))}
      else bind_params 0 args (fn_params (ml_decl m)))" for args
    by (intro flows_intros flows_bind_params) (simp add: bind_receiver_def flows_update Let_def)
  from emit_after_open [OF assms(1-3) this] show ?thesis unfolding emit_method_code_def .
qed


subsection \<open>Lists of functions\<close>

definition module_inv :: "nat \<Rightarrow> nat set \<Rightarrow> emitter \<Rightarrow> bool" where
  "module_inv N D s \<longleftrightarrow> length (em_module s) = N \<and>
     (\<forall>f<N. if f \<in> D then function_wf (em_blocks s) (em_module s ! f) else lf_blocks (em_module s ! f) = [])"

lemma function_wf_cong:
  assumes wf: "function_wf bs fn" and le: "length bs \<le> length bs'" and eq: "\<And>b. b < length bs \<Longrightarrow> bs' ! b = bs ! b"
  shows "function_wf bs' fn"
proof -
  obtain L where L: "L (hd (lf_blocks fn)) = []"
    "\<And>b. b \<in> set (lf_blocks fn) \<Longrightarrow> closed_code L (set (lf_blocks fn)) (L b) (code_of bs b)"
    using wf unfolding function_wf_def by blast
  have "closed_code L (set (lf_blocks fn)) (L b) (code_of bs' b)" if "b \<in> set (lf_blocks fn)" for b
    using L(2) [OF that] eq that wf by (auto simp: function_wf_def)
  with L(1) wf le show ?thesis unfolding function_wf_def by auto
qed

lemma module_inv_emitted: "module_inv N D s \<Longrightarrow> emitted f s t \<Longrightarrow> f < N \<Longrightarrow> module_inv N (insert f D) t"
proof -
  assume s: "module_inv N D s" and e: "emitted f s t" and f: "f < N"
  have "function_wf (em_blocks t) (em_module t ! g)" if g: "g \<in> insert f D" "g < N" for g
  proof (cases "g = f")
    case False
    with g have "function_wf (em_blocks s) (em_module s ! g)" "em_module t ! g = em_module s ! g"
      using s e by (auto simp: module_inv_def emitted_def)
    then show ?thesis using e by (auto simp: emitted_def intro: function_wf_cong)
  qed (use e in \<open>simp add: emitted_def\<close>)
  then show ?thesis using s e f unfolding module_inv_def emitted_def by simp
qed

lemma module_inv_tables: "module_inv N D s \<Longrightarrow> em_module t = em_module s \<Longrightarrow> em_blocks t = em_blocks s \<Longrightarrow> module_inv N D t"
  by (simp add: module_inv_def)

lemma emitFunction_inv:
  assumes s: "module_inv N D s" and f: "um_find (em_functions s) (functionKey fn) = Some f" "f < N" "f \<notin> D"
    and b: "block_ok Statement (fn_body fn)" and t: "t = snd (run_state (emitFunction fn) s)"
  shows "module_inv N (insert f D) t \<and> em_functions t = em_functions s \<and> em_layouts t = em_layouts s"
proof -
  let ?s = "s\<lparr>em_currentDecl := Some fn\<rparr>"
  let ?u = "snd (run_state (emit_function_code f fn) ?s)"
  have "module_inv N D ?s" by (rule module_inv_tables [OF s]) simp_all
  moreover have "emitted f ?s ?u"
    using s f b by (intro emit_function_code_emitted) (auto simp: module_inv_def)
  ultimately have "module_inv N (insert f D) ?u" "em_functions ?u = em_functions s" "em_layouts ?u = em_layouts s"
    using module_inv_emitted f(2) by (auto simp: emitted_def)
  moreover have "t = ?u\<lparr>em_currentDecl := em_currentDecl s\<rparr>"
    unfolding t emitFunction_def by (simp add: snd_bind f(1) del: run_state_bind)
  ultimately show ?thesis using module_inv_tables [of N "insert f D" ?u t] by simp
qed

lemma emit_functions_inv:
  assumes "module_inv N D s" "\<And>fn. fn \<in> set fns \<Longrightarrow> um_find (em_functions s) (functionKey fn) = Some (idf fn) \<and> idf fn < N"
    "distinct (map idf fns)" "D \<inter> idf ` set fns = {}" "\<And>fn. fn \<in> set fns \<Longrightarrow> block_ok Statement (fn_body fn)"
    "t = snd (run_state (for_each fns emitFunction) s)"
  shows "module_inv N (D \<union> idf ` set fns) t \<and> em_functions t = em_functions s \<and> em_layouts t = em_layouts s"
  using assms
proof (induction fns arbitrary: D s t)
  case (Cons fn fns)
  let ?u = "snd (run_state (emitFunction fn) s)"
  have u: "module_inv N (insert (idf fn) D) ?u \<and> em_functions ?u = em_functions s \<and> em_layouts ?u = em_layouts s"
    using Cons.prems by (intro emitFunction_inv) auto
  have "module_inv N (insert (idf fn) D \<union> idf ` set fns) t \<and> em_functions t = em_functions ?u \<and> em_layouts t = em_layouts ?u"
    using Cons.prems u by (intro Cons.IH) (auto simp: snd_bind simp del: run_state_bind)
  then show ?case using u by simp
qed simp

lemma emitMethod_inv:
  assumes s: "module_inv N D s" and m: "ml_function m = Some f" "f < N" "f \<notin> D" "block_ok Statement (fn_body (ml_decl m))"
    and t: "t = snd (run_state (emitMethod r m) s)"
  shows "module_inv N (insert f D) t"
proof -
  have "emitted f s t"
    unfolding t emitMethod_def using s m by (simp add: module_inv_def emit_method_code_emitted)
  then show ?thesis using module_inv_emitted s m(2) by blast
qed

lemma emit_methods_inv:
  assumes "module_inv N D s" "map (ml_function \<circ> snd) ms = map Some ids" "distinct ids" "set ids \<subseteq> {..<N}" "D \<inter> set ids = {}"
    "\<And>r m. (r, m) \<in> set ms \<Longrightarrow> block_ok Statement (fn_body (ml_decl m))"
    "t = snd (run_state (for_each ms (\<lambda>(r, m). emitMethod r m)) s)"
  shows "module_inv N (D \<union> set ids) t"
  using assms
proof (induction ms arbitrary: D s t ids)
  case (Cons rm ms)
  obtain r m where rm: "rm = (r, m)" by fastforce
  obtain i js where ids: "ids = i # js" "ml_function m = Some i" "map (ml_function \<circ> snd) ms = map Some js"
    using Cons.prems(2) rm by (cases ids) (auto simp: comp_def)
  let ?u = "snd (run_state (emitMethod r m) s)"
  have u: "module_inv N (insert i D) ?u"
    using Cons.prems ids rm by (intro emitMethod_inv) auto
  have "module_inv N (insert i D \<union> set js) t"
    using Cons.prems u ids rm by (intro Cons.IH) (auto simp: snd_bind simp del: run_state_bind)
  then show ?case by (simp add: ids)
qed simp


subsection \<open>Declarations\<close>

definition plain_functions :: "ast_file \<Rightarrow> fn_decl list" where
  "plain_functions f = concat (map (\<lambda>d. case d of
     Some (DFn fn) \<Rightarrow> if fn_genericParams fn = [] then [fn] else [] | _ \<Rightarrow> []) (sf_declarations f))"

lemma for_each_append: "for_each (xs @ ys) body = do {for_each xs body; for_each ys body}"
  by (induction xs) simp_all

lemma for_each_concat: "for_each (concat xss) body = for_each xss (\<lambda>xs. for_each xs body)"
  by (induction xss) (simp_all add: for_each_append)

lemma for_each_map: "for_each (map g xs) body = for_each xs (\<lambda>x. body (g x))"
  by (induction xs) simp_all

lemma for_each_fn_list: "for_each_fn f body = for_each (plain_functions f) body"
  unfolding for_each_fn_def plain_functions_def for_each_concat for_each_map
  by (rule for_each_cong) (auto split: option.splits decl.splits)

definition unemitted :: "emitter \<Rightarrow> bool" where
  "unemitted s \<longleftrightarrow> (\<forall>fn\<in>set (em_module s). lf_blocks fn = [])"

lemma unemitted_inv: "unemitted s \<Longrightarrow> module_inv (length (em_module s)) {} s"
  by (simp add: unemitted_def module_inv_def)

lemma run_declareFunction:
  "\<exists>fn'. lf_blocks fn' = [] \<and> run_state (declareFunction fn) s =
     ((), s\<lparr>em_module := em_module s @ [fn'],
            em_functions := um_emplace (functionKey fn) (length (em_module s)) (em_functions s)\<rparr>)"
  by (rule exI, rule conjI [rotated], simp add: declareFunction_def add_function_def, simp)

lemma declare_functions:
  assumes "unemitted s" "distinct (map functionKey fns)" "\<And>fn. fn \<in> set fns \<Longrightarrow> \<not> um_contains (em_functions s) (functionKey fn)"
    "t = snd (run_state (for_each fns declareFunction) s)"
  shows "unemitted t \<and> length (em_module t) = length (em_module s) + length fns \<and> em_layouts t = em_layouts s \<and>
    (\<forall>i<length fns. um_find (em_functions t) (functionKey (fns ! i)) = Some (length (em_module s) + i)) \<and>
    (\<forall>k. um_contains (em_functions s) k \<longrightarrow> um_find (em_functions t) k = um_find (em_functions s) k)"
  using assms
proof (induction fns arbitrary: s t)
  case (Cons fn fns)
  obtain fn' where fn': "lf_blocks fn' = []" "snd (run_state (declareFunction fn) s) =
     s\<lparr>em_module := em_module s @ [fn'],
       em_functions := um_emplace (functionKey fn) (length (em_module s)) (em_functions s)\<rparr>"
    using run_declareFunction [of fn s] by auto
  let ?u = "snd (run_state (declareFunction fn) s)"
  have u: "unemitted ?u" "length (em_module ?u) = Suc (length (em_module s))" "em_layouts ?u = em_layouts s"
    "um_find (em_functions ?u) (functionKey fn) = Some (length (em_module s))"
    "\<And>k. um_contains (em_functions ?u) k \<longleftrightarrow> k = functionKey fn \<or> um_contains (em_functions s) k"
    "\<And>k. um_contains (em_functions s) k \<Longrightarrow> um_find (em_functions ?u) k = um_find (em_functions s) k"
    using Cons.prems(1,3) fn' unfolding fn'(2)
    by (auto simp: unemitted_def um_find_emplace um_contains_find)
  have "\<not> um_contains (em_functions ?u) (functionKey g)" if "g \<in> set fns" for g
  proof -
    have "functionKey g \<noteq> functionKey fn" using that Cons.prems(2) by (force simp: image_iff)
    then show ?thesis using that u(5) Cons.prems(3) by simp
  qed
  moreover have "t = snd (run_state (for_each fns declareFunction) ?u)"
    using Cons.prems(4) by (simp add: snd_bind del: run_state_bind)
  ultimately have t: "unemitted t" "length (em_module t) = length (em_module ?u) + length fns" "em_layouts t = em_layouts ?u"
    "\<And>i. i < length fns \<Longrightarrow> um_find (em_functions t) (functionKey (fns ! i)) = Some (length (em_module ?u) + i)"
    "\<And>k. um_contains (em_functions ?u) k \<Longrightarrow> um_find (em_functions t) k = um_find (em_functions ?u) k"
    using Cons.IH [of ?u t] Cons.prems(2) u(1) by auto
  have "um_find (em_functions t) (functionKey ((fn # fns) ! i)) = Some (length (em_module s) + i)" if "i < Suc (length fns)" for i
    using that t(4) t(5) [of "functionKey fn"] u(2,4,5) by (cases i) auto
  moreover have "um_find (em_functions t) k = um_find (em_functions s) k" if "um_contains (em_functions s) k" for k
    using that t(5) u(5,6) by simp
  ultimately show ?case using t(1,2,3) u(2,3) by simp
qed simp


subsection \<open>Methods\<close>

definition group_methods :: "bool \<Rightarrow> (string, method_layout) unordered_map \<Rightarrow> (bool \<times> method_layout) list" where
  "group_methods r ms = map (\<lambda>(_, m). (r, m)) ms"

definition all_methods :: "layouts \<Rightarrow> (bool \<times> method_layout) list" where
  "all_methods ls = concat (map (\<lambda>(_, l). group_methods True (sl_methods l) @ group_methods False (sl_associated l)) ls)"

lemma emitMethods_list:
  "emitMethods = do {ls \<leftarrow> gets em_layouts; for_each (all_methods ls) (\<lambda>(r, m). emitMethod r m)}"
  unfolding emitMethods_def all_methods_def for_each_concat for_each_map group_methods_def
  by (simp add: for_each_append for_each_map split_def)

text \<open>Declaring a list of methods numbers them from the length of the module on.\<close>

definition numbered :: "emitter \<Rightarrow> (bool \<times> method_layout) list \<Rightarrow> (bool \<times> method_layout) list \<Rightarrow> emitter \<Rightarrow> bool" where
  "numbered s ms ms' t \<longleftrightarrow>
     map (ml_decl \<circ> snd) ms' = map (ml_decl \<circ> snd) ms \<and>
     map (ml_function \<circ> snd) ms' = map Some [length (em_module s)..<length (em_module t)] \<and>
     length (em_module s) \<le> length (em_module t) \<and> (unemitted s \<longrightarrow> unemitted t) \<and>
     em_functions t = em_functions s \<and> em_layouts t = em_layouts s"

lemma numbered_refl: "numbered s [] [] s"
  by (simp add: numbered_def)

lemma numbered_append:
  assumes "numbered s ms ms' t" "numbered t ns ns' u" shows "numbered s (ms @ ns) (ms' @ ns') u"
proof -
  have "[length (em_module s)..<length (em_module u)] =
      [length (em_module s)..<length (em_module t)] @ [length (em_module t)..<length (em_module u)]"
    using assms by (metis numbered_def le_Suc_ex upt_add_eq_append)
  then show ?thesis using assms by (auto simp: numbered_def)
qed

lemma declareMethod_numbered:
  assumes "run_state (declareMethod structName name r m) s = (m', t)"
  shows "numbered s [(r, m)] [(r, m')] t"
  using assms by (auto simp: declareMethod_def add_function_def Let_def numbered_def unemitted_def)

lemma declare_group_numbered:
  "run_state (declare_group structName r ms) s = (ms', t) \<Longrightarrow>
   numbered s (group_methods r ms) (group_methods r ms') t"
proof (induction ms arbitrary: s ms' t)
  case Nil
  then show ?case by (simp add: declare_group_def group_methods_def numbered_refl)
next
  case (Cons nm ms)
  obtain name m where nm: "nm = (name, m)" by fastforce
  obtain m' u where m': "run_state (declareMethod structName name r m) s = (m', u)" by fastforce
  obtain ms1 v where ms1: "run_state (declare_group structName r ms) u = (ms1, v)" by fastforce
  have "ms' = (name, m') # ms1 \<and> t = v"
    using Cons.prems m' ms1 by (simp add: declare_group_def nm)
  then show ?case
    using numbered_append [OF declareMethod_numbered [OF m'] Cons.IH [OF ms1]]
    by (simp add: group_methods_def nm)
qed

lemma declareMethods_numbered:
  assumes "unemitted s" "t = snd (run_state declareMethods s)"
  obtains ls' where "em_layouts t = ls'" "unemitted t" "em_functions t = em_functions s"
    "length (em_module s) \<le> length (em_module t)"
    "map (ml_decl \<circ> snd) (all_methods ls') = map (ml_decl \<circ> snd) (all_methods (em_layouts s))"
    "map (ml_function \<circ> snd) (all_methods ls') = map Some [length (em_module s)..<length (em_module t)]"
proof -
  let ?step = "\<lambda>(structName, layout). do {
       ms \<leftarrow> declare_group structName True (sl_methods layout);
       as \<leftarrow> declare_group structName False (sl_associated layout);
       ret (structName, layout\<lparr>sl_methods := ms, sl_associated := as\<rparr>)}"
  have step: "numbered s (all_methods ls) (all_methods ls') t" if "run_state (traverse_list ?step ls) s = (ls', t)" for ls ls' s t
    using that
  proof (induction ls arbitrary: s ls' t)
    case Nil
    then show ?case by (simp add: all_methods_def numbered_refl)
  next
    case (Cons nl ls)
    obtain name l where nl: "nl = (name, l)" by fastforce
    obtain ms u where ms: "run_state (declare_group name True (sl_methods l)) s = (ms, u)" by fastforce
    obtain ns v where ns: "run_state (declare_group name False (sl_associated l)) u = (ns, v)" by fastforce
    obtain ls1 w where ls1: "run_state (traverse_list ?step ls) v = (ls1, w)" by fastforce
    have eq: "ls' = (name, l\<lparr>sl_methods := ms, sl_associated := ns\<rparr>) # ls1 \<and> t = w"
      using Cons.prems ms ns ls1 by (simp add: nl)
    have all: "all_methods ((n, l) # ls) =
        (group_methods True (sl_methods l) @ group_methods False (sl_associated l)) @ all_methods ls" for n l ls
      by (simp add: all_methods_def)
    show ?case
      unfolding nl eq [THEN conjunct1] all using eq
        numbered_append [OF numbered_append [OF declare_group_numbered [OF ms] declare_group_numbered [OF ns]] Cons.IH [OF ls1]]
      by simp
  qed
  obtain ls' u where u: "run_state (traverse_list ?step (em_layouts s)) s = (ls', u)" by fastforce
  have "t = u\<lparr>em_layouts := ls'\<rparr>" using assms(2) u by (simp add: declareMethods_def)
  then show ?thesis
    using that [of ls'] step [OF u] assms(1) by (simp add: numbered_def unemitted_def)
qed


subsection \<open>Collecting the layouts\<close>

definition listed_methods :: "fn_decl option list \<Rightarrow> fn_decl list" where
  "listed_methods ms = concat (map (\<lambda>m. case m of Some m \<Rightarrow> [m] | None \<Rightarrow> []) ms)"

text \<open>The methods that get code: those of structs and of impls without a trait.\<close>

definition program_methods :: "ast_file \<Rightarrow> fn_decl list" where
  "program_methods f = concat (map (\<lambda>d. case d of
     Some (DStruct sd) \<Rightarrow> listed_methods (sd_methods sd)
   | Some (DImpl i) \<Rightarrow> if id_traitName i \<noteq> None then [] else listed_methods (id_methods i)
   | _ \<Rightarrow> []) (sf_declarations f))"

definition layout_all :: "(fn_decl \<Rightarrow> bool) \<Rightarrow> struct_layout \<Rightarrow> bool" where
  "layout_all Q l \<longleftrightarrow>
     (\<forall>(n, m)\<in>set (sl_methods l). Q (ml_decl m)) \<and> (\<forall>(n, m)\<in>set (sl_associated l). Q (ml_decl m))"

definition layouts_all :: "(fn_decl \<Rightarrow> bool) \<Rightarrow> layouts \<Rightarrow> bool" where
  "layouts_all Q ls \<longleftrightarrow> (\<forall>(n, l)\<in>set ls. layout_all Q l)"

lemma layouts_all_methods: "layouts_all Q ls \<Longrightarrow> (r, m) \<in> set (all_methods ls) \<Longrightarrow> Q (ml_decl m)"
  by (force simp: layouts_all_def layout_all_def all_methods_def group_methods_def)

lemma layouts_all_modify:
  "layouts_all Q ls \<Longrightarrow> (\<And>l. layout_all Q l \<Longrightarrow> layout_all Q (g l)) \<Longrightarrow> layouts_all Q (um_modify k g ls)"
  by (induction k g ls rule: um_modify.induct) (auto simp: layouts_all_def)

lemma set_um_emplace: "set (um_emplace k v m) \<subseteq> insert (k, v) (set m)"
  by (auto simp: um_emplace_def)

lemma layout_all_fields: "layout_all Q (layout_fields ls i fs l) = layout_all Q l"
  by (induction ls i fs l rule: layout_fields.induct) (simp_all add: layout_all_def)

lemma layouts_all_add: "layouts_all Q (snd acc) \<Longrightarrow> layouts_all Q (snd (add_layout d acc))"
  using set_um_emplace
  by (fastforce simp: add_layout_def layouts_all_def layout_all_def split: option.splits decl.splits)

lemma layouts_all_fold: "layouts_all Q (snd acc) \<Longrightarrow> layouts_all Q (snd (fold add_layout ds acc))"
  by (induction ds arbitrary: acc) (simp_all add: layouts_all_add)

definition collecting :: "(fn_decl \<Rightarrow> bool) \<Rightarrow> emitter \<Rightarrow> bool" where
  "collecting Q s \<longleftrightarrow> em_module s = [] \<and> em_functions s = [] \<and> layouts_all Q (em_layouts s)"

definition collects :: "(fn_decl \<Rightarrow> bool) \<Rightarrow> unit em \<Rightarrow> bool" where
  "collects Q c \<longleftrightarrow> (\<forall>s. collecting Q s \<longrightarrow> collecting Q (snd (run_state c s)))"

lemma collects_ret: "collects Q (ret x)"
  by (simp add: collects_def)

lemma collects_then: "collects Q c \<Longrightarrow> collects Q d \<Longrightarrow> collects Q (do {c; d})"
  by (simp add: collects_def snd_bind del: run_state_bind)

lemma collects_for_each: "(\<And>x. x \<in> set xs \<Longrightarrow> collects Q (f x)) \<Longrightarrow> collects Q (for_each xs f)"
  by (induction xs) (simp_all add: collects_ret collects_then)

lemma collects_struct_body: "collects Q (set_struct_body sd)"
  by (simp add: collects_def collecting_def set_struct_body_def layouts_all_modify layout_all_fields)

lemma collects_method: "Q m \<Longrightarrow> collects Q (ll_collectMethod name m)"
  using set_um_emplace
  by (auto simp: collects_def collecting_def ll_collectMethod_def Let_def layout_all_def intro!: layouts_all_modify) fastforce+

lemma collects_methods:
  "\<forall>m\<in>set (listed_methods ms). Q m \<Longrightarrow>
   collects Q (for_each ms (\<lambda>m. case m of Some m \<Rightarrow> ll_collectMethod name m | None \<Rightarrow> ret ()))"
  by (rule collects_for_each)
     (force simp: listed_methods_def collects_ret intro!: collects_method split: option.splits)

lemma collects_structs: "collects Q (ll_collectStructs f)"
proof -
  have "collects Q (update (\<lambda>s. s\<lparr>em_layouts := snd (fold add_layout (sf_declarations f) (1, em_layouts s))\<rparr>))"
    by (simp add: collects_def collecting_def layouts_all_fold)
  moreover have "collects Q (for_each (sf_declarations f) (\<lambda>d. case d of Some (DStruct sd) \<Rightarrow> set_struct_body sd | _ \<Rightarrow> ret ()))"
    by (rule collects_for_each) (auto simp: collects_ret collects_struct_body split: option.splits decl.splits)
  ultimately show ?thesis unfolding ll_collectStructs_def by (rule collects_then)
qed

lemma collects_all_methods:
  assumes "\<forall>m\<in>set (program_methods f). Q m" shows "collects Q (ll_collectMethods f)"
  unfolding ll_collectMethods_def
proof (rule collects_for_each)
  fix d assume d: "d \<in> set (sf_declarations f)"
  have "\<forall>m\<in>set (listed_methods (sd_methods sd)). Q m" if "d = Some (DStruct sd)" for sd
    using that d assms by (force simp: program_methods_def)
  moreover have "\<forall>m\<in>set (listed_methods (id_methods i)). Q m" if "d = Some (DImpl i)" "id_traitName i = None" for i
    using that d assms by (force simp: program_methods_def)
  ultimately show "collects Q (case d of
         Some (DStruct sd) \<Rightarrow> for_each (sd_methods sd) (\<lambda>m. case m of Some m \<Rightarrow> ll_collectMethod (sd_name sd) m | None \<Rightarrow> ret ())
       | Some (DImpl i) \<Rightarrow>
           (if id_traitName i \<noteq> None then ret ()
            else for_each (id_methods i) (\<lambda>m. case m of Some m \<Rightarrow> ll_collectMethod (id_typeName i) m | None \<Rightarrow> ret ()))
       | _ \<Rightarrow> ret ())"
    by (auto simp: collects_ret split: option.splits decl.splits intro!: collects_methods)
qed

lemma collects_keys: "collects Q (for_each_fn f registerFunctionKey)"
  unfolding for_each_fn_list
  by (rule collects_for_each) (simp add: collects_def collecting_def registerFunctionKey_def)

text \<open>Function bodies, methods included, in which every return stands as a statement outside the regions.\<close>

definition program_returns_ok :: "ast_file \<Rightarrow> bool" where
  "program_returns_ok f \<longleftrightarrow>
     (\<forall>fn\<in>set (plain_functions f) \<union> set (program_methods f). block_ok Statement (fn_body fn))"

definition module_wf :: "emitter \<Rightarrow> bool" where
  "module_wf s \<longleftrightarrow> (\<forall>fn\<in>set (em_module s). function_wf (em_blocks s) fn)"

definition declare_phase :: "ast_file \<Rightarrow> unit em" where
  "declare_phase f = do {
     ll_collectStructs f; ll_collectMethods f; for_each_fn f registerFunctionKey;
     for_each_fn f declareFunction; declareMethods}"

lemma emit_module_phases: "emit_module f = do {declare_phase f; for_each (plain_functions f) emitFunction; emitMethods}"
  by (simp add: emit_module_def declare_phase_def for_each_fn_list)

lemma declare_phase:
  assumes ok: "program_returns_ok f" and keys: "distinct (map functionKey (plain_functions f))"
    and t: "t = snd (run_state (declare_phase f) ModuleEmitter_init)"
  shows "unemitted t" "length (plain_functions f) \<le> length (em_module t)"
    "\<And>i. i < length (plain_functions f) \<Longrightarrow> um_find (em_functions t) (functionKey (plain_functions f ! i)) = Some i"
    "map (ml_function \<circ> snd) (all_methods (em_layouts t)) = map Some [length (plain_functions f)..<length (em_module t)]"
    "\<And>r m. (r, m) \<in> set (all_methods (em_layouts t)) \<Longrightarrow> block_ok Statement (fn_body (ml_decl m))"
proof -
  let ?Q = "\<lambda>m. block_ok Statement (fn_body m)"
  let ?fns = "plain_functions f"
  let ?c = "do {ll_collectStructs f; ll_collectMethods f; for_each_fn f registerFunctionKey}"
  define s where s: "s = snd (run_state ?c ModuleEmitter_init)"
  define u where u: "u = snd (run_state (for_each ?fns declareFunction) s)"
  have "collecting ?Q ModuleEmitter_init" by (simp add: collecting_def ModuleEmitter_init_def layouts_all_def)
  moreover have "collects ?Q ?c"
    using ok by (intro collects_then collects_structs collects_all_methods collects_keys) (simp add: program_returns_ok_def)
  ultimately have c: "em_module s = []" "em_functions s = []" "layouts_all ?Q (em_layouts s)"
    unfolding s collects_def collecting_def by blast+
  then have "unemitted s" "\<And>fn. \<not> um_contains (em_functions s) (functionKey fn)" by (simp_all add: unemitted_def um_contains_def)
  from declare_functions [OF this(1) keys this(2) u]
  have u': "unemitted u" "length (em_module u) = length ?fns" "em_layouts u = em_layouts s"
    "\<And>i. i < length ?fns \<Longrightarrow> um_find (em_functions u) (functionKey (?fns ! i)) = Some i"
    using c by auto
  have t': "t = snd (run_state declareMethods u)"
    unfolding t u s declare_phase_def for_each_fn_list by (simp add: snd_bind del: run_state_bind)
  from declareMethods_numbered [OF u'(1) t'] obtain ls' where ls':
    "em_layouts t = ls'" "unemitted t" "em_functions t = em_functions u" "length (em_module u) \<le> length (em_module t)"
    "map (ml_decl \<circ> snd) (all_methods ls') = map (ml_decl \<circ> snd) (all_methods (em_layouts u))"
    "map (ml_function \<circ> snd) (all_methods ls') = map Some [length (em_module u)..<length (em_module t)]" by metis
  show "unemitted t" "length ?fns \<le> length (em_module t)"
    "\<And>i. i < length ?fns \<Longrightarrow> um_find (em_functions t) (functionKey (?fns ! i)) = Some i"
    "map (ml_function \<circ> snd) (all_methods (em_layouts t)) = map Some [length ?fns..<length (em_module t)]"
    using ls' u' by simp_all
  fix r m assume "(r, m) \<in> set (all_methods (em_layouts t))"
  then have "ml_decl m \<in> set (map (ml_decl \<circ> snd) (all_methods ls'))" using ls'(1) by force
  then have "ml_decl m \<in> set (map (ml_decl \<circ> snd) (all_methods (em_layouts s)))" unfolding ls'(5) u'(3) .
  then obtain r' m' where m': "(r', m') \<in> set (all_methods (em_layouts s))" "ml_decl m' = ml_decl m" by auto
  from layouts_all_methods [OF c(3) m'(1)] show "?Q (ml_decl m)" unfolding m'(2) .
qed


subsection \<open>The module\<close>

text \<open>When every return of a program stands as a statement outside the enter and explore blocks and no two
  functions have the same key, every function and method of the emitted module is well formed.\<close>

lemma emitted_module_wf:
  assumes "program_returns_ok f" "distinct (map functionKey (plain_functions f))"
  shows "module_wf (snd (run_state (emit_module f) ModuleEmitter_init))"
proof -
  let ?fns = "plain_functions f"
  define s where s: "s = snd (run_state (declare_phase f) ModuleEmitter_init)"
  note d = declare_phase [OF assms s]
  define idf where "idf fn = the (um_find (em_functions s) (functionKey fn))" for fn
  have ids: "map idf ?fns = [0..<length ?fns]"
    using d(3) by (intro nth_equalityI) (simp_all add: idf_def)
  have fns: "um_find (em_functions s) (functionKey fn) = Some (idf fn) \<and> idf fn < length (em_module s)" if "fn \<in> set ?fns" for fn
    using that d(2,3) by (auto simp: in_set_conv_nth idf_def)
  define u where u: "u = snd (run_state (for_each ?fns emitFunction) s)"
  have "module_inv (length (em_module s)) ({} \<union> idf ` set ?fns) u \<and> em_functions u = em_functions s \<and> em_layouts u = em_layouts s"
    using fns ids assms(1) d(1)
    by (intro emit_functions_inv [OF unemitted_inv _ _ _ _ u]) (auto simp: program_returns_ok_def)
  moreover have "idf ` set ?fns = {..<length ?fns}"
    using ids by (metis atLeast0LessThan atLeastLessThan_upt list.set_map)
  ultimately have iu: "module_inv (length (em_module s)) {..<length ?fns} u" "em_layouts u = em_layouts s" by simp_all
  let ?t = "snd (run_state (emit_module f) ModuleEmitter_init)"
  have t: "?t = snd (run_state (for_each (all_methods (em_layouts u)) (\<lambda>(r, m). emitMethod r m)) u)"
    unfolding emit_module_phases u s emitMethods_list by (simp add: snd_bind del: run_state_bind)
  have "module_inv (length (em_module s)) ({..<length ?fns} \<union> set [length ?fns..<length (em_module s)]) ?t"
    using d(4,5) by (intro emit_methods_inv [OF iu(1) _ _ _ _ _ t]) (auto simp: iu(2))
  moreover have "{..<length ?fns} \<union> set [length ?fns..<length (em_module s)] = {..<length (em_module s)}"
    using d(2) by auto
  ultimately have "module_inv (length (em_module s)) {..<length (em_module s)} ?t" by simp
  then show ?thesis by (auto simp: module_inv_def module_wf_def in_set_conv_nth)
qed

end
