(* ===== verification/Gura_Sema_Tables.thy ===== *)
theory Gura_Sema_Tables
  imports Gura_Sema_Verdict
begin

section \<open>The function tables of an accepted file\<close>

text \<open>
  What \<^verbatim>\<open>functions_\<close>, \<^verbatim>\<open>simpleFunctionKeys_\<close> and \<^verbatim>\<open>qualifiedFunctionKeys_\<close> hold when
  \<^verbatim>\<open>Sema::check\<close> accepts a file: the builtin functions and the functions of the file, in order, with
  different keys. Only \<^verbatim>\<open>collectFunctionSignatures\<close> writes these tables, so that they are the same while
  the bodies are checked and at the end.
\<close>

definition builtin_names :: "string list" where
  "builtin_names = [''puts'', ''print'', ''println'', ''print_i64'', ''println_i64'', ''readln_i64'']"

definition file_functions :: "ast_file \<Rightarrow> fn_decl list" where
  "file_functions f = concat (map (\<lambda>d. case d of Some (DFn fn) \<Rightarrow> [fn] | _ \<Rightarrow> []) (sf_declarations f))"

definition keys_named :: "string \<Rightarrow> fn_decl list \<Rightarrow> string list" where
  "keys_named name fns = (if name \<in> set builtin_names then [name] else [])
     @ map function_key (filter (\<lambda>fn. fn_name fn = name) fns)"

definition tables_hold :: "fn_decl list \<Rightarrow> sema \<Rightarrow> bool" where
  "tables_hold fns s \<longleftrightarrow>
     um_keys (all_functions s) = builtin_names @ map function_key fns \<and>
     distinct (um_keys (all_functions s)) \<and>
     (\<forall>name. (case um_find (simpleFunctionKeys s) name of None \<Rightarrow> [] | Some ks \<Rightarrow> ks) = keys_named name fns) \<and>
     (\<forall>(x, y)\<in>set (qualifiedFunctionKeys s). y \<in> set builtin_names \<or> x = y \<and> um_contains (all_functions s) x)"

definition same_tables :: "sema \<Rightarrow> sema \<Rightarrow> bool" where
  "same_tables s t \<longleftrightarrow> only_errors s t \<and> all_functions t = all_functions s \<and>
     simpleFunctionKeys t = simpleFunctionKeys s \<and> qualifiedFunctionKeys t = qualifiedFunctionKeys s"

interpretation tables: kept_relation same_tables
  by unfold_locales (auto simp: same_tables_def intro: only_errors_same only_errors_report only_errors_trans)

lemma fn_tables_update:
  "(\<And>s. diags (f s) = diags s \<and> all_functions (f s) = all_functions s \<and> simpleFunctionKeys (f s) = simpleFunctionKeys s
     \<and> qualifiedFunctionKeys (f s) = qualifiedFunctionKeys s) \<Longrightarrow> tables.io (update f)"
  by (simp add: state_io_rel_def same_tables_def only_errors_same)

lemma tables_block:
  assumes "tables.io m" shows "tables.io (block_scope m)"
  unfolding block_scope_def pushScope_def popScope_def
  by (intro tables.io_intros fn_tables_update assms) simp_all

lemma tables_region:
  assumes "tables.io m" shows "tables.io (region_scope kind m)"
  unfolding region_scope_defs by (intro tables.io_intros fn_tables_update assms) simp_all

lemma tables_declare: "tables.io (declare_binding name b)"
  unfolding declare_binding_def pushScope_def by (intro tables.io_intros fn_tables_update) simp_all

interpretation tables: kept_by_checker same_tables
  by unfold_locales
     (auto intro: tables_declare tables_block tables_region fn_tables_update simp: modify_binding_def)

lemma tables_foldM: "(\<And>acc x. x \<in> set xs \<Longrightarrow> tables.io (f acc x)) \<Longrightarrow> tables.io (foldM f acc xs)"
  by (induction xs arbitrary: acc) (auto intro!: tables.io_intros)

lemma tables_params: "tables.io (param_types ps)" "tables.io (signature_params sp ps)"
  by (induction ps) (auto intro!: tables.io_intros tables.io_plain)

lemma tables_makeMethodInfo: "tables.io (makeMethodInfo m self req)"
  unfolding makeMethodInfo_def method_rest_def
  by (intro tables.io_intros tables.io_plain tables_params)

lemma tables_makeGenericEnv: "tables.io (makeGenericEnv fn)"
proof -
  have "tables.io (collect_bounds name acc bs)" for name acc bs
    by (induction name acc bs rule: collect_bounds.induct) (auto intro!: tables.io_intros)
  then show ?thesis
    unfolding makeGenericEnv_def add_generic_def by (intro tables_foldM tables.io_intros)
qed

lemma tables_validateTraitImpls: "tables.io (validateTraitImpls f)"
  unfolding validateTraitImpls_def validate_impl_def validate_members_def check_trait_method_def
  by (auto split: option.splits decl.splits
       intro!: tables.io_intros tables.io_plain tables_makeMethodInfo)

lemma tables_declare_param: "tables.io (declare_param g p)"
  unfolding declare_param_def by (intro tables.io_intros tables.io_plain tables_declare)

lemma tables_check_in_scope: "tables.io ps \<Longrightarrow> tables.io (check_in_scope ps fn)"
  unfolding check_in_scope_def check_body_def checkBlock_def checkBlock_with_def pushScope_def popScope_def
  by (intro tables.io_intros tables.io_plain fn_tables_update tables.R_block tables.io_block_loop tables.checkExpr_kept)
     simp_all

lemma tables_checkFn: "tables.io (checkFn fn)"
  unfolding checkFn_def no_error_def
  by (intro tables.io_intros tables.io_plain fn_tables_update tables_makeGenericEnv tables_check_in_scope
      tables_declare_param) simp_all

lemma tables_checkMethod: "tables.io (checkMethod self fn)"
proof -
  have "tables.io (declare_method_params self (fn_params fn))"
    by (cases "fn_params fn") (auto intro!: tables.io_intros tables_declare_param tables_declare tables.io_plain)
  then show ?thesis
    unfolding checkMethod_def no_error_def
    by (intro tables.io_intros tables.io_plain fn_tables_update tables_check_in_scope) simp_all
qed

lemma tables_check_methods: "tables.io (check_methods self ms)"
  by (induction self ms rule: check_methods.induct) (auto intro!: tables.io_intros tables_checkMethod)

lemma tables_check_decls: "tables.io (check_decls ds)"
proof (induction ds rule: check_decls.induct)
  case (3 d ds)
  have "tables.io (checkDecl d)"
    by (cases d) (auto simp: no_error_def intro!: tables.io_intros tables_check_methods tables_checkFn)
  with 3 show ?case by (auto intro!: tables.io_intros fn_tables_update)
qed (auto intro!: tables.io_intros)


subsection \<open>Collecting the signatures\<close>

lemma keys_named_snoc:
  "keys_named name (fns @ [fn]) = keys_named name fns @ (if fn_name fn = name then [function_key fn] else [])"
  by (simp add: keys_named_def)

lemma find_push_simple_key:
  "(case um_find (push_simple_key name key m) x of None \<Rightarrow> [] | Some ks \<Rightarrow> ks) =
   (case um_find m x of None \<Rightarrow> [] | Some ks \<Rightarrow> ks) @ (if x = name then [key] else [])"
  by (simp add: push_simple_key_def um_simps)

lemma tables_hold_add:
  assumes "tables_hold fns s" "\<not> um_contains (all_functions s) (function_key fn)"
    and "u = s\<lparr>all_functions := um_emplace (function_key fn) sig (all_functions s),
       simpleFunctionKeys := push_simple_key (fn_name fn) (function_key fn) (simpleFunctionKeys s),
       qualifiedFunctionKeys :=
         (if c then um_set (function_key fn) (function_key fn) (qualifiedFunctionKeys s) else qualifiedFunctionKeys s)\<rparr>"
  shows "tables_hold (fns @ [fn]) u"
proof -
  have q: "y \<in> set builtin_names \<or> x = y \<and> um_contains (all_functions u) x"
    if "(x, y) \<in> set (qualifiedFunctionKeys u)" for x y
  proof -
    have "(x, y) = (function_key fn, function_key fn) \<or> (x, y) \<in> set (qualifiedFunctionKeys s)"
      using that assms(3) by (auto split: if_splits dest: um_set_entry)
    then show ?thesis
      using assms by (fastforce simp: tables_hold_def um_contains_emplace)
  qed
  have keys: "um_keys (all_functions u) = um_keys (all_functions s) @ [function_key fn]"
    using assms(2,3) by (simp add: um_emplace_def)
  have names: "(case um_find (simpleFunctionKeys u) name of None \<Rightarrow> [] | Some ks \<Rightarrow> ks) = keys_named name (fns @ [fn])" for name
    using assms(1,3) by (auto simp: tables_hold_def keys_named_snoc find_push_simple_key)
  have "function_key fn \<notin> set (um_keys (all_functions s))"
    using assms(2) by (simp add: um_contains_iff)
  moreover have "distinct (um_keys (all_functions s))"
    using assms(1) unfolding tables_hold_def by blast
  ultimately have "distinct (um_keys (all_functions u))"
    unfolding keys by simp
  moreover have "um_keys (all_functions u) = builtin_names @ map function_key (fns @ [fn])"
    using assms(1) unfolding keys by (simp add: tables_hold_def)
  ultimately show ?thesis
    unfolding tables_hold_def using q names by blast
qed

lemma tables_hold_same: "same_tables s t \<Longrightarrow> tables_hold fns t = tables_hold fns s"
  by (simp add: same_tables_def tables_hold_def)

lemma run_unitE: obtains t where "run_state m s = ((), t)"
  by (cases "run_state m s") auto

lemma only_errors_squeeze:
  assumes "only_errors s t" "only_errors t u" "diags u = diags s"
  shows "diags t = diags s"
proof -
  obtain ds ds' where "diagnostics (diags t) = diagnostics (diags s) @ ds" "diagnostics (diags u) = diagnostics (diags t) @ ds'"
    using assms(1,2) by (auto simp: only_errors_def)
  with assms(3) show ?thesis by (simp add: diagnostics_eq)
qed

lemma not_error_free: "diags (s\<lparr>diags := DiagnosticEngine_error sp msg (diags s)\<rparr>) \<noteq> diags s"
  using engine.report_changes by (simp add: DiagnosticEngine_error_def)

lemma collect_function_tables:
  assumes t: "tables_hold fns s" and c: "run_state (collect_function fn) s = ((), u)" and d: "diags u = diags s"
  shows "tables_hold (fns @ [fn]) u"
proof -
  obtain returnType r1 where 1: "run_state (typeFromAst_or (fn_returnType fn) unitType) s = (returnType, r1)" by fastforce
  obtain r2 where 2: "run_state (report_if (ty_isArray returnType)
       (case fn_returnType fn of Some t \<Rightarrow> tr_span t | None \<Rightarrow> node_span fn) ''array return types are not supported yet'') r1
       = ((), r2)"
    by (rule run_unitE)
  obtain ps s1 where 3: "run_state (signature_params (node_span fn) (fn_params fn)) r2 = (ps, s1)" by fastforce
  have "same_tables s r1" "same_tables r1 r2" "same_tables r2 s1"
    using 1 2 3 tables.io_typeFromAst_or tables.io_report_if tables_params(2)
    unfolding state_io_rel_def by (metis snd_conv)+
  then have same: "same_tables s s1" by (metis tables.R_trans)
  then have t1: "tables_hold fns s1" using t tables_hold_same by blast
  note run = c [unfolded collect_function_def Let_def run_state_bind 1 2 3 prod.case run_gets]
  have silent: False if "u = s1\<lparr>diags := DiagnosticEngine_error sp msg (diags s1)\<rparr>" for sp msg
  proof -
    have "only_errors s1 u" using that only_errors_report by simp
    with same d have "diags s1 = diags s"
      using only_errors_squeeze unfolding same_tables_def by blast
    then show False using that d not_error_free [where s = s1] by simp
  qed
  have new: "\<not> um_contains (all_functions s1) (function_key fn)"
    "\<not> (d_modulePath fn = [] \<and> um_contains (all_functions s1) (fn_name fn))"
    using run silent by (auto simp: report_def split: if_splits)
  have "run_state (update h) s1 = ((), u) \<Longrightarrow> u = h s1" for h by simp
  note u = this [OF run [unfolded if_not_P [OF new(1)] if_not_P [OF new(2)]]]
  show ?thesis
    by (rule tables_hold_add [OF t1 new(1) u])
qed

lemma collect_functions_tables:
  "tables_hold fns s \<Longrightarrow> run_state (for_each xs collect_function) s = ((), u) \<Longrightarrow> diags u = diags s \<Longrightarrow>
   tables_hold (fns @ xs) u"
proof (induction xs arbitrary: fns s)
  case (Cons fn xs)
  obtain s1 where 1: "run_state (collect_function fn) s = ((), s1)" and 2: "run_state (for_each xs collect_function) s1 = ((), u)"
    using Cons.prems(2) by (auto split: prod.splits)
  have "calm.io (collect_function fn)" "calm.io (for_each xs collect_function)"
    by (intro calm.io_for_each calm_collect_function)+
  with 1 2 have "only_errors s s1" "only_errors s1 u"
    unfolding state_io_rel_def calm_def by (metis snd_conv)+
  with Cons.prems(3) have "diags s1 = diags s" "diags u = diags s1"
    using only_errors_squeeze by auto
  with Cons.IH [OF collect_function_tables [OF Cons.prems(1) 1] 2] show ?case by simp
qed simp

definition builtins_hold :: "string list \<Rightarrow> sema \<Rightarrow> sema \<Rightarrow> bool" where
  "builtins_hold ns s u \<longleftrightarrow> diags u = diags s \<and> um_keys (all_functions u) = ns \<and>
     simpleFunctionKeys u = map (\<lambda>n. (n, [n])) ns \<and> qualifiedFunctionKeys u = map (\<lambda>n. (''std.core.'' @ n, n)) ns"

lemma um_set_absent: "k \<notin> set (um_keys m) \<Longrightarrow> um_set k v m = m @ [(k, v)]"
  by (induction m) auto

lemma builtins_hold_add:
  assumes "builtins_hold ns s u" "name \<notin> set ns"
  shows "builtins_hold (ns @ [name]) s (snd (run_state (addBuiltin name t ps) u))"
proof -
  have "um_find (map (\<lambda>n. (n, [n])) ns) name = None" using assms(2) by (induction ns) auto
  moreover have "\<not> um_contains (all_functions u) name"
    using assms by (simp add: builtins_hold_def um_contains_iff)
  moreover have "name \<notin> set (um_keys (simpleFunctionKeys u))" "''std.core.'' @ name \<notin> set (um_keys (qualifiedFunctionKeys u))"
    using assms by (auto simp: builtins_hold_def)
  ultimately show ?thesis
    using assms unfolding builtins_hold_def addBuiltin_def push_simple_key_def um_emplace_def
    by (simp add: um_set_absent)
qed

lemma collect_builtins:
  assumes "run_state (do {
     update (\<lambda>s. s\<lparr>all_functions := [], qualifiedFunctionKeys := [], simpleFunctionKeys := []\<rparr>);
     addBuiltin ''puts'' t1 p1; addBuiltin ''print'' t2 p2; addBuiltin ''println'' t3 p3;
     addBuiltin ''print_i64'' t4 p4; addBuiltin ''println_i64'' t5 p5; addBuiltin ''readln_i64'' t6 p6}) s = ((), u)"
  shows "tables_hold [] u \<and> diags u = diags s"
proof -
  define s0 where "s0 = s\<lparr>all_functions := [], qualifiedFunctionKeys := [], simpleFunctionKeys := []\<rparr>"
  have "builtins_hold [] s s0" by (simp add: builtins_hold_def s0_def)
  from builtins_hold_add [OF this, of "''puts''" t1 p1, simplified]
  have "builtins_hold [''puts''] s (snd (run_state (addBuiltin ''puts'' t1 p1) s0))" .
  from builtins_hold_add [OF this, of "''print''" t2 p2, simplified] have 2: "builtins_hold [''puts'', ''print''] s
    (snd (run_state (do {addBuiltin ''puts'' t1 p1; addBuiltin ''print'' t2 p2}) s0))" by (simp add: case_prod_beta)
  from builtins_hold_add [OF builtins_hold_add [OF this, of "''println''" t3 p3], of "''print_i64''" t4 p4, simplified]
  have "builtins_hold [''puts'', ''print'', ''println'', ''print_i64''] s
    (snd (run_state (do {addBuiltin ''puts'' t1 p1; addBuiltin ''print'' t2 p2;
      addBuiltin ''println'' t3 p3; addBuiltin ''print_i64'' t4 p4}) s0))" by (simp add: case_prod_beta)
  from builtins_hold_add [OF builtins_hold_add [OF this, of "''println_i64''" t5 p5], of "''readln_i64''" t6 p6, simplified]
  have "builtins_hold builtin_names s u"
    using assms by (simp add: s0_def case_prod_beta builtin_names_def)
  moreover have "(case um_find (map (\<lambda>n. (n, [n])) ns) name of None \<Rightarrow> [] | Some ks \<Rightarrow> ks) =
      (if name \<in> set ns then [name] else [])" for ns and name :: string
    by (induction ns) auto
  moreover have "distinct builtin_names" by (simp add: builtin_names_def)
  ultimately show ?thesis
    by (auto simp: builtins_hold_def tables_hold_def keys_named_def)
qed

lemma for_each_declarations:
  "for_each ds (\<lambda>d. case d of Some (DFn fn) \<Rightarrow> body fn | _ \<Rightarrow> ret ()) =
   for_each (concat (map (\<lambda>d. case d of Some (DFn fn) \<Rightarrow> [fn] | _ \<Rightarrow> []) ds)) body"
proof (induction ds)
  case (Cons d ds)
  then show ?case by (cases d) (auto split: decl.splits)
qed simp

lemma collectFunctionSignatures_tables:
  assumes "run_state (collectFunctionSignatures f) s = ((), u)" "diags u = diags s"
  shows "tables_hold (file_functions f) u"
proof -
  let ?b = "do {
     update (\<lambda>s. s\<lparr>all_functions := [], qualifiedFunctionKeys := [], simpleFunctionKeys := []\<rparr>);
     addBuiltin ''puts'' (numericType ''i32'') [cstringType]; addBuiltin ''print'' unitType [cstringType];
     addBuiltin ''println'' unitType [cstringType]; addBuiltin ''print_i64'' unitType [numericType ''i64''];
     addBuiltin ''println_i64'' unitType [numericType ''i64'']; addBuiltin ''readln_i64'' (numericType ''i64'') []}"
  obtain s1 where b: "run_state ?b s = ((), s1)" by (rule run_unitE)
  have "collectFunctionSignatures f = ?b \<bind> (\<lambda>_. for_each (file_functions f) collect_function)"
    by (simp add: collectFunctionSignatures_def file_functions_def for_each_declarations)
  with assms(1) b have "run_state (for_each (file_functions f) collect_function) s1 = ((), u)"
    by (simp only: run_state_bind prod.case)
  with collect_builtins [OF b] assms(2) show ?thesis
    using collect_functions_tables [of "[]" s1 "file_functions f" u] by simp
qed

lemma accepted_tables:
  assumes "run_state (Sema_check f) (Sema_init de) = (True, t)"
  shows "tables_hold (file_functions f) t"
proof -
  define pre where "pre = do {collectModules f; collectStructs f; collectTraits f; collectImplMethods f}"
  define post where "post = do {validateTraitImpls f; check_decls (sf_declarations f)}"
  obtain s1 where 1: "run_state pre (Sema_init de) = ((), s1)" by (rule run_unitE)
  obtain s2 where 2: "run_state (collectFunctionSignatures f) s1 = ((), s2)" by (rule run_unitE)
  obtain ok s3 where 3: "run_state post s2 = (ok, s3)" by fastforce
  have "Sema_check f = pre \<bind> (\<lambda>_. collectFunctionSignatures f \<bind> (\<lambda>_. post \<bind> (\<lambda>ok. do {e \<leftarrow> no_error; ret (ok \<and> e)})))"
    by (simp add: Sema_check_def pre_def post_def)
  with assms have t: "t = s3" "\<not> DiagnosticEngine_hasError (diags t)"
    by (auto simp: run_state_bind 1 2 3 no_error_def)
  have "tables.io post" unfolding post_def by (intro tables.io_intros tables_validateTraitImpls tables_check_decls)
  with 3 have same: "same_tables s2 s3" unfolding state_io_rel_def by (metis snd_conv)
  have "only_errors s1 s2" using collectFunctionSignatures_resolvable [OF 2] by simp
  with same t no_error_no_change [of s1 s3] have "diags s2 = diags s1"
    using only_errors_squeeze only_errors_trans unfolding same_tables_def by metis
  then have "tables_hold (file_functions f) s2" by (rule collectFunctionSignatures_tables [OF 2])
  then show ?thesis using tables_hold_same [OF same] t(1) by simp
qed

text \<open>Two functions of an accepted file have different keys, and none has the key of a builtin function.\<close>

lemma accepted_distinct_keys:
  assumes "run_state (Sema_check f) (Sema_init de) = (True, t)"
  shows "distinct (builtin_names @ map function_key (file_functions f))"
  using accepted_tables [OF assms] unfolding tables_hold_def by metis

end
