(* ===== verification/Gura_CodeGen_Verdict.thy ===== *)
theory Gura_CodeGen_Verdict
  imports Gura_CodeGen_Module Gura_Sema_Tables
begin

section \<open>The code emitted for an accepted program\<close>

text \<open>
  The composition of the checker and the code generator, in the order in which \<^verbatim>\<open>Driver::emitLlvm\<close> runs
  them. The checker refuses a file with two functions of one key, so that every function that the generator
  declares gets the body of its own declaration, and the table \<^verbatim>\<open>functions_\<close> of the generator names
  exactly the functions of the file.
\<close>

lemma functionKey_eq: "functionKey = function_key"
  by (simp add: fun_eq_iff functionKey_def function_key_def)

lemma plain_functions_filter: "plain_functions f = filter (\<lambda>fn. fn_genericParams fn = []) (file_functions f)"
proof -
  have "concat (map (\<lambda>d. case d of Some (DFn fn) \<Rightarrow> if fn_genericParams fn = [] then [fn] else [] | _ \<Rightarrow> []) ds) =
      filter (\<lambda>fn. fn_genericParams fn = []) (concat (map (\<lambda>d. case d of Some (DFn fn) \<Rightarrow> [fn] | _ \<Rightarrow> []) ds))" for ds
    by (induction ds) (auto split: option.split decl.split)
  then show ?thesis by (simp add: plain_functions_def file_functions_def)
qed

lemma accepted_plain_keys:
  assumes "run_state (Sema_check f) (Sema_init de) = (True, t)"
  shows "distinct (map functionKey (plain_functions f))"
  using accepted_distinct_keys [OF assms]
  by (simp add: functionKey_eq plain_functions_filter distinct_map_filter)

text \<open>C3. Emitted code is well formed: when the checker accepts a program in which every return stands as a
  statement outside the enter and explore blocks, every function and method of the emitted module has a body,
  each of its blocks ends in its only terminator, every branch goes to a block of the same function, and the
  region calls along every path match like brackets: a block starts with the same open regions whichever way it
  is reached, a region is closed by the call that fits it, and a function returns with no region open.\<close>

theorem accepted_program_emits_well_formed:
  assumes "run_state (Sema_check f) (Sema_init de) = (True, t)" "program_returns_ok f"
  shows "module_wf (snd (run_state (emit_module f) ModuleEmitter_init))"
  using assms by (intro emitted_module_wf accepted_plain_keys)

theorem accepted_program_emits_well_formed_witness:
  "module_wf (snd (run_state (emit_module sample_file) ModuleEmitter_init))"
proof (rule accepted_program_emits_well_formed)
  show "run_state (Sema_check sample_file) (Sema_init \<lparr>diagnostics = []\<rparr>) =
      (True, snd (run_state (Sema_check sample_file) (Sema_init \<lparr>diagnostics = []\<rparr>)))"
    using sample_accepted by (simp add: prod_eq_iff)
  show "program_returns_ok sample_file"
    by (simp add: program_returns_ok_def plain_functions_filter file_functions_def sample_declarations
        program_methods_def sample_fn_def block_ok_def)
qed

end
