(* ===== verification/Gura_CodeGen_Names.thy ===== *)
theory Gura_CodeGen_Names
  imports Gura_CodeGen_Verdict
begin

section \<open>Constants and names: the code generator against the checker\<close>

text \<open>
  The value of an integer literal, and the function that a call names. Both components resolve function names with
  code of their own, \<^verbatim>\<open>Sema::resolveFunctionName\<close> and \<^verbatim>\<open>ModuleEmitter::resolveFunctionKey\<close>; the theorem of this
  file says exactly where the two agree.
\<close>

subsection \<open>Integer literals\<close>

lemma isdigit_digit_char: "d < 10 \<Longrightarrow> isdigit (digit_char d)"
  by (simp add: isdigit_def code_def)

lemma nat_to_dec_digits: "nat_to_dec n \<noteq> [] \<and> list_all isdigit (nat_to_dec n)"
proof (induction n rule: nat_to_dec.induct)
  case (1 n)
  then show ?case by (subst (1 2) nat_to_dec.simps) (auto simp: isdigit_digit_char)
qed

lemma from_chars_nat_to_dec: "from_chars_i64 (nat_to_dec n) = (if n < 2 ^ 63 then int n else 0)"
proof -
  have ds: "nat_to_dec n \<noteq> []" "\<And>c. c \<in> set (nat_to_dec n) \<Longrightarrow> isdigit c"
    using nat_to_dec_digits [of n] by (auto simp: list_all_iff)
  have "isdigit (hd (nat_to_dec n))" using ds(2) [OF hd_in_set [OF ds(1)]] .
  then have "hd (nat_to_dec n) \<noteq> CHR ''-''" by (auto simp: isdigit_def code_def)
  moreover have tw: "takeWhile isdigit (nat_to_dec n) = nat_to_dec n" using ds(2) by (simp add: takeWhile_eq_all_conv)
  moreover have "2 ^ 63 \<le> int n \<longleftrightarrow> \<not> n < 2 ^ 63" by (simp add: not_less)
  ultimately show ?thesis using ds(1) by (simp add: from_chars_i64_def dec_value_nat_to_dec Let_def tw)
qed



subsection \<open>The tables of the generator\<close>

definition same_names :: "emitter \<Rightarrow> emitter \<Rightarrow> bool" where
  "same_names s t \<longleftrightarrow> em_simpleKeys t = em_simpleKeys s \<and> em_functions t = em_functions s"

abbreviation keeps_names :: "'a em \<Rightarrow> bool" where
  "keeps_names c \<equiv> state_io_rel same_names c"

lemma keeps_names_ret: "keeps_names (ret x)"
  by (simp add: state_io_rel_def same_names_def)

lemma keeps_names_gets: "keeps_names (gets f)"
  by (simp add: state_io_rel_def same_names_def)

lemma keeps_names_update:
  "(\<And>s. em_simpleKeys (f s) = em_simpleKeys s \<and> em_functions (f s) = em_functions s) \<Longrightarrow> keeps_names (update f)"
  by (simp add: state_io_rel_def same_names_def)

lemma keeps_names_bind: "keeps_names c \<Longrightarrow> (\<And>x. keeps_names (f x)) \<Longrightarrow> keeps_names (c \<bind> f)"
  by (auto simp: state_io_rel_def same_names_def split: prod.splits) (metis snd_conv)+

lemma keeps_names_for_each: "(\<And>x. x \<in> set xs \<Longrightarrow> keeps_names (f x)) \<Longrightarrow> keeps_names (for_each xs f)"
  by (induction xs) (auto intro!: keeps_names_ret keeps_names_bind)

lemma keeps_names_traverse: "(\<And>x. x \<in> set xs \<Longrightarrow> keeps_names (f x)) \<Longrightarrow> keeps_names (traverse_list f xs)"
  by (induction xs) (auto intro!: keeps_names_ret keeps_names_bind)

lemmas keeps_names_intros = keeps_names_ret keeps_names_gets keeps_names_bind keeps_names_for_each keeps_names_traverse

lemma keeps_names_collectStructs: "keeps_names (ll_collectStructs f)"
  unfolding ll_collectStructs_def set_struct_body_def
  by (intro keeps_names_intros keeps_names_update)
     (auto intro!: keeps_names_intros keeps_names_update split: option.splits decl.splits)

lemma keeps_names_collectMethods: "keeps_names (ll_collectMethods f)"
  unfolding ll_collectMethods_def ll_collectMethod_def Let_def
  by (intro keeps_names_intros)
     (auto intro!: keeps_names_intros keeps_names_update split: option.splits decl.splits)

lemma keeps_names_declareMethods: "keeps_names declareMethods"
  unfolding declareMethods_def declare_group_def declareMethod_def add_function_def Let_def
  by (auto intro!: keeps_names_intros keeps_names_update split: prod.splits)

definition names_hold :: "fn_decl list \<Rightarrow> fn_decl list \<Rightarrow> emitter \<Rightarrow> bool" where
  "names_hold simple declared s \<longleftrightarrow>
     (\<forall>name. (case um_find (em_simpleKeys s) name of None \<Rightarrow> [] | Some ks \<Rightarrow> ks) =
        map functionKey (filter (\<lambda>fn. fn_name fn = name) simple)) \<and>
     (\<forall>k. um_contains (em_functions s) k \<longleftrightarrow> k \<in> functionKey ` set declared)"

lemma names_hold_same: "same_names s t \<Longrightarrow> names_hold fns fns' t = names_hold fns fns' s"
  by (simp add: same_names_def names_hold_def)

lemma register_names:
  "names_hold fns fns' s \<Longrightarrow> names_hold (fns @ xs) fns' (snd (run_state (for_each xs registerFunctionKey) s))"
proof (induction xs arbitrary: fns s)
  case (Cons x xs)
  have "names_hold (fns @ [x]) fns' (snd (run_state (registerFunctionKey x) s))"
    using Cons.prems by (auto simp: names_hold_def registerFunctionKey_def um_find_set split: option.split)
  from Cons.IH [OF this] show ?case by (simp add: case_prod_beta)
qed simp

lemma declare_names:
  "names_hold fns fns' s \<Longrightarrow> names_hold fns (fns' @ xs) (snd (run_state (for_each xs declareFunction) s))"
proof (induction xs arbitrary: fns' s)
  case (Cons x xs)
  obtain fn' where "run_state (declareFunction x) s = ((), s\<lparr>em_module := em_module s @ [fn'],
      em_functions := um_emplace (functionKey x) (length (em_module s)) (em_functions s)\<rparr>)"
    using run_declareFunction by blast
  then have "names_hold fns (fns' @ [x]) (snd (run_state (declareFunction x) s))"
    using Cons.prems by (auto simp: names_hold_def um_contains_emplace)
  from Cons.IH [OF this] show ?case by (simp add: case_prod_beta)
qed simp

lemma declared_names:
  "names_hold (plain_functions f) (plain_functions f) (snd (run_state (declare_phase f) ModuleEmitter_init))"
proof -
  define s where "s = snd (run_state (do {ll_collectStructs f; ll_collectMethods f}) ModuleEmitter_init)"
  define u where "u = snd (run_state (do {for_each (plain_functions f) registerFunctionKey;
     for_each (plain_functions f) declareFunction}) s)"
  have "keeps_names (do {ll_collectStructs f; ll_collectMethods f})"
    by (intro keeps_names_bind keeps_names_collectStructs keeps_names_collectMethods)
  then have "same_names ModuleEmitter_init s" by (simp only: state_io_rel_def s_def)
  moreover have "names_hold [] [] ModuleEmitter_init" by (simp add: names_hold_def ModuleEmitter_init_def um_contains_def)
  ultimately have "names_hold [] [] s" by (simp add: names_hold_same)
  from declare_names [OF register_names [OF this, of "plain_functions f"], of "plain_functions f"]
  have u: "names_hold (plain_functions f) (plain_functions f) u" by (simp add: u_def case_prod_beta)
  have "snd (run_state (declare_phase f) ModuleEmitter_init) = snd (run_state declareMethods u)"
    unfolding declare_phase_def for_each_fn_list u_def s_def by (simp add: snd_bind del: run_state_bind)
  moreover have "same_names u (snd (run_state declareMethods u))"
    using keeps_names_declareMethods by (simp add: state_io_rel_def)
  ultimately show ?thesis using u names_hold_same by simp
qed


subsection \<open>The last component of a key\<close>

definition last_component :: "string \<Rightarrow> string" where
  "last_component s = rev (takeWhile (\<lambda>c. c \<noteq> CHR ''.'') (rev s))"

lemma joinPath_snoc: "p \<noteq> [] \<Longrightarrow> joinPath (p @ [x]) = joinPath p @ ''.'' @ x"
  by (induction p rule: joinPath.induct) auto

lemma qualifiedName_dot: "p \<noteq> [] \<Longrightarrow> qualifiedName p x = joinPath p @ ''.'' @ x"
  by (simp add: qualifiedName_def joinPath_snoc)

lemma last_component_plain: "CHR ''.'' \<notin> set x \<Longrightarrow> last_component x = x"
  unfolding last_component_def by (subst takeWhile_eq_all_conv [THEN iffD2]) auto

lemma last_component_dot:
  assumes "CHR ''.'' \<notin> set x" shows "last_component (s @ ''.'' @ x) = x"
proof -
  have "takeWhile (\<lambda>c. c \<noteq> CHR ''.'') (rev x @ CHR ''.'' # rev s) = rev x"
    using assms by (subst takeWhile_append2) auto
  then show ?thesis by (simp add: last_component_def)
qed

lemma last_component_qualified: "CHR ''.'' \<notin> set x \<Longrightarrow> last_component (qualifiedName p x) = x"
  by (cases "p = []") (simp add: qualifiedName_def last_component_plain,
      simp only: qualifiedName_dot [of p] last_component_dot not_False_eq_True)

lemma last_component_key: "CHR ''.'' \<notin> set (fn_name fn) \<Longrightarrow> last_component (function_key fn) = fn_name fn"
  by (simp add: function_key_def last_component_plain last_component_qualified)

lemma joinPath_dotted: "2 \<le> length p \<Longrightarrow> CHR ''.'' \<in> set (joinPath p)"
  by (induction p rule: joinPath.induct) auto

lemma builtin_no_dot: "k \<in> set builtin_names \<Longrightarrow> CHR ''.'' \<notin> set k"
  by (auto simp: builtin_names_def)

lemma dotted_function:
  assumes "tables_hold fns t" "um_contains (all_functions t) k" "CHR ''.'' \<in> set k"
  shows "k \<in> function_key ` set fns" "k \<notin> set builtin_names"
  using assms builtin_no_dot by (auto simp: tables_hold_def um_contains_iff)


subsection \<open>Two resolutions of the same name\<close>

lemma find_alias_imports: "find_alias x is = Some i \<Longrightarrow> i \<in> set is"
  by (induction x "is" rule: find_alias.induct) (auto split: if_splits)

lemma resolve_alias_find:
  "resolve_alias isFunction p is = None" if "find_alias (hd p) is = None"
  using that by (induction isFunction p "is" rule: resolve_alias.induct) (auto split: if_splits)

lemma resolve_alias_first:
  assumes "find_alias (hd p) is = Some i" "isFunction (joinPath (imp_path i @ tl p))"
  shows "resolve_alias isFunction p is = Some (joinPath (imp_path i @ tl p))"
  using assms by (induction isFunction p "is" rule: resolve_alias.induct) (auto simp: Let_def split: if_splits)

lemma imported_match:
  "k \<in> set (importedMatches isFunction name is) \<Longrightarrow> \<exists>i\<in>set is. k = qualifiedName (imp_path i) name \<and> isFunction k"
  by (induction isFunction name "is" rule: importedMatches.induct) (auto simp: Let_def split: if_splits)

lemma qualified_dotted: "p \<noteq> [] \<Longrightarrow> CHR ''.'' \<in> set (qualifiedName p name)"
  by (simp add: qualifiedName_dot)

lemma qualified_function:
  assumes t: "tables_hold fns t" and dots: "\<And>g. g \<in> set fns \<Longrightarrow> CHR ''.'' \<notin> set (fn_name g)" "CHR ''.'' \<notin> set name"
    and p: "p \<noteq> []" "um_contains (all_functions t) (qualifiedName p name)"
  shows "\<exists>g\<in>set fns. fn_name g = name \<and> qualifiedName p name = function_key g"
proof -
  from dotted_function(1) [OF t p(2) qualified_dotted [OF p(1)]]
  obtain g where "g \<in> set fns" "qualifiedName p name = function_key g" by auto
  moreover from this have "fn_name g = name"
    using dots last_component_key [of g] last_component_qualified [of name p] by auto
  ultimately show ?thesis by blast
qed

lemma resolve_simple_named:
  assumes "tables_hold fns t" "fst (run_state (resolve_simple name sp) t) = Some key"
  shows "keys_named name fns = [key]"
proof -
  have "fst (run_state (resolve_simple name sp) t) = (case um_find (simpleFunctionKeys t) name of
      Some [k] \<Rightarrow> Some k | _ \<Rightarrow> None)"
    by (simp add: resolve_simple_def case_prod_beta split: option.split list.split)
  then have "um_find (simpleFunctionKeys t) name = Some [key]"
    using assms(2) by (auto split: option.splits list.splits)
  moreover have "(case um_find (simpleFunctionKeys t) name of None \<Rightarrow> [] | Some ks \<Rightarrow> ks) = keys_named name fns"
    using assms(1) by (simp add: tables_hold_def)
  ultimately show ?thesis by simp
qed

lemma simple_resolution:
  assumes t: "tables_hold fns t" and dots: "\<And>g. g \<in> set fns \<Longrightarrow> CHR ''.'' \<notin> set (fn_name g)" "CHR ''.'' \<notin> set name"
    and paths: "\<And>i. i \<in> set (d_imports fn) \<Longrightarrow> imp_path i \<noteq> []"
    and key: "fst (run_state (resolveFunctionName [name] (Some (DFn fn)) sp) t) = Some key"
  shows "key \<in> set builtin_names \<and> filter (\<lambda>g. fn_name g = name) fns = [] \<or>
    (\<exists>g\<in>set fns. fn_name g = name \<and> key = function_key g)"
proof -
  consider "d_modulePath fn \<noteq> []" "key = qualifiedName (d_modulePath fn) name" "um_contains (all_functions t) key"
    | "importedMatches (um_contains (all_functions t)) name (d_imports fn) = [key]"
    | "fst (run_state (resolve_simple name sp) t) = Some key"
    using key by (auto simp: resolveFunctionName_def resolve_local_def Let_def case_prod_beta split: if_splits list.splits)
  then show ?thesis
  proof cases
    case 1
    then show ?thesis using qualified_function [OF t dots] by auto
  next
    case 2
    then obtain i where "i \<in> set (d_imports fn)" "key = qualifiedName (imp_path i) name" "um_contains (all_functions t) key"
      using imported_match [of key "um_contains (all_functions t)" name "d_imports fn"] by auto
    then show ?thesis using qualified_function [OF t dots] paths by auto
  next
    case 3
    from resolve_simple_named [OF t this] show ?thesis
      by (auto simp: keys_named_def filter_eq_Cons_iff append_eq_Cons_conv map_eq_Cons_conv split: if_splits)
  qed
qed

lemma declared_key: "names_hold fns fns e \<Longrightarrow> um_contains (em_functions e) k \<longleftrightarrow> k \<in> function_key ` set fns"
  by (simp add: names_hold_def functionKey_eq)

lemma simple_names_agree:
  assumes t: "tables_hold fns t" and e: "names_hold fns fns e"
    and dots: "\<And>g. g \<in> set fns \<Longrightarrow> CHR ''.'' \<notin> set (fn_name g)" "CHR ''.'' \<notin> set name"
    and paths: "\<And>i. i \<in> set (d_imports fn) \<Longrightarrow> imp_path i \<noteq> []"
    and disjoint: "\<And>g. g \<in> set fns \<Longrightarrow> function_key g \<notin> set builtin_names"
    and key: "fst (run_state (resolveFunctionName [name] (Some (DFn fn)) sp) t) = Some key"
  shows "resolveFunctionKey e [name] =
    (if key \<in> set builtin_names \<or> 2 \<le> length (filter (\<lambda>g. fn_name g = name) fns) then None else Some key)"
proof -
  define N where "N = filter (\<lambda>g. fn_name g = name) fns"
  have keys: "(case um_find (em_simpleKeys e) name of None \<Rightarrow> [] | Some ks \<Rightarrow> ks) = map function_key N"
    using e by (simp add: names_hold_def functionKey_eq N_def)
  have "resolveFunctionKey e [name] = (case map function_key N of [k] \<Rightarrow> Some k | _ \<Rightarrow> None)"
    unfolding keys [symmetric] resolveFunctionKey_def by (auto split: option.split list.split)
  moreover have "key \<in> set builtin_names \<and> N = [] \<or> (\<exists>g\<in>set N. key = function_key g)"
    using simple_resolution [OF t dots paths key] unfolding N_def by auto
  moreover have "set N \<subseteq> set fns" by (auto simp: N_def)
  ultimately show ?thesis
    using disjoint by (auto simp: N_def [symmetric] split: list.split)
qed

lemma dotted_names_agree:
  assumes t: "tables_hold fns t" and e: "names_hold fns fns e" "em_currentDecl e = Some fn"
    and paths: "\<And>i. i \<in> set (d_imports fn) \<Longrightarrow> imp_path i \<noteq> []"
    and p: "p = a # b # ps" and key: "fst (run_state (resolveFunctionName p (Some (DFn fn)) sp) t) = Some key"
  shows "resolveFunctionKey e p = (if key \<in> set builtin_names then None else Some key)"
proof -
  note declared = declared_key [OF e(1)]
  have dotted: "CHR ''.'' \<in> set (joinPath (q @ tl p))" if "q \<noteq> []" for q
    using that p by (intro joinPath_dotted) (cases q; simp)
  have user: "k \<in> function_key ` set fns \<and> k \<notin> set builtin_names"
    if "um_contains (all_functions t) k" "k = joinPath (q @ tl p)" "q \<noteq> []" for k q
    using dotted_function [OF t that(1)] dotted [OF that(3)] that(2) by simp
  show ?thesis
  proof (cases "find_alias (hd p) (d_imports fn)")
    case (Some i)
    then have "imp_path i \<noteq> []" using find_alias_imports paths by blast
    moreover have "key = joinPath (imp_path i @ tl p)" "um_contains (all_functions t) key"
      using key Some unfolding p resolveFunctionName_def resolve_qualified_def by (auto simp: Let_def split: if_splits)
    ultimately have "key \<in> function_key ` set fns" "key \<notin> set builtin_names" "key = joinPath (imp_path i @ tl p)"
      using user by blast+
    then show ?thesis
      using resolve_alias_first [OF Some, of "um_contains (em_functions e)"] declared e(2)
      unfolding resolveFunctionKey_def by (simp add: p Let_def)
  next
    case None
    have hd_p: "joinPath p = joinPath ([hd p] @ tl p)" unfolding p by simp
    consider "key = joinPath p" "um_contains (all_functions t) key"
      | "\<not> um_contains (all_functions t) (joinPath p)" "um_find (qualifiedFunctionKeys t) (joinPath p) = Some key"
      using key None unfolding p resolveFunctionName_def resolve_qualified_def by (auto simp: Let_def split: if_splits)
    then have "(if key \<in> set builtin_names then joinPath p \<notin> function_key ` set fns
        else key = joinPath p \<and> key \<in> function_key ` set fns)"
    proof cases
      case 1
      then have "key \<in> function_key ` set fns" "key \<notin> set builtin_names" using user hd_p by blast+
      with 1 show ?thesis by simp
    next
      case 2
      then have "(joinPath p, key) \<in> set (qualifiedFunctionKeys t)" by (rule_tac map_of_SomeD)
      then have "key \<in> set builtin_names" using t 2(1) unfolding tables_hold_def by fastforce
      moreover have "joinPath p \<notin> function_key ` set fns"
        using t 2(1) unfolding tables_hold_def um_contains_iff by auto
      ultimately show ?thesis by simp
    qed
    then show ?thesis
      using resolve_alias_find [OF None, of "um_contains (em_functions e)"] declared e(2)
      unfolding resolveFunctionKey_def by (auto simp: p Let_def split: if_splits)
  qed
qed



end
