(* ===== verification/Gura_CodeGen_Findings.thy ===== *)
theory Gura_CodeGen_Findings
  imports Gura_CodeGen_Verdict Gura_Sema_Findings
begin

section \<open>Programs that the code generator compiles to something else\<close>

text \<open>
  Small programs that the checker accepts and whose emitted code does not do what they say. They delimit the theorem of
  \<^verbatim>\<open>Gura_CodeGen_Verdict\<close>. The emitted code of a concrete program is computed by rewriting, one statement after the other.
\<close>

lemma state_bind_weak: "m = m' \<Longrightarrow> State_Monad.bind m f = State_Monad.bind m' f"
  by simp

lemmas emitter_defs =
  is_comparison_def ModuleEmitter_init_def fresh_def insert_instr_def build_def crash_def need_def
  has_terminator_def return_type_def ll_new_block_def attach_block_def set_insert_point_def create_store_def
  create_load_def create_insert_def create_binop_def create_gep_def create_global_string_def call_runtime_def
  call_function_def createEntryAlloca_def functionKey_def parameterTypeFromAst_def regionStrategyValue_def
  decodeStringLiteral_def from_chars_i64_def without_suffix_def emitLiteral_def add_layout_def
  set_struct_body_def ll_collectStructs_def has_self_def ll_collectMethod_def ll_collectMethods_def
  registerFunctionKey_def resolveFunctionKey_def add_function_def declareFunction_def declareMethod_def
  declare_group_def declareMethods_def some_of_def emit_opt_def emit_operand_def emitName_def emitBinding_def
  emitNew_def emitFreeze_def emitMerge_def emitBlock_with_def emit_block_opt_def um_erase_def
  open_region_code_def close_region_code_def emitRegion_def struct_object_def
  struct_layout_of_def fieldSlot_def emitFieldAccess_def emitArrayLiteral_def indexSlot_def emitIndexAccess_def
  store_to_def assign_name_def emitAssign_def binary_opcode_def emitBinary_def emitCallArgument_def
  emitReadlnI64_def print_format_def emitPrintCall_def call_declared_def method_function_def method_target_def
  emitMethodCall_def call_by_name_def call_unresolved_def resolved_callee_def emitCall_def branch_if_open_def
  emitWhile_def emitIf_def emitReturn_def emitBlock_def emitDefaultReturn_def clear_bindings_def bind_param_def
  open_function_def emit_body_def emit_function_code_def emitFunction_def bind_receiver_def emit_method_code_def
  emitMethod_def emitMethods_def for_each_fn_def emit_module_def

lemmas emitter_eval = emitter_defs um_emplace_def um_contains_def Let_def isdigit_def code_def dec_value_def

definition fn_of :: "string list \<Rightarrow> string \<Rightarrow> expr option list \<Rightarrow> fn_decl" where
  "fn_of m name body = \<lparr>node_id = 0, node_span = default_span, d_modulePath = m, d_imports = [], fn_name = name,
     fn_genericParams = [], fn_params = [],
     fn_returnType = Some (TypeRef sample_node Cap_None ''i64'' [''i64''] False False None),
     fn_body = Some (BlockExpr sample_node body)\<rparr>"

definition file_of :: "fn_decl list \<Rightarrow> ast_file" where
  "file_of fns = \<lparr>node_id = 0, node_span = default_span, sf_explicitModule = None, sf_resolvedModule = [],
     sf_imports = [], sf_declarations = map (\<lambda>fn. Some (DFn fn)) fns\<rparr>"

abbreviation emitted_program :: "fn_decl list \<Rightarrow> emitter" where
  "emitted_program fns \<equiv> snd (run_state (emit_module (file_of fns)) ModuleEmitter_init)"

abbreviation emitted_blocks :: "fn_decl list \<Rightarrow> ll_instr list list" where
  "emitted_blocks fns \<equiv> map bb_instrs (em_blocks (emitted_program fns))"

abbreviation int_lit :: "string \<Rightarrow> expr option" where
  "int_lit x \<equiv> Some (LiteralExpr sample_node Lit_Integer x [])"

abbreviation return_of :: "expr option \<Rightarrow> expr option" where
  "return_of e \<equiv> Some (ReturnExpr sample_node e)"

abbreviation let_of :: "string \<Rightarrow> expr option \<Rightarrow> expr option" where
  "let_of x e \<equiv> Some (BindingExpr sample_node False x None e)"

lemma run_bind_bridge:
  "um_find (em_regionStructTypes s) x = None \<Longrightarrow>
   run_state (bind_bridge name (Some (NameExpr n x)) region) s =
   run_state (do {
     bridge \<leftarrow> call_runtime RegionBridge [region] ''bridge'';
     slot \<leftarrow> createEntryAlloca name (value_type bridge);
     create_store bridge slot;
     update (\<lambda>s. s\<lparr>em_bridgeSlots := um_set name slot (em_bridgeSlots s),
                  em_pointerValues := um_set name bridge (em_pointerValues s)\<rparr>);
     ret slot}) s"
  by (simp add: bind_bridge_def call_runtime_def createEntryAlloca_def create_store_def insert_instr_def build_def
      fresh_def Let_def)

text \<open>The program \<^verbatim>\<open>struct N {}\<close>, \<^verbatim>\<open>fn main(x: iso N): i64 { enter x {y => return 1} }\<close>, and the
  state of the checker when it comes to \<^verbatim>\<open>main\<close>, without the tables that are not consulted.\<close>

definition node_struct :: struct_decl where
  "node_struct = \<lparr>node_id = 0, node_span = default_span, d_modulePath = [], d_imports = [], sd_name = ''N'',
     sd_fields = [], sd_methods = []\<rparr>"

definition enter_return :: fn_decl where
  "enter_return = (fn_of [] ''main'' [Some (RegionExpr sample_node Region_Enter (sample_name ''x'') ''y''
       (block_of [return_of (int_lit ''1'')]))])
     \<lparr>fn_params := [\<lparr>pm_name = ''x'', pm_type = Some (TypeRef sample_node Cap_Iso ''N'' [''N''] False False None)\<rparr>]\<rparr>"

definition enter_return_file :: ast_file where
  "enter_return_file = (file_of [])\<lparr>sf_declarations := [Some (DStruct node_struct), Some (DFn enter_return)]\<rparr>"

definition N_sema :: sema where
  "N_sema = (Sema_init \<lparr>diagnostics = []\<rparr>)
     \<lparr>structs := [(''N'', \<lparr>si_fields = [], si_methods = [], si_span = default_span\<rparr>)]\<rparr>"

lemma enter_return_emitted:
  "map bb_instrs (em_blocks (snd (run_state (emit_module enter_return_file) ModuleEmitter_init))) = [
     [Alloca 4 LPtr ''y'', Alloca 0 LPtr ''x'', Store (ArgV 0 LPtr) (AllocaV 0 LPtr), Load 1 LPtr (AllocaV 0 LPtr) ''x'',
      Call 2 (Extern RegionEnter) [InstrV 1 LPtr] [], Call 3 (Extern RegionBridge) [InstrV 1 LPtr] ''bridge'',
      Store (InstrV 3 LPtr) (AllocaV 4 LPtr), Ret (Some (ConstInt LI64 1)), Load 6 LPtr (AllocaV 4 LPtr) ''y.bridge'',
      Call 7 (Extern RegionExit) [InstrV 1 LPtr, InstrV 6 LPtr] [], Ret (Some (ConstNull LI64))]]"
  "map lf_blocks (em_module (snd (run_state (emit_module enter_return_file) ModuleEmitter_init))) = [[0]]"
  by (simp_all add: emitter_eval run_bind_bridge enter_return_file_def enter_return_def node_struct_def fn_of_def
      file_of_def cong: state_bind_weak)


text \<open>A conditional used as a value yields a null pointer, which the binding dereferences.\<close>

lemma if_value_crashes:
  "accepts [let_of ''v'' (Some (IfExpr sample_node (Some (LiteralExpr sample_node Lit_Bool ''true'' []))
      (block_of [int_lit ''1'']) (Some (BlockE (BlockExpr sample_node [int_lit ''2''])))))] \<and>
   em_crashed (emitted_program [fn_of [] ''main'' [let_of ''v'' (Some (IfExpr sample_node
      (Some (LiteralExpr sample_node Lit_Bool ''true'' []))
      (block_of [int_lit ''1'']) (Some (BlockE (BlockExpr sample_node [int_lit ''2''])))))]])"
proof
  show "accepts [let_of ''v'' (Some (IfExpr sample_node (Some (LiteralExpr sample_node Lit_Bool ''true'' []))
      (block_of [int_lit ''1'']) (Some (BlockE (BlockExpr sample_node [int_lit ''2''])))))]"
    by code_simp
qed (simp add: emitter_eval fn_of_def file_of_def cong: state_bind_weak)

text \<open>A binding of an inner block replaces the outer one of the same name for good.\<close>

lemma inner_binding_leaks:
  "emitted_blocks [fn_of [] ''main'' [let_of ''x'' (int_lit ''1''),
      Some (BlockE (BlockExpr sample_node [let_of ''x'' (int_lit ''2'')])), return_of (sample_name ''x'')]] =
     [[Alloca 1 LI64 ''x'', Alloca 0 LI64 ''x'', Store (ConstInt LI64 1) (AllocaV 0 LI64),
       Store (ConstInt LI64 2) (AllocaV 1 LI64), Load 2 LI64 (AllocaV 1 LI64) ''x'', Ret (Some (InstrV 2 LI64))]]"
  by (simp add: emitter_eval fn_of_def file_of_def cong: state_bind_weak)

text \<open>The field initialisers of a \<^verbatim>\<open>new iso\<close> are not compiled.\<close>

lemma new_iso_drops_fields:
  assumes "tr_capability t = Cap_Iso"
  shows "emitExpr (NewExpr n (Some t) strategy fis) = emitExpr (NewExpr n (Some t) strategy [])"
  unfolding emitExpr.simps emitNew_def option.sel assms if_P [OF refl [of Cap_Iso]] ..

text \<open>
  A call of a local function by its simple name, when another module has a function of that name: the checker resolves
  it, and the generator compiles it to the constant 0 without evaluating anything.
\<close>

abbreviation ambiguous_functions :: "fn_decl list" where
  "ambiguous_functions \<equiv> [fn_of [''m''] ''g'' [return_of (int_lit ''1'')], fn_of [''n''] ''g'' [return_of (int_lit ''2'')],
     fn_of [''m''] ''h'' [return_of (Some (CallExpr sample_node (sample_name ''g'') []))]]"

lemma ambiguous_call_compiles_to_zero:
  "emitted_blocks ambiguous_functions ! 2 = [Ret (Some (ConstInt LI64 0))]"
  by (simp add: emitter_eval fn_of_def file_of_def functionKey_def qualifiedName_def cong: state_bind_weak)

end
