(* ===== verification/Gura_Driver.thy ===== *)
theory Gura_Driver
  imports Gura_CodeGen_Verdict Gura_Parser_Total "HOL-Library.Char_ord" "HOL-Library.List_Lexorder"
begin

section \<open>The driver\<close>

text \<open>
  The model of \<^verbatim>\<open>src/driver/Driver.cpp\<close>: the commands \<^verbatim>\<open>lex\<close>, \<^verbatim>\<open>parse\<close>, \<^verbatim>\<open>check\<close>,
  \<^verbatim>\<open>emit-llvm\<close> and \<^verbatim>\<open>build\<close>, with the composition of the lexer, the parser, the checker and the code
  generator that each of them makes. The file system, the environment, the C library's \<^verbatim>\<open>system\<close> and LLVM's
  module printer are the fields of \<open>host\<close>. A command yields its exit status, what it writes to the standard streams
  and its effects in order. An exception is a value of \<open>source_error\<close>; the outer option is \<open>None\<close> where
  the parser would not return.
\<close>

record host =
  hs_read :: "string \<Rightarrow> string option"
  hs_isDirectory :: "string \<Rightarrow> string + bool"
  hs_walk :: "string \<Rightarrow> string + (string \<times> bool) list"
  hs_relative :: "string \<Rightarrow> string \<Rightarrow> string option"
  hs_tempDirectory :: "string + string"
  hs_pid :: int
  hs_writable :: "string \<Rightarrow> bool"
  hs_getenv :: "string \<Rightarrow> string option"
  hs_system :: "string \<Rightarrow> int"
  hs_outOfRange :: string
  hs_llvm :: bool
  hs_printModule :: "emitter \<Rightarrow> string"

datatype effect = WriteFile string string | RunCommand string | RemoveFile string

record run_outcome =
  oc_status :: int
  oc_out :: string
  oc_err :: string
  oc_effects :: "effect list"

abbreviation eol :: string where
  "eol \<equiv> [CHR 0x0A]"

abbreviation succeeds :: "string \<Rightarrow> run_outcome" where
  "succeeds txt \<equiv> \<lparr>oc_status = 0, oc_out = txt, oc_err = [], oc_effects = []\<rparr>"

abbreviation fails_with :: "int \<Rightarrow> string \<Rightarrow> run_outcome" where
  "fails_with status txt \<equiv> \<lparr>oc_status = status, oc_out = [], oc_err = txt, oc_effects = []\<rparr>"


subsection \<open>Paths\<close>

text \<open>\<^verbatim>\<open>std::filesystem::path\<close> on POSIX: the decomposition of its string.\<close>

fun split_slash :: "string \<Rightarrow> string list" where
  "split_slash [] = [[]]"
| "split_slash (c # cs) =
     (if c = CHR ''/'' then [] # split_slash cs
      else case split_slash cs of [] \<Rightarrow> [[c]] | w # ws \<Rightarrow> (c # w) # ws)"

definition path_filename :: "string \<Rightarrow> string" where
  "path_filename p = last (split_slash p)"

definition filename_stem :: "string \<Rightarrow> string" where
  "filename_stem n =
     (let k = length (takeWhile (\<lambda>c. c \<noteq> CHR ''.'') (rev n)) in
      if n = ''..'' \<or> length n \<le> k + 1 then n else take (length n - k - 1) n)"

definition path_stem :: "string \<Rightarrow> string" where
  "path_stem p = filename_stem (path_filename p)"

definition path_extension :: "string \<Rightarrow> string" where
  "path_extension p = drop (length (path_stem p)) (path_filename p)"

definition without_extension :: "string \<Rightarrow> string" where
  "without_extension p = take (length p - length (path_extension p)) p"

definition parent_path :: "string \<Rightarrow> string" where
  "parent_path p =
     (let d = take (length p - length (path_filename p)) p;
          e = rev (dropWhile (\<lambda>c. c = CHR ''/'') (rev d))
      in if d \<noteq> [] \<and> e = [] then ''/'' else e)"

definition path_elements :: "string \<Rightarrow> string list" where
  "path_elements p = (if p \<noteq> [] \<and> hd p = CHR ''/'' then [''/''] else []) @ filter (\<lambda>w. w \<noteq> []) (split_slash p)"

definition path_append :: "string \<Rightarrow> string \<Rightarrow> string" where
  "path_append d n = (if d \<noteq> [] \<and> last d \<noteq> CHR ''/'' then d @ ''/'' @ n else d @ n)"

definition relativeSortKey :: "host \<Rightarrow> string \<Rightarrow> string \<Rightarrow> string" where
  "relativeSortKey h root path = (case hs_relative h path root of None \<Rightarrow> path | Some r \<Rightarrow> r)"


subsection \<open>Packages\<close>

record package_input =
  pi_root :: string
  pi_files :: "string list"

definition collectPackageInput :: "host \<Rightarrow> string \<Rightarrow> source_error + package_input" where
  "collectPackageInput h inputPath =
     (case hs_isDirectory h inputPath of
        Inr True \<Rightarrow>
          (case hs_walk h inputPath of
             Inl msg \<Rightarrow> Inl (Runtime_error msg)
           | Inr entries \<Rightarrow>
               (let files = sort_key (relativeSortKey h inputPath)
                  (map fst (filter (\<lambda>(p, regular). regular \<and> path_extension p = ''.gura'') entries))
                in if files = []
                   then Inl (Runtime_error (''package directory contains no .gura files: '' @ inputPath))
                   else Inr \<lparr>pi_root = inputPath, pi_files = files\<rparr>))
      | Inr False \<Rightarrow> Inr \<lparr>pi_root = parent_path inputPath, pi_files = [inputPath]\<rparr>
      | Inl msg \<Rightarrow>
          Inl (Runtime_error (''failed to inspect input path '' @ q inputPath @ '': '' @ msg)))"

definition modulePathFromFile :: "host \<Rightarrow> package_input \<Rightarrow> string \<Rightarrow> path" where
  "modulePathFromFile h input filePath =
     (let segments = filter (\<lambda>w. w \<noteq> [] \<and> w \<noteq> ''.'')
            (path_elements (without_extension (relativeSortKey h (pi_root input) filePath)))
      in if segments = [] then [path_stem filePath] else segments)"

definition resolve_module :: "host \<Rightarrow> package_input \<Rightarrow> string \<Rightarrow> ast_file \<Rightarrow> ast_file" where
  "resolve_module h input filePath f =
     (case sf_explicitModule f of
        Some m \<Rightarrow> f\<lparr>sf_resolvedModule := m\<rparr>
      | None \<Rightarrow>
          (if length (pi_files input) > 1 then f\<lparr>sf_resolvedModule := modulePathFromFile h input filePath\<rparr> else f))"

definition parse_text :: "string \<Rightarrow> diagnostic_engine \<Rightarrow> (ast_file \<times> diagnostic_engine) option" where
  "parse_text txt de =
     map_option (\<lambda>(f, st). (f, ps_diagnostics st)) (parseSourceFile (Parser_init (lexAll txt) de))"

definition load_text :: "host \<Rightarrow> string \<Rightarrow> source_manager \<Rightarrow> source_error + (string \<times> source_manager)" where
  "load_text h path sm =
     (case loadFile (hs_read h) path sm of
        (Inl e, _) \<Rightarrow> Inl e
      | (Inr i, sm') \<Rightarrow> (case SourceManager_contents sm' i of Inl e \<Rightarrow> Inl e | Inr txt \<Rightarrow> Inr (txt, sm')))"

type_synonym 'a parsed = "((source_error + 'a option) \<times> diagnostic_engine) option"

fun parse_files ::
    "host \<Rightarrow> package_input \<Rightarrow> string list \<Rightarrow> source_manager \<Rightarrow> diagnostic_engine \<Rightarrow> ast_file list \<Rightarrow> ast_file list parsed" where
  "parse_files h input [] sm de files = Some (Inr (Some files), de)"
| "parse_files h input (p # ps) sm de files =
     (case load_text h p sm of
        Inl e \<Rightarrow> Some (Inl e, de)
      | Inr (txt, sm') \<Rightarrow>
          (case parse_text txt de of
             None \<Rightarrow> None
           | Some (f, de') \<Rightarrow>
               (if DiagnosticEngine_hasError de' then Some (Inr None, de')
                else parse_files h input ps sm' de' (files @ [resolve_module h input p f]))))"

definition parsePackage :: "host \<Rightarrow> package_input \<Rightarrow> source_manager \<Rightarrow> diagnostic_engine \<Rightarrow> ast_file list parsed" where
  "parsePackage h input sm de = parse_files h input (pi_files input) sm de []"

fun set_origin :: "path \<Rightarrow> import_decl list \<Rightarrow> decl \<Rightarrow> decl" where
  "set_origin m is (DFn d) = DFn (d\<lparr>d_modulePath := m, d_imports := is\<rparr>)"
| "set_origin m is (DStruct d) = DStruct (d\<lparr>d_modulePath := m, d_imports := is\<rparr>)"
| "set_origin m is (DTrait d) = DTrait (d\<lparr>d_modulePath := m, d_imports := is\<rparr>)"
| "set_origin m is (DImpl d) = DImpl (d\<lparr>d_modulePath := m, d_imports := is\<rparr>)"

definition flattenPackageForLegacySema :: "ast_file list \<Rightarrow> ast_file" where
  "flattenPackageForLegacySema files =
     \<lparr>node_id = 0, node_span = default_span, sf_explicitModule = None, sf_resolvedModule = [], sf_imports = [],
      sf_declarations = concat (map (\<lambda>f.
        map (map_option (set_origin (sf_resolvedModule f) (sf_imports f))) (sf_declarations f)) files)\<rparr>"

definition parsePackagePath :: "host \<Rightarrow> string \<Rightarrow> (ast_file \<times> nat) parsed" where
  "parsePackagePath h path =
     (let de = \<lparr>diagnostics = []\<rparr> in
      case collectPackageInput h path of
        Inl e \<Rightarrow> Some (Inl e, de)
      | Inr input \<Rightarrow>
          map_option (\<lambda>(r, de'). (map_sum id (map_option (\<lambda>files.
              (flattenPackageForLegacySema files, length (pi_files input)))) r, de'))
            (parsePackage h input \<lparr>sm_files = []\<rparr> de))"


subsection \<open>Commands\<close>

definition hasGenericFunctions :: "ast_file \<Rightarrow> bool" where
  "hasGenericFunctions f =
     list_ex (\<lambda>d. case d of Some (DFn fn) \<Rightarrow> fn_genericParams fn \<noteq> [] | _ \<Rightarrow> False) (sf_declarations f)"

fun find_main :: "decl option list \<Rightarrow> fn_decl option" where
  "find_main [] = None"
| "find_main (d # ds) =
     (case d of Some (DFn fn) \<Rightarrow> if fn_name fn = ''main'' then Some fn else find_main ds | _ \<Rightarrow> find_main ds)"

definition findMain :: "ast_file \<Rightarrow> fn_decl option" where
  "findMain f = find_main (sf_declarations f)"

definition isExecutableMain :: "fn_decl \<Rightarrow> bool" where
  "isExecutableMain fn \<longleftrightarrow> fn_genericParams fn = [] \<and> fn_params fn = [] \<and>
     (case fn_returnType fn of Some t \<Rightarrow> tr_capability t = Cap_None \<and> tr_name t = ''i64'' | None \<Rightarrow> False)"

fun quote_chars :: "string \<Rightarrow> string" where
  "quote_chars [] = []"
| "quote_chars (c # cs) =
     (if c = CHR 0x27 then [CHR 0x27, CHR 0x5C, CHR 0x27, CHR 0x27] else [c]) @ quote_chars cs"

definition shellQuote :: "string \<Rightarrow> string" where
  "shellQuote value = [CHR 0x27] @ quote_chars value @ [CHR 0x27]"

definition int_to_dec :: "int \<Rightarrow> string" where
  "int_to_dec n = (if n < 0 then CHR ''-'' # nat_to_dec (nat (- n)) else nat_to_dec (nat n))"

text \<open>The counter is the static variable of \<^verbatim>\<open>temporaryIrPath\<close>.\<close>

definition temporaryIrPath :: "host \<Rightarrow> nat \<Rightarrow> source_error + string" where
  "temporaryIrPath h counter =
     (case hs_tempDirectory h of
        Inl msg \<Rightarrow> Inl (Runtime_error msg)
      | Inr d \<Rightarrow> Inr (path_append d
          (''gura-'' @ int_to_dec (hs_pid h) @ ''-'' @ nat_to_dec counter @ ''.ll'')))"

definition error_what :: "host \<Rightarrow> source_error \<Rightarrow> string" where
  "error_what h e = (case e of Runtime_error msg \<Rightarrow> msg | Out_of_range \<Rightarrow> hs_outOfRange h)"

definition caught :: "host \<Rightarrow> source_error \<Rightarrow> run_outcome" where
  "caught h e = fails_with 1 (error_what h e @ eol)"

definition printVersion :: run_outcome where
  "printVersion = succeeds (''gura 0.1.0'' @ eol)"

definition print_token :: "token \<Rightarrow> string" where
  "print_token t = tokenKindName (tok_kind t) @ '' '' @ q (tok_text t) @ eol"

definition lexFile :: "host \<Rightarrow> string \<Rightarrow> source_error + run_outcome" where
  "lexFile h path =
     (case load_text h path \<lparr>sm_files = []\<rparr> of
        Inl e \<Rightarrow> Inl e
      | Inr (txt, _) \<Rightarrow> Inr (succeeds (concat (map print_token (lexAll txt)))))"

definition parseFile :: "host \<Rightarrow> string \<Rightarrow> run_outcome option" where
  "parseFile h path =
     map_option (\<lambda>(r, de). case r of
         Inl e \<Rightarrow> caught h e
       | Inr None \<Rightarrow> fails_with 1 (DiagnosticEngine_format de)
       | Inr (Some (f, fileCount)) \<Rightarrow>
           (if DiagnosticEngine_hasError de then fails_with 1 (DiagnosticEngine_format de)
            else succeeds (''parsed '' @ nat_to_dec (length (sf_declarations f)) @ '' declaration(s) from ''
              @ nat_to_dec fileCount @ '' file(s)'' @ eol)))
       (parsePackagePath h path)"

text \<open>
  The lines that \<^verbatim>\<open>checkFile\<close>, \<^verbatim>\<open>emitLlvm\<close> and \<^verbatim>\<open>buildExecutable\<close> have in common: parse the package
  and check it. The result is the outcome of a failure or the checked file.
\<close>

definition checked_package :: "host \<Rightarrow> string \<Rightarrow> (run_outcome + ast_file) option" where
  "checked_package h path =
     map_option (\<lambda>(r, de). case r of
         Inl e \<Rightarrow> Inl (caught h e)
       | Inr None \<Rightarrow> Inl (fails_with 1 (DiagnosticEngine_format de))
       | Inr (Some (f, _)) \<Rightarrow>
           (if DiagnosticEngine_hasError de then Inl (fails_with 1 (DiagnosticEngine_format de))
            else let (ok, s) = run_state (Sema_check f) (Sema_init de) in
              if \<not> ok then Inl (fails_with 1 (DiagnosticEngine_format (diags s))) else Inr f))
       (parsePackagePath h path)"

definition checkFile :: "host \<Rightarrow> string \<Rightarrow> run_outcome option" where
  "checkFile h path =
     map_option (\<lambda>r. case r of Inl oc \<Rightarrow> oc | Inr _ \<Rightarrow> succeeds (''check ok'' @ eol)) (checked_package h path)"

definition generic_message :: string where
  "generic_message = ''LLVM codegen for generic functions is not supported yet'' @ eol"

definition emitLlvm :: "host \<Rightarrow> string \<Rightarrow> run_outcome option" where
  "emitLlvm h path =
     map_option (\<lambda>r. case r of
         Inl oc \<Rightarrow> oc
       | Inr f \<Rightarrow>
           (if hasGenericFunctions f then fails_with 1 generic_message
            else succeeds (emitModule (hs_llvm h) (hs_printModule h) f)))
       (checked_package h path)"

fun build_options :: "string \<Rightarrow> string list \<Rightarrow> run_outcome + string" where
  "build_options outputPath [] = Inr outputPath"
| "build_options outputPath (arg # args) =
     (if arg \<noteq> ''-o'' then Inl (fails_with 2 (''unknown build option: '' @ arg @ eol))
      else case args of
        [] \<Rightarrow> Inl (fails_with 2 (''missing output path after -o'' @ eol))
      | out # rest \<Rightarrow> build_options out rest)"

definition link_command :: "host \<Rightarrow> string \<Rightarrow> string \<Rightarrow> string" where
  "link_command h irPath outputPath =
     shellQuote (case hs_getenv h ''GURA_CLANG'' of Some clang \<Rightarrow> clang | None \<Rightarrow> ''clang++'')
       @ '' '' @ shellQuote irPath @ '' -o '' @ shellQuote outputPath"

definition link_module :: "host \<Rightarrow> string \<Rightarrow> string \<Rightarrow> string \<Rightarrow> run_outcome" where
  "link_module h ir irPath outputPath =
     (if \<not> hs_writable h irPath
      then (fails_with 1 (''failed to write temporary IR file: '' @ irPath @ eol))\<lparr>oc_effects := [RemoveFile irPath]\<rparr>
      else
        (let command = link_command h irPath outputPath;
             status = hs_system h command;
             oc = (if status \<noteq> 0 then fails_with 1 (''executable link failed with status '' @ int_to_dec status @ eol)
                   else succeeds [])
         in oc\<lparr>oc_effects := [WriteFile irPath ir, RunCommand command, RemoveFile irPath]\<rparr>))"

definition build_checked :: "host \<Rightarrow> nat \<Rightarrow> string \<Rightarrow> ast_file \<Rightarrow> run_outcome" where
  "build_checked h counter outputPath f =
     (if hasGenericFunctions f then fails_with 1 generic_message
      else if (case findMain f of None \<Rightarrow> True | Some fn \<Rightarrow> \<not> isExecutableMain fn)
      then fails_with 1 (''executable build requires fn main(): i64'' @ eol)
      else case temporaryIrPath h counter of
        Inl e \<Rightarrow> caught h e
      | Inr irPath \<Rightarrow> link_module h (emitModule (hs_llvm h) (hs_printModule h) f) irPath outputPath)"

definition buildExecutable :: "host \<Rightarrow> nat \<Rightarrow> string list \<Rightarrow> run_outcome option" where
  "buildExecutable h counter args =
     (case args of
        [] \<Rightarrow> Some (fails_with 2 (''missing input file'' @ eol))
      | inputPath # options \<Rightarrow>
          (case build_options (path_stem inputPath) options of
             Inl oc \<Rightarrow> Some oc
           | Inr outputPath \<Rightarrow>
               (if \<not> hs_llvm h
                then Some (fails_with 1 (''LLVM support was not found at configure time; cannot build executable'' @ eol))
                else map_option (\<lambda>r. case r of Inl oc \<Rightarrow> oc | Inr f \<Rightarrow> build_checked h counter outputPath f)
                       (checked_package h inputPath))))"

definition Driver_run :: "host \<Rightarrow> string list \<Rightarrow> (source_error + run_outcome) option" where
  "Driver_run h args =
     (if length args \<le> 1 \<or> args ! 1 = ''--version'' then Some (Inr printVersion)
      else if length args < 3 then Some (Inr (fails_with 2 (''missing input file'' @ eol)))
      else if args ! 1 = ''lex'' then Some (lexFile h (args ! 2))
      else if args ! 1 = ''parse'' then map_option Inr (parseFile h (args ! 2))
      else if args ! 1 = ''check'' then map_option Inr (checkFile h (args ! 2))
      else if args ! 1 = ''emit-llvm'' then map_option Inr (emitLlvm h (args ! 2))
      else if args ! 1 = ''build'' then map_option Inr (buildExecutable h 0 (drop 2 args))
      else Some (Inr (fails_with 2 (''unknown command: '' @ args ! 1 @ eol))))"

end
