(* ===== verification/Gura_Driver_Example.thy ===== *)
theory Gura_Driver_Example
  imports Gura_Driver Gura_Lexer_Roundtrip
begin

section \<open>A program through the whole pipeline\<close>

text \<open>
  The program \<^verbatim>\<open>fn main ( ) : i64 { }\<close>, lexed, parsed and checked by the models of the three phases. It is
  the input at which the theorems about the driver are applied. The parser is evaluated by rewriting: the
  congruence rules keep the simplifier out of the parts of the term whose turn has not come.
\<close>

subsection \<open>Evaluating the parser\<close>

lemma bind_weak: "m = m' \<Longrightarrow> Option.bind m f = Option.bind m' f"
  by simp

lemmas parser_defs =
  Parser_init_def numericSuffix_def binaryPrecedence_def Parser_peek_def Parser_at_def Parser_advance_def
  Parser_consume_def Parser_error_def Parser_expect_def Parser_nextNodeId_def remaining_def ploop_def more_if_def
  path_step_def parsePath_def parse_capability_def parseTypeRef_def argument_step_def parseCallArguments_def
  parseMoveExpr_def parseFieldInit_def field_init_step_def parse_strategy_def parse_new_fields_def
  parse_new_name_def parseNewExpr_def parse_operand_def parseFreezeExpr_def parseMergeExpr_def parse_else_def
  parseIfExpr_def parseWhileExpr_def parse_region_name_def parseRegionExpr_def literal_of_def literal_tokens_def
  parse_array_literal_def some_expr_def parsePrimaryExpr_def postfix_step_def parsePostfixExpr_def
  binary_step_def parseBinaryExpr_def parseAssignExpr_def parseReturnExpr_def parseBindingExpr_def parseExpr_def
  block_step_def parseBlock_def bound_step_def parseGenericParam_def generic_step_def parseGenericParams_def
  param_step_def empty_fn_def parse_params_def parse_return_type_def parse_body_def parse_fn_rest_def
  parseFnDecl_def parseFieldDecl_def struct_step_def parseStructDecl_def trait_step_def parseTraitDecl_def
  impl_step_def parse_impl_header_def parseImplDecl_def parseDecl_def parseModuleHeader_def parse_alias_def
  parseImport_def import_step_def decl_step_def parseSourceFile_def

lemma pfuns_sel:
  "p_expr (pfuns_at (Suc n)) = parseExpr (pfuns_at n)" "p_assign (pfuns_at (Suc n)) = parseAssignExpr (pfuns_at n)"
  "p_binary (pfuns_at (Suc n)) = parseBinaryExpr (pfuns_at n)"
  "p_primary (pfuns_at (Suc n)) = parsePrimaryExpr (pfuns_at n)"
  "p_if (pfuns_at (Suc n)) = parseIfExpr (pfuns_at n)" "p_block (pfuns_at (Suc n)) = parseBlock (pfuns_at n)"
  by (simp_all add: pfuns_at.simps)

definition main_words :: "string list" where
  "main_words = [''fn'', ''main'', ''('', '')'', '':'', ''i64'', ''{'', ''}'']"

definition main_kinds :: "(token_kind \<times> string) list" where
  "main_kinds = [(KwFn, ''fn''), (Identifier, ''main''), (LParen, ''(''), (RParen, '')''), (Colon, '':''),
     (Identifier, ''i64''), (LBrace, ''{''), (RBrace, ''}''), (EndOfFile, [])]"

definition plain_main :: "fn_decl \<Rightarrow> bool" where
  "plain_main fn \<longleftrightarrow> d_modulePath fn = [] \<and> fn_name fn = ''main'' \<and> fn_genericParams fn = [] \<and> fn_params fn = [] \<and>
     (\<exists>n. fn_returnType fn = Some (TypeRef n Cap_None ''i64'' [''i64''] False False None)) \<and>
     (\<exists>n. fn_body fn = Some (BlockExpr n []))"

definition plain_file :: "ast_file \<Rightarrow> bool" where
  "plain_file f \<longleftrightarrow> sf_explicitModule f = None \<and> sf_resolvedModule f = [] \<and>
     (\<exists>fn. sf_declarations f = [Some (DFn fn)] \<and> plain_main fn)"

lemma parse_main:
  assumes "map (\<lambda>t. (tok_kind t, tok_text t)) ts = main_kinds"
  shows "\<exists>f st. parseSourceFile (Parser_init ts de) = Some (f, st) \<and> ps_diagnostics st = de \<and> plain_file f"
proof -
  have "\<exists>sp. t = \<lparr>tok_kind = k, tok_span = sp, tok_text = x\<rparr>" if "(tok_kind t, tok_text t) = (k, x)" for t k x
    using that by (cases t) auto
  with assms obtain s1 s2 s3 s4 s5 s6 s7 s8 s9 where "ts =
     [\<lparr>tok_kind = KwFn, tok_span = s1, tok_text = ''fn''\<rparr>, \<lparr>tok_kind = Identifier, tok_span = s2, tok_text = ''main''\<rparr>,
      \<lparr>tok_kind = LParen, tok_span = s3, tok_text = ''(''\<rparr>, \<lparr>tok_kind = RParen, tok_span = s4, tok_text = '')''\<rparr>,
      \<lparr>tok_kind = Colon, tok_span = s5, tok_text = '':''\<rparr>, \<lparr>tok_kind = Identifier, tok_span = s6, tok_text = ''i64''\<rparr>,
      \<lparr>tok_kind = LBrace, tok_span = s7, tok_text = ''{''\<rparr>, \<lparr>tok_kind = RBrace, tok_span = s8, tok_text = ''}''\<rparr>,
      \<lparr>tok_kind = EndOfFile, tok_span = s9, tok_text = []\<rparr>]"
    unfolding main_kinds_def by (auto simp: map_eq_Cons_conv) metis
  then show ?thesis
    by (simp add: parser_defs pfuns_sel Let_def plain_file_def plain_main_def cong: bind_weak let_weak_cong)
qed


lemma lex_main: "map (\<lambda>t. (tok_kind t, tok_text t)) (lexAll (print_words main_words)) = main_kinds"
proof -
  have "word_kind ''fn'' = Some KwFn" "word_kind ''main'' = Some Identifier" "word_kind ''('' = Some LParen"
    "word_kind '')'' = Some RParen" "word_kind '':'' = Some Colon" "word_kind ''i64'' = Some Identifier"
    "word_kind ''{'' = Some LBrace" "word_kind ''}'' = Some RBrace"
    by (simp_all add: word_kind_def ident_word_def int_word_def char_class_defs keywordKind_def
        keyword_table_def punct_table_def)
  then show ?thesis
    using lexAll_loop_words [of main_words "Lexer_init (print_words main_words)" "[]" "[]"] at_init
    by (simp add: lexAll_def main_words_def main_kinds_def)
qed

lemma parse_text_main:
  "\<exists>f. parse_text (print_words main_words) de = Some (f, de) \<and> plain_file f"
  using parse_main [OF lex_main, of de] by (auto simp: parse_text_def)


subsection \<open>Checking\<close>

definition plain_package :: "ast_file \<Rightarrow> bool" where
  "plain_package f \<longleftrightarrow> (\<exists>fn. sf_declarations f = [Some (DFn fn)] \<and> plain_main fn)"

lemma plain_collect_steps:
  assumes "plain_package f" "plain_main fn" "sf_declarations f = [Some (DFn fn)]"
  shows "run_state (collectModules f) s = ((), s\<lparr>modules := []\<rparr>)"
    "run_state (collectStructs f) s = ((), s\<lparr>structs := []\<rparr>)"
    "run_state (collectTraits f) s = ((), s\<lparr>traits := []\<rparr>)"
    "run_state (collectImplMethods f) s = ((), s)" "run_state (validateTraitImpls f) s = ((), s)"
  using assms by (simp_all add: collectModules_def collectStructs_def collectTraits_def collectImplMethods_def
      validateTraitImpls_def plain_main_def)

lemma plain_collect_function:
  assumes "plain_main fn" "\<not> um_contains (all_functions s) ''main''"
  shows "diags (snd (run_state (collect_function fn) s)) = diags s \<and>
    scopes (snd (run_state (collect_function fn) s)) = scopes s"
  using assms
  by (auto simp: plain_main_def collect_function_def typeFromAst_or_def report_if_def function_key_def unitType_def
      capabilityFromAst_def Let_def)

lemma plain_signatures:
  assumes "plain_main fn" "sf_declarations f = [Some (DFn fn)]"
  shows "diags (snd (run_state (collectFunctionSignatures f) s)) = diags s \<and>
    scopes (snd (run_state (collectFunctionSignatures f) s)) = scopes s"
  using assms
  by (simp add: collectFunctionSignatures_def case_prod_beta addBuiltin_sel plain_collect_function
      um_contains_iff [where m = "[]"])

lemma plain_check_fn:
  assumes "plain_main fn" "diags s = \<lparr>diagnostics = []\<rparr>" "scopes s = []"
  shows "fst (run_state (checkFn fn) s) \<and> diags (snd (run_state (checkFn fn) s)) = \<lparr>diagnostics = []\<rparr>"
  using assms
  by (auto simp: plain_main_def checkFn_def makeGenericEnv_def typeFromAst_or_def check_in_scope_def pushScope_def
      popScope_def no_error_def case_prod_beta DiagnosticEngine_hasError_def capabilityFromAst_def check_body_def
      checkBlock_def checkBlock_with_def block_scope_def)

lemma plain_accepted:
  assumes "plain_package f"
  shows "fst (run_state (Sema_check f) (Sema_init \<lparr>diagnostics = []\<rparr>))"
proof -
  obtain fn where fn: "plain_main fn" "sf_declarations f = [Some (DFn fn)]"
    using assms by (auto simp: plain_package_def)
  define s1 where "s1 = (Sema_init \<lparr>diagnostics = []\<rparr>)\<lparr>modules := [], structs := [], traits := []\<rparr>"
  show ?thesis
    using plain_check_fn [OF fn(1), of "(snd (run_state (collectFunctionSignatures f) s1))\<lparr>currentDecl := Some (DFn fn)\<rparr>"]
      plain_signatures [OF fn, of s1]
    by (simp add: Sema_check_def plain_collect_steps [OF assms fn] fn(2) case_prod_beta no_error_def s1_def
        DiagnosticEngine_hasError_def Sema_init_def)
qed


subsection \<open>The host\<close>

definition sample_host :: host where
  "sample_host = \<lparr>hs_read = (\<lambda>p. if p = ''a.gura'' then Some (print_words main_words) else None),
     hs_isDirectory = (\<lambda>_. Inr False), hs_walk = (\<lambda>_. Inr []), hs_relative = (\<lambda>_ _. None),
     hs_tempDirectory = Inr ''/tmp'', hs_pid = 42, hs_writable = (\<lambda>_. True), hs_getenv = (\<lambda>_. None),
     hs_system = (\<lambda>_. 0), hs_outOfRange = [], hs_llvm = True, hs_printModule = (\<lambda>_. ''module'')\<rparr>"

lemma sample_parse:
  "\<exists>f. parsePackagePath sample_host ''a.gura'' = Some (Inr (Some (f, 1)), \<lparr>diagnostics = []\<rparr>) \<and> plain_package f"
proof -
  obtain f where f: "parse_text (print_words main_words) \<lparr>diagnostics = []\<rparr> = Some (f, \<lparr>diagnostics = []\<rparr>)" "plain_file f"
    using parse_text_main by blast
  then show ?thesis
    by (auto simp: parsePackagePath_def collectPackageInput_def sample_host_def parsePackage_def load_text_def
        loadFile_def addVirtualFile_def SourceManager_contents_def SourceManager_file_def DiagnosticEngine_hasError_def
        resolve_module_def flattenPackageForLegacySema_def plain_package_def plain_file_def plain_main_def)
qed

lemma sample_checked: "\<exists>f. checked_package sample_host ''a.gura'' = Some (Inr f) \<and> plain_package f"
  using sample_parse plain_accepted
  by (force simp: checked_package_def case_prod_beta DiagnosticEngine_hasError_def)

end
