(* ===== verification/Gura_Exec.thy ===== *)
theory Gura_Exec
  imports Gura_Sema Gura_Lexer
begin

section \<open>A reference semantics of the scalar fragment\<close>

text \<open>
  The specification that the code generator is checked against: the meaning of functions over
  \<^verbatim>\<open>i64\<close> and \<^verbatim>\<open>bool\<close>, with blocks, bindings, assignments, conditionals, loops, returns and calls. Numbers are
  mathematical integers; an operation whose result does not fit into 64 bits, and a division by zero, has no
  result. Bindings are block-scoped. The interpreter is executable; its budget bounds nested calls, statements and
  iterations, and a program that does not terminate has no result under any budget.
\<close>

subsection \<open>Values and operators\<close>

datatype scalar = IntV int | BoolV bool

datatype scalar_type = I64T | BoolT

fun scalar_type_of :: "scalar \<Rightarrow> scalar_type" where
  "scalar_type_of (IntV _) = I64T"
| "scalar_type_of (BoolV _) = BoolT"

definition in_i64 :: "int \<Rightarrow> bool" where
  "in_i64 n \<longleftrightarrow> - (2 ^ 63) \<le> n \<and> n < 2 ^ 63"

definition checked :: "int \<Rightarrow> scalar option" where
  "checked n = (if in_i64 n then Some (IntV n) else None)"

text \<open>Division truncates towards zero, and the remainder has the sign of the dividend.\<close>

definition quot :: "int \<Rightarrow> int \<Rightarrow> int" where
  "quot a b = sgn a * sgn b * (\<bar>a\<bar> div \<bar>b\<bar>)"

fun apply_op :: "string \<Rightarrow> scalar \<Rightarrow> scalar \<Rightarrow> scalar option" where
  "apply_op op (IntV a) (IntV b) =
     (if op = ''+'' then checked (a + b)
      else if op = ''-'' then checked (a - b)
      else if op = ''*'' then checked (a * b)
      else if op = ''/'' then (if b = 0 then None else checked (quot a b))
      else if op = ''%'' then (if b = 0 \<or> \<not> in_i64 (quot a b) then None else Some (IntV (a - quot a b * b)))
      else if op = ''=='' then Some (BoolV (a = b))
      else if op = ''!='' then Some (BoolV (a \<noteq> b))
      else if op = ''<'' then Some (BoolV (a < b))
      else if op = ''<='' then Some (BoolV (a \<le> b))
      else if op = ''>'' then Some (BoolV (a > b))
      else if op = ''>='' then Some (BoolV (a \<ge> b))
      else None)"
| "apply_op op (BoolV a) (BoolV b) =
     (if op = ''=='' then Some (BoolV (a = b)) else if op = ''!='' then Some (BoolV (a \<noteq> b)) else None)"
| "apply_op _ _ _ = None"

definition literal_scalar :: "literal_kind \<Rightarrow> string \<Rightarrow> string \<Rightarrow> scalar option" where
  "literal_scalar kind txt suffix =
     (case kind of
        Lit_Bool \<Rightarrow> Some (BoolV (txt = ''true''))
      | Lit_Integer \<Rightarrow>
          (let ds = takeWhile isdigit txt in
           if ds \<noteq> [] \<and> txt = ds @ suffix then checked (int (dec_value ds)) else None)
      | _ \<Rightarrow> None)"

text \<open>The scalar types that a declaration can name.\<close>

fun scalar_of_ref :: "type_ref option \<Rightarrow> scalar_type option" where
  "scalar_of_ref (Some (TypeRef n cap name p opt isArray elem)) =
     (if cap = Cap_Iso \<or> isArray then None
      else if name = ''i64'' then Some I64T else if name = ''bool'' then Some BoolT else None)"
| "scalar_of_ref None = None"


subsection \<open>Scopes\<close>

type_synonym frames = "(string, scalar) unordered_map list"

fun find_var :: "frames \<Rightarrow> string \<Rightarrow> scalar option" where
  "find_var [] x = None"
| "find_var (fr # frs) x = (case um_find fr x of Some v \<Rightarrow> Some v | None \<Rightarrow> find_var frs x)"

fun bind_var :: "string \<Rightarrow> scalar \<Rightarrow> frames \<Rightarrow> frames" where
  "bind_var x v [] = [[(x, v)]]"
| "bind_var x v (fr # frs) = um_set x v fr # frs"

fun assign_var :: "string \<Rightarrow> scalar \<Rightarrow> frames \<Rightarrow> frames" where
  "assign_var x v [] = []"
| "assign_var x v (fr # frs) = (if um_contains fr x then um_set x v fr # frs else fr # assign_var x v frs)"


subsection \<open>Expressions\<close>

type_synonym calls = "string \<Rightarrow> scalar list \<Rightarrow> scalar option"

fun eval :: "calls \<Rightarrow> frames \<Rightarrow> expr \<Rightarrow> scalar option"
  and eval_args :: "calls \<Rightarrow> frames \<Rightarrow> expr option list \<Rightarrow> scalar list option" where
  "eval cf \<sigma> (LiteralExpr n kind txt suffix) = literal_scalar kind txt suffix"
| "eval cf \<sigma> (NameExpr n x) = find_var \<sigma> x"
| "eval cf \<sigma> (BinaryExpr n op (Some l) (Some r)) =
     Option.bind (eval cf \<sigma> l) (\<lambda>a. Option.bind (eval cf \<sigma> r) (apply_op op a))"
| "eval cf \<sigma> (CallExpr n (Some (NameExpr m f)) args) = Option.bind (eval_args cf \<sigma> args) (cf f)"
| "eval cf \<sigma> _ = None"
| "eval_args cf \<sigma> [] = Some []"
| "eval_args cf \<sigma> (None # es) = None"
| "eval_args cf \<sigma> (Some e # es) =
     Option.bind (eval cf \<sigma> e) (\<lambda>v. map_option ((#) v) (eval_args cf \<sigma> es))"


subsection \<open>Statements\<close>

datatype completion = Normally frames | Returning scalar

fun exec_list :: "(frames \<Rightarrow> expr \<Rightarrow> completion option) \<Rightarrow> frames \<Rightarrow> expr option list \<Rightarrow> completion option" where
  "exec_list run \<sigma> [] = Some (Normally \<sigma>)"
| "exec_list run \<sigma> (None # es) = exec_list run \<sigma> es"
| "exec_list run \<sigma> (Some e # es) =
     (case run \<sigma> e of Some (Normally \<sigma>') \<Rightarrow> exec_list run \<sigma>' es | r \<Rightarrow> r)"

definition exec_block :: "(frames \<Rightarrow> expr \<Rightarrow> completion option) \<Rightarrow> frames \<Rightarrow> expr option list \<Rightarrow> completion option" where
  "exec_block run \<sigma> es =
     (case exec_list run ([] # \<sigma>) es of Some (Normally \<sigma>') \<Rightarrow> Some (Normally (tl \<sigma>')) | r \<Rightarrow> r)"

fun exec :: "calls \<Rightarrow> nat \<Rightarrow> frames \<Rightarrow> expr \<Rightarrow> completion option" where
  "exec cf 0 \<sigma> e = None"
| "exec cf (Suc n) \<sigma> (BindingExpr m isVar x t (Some e)) =
     (case eval cf \<sigma> e of
        Some v \<Rightarrow> (if t = None \<or> scalar_of_ref t = Some (scalar_type_of v) then Some (Normally (bind_var x v \<sigma>)) else None)
      | None \<Rightarrow> None)"
| "exec cf (Suc n) \<sigma> (AssignExpr m (Some (NameExpr m' x)) (Some e)) =
     (case (eval cf \<sigma> e, find_var \<sigma> x) of
        (Some v, Some old) \<Rightarrow>
          (if scalar_type_of v = scalar_type_of old then Some (Normally (assign_var x v \<sigma>)) else None)
      | _ \<Rightarrow> None)"
| "exec cf (Suc n) \<sigma> (ReturnExpr m (Some e)) = map_option Returning (eval cf \<sigma> e)"
| "exec cf (Suc n) \<sigma> (IfExpr m (Some c) (Some (BlockExpr m' es)) els) =
     (case eval cf \<sigma> c of
        Some (BoolV b) \<Rightarrow>
          (if b then exec_block (exec cf n) \<sigma> es
           else case els of None \<Rightarrow> Some (Normally \<sigma>) | Some e \<Rightarrow> exec cf n \<sigma> e)
      | _ \<Rightarrow> None)"
| "exec cf (Suc n) \<sigma> (WhileExpr m (Some c) (Some (BlockExpr m' es))) =
     (case eval cf \<sigma> c of
        Some (BoolV b) \<Rightarrow>
          (if b then case exec_block (exec cf n) \<sigma> es of
               Some (Normally \<sigma>') \<Rightarrow> exec cf n \<sigma>' (WhileExpr m (Some c) (Some (BlockExpr m' es)))
             | r \<Rightarrow> r
           else Some (Normally \<sigma>))
      | _ \<Rightarrow> None)"
| "exec cf (Suc n) \<sigma> (BlockE (BlockExpr m es)) = exec_block (exec cf n) \<sigma> es"
| "exec cf (Suc n) \<sigma> e = map_option (\<lambda>_. Normally \<sigma>) (eval cf \<sigma> e)"


subsection \<open>Functions\<close>

definition run_function :: "calls \<Rightarrow> nat \<Rightarrow> fn_decl \<Rightarrow> scalar list \<Rightarrow> scalar option" where
  "run_function cf n fn args =
     (if map (\<lambda>p. scalar_of_ref (pm_type p)) (fn_params fn) = map (Some \<circ> scalar_type_of) args
      then case fn_body fn of
          Some b \<Rightarrow>
            (case exec_block (exec cf n) [zip (map pm_name (fn_params fn)) args] (blk_expressions b) of
               Some (Returning v) \<Rightarrow> (if scalar_of_ref (fn_returnType fn) = Some (scalar_type_of v) then Some v else None)
             | _ \<Rightarrow> None)
        | None \<Rightarrow> None
      else None)"

primrec call_function_in :: "fn_decl list \<Rightarrow> nat \<Rightarrow> calls" where
  "call_function_in fns 0 = (\<lambda>name args. None)"
| "call_function_in fns (Suc n) = (\<lambda>name args.
     case find (\<lambda>fn. fn_name fn = name) fns of
       Some fn \<Rightarrow> run_function (call_function_in fns n) n fn args
     | None \<Rightarrow> None)"


subsection \<open>The programs of the fragment\<close>

text \<open>Expressions over the functions \<open>F\<close>.\<close>

fun scalar_expr :: "string set \<Rightarrow> expr \<Rightarrow> bool" and scalar_args :: "string set \<Rightarrow> expr option list \<Rightarrow> bool" where
  "scalar_expr F (LiteralExpr n kind txt suffix) \<longleftrightarrow>
     kind = Lit_Bool \<or> kind = Lit_Integer \<and> (suffix = [] \<or> suffix = ''i64'')"
| "scalar_expr F (NameExpr n x) \<longleftrightarrow> True"
| "scalar_expr F (BinaryExpr n op (Some l) (Some r)) \<longleftrightarrow> scalar_expr F l \<and> scalar_expr F r"
| "scalar_expr F (CallExpr n (Some (NameExpr m f)) args) \<longleftrightarrow> f \<in> F \<and> scalar_args F args"
| "scalar_expr F _ \<longleftrightarrow> False"
| "scalar_args F [] \<longleftrightarrow> True"
| "scalar_args F (None # es) \<longleftrightarrow> False"
| "scalar_args F (Some e # es) \<longleftrightarrow> scalar_expr F e \<and> scalar_args F es"

text \<open>
  Statements in a scope with the names \<open>V\<close>. No binding hides a name that is visible: the code generator does not
  restore a hidden name at the end of its block.
\<close>

fun binds :: "expr \<Rightarrow> string set" where
  "binds (BindingExpr n isVar x t e) = {x}"
| "binds _ = {}"

fun scalar_stmt :: "string set \<Rightarrow> string set \<Rightarrow> expr \<Rightarrow> bool"
  and scalar_block :: "string set \<Rightarrow> string set \<Rightarrow> expr option list \<Rightarrow> bool" where
  "scalar_stmt F V (BindingExpr n isVar x t (Some e)) \<longleftrightarrow>
     x \<notin> V \<and> scalar_expr F e \<and> (t = None \<or> scalar_of_ref t \<noteq> None)"
| "scalar_stmt F V (AssignExpr n (Some (NameExpr m x)) (Some e)) \<longleftrightarrow> scalar_expr F e"
| "scalar_stmt F V (ReturnExpr n (Some e)) \<longleftrightarrow> scalar_expr F e"
| "scalar_stmt F V (IfExpr n (Some c) (Some (BlockExpr m es)) els) \<longleftrightarrow>
     scalar_expr F c \<and> scalar_block F V es \<and>
     (case els of None \<Rightarrow> True | Some e \<Rightarrow> binds e = {} \<and> scalar_stmt F V e)"
| "scalar_stmt F V (WhileExpr n (Some c) (Some (BlockExpr m es))) \<longleftrightarrow> scalar_expr F c \<and> scalar_block F V es"
| "scalar_stmt F V (BlockE (BlockExpr n es)) \<longleftrightarrow> scalar_block F V es"
| "scalar_stmt F V e \<longleftrightarrow> scalar_expr F e"
| "scalar_block F V [] \<longleftrightarrow> True"
| "scalar_block F V (None # es) \<longleftrightarrow> scalar_block F V es"
| "scalar_block F V (Some e # es) \<longleftrightarrow> scalar_stmt F V e \<and> scalar_block F (V \<union> binds e) es"

definition scalar_function :: "string set \<Rightarrow> fn_decl \<Rightarrow> bool" where
  "scalar_function F fn \<longleftrightarrow>
     fn_genericParams fn = [] \<and> d_modulePath fn = [] \<and> distinct (map pm_name (fn_params fn)) \<and>
     (\<forall>p\<in>set (fn_params fn). scalar_of_ref (pm_type p) \<noteq> None) \<and> scalar_of_ref (fn_returnType fn) \<noteq> None \<and>
     (case fn_body fn of Some b \<Rightarrow> scalar_block F (pm_name ` set (fn_params fn)) (blk_expressions b) | None \<Rightarrow> False)"

end
