(* ===== verification/Gura_IR_Exec.thy ===== *)
theory Gura_IR_Exec
  imports Gura_Exec Gura_CodeGen_Expr
begin

section \<open>Running emitted code\<close>

text \<open>
  The meaning, after the LLVM language reference, of the instructions that the code generator emits for the scalar
  fragment: a function runs in blocks with virtual registers and with the stack slots that its allocas reserve on
  entry. Arithmetic is that of 64-bit words; an \<^verbatim>\<open>nsw\<close> operation that overflows, a division without a result and a
  load of a slot that was not written have no meaning, so that the code gets stuck there.
\<close>

datatype ir_value = W64 u64 | W1 bool

fun ir_type :: "ir_value \<Rightarrow> ll_type" where
  "ir_type (W64 _) = LI64"
| "ir_type (W1 _) = LI1"

type_synonym slots = "nat \<rightharpoonup> ir_value"

fun ir_operand :: "ir_value list \<Rightarrow> slots \<Rightarrow> ll_value \<Rightarrow> ir_value option" where
  "ir_operand args regs (ConstInt t n) =
     (if t = LI64 then Some (W64 (word_of_int n)) else if t = LI1 then Some (W1 (odd n)) else None)"
| "ir_operand args regs (ConstNull t) = (if t = LI64 then Some (W64 0) else if t = LI1 then Some (W1 False) else None)"
| "ir_operand args regs (ArgV i t) = (if i < length args \<and> ir_type (args ! i) = t then Some (args ! i) else None)"
| "ir_operand args regs (InstrV i t) =
     (case regs i of Some w \<Rightarrow> if ir_type w = t then Some w else None | None \<Rightarrow> None)"
| "ir_operand args regs _ = None"

definition i64 :: "int \<Rightarrow> ir_value" where
  "i64 n = W64 (word_of_int n)"

definition nsw :: "int \<Rightarrow> ir_value option" where
  "nsw n = (if in_i64 n then Some (i64 n) else None)"

fun ir_binop :: "ll_binop \<Rightarrow> ir_value \<Rightarrow> ir_value \<Rightarrow> ir_value option" where
  "ir_binop op (W64 a) (W64 b) =
     (case op of
        NSWAdd \<Rightarrow> nsw (sint a + sint b)
      | NSWSub \<Rightarrow> nsw (sint a - sint b)
      | NSWMul \<Rightarrow> nsw (sint a * sint b)
      | SDiv \<Rightarrow> (if b = 0 then None else nsw (quot (sint a) (sint b)))
      | SRem \<Rightarrow> (if b = 0 \<or> \<not> in_i64 (quot (sint a) (sint b)) then None
                  else Some (i64 (sint a - quot (sint a) (sint b) * sint b)))
      | ICmpEQ \<Rightarrow> Some (W1 (a = b))
      | ICmpNE \<Rightarrow> Some (W1 (a \<noteq> b))
      | ICmpSLT \<Rightarrow> Some (W1 (a <s b))
      | ICmpSLE \<Rightarrow> Some (W1 (a \<le>s b))
      | ICmpSGT \<Rightarrow> Some (W1 (b <s a))
      | ICmpSGE \<Rightarrow> Some (W1 (b \<le>s a))
      | _ \<Rightarrow> None)"
| "ir_binop op (W1 a) (W1 b) =
     (case op of ICmpEQ \<Rightarrow> Some (W1 (a = b)) | ICmpNE \<Rightarrow> Some (W1 (a \<noteq> b)) | _ \<Rightarrow> None)"
| "ir_binop _ _ _ = None"

text \<open>The instructions of a block but its allocas, and where a function starts.\<close>

fun is_alloca :: "ll_instr \<Rightarrow> bool" where
  "is_alloca (Alloca _ _ _) = True"
| "is_alloca _ = False"

definition ir_text :: "emitter \<Rightarrow> nat \<Rightarrow> ll_instr list" where
  "ir_text s b = filter (\<lambda>i. \<not> is_alloca i) (bb_instrs (em_blocks s ! b))"

definition ir_entry :: "emitter \<Rightarrow> nat \<Rightarrow> nat" where
  "ir_entry s f = hd (lf_blocks (em_module s ! f))"

text \<open>Before the instruction \<open>k\<close> of a block, or back in the caller with a result.\<close>

datatype ir_config = At nat nat slots slots | Done ir_value

inductive ir_step :: "(nat \<Rightarrow> ll_instr list) \<Rightarrow> (nat \<Rightarrow> nat) \<Rightarrow> ir_value list \<Rightarrow> ir_config \<Rightarrow> ir_config \<Rightarrow> bool"
  and ir_run :: "(nat \<Rightarrow> ll_instr list) \<Rightarrow> (nat \<Rightarrow> nat) \<Rightarrow> ir_value list \<Rightarrow> ir_config \<Rightarrow> ir_config \<Rightarrow> bool"
  and ir_returns :: "(nat \<Rightarrow> ll_instr list) \<Rightarrow> (nat \<Rightarrow> nat) \<Rightarrow> nat \<Rightarrow> ir_value list \<Rightarrow> ir_value \<Rightarrow> bool"
  for C E where
  ir_store: "k < length (C b) \<Longrightarrow> C b ! k = Store v (AllocaV a t) \<Longrightarrow> ir_operand args regs v = Some w \<Longrightarrow>
     ir_type w = t \<Longrightarrow> ir_step C E args (At b k regs mem) (At b (Suc k) regs (mem(a \<mapsto> w)))"
| ir_load: "k < length (C b) \<Longrightarrow> C b ! k = Load i t (AllocaV a t) name \<Longrightarrow> mem a = Some w \<Longrightarrow> ir_type w = t \<Longrightarrow>
     ir_step C E args (At b k regs mem) (At b (Suc k) (regs(i \<mapsto> w)) mem)"
| ir_binary: "k < length (C b) \<Longrightarrow> C b ! k = Binop i op l r name \<Longrightarrow> ir_operand args regs l = Some x \<Longrightarrow>
     ir_operand args regs r = Some y \<Longrightarrow> ir_binop op x y = Some w \<Longrightarrow>
     ir_step C E args (At b k regs mem) (At b (Suc k) (regs(i \<mapsto> w)) mem)"
| ir_call: "k < length (C b) \<Longrightarrow> C b ! k = Call i (Fn f) vs name \<Longrightarrow>
     map (ir_operand args regs) vs = map Some ws \<Longrightarrow> ir_returns C E f ws w \<Longrightarrow>
     ir_step C E args (At b k regs mem) (At b (Suc k) (regs(i \<mapsto> w)) mem)"
| ir_ret: "k < length (C b) \<Longrightarrow> C b ! k = Ret (Some v) \<Longrightarrow> ir_operand args regs v = Some w \<Longrightarrow>
     ir_step C E args (At b k regs mem) (Done w)"
| ir_br: "k < length (C b) \<Longrightarrow> C b ! k = Br b' \<Longrightarrow> ir_step C E args (At b k regs mem) (At b' 0 regs mem)"
| ir_condbr: "k < length (C b) \<Longrightarrow> C b ! k = CondBr v b1 b2 \<Longrightarrow> ir_operand args regs v = Some (W1 c) \<Longrightarrow>
     ir_step C E args (At b k regs mem) (At (if c then b1 else b2) 0 regs mem)"
| ir_stay: "ir_run C E args c c"
| ir_next: "ir_step C E args c c' \<Longrightarrow> ir_run C E args c' c'' \<Longrightarrow> ir_run C E args c c''"
| ir_function: "ir_run C E args (At (E f) 0 Map.empty Map.empty) (Done w) \<Longrightarrow> ir_returns C E f args w"

lemma ir_run_trans: "ir_run C E args c c' \<Longrightarrow> ir_run C E args c' c'' \<Longrightarrow> ir_run C E args c c''"
  by (induction rule: ir_step_ir_run_ir_returns.inducts(2)
      [where ?P1.0 = "\<lambda>_ _ _. True" and ?P3.0 = "\<lambda>_ _ _. True"]) (auto intro: ir_next)

lemma ir_run_step: "ir_step C E args c c' \<Longrightarrow> ir_run C E args c c'"
  by (blast intro: ir_stay ir_next)


subsection \<open>Values of both sides\<close>

fun value_rel :: "scalar \<Rightarrow> ir_value \<Rightarrow> bool" where
  "value_rel (IntV n) (W64 w) \<longleftrightarrow> sint w = n"
| "value_rel (BoolV b) (W1 c) \<longleftrightarrow> b = c"
| "value_rel _ _ \<longleftrightarrow> False"

fun ll_of :: "scalar_type \<Rightarrow> ll_type" where
  "ll_of I64T = LI64"
| "ll_of BoolT = LI1"

lemma value_rel_type: "value_rel v w \<Longrightarrow> ir_type w = ll_of (scalar_type_of v)"
  by (cases "(v, w)" rule: value_rel.cases) simp_all

lemma in_i64_sint: "in_i64 n \<Longrightarrow> sint (word_of_int n :: u64) = n"
  by (simp add: in_i64_def sint_sbintrunc' signed_take_bit_int_eq_self)

lemma sint_in_i64: "in_i64 (sint (w :: u64))"
  using sint_greater_eq [of w] sint_less [of w] by (simp add: in_i64_def)

lemma value_rel_i64: "in_i64 n \<Longrightarrow> value_rel (IntV n) (i64 n)"
  by (simp add: i64_def in_i64_sint)

lemma nsw_checked: "checked n = Some v \<Longrightarrow> \<exists>w. nsw n = Some w \<and> value_rel v w"
  by (auto simp: checked_def nsw_def value_rel_i64 split: if_splits)

lemma remainder_in_i64:
  assumes "in_i64 a" "in_i64 b" "b \<noteq> 0"
  shows "in_i64 (a - quot a b * b)"
proof -
  have "a - quot a b * b = sgn a * (\<bar>a\<bar> mod \<bar>b\<bar>)"
  proof -
    have "\<bar>b\<bar> = sgn b * b" by (simp add: abs_sgn mult.commute)
    then have "quot a b * b = sgn a * (\<bar>b\<bar> * (\<bar>a\<bar> div \<bar>b\<bar>))" by (simp add: quot_def mult.assoc mult.left_commute)
    moreover have "\<bar>b\<bar> * (\<bar>a\<bar> div \<bar>b\<bar>) = \<bar>a\<bar> - \<bar>a\<bar> mod \<bar>b\<bar>" by (simp add: minus_mod_eq_mult_div)
    moreover have "a = sgn a * \<bar>a\<bar>" by (simp add: sgn_mult_abs)
    ultimately show ?thesis by (metis add_diff_cancel_left' diff_add_cancel right_diff_distrib)
  qed
  moreover have "0 \<le> \<bar>a\<bar> mod \<bar>b\<bar>" "\<bar>a\<bar> mod \<bar>b\<bar> < \<bar>b\<bar>" using assms(3) by simp_all
  moreover have "\<bar>b\<bar> \<le> 2 ^ 63" using assms(2) by (auto simp: in_i64_def abs_if)
  ultimately show ?thesis by (cases "0::int" a rule: linorder_cases) (auto simp: in_i64_def)
qed

lemma word_sless: "(a :: u64) <s b \<longleftrightarrow> sint a < sint b" "a \<le>s b \<longleftrightarrow> sint a \<le> sint b"
  by (simp_all add: word_sless_alt word_sle_eq)

lemma value_rel_pairs:
  obtains (ints) a b where "p = (IntV a, IntV b)" | (bools) a b where "p = (BoolV a, BoolV b)"
    | (mixed) "scalar_type_of (fst p) \<noteq> scalar_type_of (snd p)"
  by (cases p; cases "fst p"; cases "snd p") auto

text \<open>The instruction that the code generator picks for an operator computes it.\<close>

lemma binop_refines:
  assumes v: "apply_op op x y = Some v" and x: "value_rel x wx" and y: "value_rel y wy"
    and opc: "binary_opcode op False = Some (opcode, name)"
  shows "\<exists>w. ir_binop opcode wx wy = Some w \<and> value_rel v w"
proof (cases "(x, y)" rule: value_rel_pairs)
  case (ints a b)
  then obtain wa wb where w: "wx = W64 wa" "wy = W64 wb" "sint wa = a" "sint wb = b"
    using x y by (cases wx; cases wy) auto
  have eq: "wa = wb \<longleftrightarrow> a = b" unfolding w(3,4) [symmetric] by (auto intro: signed_word_eqI)
  have zero: "wb = 0 \<longleftrightarrow> b = 0" unfolding w(4) [symmetric] by (simp add: signed_eq_0_iff)
  have rem: "value_rel (IntV (sint wa - quot (sint wa) (sint wb) * sint wb)) (i64 (sint wa - quot (sint wa) (sint wb) * sint wb))"
    if "sint wb \<noteq> 0"
    using that by (intro value_rel_i64 remainder_in_i64 sint_in_i64)
  have "apply_op op (IntV a) (IntV b) = Some v" using v ints by simp
  then show ?thesis
    using opc nsw_checked w(3,4) unfolding w(1,2) binary_opcode_def
    by (auto simp: eq zero word_sless rem split: if_splits)
next
  case (bools a b)
  then obtain wa wb where "wx = W1 wa" "wy = W1 wb" "wa = a" "wb = b"
    using x y by (cases wx; cases wy) auto
  then show ?thesis
    using v opc bools unfolding binary_opcode_def by (auto split: if_splits)
next
  case mixed
  then show ?thesis using v by (cases x; cases y) auto
qed

end
