(* ===== verification/Gura_CodeGen_Grow.thy ===== *)
theory Gura_CodeGen_Grow
  imports Gura_CodeGen_Wf Gura_IR_Exec
begin

section \<open>How the code of a function grows\<close>

text \<open>
  What emitting a piece of a function does to the code that is there: nothing is removed or changed, instructions are
  appended to the block at the insertion point and to new blocks, and the slots of visible names stay. Allocas are put
  in front of the entry block and are not part of \<open>ir_text\<close>, so that positions in blocks are stable.
\<close>

definition fn_index :: "emitter \<Rightarrow> string \<Rightarrow> nat option" where
  "fn_index s f = Option.bind (resolveFunctionKey s [f]) (um_find (em_functions s))"

lemma resolved_name: "resolved_callee s (Some (NameExpr n f)) = fn_index s f"
  by (simp add: resolved_callee_def fn_index_def)

text \<open>A state inside a function body: the insertion point and the entry exist, the slots of different names are
  different, no struct has the name of the number type, and the functions \<open>F\<close> are declared, without pointer
  parameters.\<close>

definition ready :: "string set \<Rightarrow> emitter \<Rightarrow> bool" where
  "ready F s \<longleftrightarrow>
     em_fn s < length (em_module s) \<and> fn_blocks s \<noteq> [] \<and> hd (fn_blocks s) < length (em_blocks s) \<and>
     em_insert s < length (em_blocks s) \<and> em_bridgeSlots s = [] \<and>
     um_find (em_layouts s) ''i64'' = None \<and>
     (\<forall>x v. um_find (em_values s) x = Some v \<longrightarrow> (\<exists>a t. v = AllocaV a t \<and> a < em_next s)) \<and>
     (\<forall>x y a t u. um_find (em_values s) x = Some (AllocaV a t) \<longrightarrow> um_find (em_values s) y = Some (AllocaV a u) \<longrightarrow> x = y) \<and>
     (\<forall>f\<in>F. \<exists>i. fn_index s f = Some i \<and> LPtr \<notin> snd ` set (lf_params (em_module s ! i)))"

definition same_decls :: "emitter \<Rightarrow> emitter \<Rightarrow> bool" where
  "same_decls s t \<longleftrightarrow>
     em_fn t = em_fn s \<and> ir_entry t (em_fn s) = ir_entry s (em_fn s) \<and> fn_blocks t \<noteq> [] \<and>
     map lf_returnType (em_module t) = map lf_returnType (em_module s) \<and>
     em_functions t = em_functions s \<and> em_simpleKeys t = em_simpleKeys s \<and> em_layouts t = em_layouts s \<and>
     em_bridgeSlots t = em_bridgeSlots s"

definition extends :: "emitter \<Rightarrow> emitter \<Rightarrow> bool" where
  "extends s t \<longleftrightarrow> length (em_blocks s) \<le> length (em_blocks t) \<and>
     (\<forall>b<length (em_blocks s). \<exists>more. ir_text t b = ir_text s b @ more)"

definition grown :: "nat \<Rightarrow> string set \<Rightarrow> emitter \<Rightarrow> emitter \<Rightarrow> bool" where
  "grown n V s t \<longleftrightarrow>
     extends s t \<and> em_next s \<le> em_next t \<and> same_decls s t \<and>
     (\<forall>b<n. b \<noteq> em_insert s \<longrightarrow> ir_text t b = ir_text s b) \<and> (em_insert t = em_insert s \<or> n \<le> em_insert t) \<and>
     (\<forall>x\<in>V. um_find (em_values t) x = um_find (em_values s) x)"

lemma code_extends_refl [simp]: "extends s s"
  by (simp add: extends_def)

lemma code_extends_trans: "extends s t \<Longrightarrow> extends t u \<Longrightarrow> extends s u"
  unfolding extends_def by (metis append.assoc order_trans order_less_le_trans)

lemma grown_extends: "grown n V s t \<Longrightarrow> extends s t"
  by (simp add: grown_def)

lemma grown_refl: "fn_blocks s \<noteq> [] \<Longrightarrow> grown n V s s"
  by (simp add: grown_def same_decls_def)

lemma grown_trans:
  assumes st: "grown n V s t" and tu: "grown m W t u" and "n \<le> m" "V \<subseteq> W"
  shows "grown n V s u"
proof -
  have "same_decls s u" using st tu by (auto simp: grown_def same_decls_def)
  moreover have "ir_text u b = ir_text s b" if "b < n" "b \<noteq> em_insert s" for b
    using st tu that assms(3) unfolding grown_def by (metis leD order_less_le_trans)
  moreover have "em_insert u = em_insert s \<or> n \<le> em_insert u"
    using st tu assms(3) unfolding grown_def by (metis order_trans)
  moreover have "extends s u" using st tu code_extends_trans by (auto simp: grown_def)
  ultimately show ?thesis using st tu assms(4) unfolding grown_def by (auto simp: subset_iff)
qed

lemma grown_mono: "grown m W s t \<Longrightarrow> n \<le> m \<Longrightarrow> V \<subseteq> W \<Longrightarrow> grown n V s t"
  by (auto simp: grown_def)

lemma grown_length: "grown n V s t \<Longrightarrow> length (em_blocks s) \<le> length (em_blocks t)"
  by (simp add: grown_def extends_def)

lemma same_decls_index: "same_decls s t \<Longrightarrow> fn_index t f = fn_index s f"
  by (simp add: same_decls_def fn_index_def resolveFunctionKey_def)

lemma same_decls_returns:
  assumes "same_decls s t" "i < length (em_module s)"
  shows "lf_returnType (em_module t ! i) = lf_returnType (em_module s ! i)"
proof -
  have "length (em_module t) = length (em_module s)" using assms(1) unfolding same_decls_def by (metis length_map)
  then show ?thesis using assms unfolding same_decls_def by (metis nth_map)
qed

text \<open>Straight-line code: it stays in its block and binds no name.\<close>

definition inline :: "string set \<Rightarrow> emitter \<Rightarrow> emitter \<Rightarrow> bool" where
  "inline F s t \<longleftrightarrow> ready F t \<and> (\<forall>n. grown n UNIV s t)"

lemma inline_refl: "ready F s \<Longrightarrow> inline F s s"
  by (simp add: inline_def grown_refl ready_def)

lemma inline_trans: "inline F s t \<Longrightarrow> inline F t u \<Longrightarrow> inline F s u"
  unfolding inline_def using grown_trans by blast

lemma inline_insert: "inline F s t \<Longrightarrow> em_insert t = em_insert s"
  unfolding inline_def grown_def by (meson Suc_n_not_le_n)

lemma inline_values: "inline F s t \<Longrightarrow> um_find (em_values t) = um_find (em_values s)"
  by (auto simp: inline_def grown_def)

lemma inline_next: "inline F s t \<Longrightarrow> em_next s \<le> em_next t"
  by (auto simp: inline_def grown_def)

lemma inline_extends: "inline F s t \<Longrightarrow> extends s t"
  by (auto simp: inline_def grown_def)

lemma inline_decls: "inline F s t \<Longrightarrow> same_decls s t"
  by (auto simp: inline_def grown_def)

lemma ir_text_map_code:
  "b < length (em_blocks s) \<Longrightarrow> ir_text (map_code b f s) c =
     (if c = b then filter (\<lambda>i. \<not> is_alloca i) (f (code_of (em_blocks s) b)) else ir_text s c)"
  by (simp add: ir_text_def code_map_code)

text \<open>One instruction appended, and one register number taken.\<close>

definition appended :: "ll_instr \<Rightarrow> emitter \<Rightarrow> emitter" where
  "appended i s = map_code (em_insert s) (\<lambda>is. is @ [i]) s"

lemma ir_text_appended:
  "em_insert s < length (em_blocks s) \<Longrightarrow> \<not> is_alloca i \<Longrightarrow>
   ir_text (appended i s) b = (if b = em_insert s then ir_text s b @ [i] else ir_text s b)"
  unfolding appended_def by (subst ir_text_map_code) (simp_all add: ir_text_def)

lemma appended_sel [simp]:
  "em_module (appended i s) = em_module s" "em_fn (appended i s) = em_fn s" "em_insert (appended i s) = em_insert s"
  "length (em_blocks (appended i s)) = length (em_blocks s)" "em_functions (appended i s) = em_functions s"
  "em_layouts (appended i s) = em_layouts s" "em_simpleKeys (appended i s) = em_simpleKeys s"
  "em_bridgeSlots (appended i s) = em_bridgeSlots s" "em_values (appended i s) = em_values s"
  "em_next (appended i s) = em_next s"
  by (simp_all add: appended_def map_code_def)

lemma run_insert [simp]: "run_state (insert_instr i) s = ((), appended i s)"
  by (simp add: insert_instr_def appended_def map_code_def)

lemma fn_index_tables:
  "em_functions t = em_functions s \<Longrightarrow> em_simpleKeys t = em_simpleKeys s \<Longrightarrow> fn_index t f = fn_index s f"
  by (simp add: fn_index_def resolveFunctionKey_def)

lemma inline_appended: "ready F s \<Longrightarrow> \<not> is_alloca i \<Longrightarrow> inline F s (appended i s)"
  unfolding inline_def grown_def extends_def same_decls_def
  by (auto simp: ready_def ir_text_appended ir_entry_def fn_index_tables [of "appended i s" s])

lemma ready_next:
  assumes "ready F s" shows "ready F (s\<lparr>em_next := Suc (em_next s)\<rparr>)"
proof -
  have "\<exists>a t. v = AllocaV a t \<and> a < Suc (em_next s)" if "um_find (em_values s) x = Some v" for x v
    using assms that unfolding ready_def by (meson less_SucI)
  then show ?thesis
    using assms fn_index_tables [of "s\<lparr>em_next := Suc (em_next s)\<rparr>" s] by (simp add: ready_def)
qed

lemma inline_next_used: "ready F s \<Longrightarrow> inline F s (s\<lparr>em_next := Suc (em_next s)\<rparr>)"
  using ready_next [of F s] unfolding inline_def grown_def extends_def same_decls_def
  by (simp add: ready_def ir_text_def ir_entry_def)

lemma run_build [simp]:
  "run_state (build mk t) s = (InstrV (em_next s) t, appended (mk (em_next s)) (s\<lparr>em_next := Suc (em_next s)\<rparr>))"
  by (simp add: build_def fresh_def)

lemma inline_build: "ready F s \<Longrightarrow> \<not> is_alloca (mk (em_next s)) \<Longrightarrow> inline F s (snd (run_state (build mk t) s))"
  using inline_trans [OF inline_next_used inline_appended, of F s "mk (em_next s)"] inline_next_used [of F s]
  by (simp add: inline_def)

lemma run_entry_alloca:
  "run_state (createEntryAlloca name t) s = (AllocaV (em_next s) t,
     map_code (hd (fn_blocks s)) ((#) (Alloca (em_next s) t name)) (s\<lparr>em_next := Suc (em_next s)\<rparr>))"
  by (simp add: createEntryAlloca_def fresh_def map_code_def)

lemma inline_alloca:
  assumes "ready F s" shows "inline F s (snd (run_state (createEntryAlloca name t) s))"
proof -
  let ?s = "s\<lparr>em_next := Suc (em_next s)\<rparr>"
  let ?t = "map_code (hd (fn_blocks s)) ((#) (Alloca (em_next s) t name)) ?s"
  have s: "ready F ?s" "inline F s ?s" using assms inline_next_used by (auto simp: inline_def)
  have sel: "em_values ?t = em_values ?s" "em_next ?t = em_next ?s" "em_bridgeSlots ?t = em_bridgeSlots ?s"
    "em_simpleKeys ?t = em_simpleKeys ?s" "em_functions ?t = em_functions ?s" "em_layouts ?t = em_layouts ?s"
    by (simp_all add: map_code_def)
  have same: "ir_text ?t b = ir_text ?s b" for b
    using s(1) by (simp add: ir_text_map_code ready_def) (simp add: ir_text_def)
  have "inline F ?s ?t"
    using s(1) unfolding inline_def grown_def extends_def same_decls_def ready_def
    by (simp add: sel same ir_entry_def fn_index_tables [OF sel(5,4)])
  then show ?thesis using inline_trans [OF s(2)] by (simp add: run_entry_alloca)
qed

text \<open>A name bound to a fresh slot.\<close>

lemma ready_bind:
  assumes "ready F s" "a < em_next s" "\<And>y t. um_find (em_values s) y \<noteq> Some (AllocaV a t)"
  shows "ready F (s\<lparr>em_values := um_set x (AllocaV a t) (em_values s)\<rparr>)"
  using assms fn_index_tables [of "s\<lparr>em_values := um_set x (AllocaV a t) (em_values s)\<rparr>" s]
  by (auto simp: ready_def um_find_set split: if_splits)

lemma grown_bind:
  "fn_blocks s \<noteq> [] \<Longrightarrow> x \<notin> V \<Longrightarrow> grown n V s (s\<lparr>em_values := um_set x slot (em_values s)\<rparr>)"
  by (auto simp: grown_def extends_def same_decls_def ir_text_def ir_entry_def um_find_set)

text \<open>New blocks, and going on in one.\<close>

lemma params_enter: "lf_params (em_module (enter_block b s) ! i) = lf_params (em_module s ! i)"
  by (cases "i = em_fn s"; cases "i < length (em_module s)") (simp_all add: enter_block_def nth_list_update list_update_beyond)

lemma ready_enter:
  assumes "ready F s" "b < length (em_blocks s)" shows "ready F (enter_block b s)"
proof -
  have "fn_index (enter_block b s) f = fn_index s f" for f
    by (rule fn_index_tables) (simp_all add: enter_block_def)
  moreover have "fn_blocks (enter_block b s) = fn_blocks s @ [b]" "em_values (enter_block b s) = em_values s"
    "em_bridgeSlots (enter_block b s) = em_bridgeSlots s" "em_next (enter_block b s) = em_next s"
    using assms by (simp_all add: enter_block_def ready_def)
  ultimately show ?thesis
    using assms unfolding ready_def params_enter by (simp add: hd_append)
qed

lemma grown_enter:
  assumes "ready F s" "n \<le> b" shows "grown n V s (enter_block b s)"
proof -
  have "map lf_returnType (em_module (enter_block b s)) = map lf_returnType (em_module s)"
    using assms(1) by (simp add: enter_block_def map_update list_update_same_conv ready_def)
  then show ?thesis
    using assms by (auto simp: grown_def extends_def same_decls_def ready_def ir_text_def ir_entry_def enter_block_def hd_append)
qed

lemma ready_add_block: "ready F s \<Longrightarrow> ready F (add_block name s)"
  using fn_index_tables [of "add_block name s" s] by (auto simp: ready_def add_block_def)

lemma grown_add_block: "ready F s \<Longrightarrow> n \<le> length (em_blocks s) \<Longrightarrow> grown n V s (add_block name s)"
  by (auto simp: grown_def extends_def same_decls_def ready_def ir_text_def ir_entry_def add_block_def nth_append)

lemma ir_text_add_block:
  "ir_text (add_block name s) b = (if b = length (em_blocks s) then [] else ir_text s b)"
  if "b \<le> length (em_blocks s)"
  using that by (simp add: ir_text_def add_block_def nth_append)

lemma ir_text_enter [simp]: "ir_text (enter_block b s) = ir_text s"
  by (simp add: fun_eq_iff ir_text_def)

end
