(* ===== verification/Gura_CodeGen_Compute.thy ===== *)
theory Gura_CodeGen_Compute
  imports Gura_CodeGen_Grow Gura_CodeGen_Names
begin

section \<open>The code of an expression computes its value\<close>

text \<open>
  The simulation for expressions of the scalar fragment: when the reference semantics gives a value, the emitted code,
  wherever it stands in the finished function, runs from its first to behind its last instruction and leaves that
  value in its operand. The code that the definitions speak about is any code that extends what is emitted so far.
\<close>

definition within :: "(nat \<Rightarrow> ll_instr list) \<Rightarrow> emitter \<Rightarrow> bool" where
  "within C s \<longleftrightarrow> (\<forall>b<length (em_blocks s). \<exists>more. C b = ir_text s b @ more)"

lemma within_extends: "within C t \<Longrightarrow> extends s t \<Longrightarrow> within C s"
  unfolding within_def extends_def by (metis append.assoc order_less_le_trans)

abbreviation here :: "emitter \<Rightarrow> slots \<Rightarrow> slots \<Rightarrow> ir_config" where
  "here s regs mem \<equiv> At (em_insert s) (length (ir_text s (em_insert s))) regs mem"

text \<open>Calls of the semantics are answered by the declared functions.\<close>

definition calls_ok :: "(nat \<Rightarrow> ll_instr list) \<Rightarrow> (nat \<Rightarrow> nat) \<Rightarrow> calls \<Rightarrow> emitter \<Rightarrow> bool" where
  "calls_ok C E cf s \<longleftrightarrow> (\<forall>f vs v ws. cf f vs = Some v \<longrightarrow> list_all2 value_rel vs ws \<longrightarrow>
     (\<exists>i w. fn_index s f = Some i \<and> i < length (em_module s) \<and> ir_returns C E i ws w \<and> value_rel v w \<and>
        lf_returnType (em_module s ! i) = ll_of (scalar_type_of v)))"

lemma calls_ok_decls: "calls_ok C E cf s \<Longrightarrow> same_decls s t \<Longrightarrow> calls_ok C E cf t"
  unfolding calls_ok_def
proof (intro allI impI)
  fix f vs v ws
  assume cs: "\<forall>f vs v ws. cf f vs = Some v \<longrightarrow> list_all2 value_rel vs ws \<longrightarrow>
      (\<exists>i w. fn_index s f = Some i \<and> i < length (em_module s) \<and> ir_returns C E i ws w \<and> value_rel v w \<and>
        lf_returnType (em_module s ! i) = ll_of (scalar_type_of v))"
    and st: "same_decls s t" and f: "cf f vs = Some v" "list_all2 value_rel vs ws"
  from cs f obtain i w where i: "fn_index s f = Some i" "i < length (em_module s)" "ir_returns C E i ws w" "value_rel v w"
    "lf_returnType (em_module s ! i) = ll_of (scalar_type_of v)" by blast
  have "length (em_module t) = length (em_module s)" using st unfolding same_decls_def by (metis length_map)
  then show "\<exists>i w. fn_index t f = Some i \<and> i < length (em_module t) \<and> ir_returns C E i ws w \<and> value_rel v w \<and>
      lf_returnType (em_module t ! i) = ll_of (scalar_type_of v)"
    using i same_decls_index [OF st] same_decls_returns [OF st i(2)] by auto
qed

text \<open>The visible names stand in their slots.\<close>

definition vars_ok :: "string set \<Rightarrow> frames \<Rightarrow> emitter \<Rightarrow> slots \<Rightarrow> bool" where
  "vars_ok V \<sigma> s mem \<longleftrightarrow> (\<forall>x v. find_var \<sigma> x = Some v \<longrightarrow> x \<in> V \<and>
     (\<exists>a w. um_find (em_values s) x = Some (AllocaV a (ll_of (scalar_type_of v))) \<and> mem a = Some w \<and> value_rel v w))"

lemma vars_okD:
  assumes "vars_ok V \<sigma> s mem" "find_var \<sigma> x = Some v"
  shows "x \<in> V \<and>
     (\<exists>a w. um_find (em_values s) x = Some (AllocaV a (ll_of (scalar_type_of v))) \<and> mem a = Some w \<and> value_rel v w)"
  using assms unfolding vars_ok_def by blast

lemma vars_ok_values: "vars_ok V \<sigma> s mem \<Longrightarrow> um_find (em_values t) = um_find (em_values s) \<Longrightarrow> vars_ok V \<sigma> t mem"
  by (simp add: vars_ok_def)

definition open_at :: "emitter \<Rightarrow> bool" where
  "open_at s \<longleftrightarrow> \<not> fst (run_state has_terminator s)"

lemma open_appended: "ready F s \<Longrightarrow> open_at (appended i s) \<longleftrightarrow> \<not> is_terminator i"
  by (simp add: open_at_def has_terminator_def Let_def appended_def code_map_code ready_def)

lemma open_alloca:
  assumes "ready F s" "open_at s" shows "open_at (snd (run_state (createEntryAlloca name t) s))"
  using assms by (auto simp: run_entry_alloca open_at_def has_terminator_def Let_def code_map_code ready_def)

fun below :: "nat \<Rightarrow> ll_value \<Rightarrow> bool" where
  "below n (InstrV i t) \<longleftrightarrow> i < n"
| "below n _ \<longleftrightarrow> True"

lemma below_mono: "below n v \<Longrightarrow> n \<le> m \<Longrightarrow> below m v"
  by (cases v) auto

lemma operand_below:
  "below n v \<Longrightarrow> (\<And>i. i < n \<Longrightarrow> regs' i = regs i) \<Longrightarrow> ir_operand args regs' v = ir_operand args regs v"
  by (cases v) auto

text \<open>What runs between two states of the emitter, with the registers below \<open>n\<close> kept.\<close>

definition runs :: "(nat \<Rightarrow> ll_instr list) \<Rightarrow> (nat \<Rightarrow> nat) \<Rightarrow> ir_value list \<Rightarrow> emitter \<Rightarrow> emitter \<Rightarrow> slots \<Rightarrow> slots \<Rightarrow> slots \<Rightarrow> bool"
  where "runs C E args s t regs regs' mem \<longleftrightarrow>
     ir_run C E args (here s regs mem) (here t regs' mem) \<and> (\<forall>i<em_next s. regs' i = regs i)"

lemma runs_refl: "runs C E args s s regs regs mem"
  by (simp add: runs_def ir_stay)

lemma runs_trans:
  "runs C E args s t regs regs1 mem \<Longrightarrow> runs C E args t u regs1 regs2 mem \<Longrightarrow> em_next s \<le> em_next t \<Longrightarrow>
   runs C E args s u regs regs2 mem"
  unfolding runs_def using ir_run_trans by auto

definition value_in :: "ir_value list \<Rightarrow> slots \<Rightarrow> ll_value \<Rightarrow> scalar \<Rightarrow> bool" where
  "value_in args regs v x \<longleftrightarrow>
     (\<exists>w. ir_operand args regs v = Some w \<and> value_rel x w) \<and> value_type v = ll_of (scalar_type_of x)"

lemma value_in_kept:
  "value_in args regs v x \<Longrightarrow> below n v \<Longrightarrow> (\<And>i. i < n \<Longrightarrow> regs' i = regs i) \<Longrightarrow> value_in args regs' v x"
  using operand_below [of n v regs' regs args] by (simp add: value_in_def)

definition yields :: "emitter \<Rightarrow> ll_value \<Rightarrow> emitter \<Rightarrow> (calls \<Rightarrow> frames \<Rightarrow> scalar option) \<Rightarrow> bool" where
  "yields s v t meaning \<longleftrightarrow> (\<forall>C E cf args V \<sigma> mem regs x.
     within C t \<longrightarrow> calls_ok C E cf s \<longrightarrow> vars_ok V \<sigma> s mem \<longrightarrow> meaning cf \<sigma> = Some x \<longrightarrow>
     (\<exists>regs'. runs C E args s t regs regs' mem \<and> value_in args regs' v x))"

lemma yieldsD:
  "yields s v t meaning \<Longrightarrow> within C t \<Longrightarrow> calls_ok C E cf s \<Longrightarrow> vars_ok V \<sigma> s mem \<Longrightarrow> meaning cf \<sigma> = Some x \<Longrightarrow>
   \<exists>regs'. runs C E args s t regs regs' mem \<and> value_in args regs' v x"
  unfolding yields_def by blast

definition computes :: "string set \<Rightarrow> ll_value option em \<Rightarrow> (calls \<Rightarrow> frames \<Rightarrow> scalar option) \<Rightarrow> bool" where
  "computes F c meaning \<longleftrightarrow> (\<forall>s. ready F s \<longrightarrow> (\<exists>v t. run_state c s = (Some v, t) \<and> below (em_next t) v \<and>
     inline F s t \<and> (open_at s \<longrightarrow> open_at t) \<and> yields s v t meaning))"

lemma computesI:
  assumes "\<And>s. ready F s \<Longrightarrow> \<exists>v t. run_state c s = (Some v, t) \<and> below (em_next t) v \<and>
     inline F s t \<and> (open_at s \<longrightarrow> open_at t) \<and> yields s v t meaning"
  shows "computes F c meaning"
  using assms by (simp add: computes_def)

lemma computesE:
  assumes "computes F c meaning" "ready F s"
  obtains v t where "run_state c s = (Some v, t)" "below (em_next t) v" "inline F s t" "open_at s \<longrightarrow> open_at t"
    "yields s v t meaning"
  using assms unfolding computes_def by blast

lemma inline_ready: "inline F s t \<Longrightarrow> ready F t"
  by (simp add: inline_def)

lemma computes_ret:
  assumes "\<And>n. below n v"
    and "\<And>cf \<sigma> x args regs. meaning cf \<sigma> = Some x \<Longrightarrow> value_in args regs v x"
  shows "computes F (ret (Some v)) meaning"
  unfolding computes_def yields_def using assms by (auto intro: inline_refl runs_refl)

text \<open>The next instruction is the one that was appended.\<close>

lemma within_next:
  assumes "within C (appended i s)" "ready F s" "\<not> is_alloca i"
  shows "length (ir_text s (em_insert s)) < length (C (em_insert s)) \<and> C (em_insert s) ! length (ir_text s (em_insert s)) = i"
proof -
  have b: "em_insert s < length (em_blocks s)" using assms(2) by (simp add: ready_def)
  then obtain more where "C (em_insert s) = ir_text (appended i s) (em_insert s) @ more"
    using assms(1) by (auto simp: within_def)
  then show ?thesis using b assms(3) by (simp add: ir_text_appended)
qed

lemma here_appended:
  "ready F s \<Longrightarrow> \<not> is_alloca i \<Longrightarrow>
   here (appended i s) regs mem = At (em_insert s) (Suc (length (ir_text s (em_insert s)))) regs mem"
  by (simp add: ir_text_appended ready_def)

lemma ir_text_next [simp]: "ir_text (s\<lparr>em_next := n\<rparr>) = ir_text s"
  by (simp add: fun_eq_iff ir_text_def)

text \<open>One instruction that defines a fresh register.\<close>

lemma built:
  assumes s: "ready F s" and mk: "\<not> is_alloca (mk (em_next s))" "\<not> is_terminator (mk (em_next s))"
    and t: "run_state (build mk ty) s = (v, t)"
  shows "v = InstrV (em_next s) ty" "inline F s t" "open_at t" "em_next t = Suc (em_next s)"
    and "within C t \<Longrightarrow> (\<And>k. k = length (ir_text s (em_insert s)) \<Longrightarrow> k < length (C (em_insert s)) \<Longrightarrow>
           C (em_insert s) ! k = mk (em_next s) \<Longrightarrow>
           ir_step C E args (At (em_insert s) k regs mem) (At (em_insert s) (Suc k) (regs(em_next s \<mapsto> w)) mem)) \<Longrightarrow>
         runs C E args s t regs (regs(em_next s \<mapsto> w)) mem"
proof -
  let ?s = "s\<lparr>em_next := Suc (em_next s)\<rparr>"
  have t': "v = InstrV (em_next s) ty" "t = appended (mk (em_next s)) ?s" using t by simp_all
  have s': "ready F ?s" using s by (rule ready_next)
  show "v = InstrV (em_next s) ty" "inline F s t" "open_at t" "em_next t = Suc (em_next s)"
    using t' inline_build [OF s, of mk ty] mk(1) open_appended [OF s'] mk(2) by simp_all
  assume C: "within C t" and step: "\<And>k. k = length (ir_text s (em_insert s)) \<Longrightarrow> k < length (C (em_insert s)) \<Longrightarrow>
           C (em_insert s) ! k = mk (em_next s) \<Longrightarrow>
           ir_step C E args (At (em_insert s) k regs mem) (At (em_insert s) (Suc k) (regs(em_next s \<mapsto> w)) mem)"
  have "ir_step C E args (here s regs mem) (here t (regs(em_next s \<mapsto> w)) mem)"
    using step within_next [OF C [unfolded t'(2)] s' mk(1)] here_appended [OF s' mk(1)] unfolding t'(2) by simp
  then show "runs C E args s t regs (regs(em_next s \<mapsto> w)) mem" by (simp add: runs_def ir_run_step)
qed


subsection \<open>Literals and names\<close>

lemma literal_from_chars:
  assumes "literal_scalar Lit_Integer txt suffix = Some x"
  shows "\<exists>n. x = IntV n \<and> in_i64 n \<and> from_chars_i64 (without_suffix txt suffix) = n"
proof -
  define ds where "ds = takeWhile isdigit txt"
  have d: "ds \<noteq> []" "txt = ds @ suffix" "in_i64 (int (dec_value ds))" "x = IntV (int (dec_value ds))"
    using assms by (auto simp: literal_scalar_def Let_def ds_def checked_def split: if_splits)
  have digits: "\<forall>c\<in>set ds. isdigit c" unfolding ds_def using set_takeWhileD by fastforce
  then have tw: "takeWhile isdigit ds = ds" by (simp add: takeWhile_eq_all_conv)
  have "hd ds \<noteq> CHR ''-''" using bspec [OF digits hd_in_set [OF d(1)]] by (auto simp: isdigit_def code_def)
  then have "from_chars_i64 ds = int (dec_value ds)"
    using d(1,3) by (simp add: from_chars_i64_def Let_def in_i64_def tw)
  moreover have "without_suffix txt suffix = ds" by (subst d(2)) (simp add: without_suffix_def)
  ultimately show ?thesis using d(3,4) by simp
qed

lemma value_in_const: "in_i64 n \<Longrightarrow> value_in args regs (ConstInt LI64 n) (IntV n)"
  by (simp add: value_in_def in_i64_sint)

lemma computes_literal:
  assumes "scalar_expr F (LiteralExpr n kind txt suffix)"
  shows "computes F (emitExpr (LiteralExpr n kind txt suffix)) (\<lambda>cf \<sigma>. literal_scalar kind txt suffix)"
proof (cases "kind = Lit_Bool")
  case True
  have "emitExpr (LiteralExpr n kind txt suffix) = ret (Some (ConstInt LI1 (if txt = ''true'' then 1 else 0)))"
    by (simp add: True emitLiteral_def some_of_def)
  then show ?thesis
    by (simp only:) (rule computes_ret, auto simp: True literal_scalar_def value_in_def)
next
  case False
  then have k: "kind = Lit_Integer" "suffix \<noteq> ''i32''" using assms by auto
  then have "emitExpr (LiteralExpr n kind txt suffix) = ret (Some (ConstInt LI64 (from_chars_i64 (without_suffix txt suffix))))"
    by (simp add: emitLiteral_def some_of_def)
  then show ?thesis
    using literal_from_chars k(1) value_in_const by (simp only:) (rule computes_ret, simp, blast)
qed

lemma ready_slot: "ready F s \<Longrightarrow> um_find (em_values s) x = Some v \<Longrightarrow> \<exists>a t. v = AllocaV a t \<and> a < em_next s"
  unfolding ready_def by blast

lemma computes_name: "computes F (emitName x) (\<lambda>cf \<sigma>. find_var \<sigma> x)"
proof (rule computesI)
  fix s assume s: "ready F s"
  show "\<exists>v t. run_state (emitName x) s = (Some v, t) \<and> below (em_next t) v \<and> inline F s t \<and> (open_at s \<longrightarrow> open_at t) \<and>
     yields s v t (\<lambda>cf \<sigma>. find_var \<sigma> x)"
  proof (cases "um_find (em_values s) x")
    case None
    then have "run_state (emitName x) s = (Some i64_zero, s)" by (simp add: emitName_def)
    moreover have "find_var \<sigma> x \<noteq> Some y" if "vars_ok V \<sigma> s mem" for V \<sigma> mem y
      using that None unfolding vars_ok_def by (metis option.distinct(1))
    ultimately show ?thesis using inline_refl [OF s] by (auto simp: yields_def)
  next
    case (Some slot)
    then obtain a ty where slot: "slot = AllocaV a ty" using ready_slot [OF s] by blast
    obtain v t where t: "run_state (build (\<lambda>i. Load i ty slot x) ty) s = (v, t)" by fastforce
    note b = built [OF s _ _ t, simplified]
    have run: "run_state (emitName x) s = (Some v, t)"
      using t Some by (simp add: emitName_def some_of_def create_load_def slot)
    have "\<exists>regs'. runs C E args s t regs regs' mem \<and> value_in args regs' v y"
      if "within C t" and vars: "vars_ok V \<sigma> s mem" "find_var \<sigma> x = Some y" for C E args V \<sigma> mem regs y
    proof -
      from vars obtain w where w: "ty = ll_of (scalar_type_of y)" "mem a = Some w" "value_rel y w"
        using vars_okD [OF vars] Some slot by auto
      have "runs C E args s t regs (regs(em_next s \<mapsto> w)) mem"
        using w value_rel_type [OF w(3)] by (intro b(5) [OF \<open>within C t\<close>] ir_load) (simp_all add: slot)
      moreover have "value_in args (regs(em_next s \<mapsto> w)) v y"
        using w value_rel_type [OF w(3)] by (simp add: value_in_def b(1))
      ultimately show ?thesis by blast
    qed
    then have "yields s v t (\<lambda>cf \<sigma>. find_var \<sigma> x)" unfolding yields_def by blast
    with run show ?thesis using b(1-4) by auto
  qed
qed


subsection \<open>Operators\<close>

lemma binop_type:
  assumes "apply_op op x y = Some v" "binary_opcode op False = Some (opcode, name)"
  shows "(if is_comparison opcode then LI1 else ll_of (scalar_type_of x)) = ll_of (scalar_type_of v)"
  using assms unfolding binary_opcode_def
  by (cases "(x, y)" rule: value_rel_pairs) (auto simp: is_comparison_def checked_def split: if_splits, (cases x; cases y; simp)+)

lemma apply_op_opcode: "apply_op op x y = Some v \<Longrightarrow> binary_opcode op False \<noteq> None"
  unfolding binary_opcode_def by (cases "(x, y)" rule: value_rel_pairs) (auto split: if_splits, (cases x; cases y; simp)+)

lemma computes_binary:
  assumes l: "computes F (rec l) ml" and r: "computes F (rec r) mr"
  shows "computes F (emitBinary rec op (Some l) (Some r))
     (\<lambda>cf \<sigma>. Option.bind (ml cf \<sigma>) (\<lambda>a. Option.bind (mr cf \<sigma>) (apply_op op a)))"
proof (rule computesI)
  fix s assume s: "ready F s"
  obtain v1 t1 where 1: "run_state (rec l) s = (Some v1, t1)" "below (em_next t1) v1" "inline F s t1" "open_at s \<longrightarrow> open_at t1"
    "yields s v1 t1 ml" using computesE [OF l s] by blast
  obtain v2 t2 where 2: "run_state (rec r) t1 = (Some v2, t2)" "below (em_next t2) v2" "inline F t1 t2" "open_at t1 \<longrightarrow> open_at t2"
    "yields t1 v2 t2 mr" using computesE [OF r inline_ready [OF 1(3)]] by blast
  have s2: "ready F t2" using 2(3) by (rule inline_ready)
  have both: "\<exists>regs'. runs C E args s t2 regs regs' mem \<and> value_in args regs' v1 x \<and> value_in args regs' v2 y"
    if C: "within C t2" and cf: "calls_ok C E cf s" and vars: "vars_ok V \<sigma> s mem" and x: "ml cf \<sigma> = Some x" and y: "mr cf \<sigma> = Some y"
    for C E cf args V \<sigma> mem regs x y
  proof -
    obtain regs1 where r1: "runs C E args s t1 regs regs1 mem" "value_in args regs1 v1 x"
      using yieldsD [OF 1(5) within_extends [OF C inline_extends [OF 2(3)]] cf vars x] by blast
    obtain regs2 where r2: "runs C E args t1 t2 regs1 regs2 mem" "value_in args regs2 v2 y"
      using yieldsD [OF 2(5) C calls_ok_decls [OF cf inline_decls [OF 1(3)]] vars_ok_values [OF vars inline_values [OF 1(3)]] y] by blast
    have "value_in args regs2 v1 x"
      using value_in_kept [OF r1(2) 1(2)] r2(1) by (simp add: runs_def)
    then show ?thesis using runs_trans [OF r1(1) r2(1) inline_next [OF 1(3)]] r2(2) by blast
  qed
  let ?m = "\<lambda>cf \<sigma>. Option.bind (ml cf \<sigma>) (\<lambda>a. Option.bind (mr cf \<sigma>) (apply_op op a))"
  let ?float = "value_type v1 = LFloat \<or> value_type v1 = LDouble"
  have scalar: "\<not> ?float" if "value_in args regs v1 x" for args regs x
    using that by (cases "scalar_type_of x") (auto simp: value_in_def)
  have meaning: "\<exists>x y. ml cf \<sigma> = Some x \<and> mr cf \<sigma> = Some y \<and> apply_op op x y = Some z" if "?m cf \<sigma> = Some z" for cf \<sigma> z
    using that by (auto simp: bind_eq_Some_conv)
  show "\<exists>v t. run_state (emitBinary rec op (Some l) (Some r)) s = (Some v, t) \<and> below (em_next t) v \<and> inline F s t \<and>
      (open_at s \<longrightarrow> open_at t) \<and> yields s v t ?m"
  proof (cases "binary_opcode op ?float")
    case None
    then have run: "run_state (emitBinary rec op (Some l) (Some r)) s = (Some i64_zero, t2)"
      by (simp add: emitBinary_def emit_opt_def 1(1) 2(1) Let_def)
    have "?m cf \<sigma> \<noteq> Some z" if "within C t2" "calls_ok C E cf s" "vars_ok V \<sigma> s mem" for C E cf V \<sigma> mem z
      using both [OF that] meaning [of cf \<sigma> z] apply_op_opcode scalar None by metis
    then have "yields s i64_zero t2 ?m" unfolding yields_def by blast
    with run show ?thesis using inline_trans [OF 1(3) 2(3)] 1(4) 2(4) by auto
  next
    case (Some on)
    obtain opcode name where on: "on = (opcode, name)" by fastforce
    let ?ty = "if is_comparison opcode then LI1 else value_type v1"
    obtain v t where t: "run_state (build (\<lambda>i. Binop i opcode v1 v2 name) ?ty) t2 = (v, t)" by fastforce
    note b = built [OF s2 _ _ t, simplified]
    have run: "run_state (emitBinary rec op (Some l) (Some r)) s = (Some v, t)"
      using t Some on by (simp add: emitBinary_def emit_opt_def 1(1) 2(1) Let_def some_of_def create_binop_def need_def)
    have "\<exists>regs'. runs C E args s t regs regs' mem \<and> value_in args regs' v z"
      if C: "within C t" and cf: "calls_ok C E cf s" and vars: "vars_ok V \<sigma> s mem" and z: "?m cf \<sigma> = Some z" for C E cf args V \<sigma> mem regs z
    proof -
      obtain x y where xy: "ml cf \<sigma> = Some x" "mr cf \<sigma> = Some y" "apply_op op x y = Some z" using meaning [OF z] by blast
      obtain regs2 where r2: "runs C E args s t2 regs regs2 mem" "value_in args regs2 v1 x" "value_in args regs2 v2 y"
        using both [OF within_extends [OF C inline_extends [OF b(2)]] cf vars xy(1,2)] by blast
      obtain wx wy where w: "ir_operand args regs2 v1 = Some wx" "value_rel x wx" "ir_operand args regs2 v2 = Some wy" "value_rel y wy"
        using r2(2,3) by (auto simp: value_in_def)
      have opc: "binary_opcode op False = Some (opcode, name)" using Some on scalar [OF r2(2)] by simp
      obtain wz where wz: "ir_binop opcode wx wy = Some wz" "value_rel z wz" using binop_refines [OF xy(3) w(2,4) opc] by blast
      have "runs C E args t2 t regs2 (regs2(em_next t2 \<mapsto> wz)) mem"
        using w wz by (intro b(5) [OF C] ir_binary) simp_all
      moreover have vt: "value_type v1 = ll_of (scalar_type_of x)" using r2(2) by (simp add: value_in_def)
      have "?ty = ll_of (scalar_type_of z)" unfolding vt by (rule binop_type [OF xy(3) opc])
      then have "value_in args (regs2(em_next t2 \<mapsto> wz)) v z" using wz(2) value_rel_type [OF wz(2)] by (simp add: value_in_def b(1))
      ultimately show ?thesis
        using runs_trans [OF r2(1)] inline_next [OF inline_trans [OF 1(3) 2(3)]] by blast
    qed
    then have "yields s v t ?m" unfolding yields_def by blast
    with run show ?thesis
      using b(1-4) inline_trans [OF inline_trans [OF 1(3) 2(3)] b(2)] by auto
  qed
qed


subsection \<open>Calls\<close>

text \<open>The list of arguments, whatever the parameter types are, as long as none is a pointer.\<close>

definition yields_all :: "emitter \<Rightarrow> ll_value list \<Rightarrow> emitter \<Rightarrow> (calls \<Rightarrow> frames \<Rightarrow> scalar list option) \<Rightarrow> bool" where
  "yields_all s vs t meaning \<longleftrightarrow> (\<forall>C E cf args V \<sigma> mem regs xs.
     within C t \<longrightarrow> calls_ok C E cf s \<longrightarrow> vars_ok V \<sigma> s mem \<longrightarrow> meaning cf \<sigma> = Some xs \<longrightarrow>
     (\<exists>regs'. runs C E args s t regs regs' mem \<and> list_all2 (value_in args regs') vs xs))"

definition computes_all :: "string set \<Rightarrow> ll_value list em \<Rightarrow> (calls \<Rightarrow> frames \<Rightarrow> scalar list option) \<Rightarrow> bool" where
  "computes_all F c meaning \<longleftrightarrow> (\<forall>s. ready F s \<longrightarrow> (\<exists>vs t. run_state c s = (vs, t) \<and> list_all (below (em_next t)) vs \<and>
     inline F s t \<and> (open_at s \<longrightarrow> open_at t) \<and> yields_all s vs t meaning))"

lemma computes_allE:
  assumes "computes_all F c meaning" "ready F s"
  obtains vs t where "run_state c s = (vs, t)" "list_all (below (em_next t)) vs" "inline F s t" "open_at s \<longrightarrow> open_at t"
    "yields_all s vs t meaning"
  using assms unfolding computes_all_def by blast

lemma computes_no_args: "computes_all F (ret []) (\<lambda>cf \<sigma>. Some [])"
  unfolding computes_all_def yields_all_def by (auto intro: inline_refl runs_refl)

lemma computes_arg:
  assumes e: "computes F (emitCallArgument rec e t0) m" and es: "computes_all F (call_arguments rec tys es) ms"
    and t0: "t0 = (case tys0 of t # _ \<Rightarrow> t | [] \<Rightarrow> LI64)" "tys = tl tys0"
  shows "computes_all F (call_arguments rec tys0 (Some e # es))
     (\<lambda>cf \<sigma>. Option.bind (m cf \<sigma>) (\<lambda>v. map_option ((#) v) (ms cf \<sigma>)))"
  unfolding computes_all_def
proof (intro allI impI)
  fix s assume s: "ready F s"
  let ?m = "\<lambda>cf \<sigma>. Option.bind (m cf \<sigma>) (\<lambda>v. map_option ((#) v) (ms cf \<sigma>))"
  obtain v s1 where 1: "run_state (emitCallArgument rec e t0) s = (Some v, s1)" "below (em_next s1) v" "inline F s s1"
    "open_at s \<longrightarrow> open_at s1" "yields s v s1 m" using computesE [OF e s] by blast
  obtain vs t where 2: "run_state (call_arguments rec tys es) s1 = (vs, t)" "list_all (below (em_next t)) vs" "inline F s1 t"
    "open_at s1 \<longrightarrow> open_at t" "yields_all s1 vs t ms" using computes_allE [OF es inline_ready [OF 1(3)]] by blast
  have run: "run_state (call_arguments rec tys0 (Some e # es)) s = (v # vs, t)"
    using 1(1) 2(1) t0 by (simp add: need_def)
  have "\<exists>regs'. runs C E args s t regs regs' mem \<and> list_all2 (value_in args regs') (v # vs) xs"
    if C: "within C t" and cf: "calls_ok C E cf s" and vars: "vars_ok V \<sigma> s mem" and xs: "?m cf \<sigma> = Some xs" for C E cf args V \<sigma> mem regs xs
  proof -
    obtain x ys where x: "m cf \<sigma> = Some x" "ms cf \<sigma> = Some ys" "xs = x # ys"
      using xs by (auto simp: bind_eq_Some_conv)
    obtain regs1 where r1: "runs C E args s s1 regs regs1 mem" "value_in args regs1 v x"
      using yieldsD [OF 1(5) within_extends [OF C inline_extends [OF 2(3)]] cf vars x(1)] by blast
    obtain regs2 where r2: "runs C E args s1 t regs1 regs2 mem" "list_all2 (value_in args regs2) vs ys"
      using 2(5) C calls_ok_decls [OF cf inline_decls [OF 1(3)]] vars_ok_values [OF vars inline_values [OF 1(3)]] x(2)
      unfolding yields_all_def by blast
    have "value_in args regs2 v x" using value_in_kept [OF r1(2) 1(2)] r2(1) by (simp add: runs_def)
    then show ?thesis using runs_trans [OF r1(1) r2(1) inline_next [OF 1(3)]] r2(2) x(3) by auto
  qed
  then have "yields_all s (v # vs) t ?m" unfolding yields_all_def by blast
  then show "\<exists>vs t. run_state (call_arguments rec tys0 (Some e # es)) s = (vs, t) \<and> list_all (below (em_next t)) vs \<and>
     inline F s t \<and> (open_at s \<longrightarrow> open_at t) \<and> yields_all s vs t ?m"
    using run 1 2 inline_trans [OF 1(3) 2(3)] below_mono [OF 1(2) inline_next [OF 2(3)]] by auto
qed

lemma operands_rel:
  "list_all2 (value_in args regs) vs xs \<Longrightarrow> \<exists>ws. map (ir_operand args regs) vs = map Some ws \<and> list_all2 value_rel xs ws"
proof (induction rule: list_all2_induct)
  case (Cons v vs x xs)
  then obtain w ws where "ir_operand args regs v = Some w" "value_rel x w" "map (ir_operand args regs) vs = map Some ws"
    "list_all2 value_rel xs ws" by (auto simp: value_in_def)
  then show ?case by (intro exI [of _ "w # ws"]) simp
qed simp

lemma computes_call:
  assumes args: "\<And>tys. LPtr \<notin> set tys \<Longrightarrow> computes_all F (call_arguments rec tys as) ms" and f: "f \<in> F"
  shows "computes F (emitCall rec (Some (NameExpr n f)) as) (\<lambda>cf \<sigma>. Option.bind (ms cf \<sigma>) (cf f))"
proof (rule computesI)
  fix s assume s: "ready F s"
  let ?m = "\<lambda>cf \<sigma>. Option.bind (ms cf \<sigma>) (cf f)"
  obtain i where i: "fn_index s f = Some i" "LPtr \<notin> set (map snd (lf_params (em_module s ! i)))"
    using s f unfolding ready_def by force
  obtain vs s1 where 1: "run_state (call_arguments rec (map snd (lf_params (em_module s ! i))) as) s = (vs, s1)"
    "list_all (below (em_next s1)) vs" "inline F s s1" "open_at s \<longrightarrow> open_at s1" "yields_all s vs s1 ms"
    using computes_allE [OF args [OF i(2)] s] by blast
  have s1: "ready F s1" using 1(3) by (rule inline_ready)
  define name where "name = (if lf_returnType (em_module s ! i) = LVoid then [] else ''calltmp'')"
  let ?ty = "lf_returnType (em_module s1 ! i)"
  obtain v t where t: "run_state (build (\<lambda>k. Call k (Fn i) vs name) ?ty) s1 = (v, t)" by fastforce
  note b = built [OF s1 _ _ t, simplified]
  have run: "run_state (emitCall rec (Some (NameExpr n f)) as) s = (Some v, t)"
    using 1(1) t i(1) by (simp add: emitCall_def resolved_name call_declared_def call_function_def some_of_def name_def)
  have "\<exists>regs'. runs C E args s t regs regs' mem \<and> value_in args regs' v z"
    if C: "within C t" and cf: "calls_ok C E cf s" and vars: "vars_ok V \<sigma> s mem" and z: "?m cf \<sigma> = Some z" for C E cf args V \<sigma> mem regs z
  proof -
    obtain xs where xs: "ms cf \<sigma> = Some xs" "cf f xs = Some z" using z by (auto simp: bind_eq_Some_conv)
    obtain regs1 where r1: "runs C E args s s1 regs regs1 mem" "list_all2 (value_in args regs1) vs xs"
      using 1(5) within_extends [OF C inline_extends [OF b(2)]] cf vars xs(1) unfolding yields_all_def by blast
    obtain ws where ws: "map (ir_operand args regs1) vs = map Some ws" "list_all2 value_rel xs ws"
      using operands_rel [OF r1(2)] by blast
    obtain w where w: "i < length (em_module s)" "ir_returns C E i ws w" "value_rel z w"
      "lf_returnType (em_module s ! i) = ll_of (scalar_type_of z)"
      using cf xs(2) ws(2) i(1) unfolding calls_ok_def by fastforce
    have "runs C E args s1 t regs1 (regs1(em_next s1 \<mapsto> w)) mem"
      using ws(1) w(2) by (intro b(5) [OF C] ir_call) simp_all
    moreover have "?ty = ll_of (scalar_type_of z)"
      using same_decls_returns [OF inline_decls [OF 1(3)] w(1)] w(4) by simp
    then have "value_in args (regs1(em_next s1 \<mapsto> w)) v z"
      using w(3) value_rel_type [OF w(3)] by (simp add: value_in_def b(1))
    ultimately show ?thesis using runs_trans [OF r1(1)] inline_next [OF 1(3)] by blast
  qed
  then have "yields s v t ?m" unfolding yields_def by blast
  with run show "\<exists>v t. run_state (emitCall rec (Some (NameExpr n f)) as) s = (Some v, t) \<and> below (em_next t) v \<and>
      inline F s t \<and> (open_at s \<longrightarrow> open_at t) \<and> yields s v t ?m"
    using b(1-4) inline_trans [OF 1(3) b(2)] by auto
qed

lemma call_argument_plain: "t \<noteq> LPtr \<Longrightarrow> emitCallArgument rec e t = rec e"
  by (simp add: emitCallArgument_def)

lemma computes_expr:
  "scalar_expr F e \<Longrightarrow> computes F (emitExpr e) (\<lambda>cf \<sigma>. eval cf \<sigma> e)"
  "scalar_args F es \<Longrightarrow>
     \<forall>tys. LPtr \<notin> set tys \<longrightarrow> computes_all F (call_arguments emitExpr tys es) (\<lambda>cf \<sigma>. eval_args cf \<sigma> es)"
proof (induction F e and F es rule: scalar_expr_scalar_args.induct)
  case (1 F n kind src suffix)
  then show ?case using computes_literal by simp
next
  case (2 F n x)
  then show ?case using computes_name by simp
next
  case (3 F n op l r)
  then have "computes F (emitBinary emitExpr op (Some l) (Some r))
     (\<lambda>cf \<sigma>. Option.bind (eval cf \<sigma> l) (\<lambda>a. Option.bind (eval cf \<sigma> r) (apply_op op a)))"
    by (intro computes_binary) simp_all
  then show ?case by simp
next
  case (4 F n m f args)
  then have "computes F (emitCall emitExpr (Some (NameExpr m f)) args) (\<lambda>cf \<sigma>. Option.bind (eval_args cf \<sigma> args) (cf f))"
    by (intro computes_call) simp_all
  then show ?case by simp
next
  case (8 F e es)
  show ?case
  proof (intro allI impI)
    fix tys assume tys: "LPtr \<notin> set tys"
    let ?t = "case tys of t # _ \<Rightarrow> t | [] \<Rightarrow> LI64"
    have "?t \<noteq> LPtr" "LPtr \<notin> set (tl tys)" using tys by (cases tys; auto)+
    then show "computes_all F (call_arguments emitExpr tys (Some e # es)) (\<lambda>cf \<sigma>. eval_args cf \<sigma> (Some e # es))"
      using 8 computes_arg [of F emitExpr e ?t "\<lambda>cf \<sigma>. eval cf \<sigma> e" "tl tys" es "\<lambda>cf \<sigma>. eval_args cf \<sigma> es" tys]
      by (simp add: call_argument_plain)
  qed
qed (simp_all add: computes_no_args)

end
