(* ===== verification/Gura_CodeGen_Stmt.thy ===== *)
theory Gura_CodeGen_Stmt
  imports Gura_CodeGen_Compute
begin

section \<open>The code of a statement\<close>

subsection \<open>Statements grow the code\<close>

definition stmt_grows :: "string set \<Rightarrow> string set \<Rightarrow> 'a em \<Rightarrow> bool" where
  "stmt_grows F V c \<longleftrightarrow> (\<forall>s. ready F s \<longrightarrow> ready F (snd (run_state c s)) \<and>
     grown (length (em_blocks s)) V s (snd (run_state c s)))"

lemma stmt_growsD:
  assumes "stmt_grows F V c" "ready F s" "t = snd (run_state c s)" "n \<le> length (em_blocks s)" "W \<subseteq> V"
  shows "ready F t" "grown n W s t"
  using assms grown_mono [of "length (em_blocks s)" V s t n W] by (auto simp: stmt_grows_def)

lemma inline_grown: "inline F s t \<Longrightarrow> grown n V s t"
  unfolding inline_def using grown_mono [of n UNIV s t n V] by simp

lemma stmt_grows_inline: "(\<And>s. ready F s \<Longrightarrow> inline F s (snd (run_state c s))) \<Longrightarrow> stmt_grows F V c"
  unfolding stmt_grows_def using inline_grown inline_ready by blast

lemma stmt_grows_expr: "scalar_expr F e \<Longrightarrow> stmt_grows F V (emitExpr e)"
  using computesE [OF computes_expr(1)] by (intro stmt_grows_inline) (metis snd_conv)

lemma run_operand:
  assumes "scalar_expr F e" "ready F s"
  obtains v t where "run_state (emitExpr e) s = (Some v, t)" "run_state (emit_operand emitExpr (Some e) d) s = (v, t)"
    "below (em_next t) v" "inline F s t" "open_at s \<longrightarrow> open_at t" "yields s v t (\<lambda>cf \<sigma>. eval cf \<sigma> e)"
proof -
  obtain v t where "run_state (emitExpr e) s = (Some v, t)" "below (em_next t) v" "inline F s t" "open_at s \<longrightarrow> open_at t"
    "yields s v t (\<lambda>cf \<sigma>. eval cf \<sigma> e)"
    by (rule computesE [OF computes_expr(1) [OF assms(1)] assms(2)])
  then show ?thesis by (intro that) (simp_all add: emit_operand_def emit_opt_def need_def)
qed

text \<open>The slot of a binding.\<close>

definition bound :: "string \<Rightarrow> ll_type \<Rightarrow> ll_value \<Rightarrow> emitter \<Rightarrow> emitter" where
  "bound x ty v s =
     (let t = appended (Store v (AllocaV (em_next s) ty)) (snd (run_state (createEntryAlloca x ty) s)) in
      t\<lparr>em_values := um_set x (AllocaV (em_next s) ty) (em_values t)\<rparr>)"

definition slot_type :: "emitter \<Rightarrow> type_ref option \<Rightarrow> ll_value \<Rightarrow> ll_type" where
  "slot_type s type v = (if \<not> is_array_type (value_type v) \<and> type \<noteq> None then ll_typeFromAst (em_layouts s) type else value_type v)"

lemma run_binding:
  assumes "t = None \<or> scalar_of_ref t \<noteq> None" "run_state (emit_operand emitExpr (Some e) (Some i64_zero)) s = (v, s1)"
  shows "run_state (emitExpr (BindingExpr n isVar x t (Some e))) s = (None, bound x (slot_type s1 t v) v s1)"
proof -
  have "tr_capability r \<noteq> Cap_Iso" if "t = Some r" for r
    using assms(1) that by (cases r) (auto split: if_splits)
  then show ?thesis
    using assms(2)
    by (simp add: emitBinding_def create_store_def run_entry_alloca bound_def Let_def slot_type_def split: option.split)
qed

lemma bound_props:
  assumes s: "ready F s" and x: "x \<notin> V"
  shows "ready F (bound x ty v s)" "grown n V s (bound x ty v s)"
    "um_find (em_values (bound x ty v s)) = (um_find (em_values s))(x \<mapsto> AllocaV (em_next s) ty)"
proof -
  let ?s1 = "snd (run_state (createEntryAlloca x ty) s)"
  let ?s2 = "appended (Store v (AllocaV (em_next s) ty)) ?s1"
  have i1: "inline F s ?s1" using inline_alloca [OF s] .
  then have i2: "inline F s ?s2" using inline_trans [OF i1 inline_appended [OF inline_ready [OF i1]]] by simp
  have up: "em_next ?s2 = Suc (em_next s)" by (simp add: run_entry_alloca map_code_def)
  have vals: "um_find (em_values ?s2) = um_find (em_values s)" using i2 by (rule inline_values)
  have fresh: "um_find (em_values ?s2) y \<noteq> Some (AllocaV (em_next s) t)" for y t
    unfolding vals using ready_slot [OF s, of y] by auto
  have b: "bound x ty v s = ?s2\<lparr>em_values := um_set x (AllocaV (em_next s) ty) (em_values ?s2)\<rparr>"
    by (simp add: bound_def Let_def)
  show "ready F (bound x ty v s)"
    unfolding b by (rule ready_bind [OF inline_ready [OF i2] _ fresh]) (simp only: up lessI)
  have "fn_blocks ?s2 \<noteq> []" using inline_ready [OF i2] by (simp add: ready_def)
  then show "grown n V s (bound x ty v s)"
    unfolding b using grown_trans [OF inline_grown [OF i2] grown_bind [OF _ x]] by blast
  show "um_find (em_values (bound x ty v s)) = (um_find (em_values s))(x \<mapsto> AllocaV (em_next s) ty)"
    unfolding b using vals by (simp add: fun_eq_iff um_find_set)
qed


subsection \<open>Branches\<close>

lemma grown_then: "grown n V s t \<Longrightarrow> grown n V t u \<Longrightarrow> grown n V s u"
  using grown_trans by blast

text \<open>Three new blocks with the first one entered, and a block closed by a branch and the next entered.\<close>

definition forked :: "ll_instr \<Rightarrow> string \<Rightarrow> string \<Rightarrow> string \<Rightarrow> emitter \<Rightarrow> emitter" where
  "forked i n1 n2 n3 s = enter_block (length (em_blocks s)) (appended i (add_block n3 (add_block n2 (add_block n1 s))))"

definition joined :: "nat \<Rightarrow> nat \<Rightarrow> emitter \<Rightarrow> emitter" where
  "joined b b' s = enter_block b' (if open_at s then appended (Br b) s else s)"

lemma run_fork:
  "ready F s \<Longrightarrow> run_state (three_blocks i n1 n2 n3) s =
     (length (em_blocks s), forked (i (length (em_blocks s))) n1 n2 n3 s)"
  using run_enter_block
  by (simp add: run_three_blocks ready_def forked_def exit_and_enter_def snd_bind del: run_state_bind)

lemma run_exit: "snd (run_state (exit_and_enter i b) s) = enter_block b (appended i s)"
  by (simp add: exit_and_enter_def snd_bind run_enter_block del: run_state_bind)

lemma run_join: "snd (run_state (close_and_enter b b') s) = joined b b' s"
  by (simp add: close_and_enter_def snd_bind run_enter_block run_branch_if_open joined_def open_at_def del: run_state_bind)

lemma forked_props:
  assumes s: "ready F s" and i: "\<not> is_alloca i" and n: "n = length (em_blocks s)" and t: "t = forked i n1 n2 n3 s"
  shows "ready F t" "grown n V s t" "length (em_blocks t) = n + 3" "em_insert t = n" "em_values t = em_values s"
    "\<And>b. n \<le> b \<Longrightarrow> b \<le> n + 2 \<Longrightarrow> ir_text t b = []" "extends (appended i s) t"
proof -
  let ?u = "add_block n3 (add_block n2 (add_block n1 s))"
  have u: "ready F ?u" using s by (intro ready_add_block)
  have "grown n V s (add_block n1 s)" "grown n V (add_block n1 s) (add_block n2 (add_block n1 s))"
    "grown n V (add_block n2 (add_block n1 s)) ?u"
    using s n by (auto intro!: grown_add_block ready_add_block)
  then have gu: "grown n V s ?u" using grown_then by blast
  have a: "inline F ?u (appended i ?u)" using u i by (rule inline_appended)
  then have ra: "ready F (appended i ?u)" by (rule inline_ready)
  have len: "length (em_blocks (appended i ?u)) = n + 3" using n by simp
  show "ready F t" unfolding t forked_def using ready_enter [OF ra] n len by simp
  show "grown n V s t"
    unfolding t forked_def by (rule grown_then [OF gu grown_then [OF inline_grown [OF a] grown_enter [OF ra]]]) (simp add: n)
  show "length (em_blocks t) = n + 3" "em_insert t = n" "em_values t = em_values s"
    using len n by (simp_all add: t forked_def) (simp_all add: enter_block_def add_block_def)
  have cur: "em_insert s < n" using s n by (simp add: ready_def)
  have code: "ir_text ?u b = (if b < n then ir_text s b else [])" if "b < n + 3" for b
    using that n by (auto simp: ir_text_add_block)
  have code': "ir_text t b = (if b = em_insert s then ir_text s b @ [i] else if b < n then ir_text s b else [])" if "b < n + 3" for b
    using that cur len i by (simp add: t forked_def ir_text_appended code)
  show "ir_text t b = []" if "n \<le> b" "b \<le> n + 2" for b using that code' [of b] cur by simp
  show "extends (appended i s) t"
    using code' cur i len n unfolding extends_def by (auto simp: ir_text_appended t forked_def)
qed

lemma joined_props:
  assumes s: "ready F s" and b': "b' < length (em_blocks s)" "n \<le> b'" and t: "t = joined b b' s"
  shows "ready F t" "grown n V s t" "em_insert t = b'" "em_values t = em_values s"
    "\<And>c. c \<noteq> em_insert s \<Longrightarrow> ir_text t c = ir_text s c" "open_at s \<Longrightarrow> extends (appended (Br b) s) t" "length (em_blocks t) = length (em_blocks s)"
proof -
  let ?u = "if open_at s then appended (Br b) s else s"
  have u: "inline F s ?u" using inline_appended [OF s, of "Br b"] inline_refl [OF s] by simp
  then have r: "ready F ?u" by (rule inline_ready)
  show "ready F t" unfolding t joined_def using ready_enter [OF r] b' by simp
  show "grown n V s t"
    unfolding t joined_def by (rule grown_then [OF inline_grown [OF u] grown_enter [OF r b'(2)]])
  show "em_insert t = b'" "em_values t = em_values s" "length (em_blocks t) = length (em_blocks s)"
    by (simp_all add: t joined_def) (simp_all add: enter_block_def)
  show "ir_text t c = ir_text s c" if "c \<noteq> em_insert s" for c
    using that s by (simp add: t joined_def ir_text_appended ready_def)
  show "extends (appended (Br b) s) t" if "open_at s"
    using that by (simp add: t joined_def extends_def)
qed

lemma extends_step: "grown n V s t \<Longrightarrow> extends t u \<Longrightarrow> extends s u"
  using grown_extends code_extends_trans by blast

text \<open>The states of the emitter in a conditional.\<close>

lemma if_states:
  assumes s: "ready F s" and v: "\<not> is_alloca (CondBr v n (n + 1))" and n: "n = length (em_blocks s)"
    and th: "stmt_grows F V thenc" and el: "stmt_grows F V elsec"
    and s2: "s2 = forked (CondBr v n (n + 1)) n1 n2 n3 s" and s3: "s3 = snd (run_state thenc s2)"
    and s4: "s4 = joined (n + 2) (n + 1) s3" and s5: "s5 = snd (run_state elsec s4)" and s6: "s6 = joined (n + 2) (n + 2) s5"
  shows "ready F s2" "ready F s3" "ready F s4" "ready F s5" "ready F s6"
    and "grown n V s s2" "grown n V s2 s3" "grown n V s3 s4" "grown n V s4 s5" "grown n V s5 s6"
    and "em_insert s2 = n" "em_insert s4 = n + 1" "em_insert s6 = n + 2"
    and "ir_text s2 n = []" "ir_text s4 (n + 1) = []" "ir_text s6 (n + 2) = []"
proof -
  note p2 = forked_props [OF s v n s2]
  show r2: "ready F s2" and g2: "grown n V s s2" and i2: "em_insert s2 = n" and t2: "ir_text s2 n = []"
    using p2 by simp_all
  have r3: "ready F s3" and g3: "grown (n + 3) V s2 s3" using stmt_growsD [OF th r2 s3 _ subset_refl, of "n + 3"] p2(3) by simp_all
  show "ready F s3" "grown n V s2 s3" using r3 grown_mono [OF g3] by simp_all
  have len3: "n + 3 \<le> length (em_blocks s3)" using grown_length [OF g3] p2(3) by simp
  have t3: "ir_text s3 b = []" if "n < b" "b \<le> n + 2" for b
  proof -
    have "ir_text s3 b = ir_text s2 b" using g3 that i2 by (simp add: grown_def)
    then show ?thesis using p2(6) [of b] that by simp
  qed
  have i3: "em_insert s3 = n \<or> n + 3 \<le> em_insert s3" using g3 i2 by (simp add: grown_def)
  have "n + 1 < length (em_blocks s3)" "n \<le> n + 1" using len3 by simp_all
  note p4 = joined_props [OF r3 this s4]
  show r4: "ready F s4" and g4: "grown n V s3 s4" and i4: "em_insert s4 = n + 1" using p4 by simp_all
  show "ir_text s4 (n + 1) = []" using p4(5) [of "n + 1"] t3 [of "n + 1"] i3 by auto
  have t4: "ir_text s4 (n + 2) = []" using p4(5) [of "n + 2"] t3 [of "n + 2"] i3 by auto
  have r5: "ready F s5" and g5: "grown (n + 3) V s4 s5"
    using stmt_growsD [OF el r4 s5 _ subset_refl, of "n + 3"] p4(7) len3 by simp_all
  show "ready F s5" "grown n V s4 s5" using r5 grown_mono [OF g5] by simp_all
  have t5: "ir_text s5 (n + 2) = []" using g5 i4 t4 by (simp add: grown_def)
  have i5: "em_insert s5 \<noteq> n + 2" using g5 i4 by (auto simp: grown_def)
  have "n + 2 < length (em_blocks s5)" "n \<le> n + 2" using grown_length [OF g5] p4(7) len3 by simp_all
  note p6 = joined_props [OF r5 this s6]
  show "ready F s6" "grown n V s5 s6" "em_insert s6 = n + 2" using p6 by simp_all
  show "ir_text s6 (n + 2) = []" using p6(5) i5 t5 by simp
qed

text \<open>The states of the emitter in a loop.\<close>

lemma while_states:
  assumes s: "ready F s" and n: "n = length (em_blocks s)" and b: "stmt_grows F V bodyc"
    and s1: "s1 = forked (Br n) n1 n2 n3 s" and s2: "inline F s1 s2"
    and s3: "s3 = enter_block (n + 1) (appended (CondBr v (n + 1) (n + 2)) s2)"
    and s4: "s4 = snd (run_state bodyc s3)" and s5: "s5 = joined n (n + 2) s4"
  shows "ready F s1" "ready F s2" "ready F s3" "ready F s4" "ready F s5"
    and "grown n V s s1" "grown n V s1 s2" "grown n V s2 s3" "grown n V s3 s4" "grown n V s4 s5"
    and "em_insert s1 = n" "em_insert s3 = n + 1" "em_insert s5 = n + 2"
    and "ir_text s1 n = []" "ir_text s3 (n + 1) = []" "ir_text s5 (n + 2) = []"
proof -
  have "\<not> is_alloca (Br n)" by simp
  note p1 = forked_props [OF s this n s1]
  show r1: "ready F s1" and g1: "grown n V s s1" and i1: "em_insert s1 = n" and t1: "ir_text s1 n = []"
    using p1 by simp_all
  show r2: "ready F s2" using s2 by (rule inline_ready)
  have g2: "grown (n + 3) V s1 s2" using inline_grown [OF s2] .
  show "grown n V s1 s2" using grown_mono [OF g2] by simp
  have i2: "em_insert s2 = n" using inline_insert [OF s2] i1 by simp
  have t2: "ir_text s2 b = []" if "n < b" "b \<le> n + 2" for b
  proof -
    have "ir_text s2 b = ir_text s1 b" using g2 that i1 by (simp add: grown_def)
    then show ?thesis using p1(6) [of b] that by simp
  qed
  have len2: "n + 3 \<le> length (em_blocks s2)" using grown_length [OF g2] p1(3) by simp
  let ?a = "appended (CondBr v (n + 1) (n + 2)) s2"
  have a: "inline F s2 ?a" using r2 by (rule inline_appended) simp
  then have ra: "ready F ?a" by (rule inline_ready)
  show r3: "ready F s3" unfolding s3 using ready_enter [OF ra] len2 by simp
  show "grown n V s2 s3" unfolding s3 by (rule grown_then [OF inline_grown [OF a] grown_enter [OF ra]]) simp
  show i3: "em_insert s3 = n + 1" by (simp add: s3)
  have t3: "ir_text s3 b = []" if "n < b" "b \<le> n + 2" for b
    using that t2 [OF that] i2 r2 by (simp add: s3 ir_text_appended ready_def)
  then show "ir_text s3 (n + 1) = []" by simp
  have len3: "n + 3 \<le> length (em_blocks s3)" using len2 by (simp add: s3)
  have r4: "ready F s4" and g4: "grown (n + 3) V s3 s4"
    using stmt_growsD [OF b r3 s4 _ subset_refl, of "n + 3"] len3 by simp_all
  show "ready F s4" "grown n V s3 s4" using r4 grown_mono [OF g4] by simp_all
  have t4: "ir_text s4 (n + 2) = []" using g4 i3 t3 [of "n + 2"] by (simp add: grown_def)
  have i4: "em_insert s4 \<noteq> n + 2" using g4 i3 by (auto simp: grown_def)
  have "n + 2 < length (em_blocks s4)" "n \<le> n + 2" using grown_length [OF g4] len3 by simp_all
  note p5 = joined_props [OF r4 this s5]
  show "ready F s5" "grown n V s4 s5" "em_insert s5 = n + 2" using p5 by simp_all
  show "ir_text s5 (n + 2) = []" using p5(5) i4 t4 by simp
qed


subsection \<open>Every statement grows the code\<close>

lemma stmt_grows_binding:
  assumes "x \<notin> V" "scalar_expr F e" "t = None \<or> scalar_of_ref t \<noteq> None"
  shows "stmt_grows F V (emitExpr (BindingExpr n isVar x t (Some e)))"
  unfolding stmt_grows_def
proof (intro allI impI)
  fix s assume s: "ready F s"
  obtain v s1 where 1: "run_state (emit_operand emitExpr (Some e) (Some i64_zero)) s = (v, s1)" "inline F s s1"
    using run_operand [OF assms(2) s] by metis
  note b = bound_props [OF inline_ready [OF 1(2)] assms(1)]
  show "ready F (snd (run_state (emitExpr (BindingExpr n isVar x t (Some e))) s)) \<and>
     grown (length (em_blocks s)) V s (snd (run_state (emitExpr (BindingExpr n isVar x t (Some e))) s))"
    unfolding run_binding [OF assms(3) 1(1)] snd_conv using b(1) grown_then [OF inline_grown [OF 1(2)] b(2)] by blast
qed

lemma run_assign:
  assumes "run_state (emitExpr e) s = (Some v, s1)" "em_bridgeSlots s1 = []"
  shows "snd (run_state (emitExpr (AssignExpr n (Some (NameExpr m x)) (Some e))) s) =
     (case um_find (em_values s1) x of None \<Rightarrow> s1 | Some p \<Rightarrow> appended (Store v p) s1)"
  using assms by (simp add: emitAssign_def emit_opt_def assign_name_def store_to_def create_store_def need_def split: option.split)

lemma stmt_grows_assign:
  assumes "scalar_expr F e" shows "stmt_grows F V (emitExpr (AssignExpr n (Some (NameExpr m x)) (Some e)))"
proof (rule stmt_grows_inline)
  fix s assume s: "ready F s"
  obtain v s1 where 1: "run_state (emitExpr e) s = (Some v, s1)" "inline F s s1"
    using run_operand [OF assms s] by metis
  have r: "ready F s1" using 1(2) by (rule inline_ready)
  then have "em_bridgeSlots s1 = []" by (simp add: ready_def)
  from run_assign [OF 1(1) this, of n m x]
  show "inline F s (snd (run_state (emitExpr (AssignExpr n (Some (NameExpr m x)) (Some e))) s))"
    using 1(2) inline_trans [OF 1(2) inline_appended [OF r]] by (simp split: option.split)
qed

lemma run_return:
  assumes "run_state (emitExpr e) s = (Some v, s1)"
  shows "snd (run_state (emitExpr (ReturnExpr n (Some e))) s) =
     appended (Ret (if lf_returnType (em_module s1 ! em_fn s1) = LVoid then None else Some v)) (s1\<lparr>em_next := Suc (em_next s1)\<rparr>)"
  using assms by (simp add: emitReturn_def emit_opt_def return_type_def fresh_def)

lemma stmt_grows_return:
  assumes "scalar_expr F e" shows "stmt_grows F V (emitExpr (ReturnExpr n (Some e)))"
proof (rule stmt_grows_inline)
  fix s assume s: "ready F s"
  obtain v s1 where 1: "run_state (emitExpr e) s = (Some v, s1)" "inline F s s1"
    using run_operand [OF assms s] by metis
  note up = inline_trans [OF 1(2) inline_next_used [OF inline_ready [OF 1(2)]]]
  show "inline F s (snd (run_state (emitExpr (ReturnExpr n (Some e))) s))"
    unfolding run_return [OF 1(1)] using inline_trans [OF up inline_appended [OF inline_ready [OF up]]] by simp
qed

lemma grown_from: "grown n V s t \<Longrightarrow> grown m V t u \<Longrightarrow> n \<le> m \<Longrightarrow> grown n V s u"
  using grown_trans by blast

lemma run_if:
  assumes "ready F s1" "run_state (emit_operand emitExpr (Some c) (Some (ConstInt LI1 0))) s = (v, s1)"
  shows "snd (run_state (emitExpr (IfExpr m (Some c) (Some b) els)) s) =
    (let n = length (em_blocks s1); s2 = forked (CondBr v n (n + 1)) ''if.then'' ''if.else'' ''if.end'' s1 in
     joined (n + 2) (n + 2) (snd (run_state (emit_opt emitExpr els None)
       (joined (n + 2) (n + 1) (snd (run_state (emit_block_opt emitExpr (Some b)) s2))))))"
  by (simp add: emitIf_blocks snd_bind assms(2) run_fork [OF assms(1)] run_join Let_def del: run_state_bind)

lemma stmt_grows_if:
  assumes "scalar_expr F c" "stmt_grows F V (emit_block_opt emitExpr (Some b))" "stmt_grows F V (emit_opt emitExpr els None)"
  shows "stmt_grows F V (emitExpr (IfExpr m (Some c) (Some b) els))"
  unfolding stmt_grows_def
proof (intro allI impI)
  fix s assume s: "ready F s"
  obtain v s1 where 1: "run_state (emit_operand emitExpr (Some c) (Some (ConstInt LI1 0))) s = (v, s1)" "inline F s s1"
    using run_operand [OF assms(1) s] by metis
  have r1: "ready F s1" using 1(2) by (rule inline_ready)
  have a: "\<not> is_alloca (CondBr v (length (em_blocks s1)) (length (em_blocks s1) + 1))" by simp
  note p = if_states [OF r1 a refl assms(2,3) refl refl refl refl refl, of "''if.then''" "''if.else''" "''if.end''"]
  have "grown (length (em_blocks s1)) V s1 (snd (run_state (emitExpr (IfExpr m (Some c) (Some b) els)) s))"
    unfolding run_if [OF r1 1(1)] Let_def by (rule grown_then [OF p(6) grown_then [OF p(7) grown_then [OF p(8) grown_then [OF p(9,10)]]]])
  then show "ready F (snd (run_state (emitExpr (IfExpr m (Some c) (Some b) els)) s)) \<and>
     grown (length (em_blocks s)) V s (snd (run_state (emitExpr (IfExpr m (Some c) (Some b) els)) s))"
    using p(5) grown_from [OF inline_grown [OF 1(2)] _ grown_length [OF inline_grown [OF 1(2)]]]
    unfolding run_if [OF r1 1(1)] Let_def by blast
qed

lemma run_while:
  assumes s: "ready F s" and c: "scalar_expr F c" and n: "n = length (em_blocks s)"
  obtains v s1 s2 where "s1 = forked (Br n) ''while.cond'' ''while.body'' ''while.end'' s"
    "run_state (emit_operand emitExpr (Some c) (Some (ConstInt LI1 0))) s1 = (v, s2)" "below (em_next s2) v" "inline F s1 s2"
    "open_at s1 \<longrightarrow> open_at s2" "yields s1 v s2 (\<lambda>cf \<sigma>. eval cf \<sigma> c)"
    "snd (run_state (emitExpr (WhileExpr m (Some c) (Some b))) s) =
       joined n (n + 2) (snd (run_state (emit_block_opt emitExpr (Some b))
         (enter_block (n + 1) (appended (CondBr v (n + 1) (n + 2)) s2))))"
proof -
  let ?s1 = "forked (Br n) ''while.cond'' ''while.body'' ''while.end'' s"
  have "\<not> is_alloca (Br n)" by simp
  then have "ready F ?s1" using forked_props(1) [OF s _ n refl] by blast
  then obtain v s2 where 2: "run_state (emit_operand emitExpr (Some c) (Some (ConstInt LI1 0))) ?s1 = (v, s2)"
    "below (em_next s2) v" "inline F ?s1 s2" "open_at ?s1 \<longrightarrow> open_at s2" "yields ?s1 v s2 (\<lambda>cf \<sigma>. eval cf \<sigma> c)"
    using run_operand [OF c] by metis
  have "snd (run_state (emitExpr (WhileExpr m (Some c) (Some b))) s) =
       joined n (n + 2) (snd (run_state (emit_block_opt emitExpr (Some b))
         (enter_block (n + 1) (appended (CondBr v (n + 1) (n + 2)) s2))))"
    by (simp add: emitWhile_blocks snd_bind 2(1) run_fork [OF s] run_join run_exit n [symmetric] del: run_state_bind)
  then show ?thesis using that [OF refl 2] by blast
qed

lemma stmt_grows_while:
  assumes "scalar_expr F c" "stmt_grows F V (emit_block_opt emitExpr (Some b))"
  shows "stmt_grows F V (emitExpr (WhileExpr m (Some c) (Some b)))"
  unfolding stmt_grows_def
proof (intro allI impI)
  fix s assume s: "ready F s"
  obtain v s1 s2 where 1: "s1 = forked (Br (length (em_blocks s))) ''while.cond'' ''while.body'' ''while.end'' s" "inline F s1 s2"
    "snd (run_state (emitExpr (WhileExpr m (Some c) (Some b))) s) =
       joined (length (em_blocks s)) (length (em_blocks s) + 2) (snd (run_state (emit_block_opt emitExpr (Some b))
         (enter_block (length (em_blocks s) + 1) (appended (CondBr v (length (em_blocks s) + 1) (length (em_blocks s) + 2)) s2))))"
    using run_while [OF s assms(1) refl, of m b] by metis
  note p = while_states [OF s refl assms(2) 1(1,2) refl refl refl]
  show "ready F (snd (run_state (emitExpr (WhileExpr m (Some c) (Some b))) s)) \<and>
     grown (length (em_blocks s)) V s (snd (run_state (emitExpr (WhileExpr m (Some c) (Some b))) s))"
    unfolding 1(3) using p(5) grown_then [OF p(6) grown_then [OF p(7) grown_then [OF p(8) grown_then [OF p(9,10)]]]] by blast
qed

lemma stmt_grows_ret: "stmt_grows F V (ret x)"
  by (rule stmt_grows_inline) (simp add: inline_refl)

lemma run_statements:
  "snd (run_state (block_statements rec v (e # es)) s) =
     (if \<not> open_at s then s
      else case e of None \<Rightarrow> snd (run_state (block_statements rec v es) s)
        | Some x \<Rightarrow> snd (run_state (block_statements rec (fst (run_state (rec x) s)) es) (snd (run_state (rec x) s))))"
  by (simp add: snd_bind open_at_def split: option.split del: run_state_bind)

lemma stmt_grows_nil: "stmt_grows F V (block_statements rec v [])"
  by (simp add: stmt_grows_ret)

lemma stmt_grows_none: "stmt_grows F V (block_statements rec v es) \<Longrightarrow> stmt_grows F V (block_statements rec v (None # es))"
  unfolding stmt_grows_def run_statements by (simp add: grown_refl ready_def)

lemma stmt_grows_cons:
  assumes "stmt_grows F V (rec x)" "\<And>v. stmt_grows F (V \<union> W) (block_statements rec v es)"
  shows "stmt_grows F V (block_statements rec v (Some x # es))"
  unfolding stmt_grows_def run_statements option.case
proof (intro allI impI)
  fix s assume s: "ready F s"
  let ?t = "snd (run_state (rec x) s)"
  let ?u = "snd (run_state (block_statements rec (fst (run_state (rec x) s)) es) ?t)"
  have t: "ready F ?t" "grown (length (em_blocks s)) V s ?t" using stmt_growsD [OF assms(1) s refl order_refl subset_refl] .
  have u: "ready F ?u" "grown (length (em_blocks ?t)) V ?t ?u" using stmt_growsD [OF assms(2) t(1) refl order_refl Un_upper1] .
  show "ready F (if \<not> open_at s then s else ?u) \<and> grown (length (em_blocks s)) V s (if \<not> open_at s then s else ?u)"
    using s u(1) grown_from [OF t(2) u(2) grown_length [OF t(2)]] by (simp add: grown_refl ready_def)
qed

lemma block_unfold: "emit_block_opt rec (Some (BlockExpr m es)) = block_statements rec None es"
  by (simp add: emit_block_opt_def emitBlock_with_def)

lemma stmt_grows_stmt:
  "scalar_stmt F V e \<Longrightarrow> stmt_grows F V (emitExpr e)"
  "scalar_block F V es \<Longrightarrow> \<forall>v. stmt_grows F V (block_statements emitExpr v es)"
proof (induction F V e and F V es rule: scalar_stmt_scalar_block.induct)
  case (1 F V n isVar x t e)
  then show ?case by (intro stmt_grows_binding) simp_all
next
  case (2 F V n m x e)
  then show ?case by (intro stmt_grows_assign) simp
next
  case (3 F V n e)
  then show ?case by (intro stmt_grows_return) simp
next
  case (4 F V n c m es els)
  then show ?case
    by (intro stmt_grows_if) (auto simp: block_unfold emit_opt_def stmt_grows_ret split: option.splits)
next
  case (5 F V n c m es)
  then show ?case by (intro stmt_grows_while) (simp_all add: block_unfold)
next
  case (6 F V n es)
  then show ?case by (simp add: block_unfold)
qed (auto simp del: block_statements.simps emitExpr.simps scalar_expr.simps scalar_args.simps
    intro: stmt_grows_expr stmt_grows_nil stmt_grows_none stmt_grows_cons)

end
