(* ===== verification/Gura_CodeGen_Simulate.thy ===== *)
theory Gura_CodeGen_Simulate
  imports Gura_CodeGen_Stmt
begin

section \<open>The code of a statement does what the statement does\<close>

text \<open>
  The simulation for statements of the scalar fragment, after the discipline of scopes of the reference semantics that
  it rests on: no binding hides a visible name, so that the slots of the visible names survive the code of a block.
\<close>

subsection \<open>Scopes\<close>

definition names :: "frames \<Rightarrow> string set" where
  "names \<sigma> = {x. find_var \<sigma> x \<noteq> None}"

definition shape :: "frames \<Rightarrow> string set list" where
  "shape \<sigma> = map (\<lambda>fr. dom (um_find fr)) \<sigma>"

lemma names_shape: "names \<sigma> = \<Union> (set (shape \<sigma>))"
proof (induction \<sigma>)
  case (Cons fr frs)
  have "names (fr # frs) = dom (um_find fr) \<union> names frs"
    by (auto simp: names_def split: option.splits)
  with Cons show ?case by (simp add: shape_def)
qed (simp add: names_def shape_def)

lemma shape_simps [simp]: "shape (tl \<sigma>) = tl (shape \<sigma>)" "shape \<sigma> = [] \<longleftrightarrow> \<sigma> = []"
  by (simp_all add: shape_def map_tl)

fun scoped :: "frames \<Rightarrow> bool" where
  "scoped [] \<longleftrightarrow> True"
| "scoped (fr # frs) \<longleftrightarrow> scoped frs \<and> (\<forall>x. um_find fr x \<noteq> None \<longrightarrow> find_var frs x = None)"

definition inside :: "string set \<Rightarrow> frames \<Rightarrow> bool" where
  "inside V \<sigma> \<longleftrightarrow> scoped \<sigma> \<and> \<sigma> \<noteq> [] \<and> names \<sigma> \<subseteq> V"

lemma find_bind: "\<sigma> \<noteq> [] \<Longrightarrow> find_var (bind_var x v \<sigma>) = (find_var \<sigma>)(x \<mapsto> v)"
  by (cases \<sigma>) (auto simp: fun_eq_iff um_find_set)

lemma find_assign: "find_var (assign_var x v \<sigma>) = (if find_var \<sigma> x = None then find_var \<sigma> else (find_var \<sigma>)(x \<mapsto> v))"
  by (induction \<sigma>) (auto simp: fun_eq_iff um_find_set um_contains_find split: option.splits)

lemma names_bind: "\<sigma> \<noteq> [] \<Longrightarrow> names (bind_var x v \<sigma>) = insert x (names \<sigma>)" "tl (bind_var x v \<sigma>) = tl \<sigma>"
  "bind_var x v \<sigma> \<noteq> []"
  by (auto simp: names_def find_bind) (cases \<sigma>; simp)+

lemma shape_assign [simp]: "shape (assign_var x v \<sigma>) = shape \<sigma>"
  by (induction \<sigma>) (auto simp: shape_def um_find_set um_contains_find split: if_splits)

lemma scoped_bind: "scoped \<sigma> \<Longrightarrow> x \<notin> names \<sigma> \<Longrightarrow> scoped (bind_var x v \<sigma>)"
  by (cases \<sigma>) (auto simp: names_def um_find_set split: option.splits if_splits)

lemma scoped_assign: "scoped \<sigma> \<Longrightarrow> scoped (assign_var x v \<sigma>)"
proof (induction \<sigma>)
  case (Cons fr frs)
  have "find_var (assign_var x v frs) y = None \<longleftrightarrow> find_var frs y = None" for y
    by (auto simp: find_assign)
  with Cons show ?case by (auto simp: um_find_set um_contains_find split: if_splits)
qed simp

lemma scoped_tl: "scoped \<sigma> \<Longrightarrow> find_var (tl \<sigma>) x = Some v \<Longrightarrow> find_var \<sigma> x = Some v"
  by (cases \<sigma>) (auto split: option.split)

text \<open>What a statement keeps of the scopes.\<close>

definition rescoped :: "string set \<Rightarrow> frames \<Rightarrow> frames \<Rightarrow> bool" where
  "rescoped X \<sigma> \<sigma>' \<longleftrightarrow> scoped \<sigma>' \<and> \<sigma>' \<noteq> [] \<and> tl (shape \<sigma>') = tl (shape \<sigma>) \<and> names \<sigma>' = names \<sigma> \<union> X"

lemma rescoped_inside: "rescoped X \<sigma> \<sigma>' \<Longrightarrow> inside V \<sigma> \<Longrightarrow> inside (V \<union> X) \<sigma>'"
  by (auto simp: rescoped_def inside_def)

lemma rescoped_refl: "inside V \<sigma> \<Longrightarrow> rescoped {} \<sigma> \<sigma>"
  by (simp add: rescoped_def inside_def)

lemma inside_block: "inside V \<sigma> \<Longrightarrow> inside V ([] # \<sigma>)"
  by (auto simp: inside_def names_def)

definition scopes_kept :: "(frames \<Rightarrow> expr \<Rightarrow> completion option) \<Rightarrow> bool" where
  "scopes_kept run \<longleftrightarrow> (\<forall>F V \<sigma> e \<sigma>'. run \<sigma> e = Some (Normally \<sigma>') \<longrightarrow> scalar_stmt F V e \<longrightarrow> inside V \<sigma> \<longrightarrow>
     rescoped (binds e) \<sigma> \<sigma>')"

lemma exec_list_scopes:
  assumes run: "scopes_kept run"
  shows "exec_list run \<sigma> es = Some (Normally \<sigma>') \<Longrightarrow> scalar_block F V es \<Longrightarrow> inside V \<sigma> \<Longrightarrow> \<exists>X. rescoped X \<sigma> \<sigma>'"
proof (induction es arbitrary: \<sigma> V)
  case Nil
  then show ?case using rescoped_refl by auto
next
  case (Cons e es)
  show ?case
  proof (cases e)
    case None
    then show ?thesis using Cons by simp
  next
    case (Some x)
    with Cons.prems obtain \<sigma>1 where 1: "run \<sigma> x = Some (Normally \<sigma>1)" "exec_list run \<sigma>1 es = Some (Normally \<sigma>')"
      by (auto split: option.splits completion.splits)
    have r1: "rescoped (binds x) \<sigma> \<sigma>1" using run 1(1) Cons.prems(2,3) Some unfolding scopes_kept_def by auto
    obtain X where "rescoped X \<sigma>1 \<sigma>'"
      using Cons.IH [OF 1(2) _ rescoped_inside [OF r1 Cons.prems(3)]] Cons.prems(2) Some by auto
    with r1 have "rescoped (binds x \<union> X) \<sigma> \<sigma>'" by (auto simp: rescoped_def)
    then show ?thesis ..
  qed
qed

lemma exec_block_scopes:
  assumes "scopes_kept run" "exec_block run \<sigma> es = Some (Normally \<sigma>')" "scalar_block F V es" "inside V \<sigma>"
  shows "rescoped {} \<sigma> \<sigma>'"
proof -
  obtain \<sigma>1 where 1: "exec_list run ([] # \<sigma>) es = Some (Normally \<sigma>1)" "\<sigma>' = tl \<sigma>1"
    using assms(2) by (auto simp: exec_block_def split: option.splits completion.splits)
  obtain X where "rescoped X ([] # \<sigma>) \<sigma>1"
    using exec_list_scopes [OF assms(1) 1(1) assms(3) inside_block [OF assms(4)]] by blast
  then have "shape \<sigma>' = shape \<sigma>" "scoped \<sigma>'"
    using 1(2) by (cases \<sigma>1; simp add: rescoped_def shape_def)+
  then show ?thesis using assms(4) shape_simps(2) [of \<sigma>'] by (simp add: rescoped_def inside_def names_shape)
qed

lemma scalar_stmt_cases:
  assumes "scalar_stmt F V e"
  obtains (binding) n isVar x t i where "e = BindingExpr n isVar x t (Some i)" "x \<notin> V" "scalar_expr F i"
      "t = None \<or> scalar_of_ref t \<noteq> None"
  | (assign) n m x i where "e = AssignExpr n (Some (NameExpr m x)) (Some i)" "scalar_expr F i"
  | (return) n i where "e = ReturnExpr n (Some i)" "scalar_expr F i"
  | (cond) n c m es els where "e = IfExpr n (Some c) (Some (BlockExpr m es)) els" "scalar_expr F c" "scalar_block F V es"
      "\<And>x. els = Some x \<Longrightarrow> binds x = {} \<and> scalar_stmt F V x"
  | (loop) n c m es where "e = WhileExpr n (Some c) (Some (BlockExpr m es))" "scalar_expr F c" "scalar_block F V es"
  | (block) n es where "e = BlockE (BlockExpr n es)" "scalar_block F V es"
  | (plain) "scalar_expr F e" "\<And>cf n \<sigma>. exec cf (Suc n) \<sigma> e = map_option (\<lambda>_. Normally \<sigma>) (eval cf \<sigma> e)" "binds e = {}"
  using assms by (elim scalar_stmt.elims(2)) (auto split: option.splits)

lemma exec_scopes: "scopes_kept (exec cf n)"
proof (induction n)
  case 0
  then show ?case by (simp add: scopes_kept_def)
next
  case (Suc n)
  have "rescoped (binds e) \<sigma> \<sigma>'"
    if e: "exec cf (Suc n) \<sigma> e = Some (Normally \<sigma>')" "scalar_stmt F V e" and \<sigma>: "inside V \<sigma>" for F V \<sigma> e \<sigma>'
    using e(2)
  proof (cases rule: scalar_stmt_cases)
    case (binding n isVar x t e)
    then have "x \<notin> names \<sigma>" using \<sigma> by (auto simp: inside_def)
    then show ?thesis using binding e(1) \<sigma>
      by (auto simp: inside_def rescoped_def names_bind scoped_bind shape_simps(1) [symmetric] simp del: shape_simps(1)
          split: option.splits if_splits)
  next
    case (assign m m' x i)
    then show ?thesis using e(1) \<sigma>
      by (auto simp: inside_def rescoped_def scoped_assign names_shape shape_simps(2) [symmetric] simp del: shape_simps(2)
          split: option.splits if_splits)
  next
    case (return m i)
    then show ?thesis using e(1) by auto
  next
    case (cond m c m' es els)
    then show ?thesis
      using e(1) exec_block_scopes [OF Suc _ cond(3) \<sigma>] rescoped_refl [OF \<sigma>] Suc \<sigma> unfolding scopes_kept_def
      by (fastforce split: option.splits scalar.splits if_splits)
  next
    case (loop m c m' es)
    let ?while = "WhileExpr m (Some c) (Some (BlockExpr m' es))"
    have "scalar_stmt F V ?while" "binds ?while = {}" using loop by simp_all
    then have again: "rescoped {} \<sigma> \<sigma>''"
      if "rescoped {} \<sigma> \<sigma>1" "exec cf n \<sigma>1 ?while = Some (Normally \<sigma>'')" for \<sigma>1 \<sigma>''
      using Suc rescoped_inside [OF that(1) \<sigma>] that unfolding scopes_kept_def by (force simp: rescoped_def)
    show ?thesis
      using e(1) loop exec_block_scopes [OF Suc _ loop(3) \<sigma>] again rescoped_refl [OF \<sigma>]
      by (fastforce split: option.splits scalar.splits if_splits completion.splits)
  next
    case (block m es)
    then show ?thesis using e(1) exec_block_scopes [OF Suc _ block(2) \<sigma>] by simp
  next
    case plain
    then show ?thesis using e(1) rescoped_refl [OF \<sigma>] by auto
  qed
  then show ?case unfolding scopes_kept_def by blast
qed


subsection \<open>Arriving at the end of a piece of code\<close>

abbreviation slots_ok :: "frames \<Rightarrow> emitter \<Rightarrow> slots \<Rightarrow> bool" where
  "slots_ok \<equiv> vars_ok UNIV"

abbreviation result_type :: "emitter \<Rightarrow> ll_type" where
  "result_type s \<equiv> lf_returnType (em_module s ! em_fn s)"

fun arrives :: "(nat \<Rightarrow> ll_instr list) \<Rightarrow> (nat \<Rightarrow> nat) \<Rightarrow> ir_value list \<Rightarrow> ir_config \<Rightarrow> emitter \<Rightarrow> completion \<Rightarrow> bool" where
  "arrives C E args k t (Normally \<sigma>) \<longleftrightarrow>
     open_at t \<and> (\<exists>regs mem. ir_run C E args k (here t regs mem) \<and> slots_ok \<sigma> t mem)"
| "arrives C E args k t (Returning v) \<longleftrightarrow> (\<exists>w. ir_run C E args k (Done w) \<and> value_rel v w)"

definition simulates ::
    "string set \<Rightarrow> string set \<Rightarrow> 'a em \<Rightarrow> (calls \<Rightarrow> nat \<Rightarrow> frames \<Rightarrow> completion option) \<Rightarrow> bool" where
  "simulates F V c meaning \<longleftrightarrow> (\<forall>s C E cf args \<sigma> mem regs n r.
     ready F s \<longrightarrow> open_at s \<longrightarrow> result_type s \<noteq> LVoid \<longrightarrow> within C (snd (run_state c s)) \<longrightarrow> calls_ok C E cf s \<longrightarrow>
     inside V \<sigma> \<longrightarrow> slots_ok \<sigma> s mem \<longrightarrow> meaning cf n \<sigma> = Some r \<longrightarrow>
     arrives C E args (here s regs mem) (snd (run_state c s)) r)"

lemma simulatesI:
  assumes "\<And>s t C E cf args \<sigma> mem regs n r. ready F s \<Longrightarrow> open_at s \<Longrightarrow> result_type s \<noteq> LVoid \<Longrightarrow>
     t = snd (run_state c s) \<Longrightarrow> within C t \<Longrightarrow> calls_ok C E cf s \<Longrightarrow> inside V \<sigma> \<Longrightarrow> slots_ok \<sigma> s mem \<Longrightarrow>
     meaning cf n \<sigma> = Some r \<Longrightarrow> arrives C E args (here s regs mem) t r"
  shows "simulates F V c meaning"
  using assms unfolding simulates_def by blast

lemma simulatesD:
  assumes "simulates F V c meaning" "ready F s" "open_at s" "result_type s \<noteq> LVoid" "t = snd (run_state c s)" "within C t"
    "calls_ok C E cf s" "inside V \<sigma>" "slots_ok \<sigma> s mem" "meaning cf n \<sigma> = Some r"
  shows "arrives C E args (here s regs mem) t r"
  using assms unfolding simulates_def by blast

lemma arrives_from: "ir_run C E args k k' \<Longrightarrow> arrives C E args k' t r \<Longrightarrow> arrives C E args k t r"
  by (cases r) (auto intro: ir_run_trans)

lemma arrives_here: "open_at s \<Longrightarrow> slots_ok \<sigma> s mem \<Longrightarrow> arrives C E args (here s regs mem) s (Normally \<sigma>)"
  unfolding arrives.simps using ir_stay by blast

lemma arrives_returning: "arrives C E args k s (Returning w) \<Longrightarrow> arrives C E args k t (Returning w)"
  by simp

lemma slots_grown: "slots_ok \<sigma> s mem \<Longrightarrow> inside V \<sigma> \<Longrightarrow> grown n V s t \<Longrightarrow> slots_ok \<sigma> t mem"
  unfolding vars_ok_def inside_def names_def grown_def by (metis (mono_tags, lifting) mem_Collect_eq option.distinct(1) subsetD)

lemma open_empty: "ready F s \<Longrightarrow> ir_text s (em_insert s) = [] \<Longrightarrow> open_at s"
proof -
  assume "ir_text s (em_insert s) = []"
  then have "\<forall>i\<in>set (code_of (em_blocks s) (em_insert s)). is_alloca i" by (simp add: ir_text_def filter_empty_conv)
  then have "code_of (em_blocks s) (em_insert s) \<noteq> [] \<Longrightarrow> is_alloca (last (code_of (em_blocks s) (em_insert s)))"
    by simp
  then show "open_at s" by (auto simp: open_at_def has_terminator_def Let_def elim!: is_alloca.elims)
qed

lemma result_type_grown: "grown n V s t \<Longrightarrow> ready F s \<Longrightarrow> result_type t = result_type s"
  using same_decls_returns [of s t "em_fn s"] by (auto simp: grown_def ready_def same_decls_def)

lemma calls_grown: "calls_ok C E cf s \<Longrightarrow> grown n V s t \<Longrightarrow> calls_ok C E cf t"
  using calls_ok_decls by (auto simp: grown_def)

text \<open>The branch that closes a block is taken from behind its code.\<close>

lemma step_last:
  assumes "within C t" "extends (appended i s) t" "ready F s" "\<not> is_alloca i"
  shows "length (ir_text s (em_insert s)) < length (C (em_insert s))" "C (em_insert s) ! length (ir_text s (em_insert s)) = i"
  using within_next [OF within_extends [OF assms(1,2)] assms(3,4)] by simp_all

lemma run_jump:
  assumes "within C t" "extends (appended (Br b) s) t" "ready F s"
  shows "ir_run C E args (here s regs mem) (At b 0 regs mem)"
  using step_last [OF assms] by (intro ir_run_step ir_br) simp_all

lemma run_choice:
  assumes "within C t" "extends (appended (CondBr v b1 b2) s) t" "ready F s" "value_in args regs v (BoolV c)"
  shows "ir_run C E args (here s regs mem) (At (if c then b1 else b2) 0 regs mem)"
proof -
  obtain w where "ir_operand args regs v = Some w" "value_rel (BoolV c) w" using assms(4) by (auto simp: value_in_def)
  then have "ir_operand args regs v = Some (W1 c)" by (cases w) simp_all
  then show ?thesis using step_last [OF assms(1-3)] by (intro ir_run_step ir_condbr) simp_all
qed

lemma arrives_joined:
  assumes r: "arrives C E args k s (Normally \<sigma>)" and s: "ready F s" and t: "t = joined b b' s" "within C t"
    and b': "b' < length (em_blocks s)"
  obtains regs mem where "ir_run C E args k (At b 0 regs mem)" "slots_ok \<sigma> s mem"
proof -
  obtain regs mem where 1: "open_at s" "ir_run C E args k (here s regs mem)" "slots_ok \<sigma> s mem" using r by auto
  have "extends (appended (Br b) s) t" using joined_props(6) [OF s b' le0 t(1) 1(1)] .
  from ir_run_trans [OF 1(2) run_jump [OF t(2) this s]] 1(3) show ?thesis by (rule that)
qed

text \<open>The value of an operand.\<close>

lemma run_value:
  assumes "yields s v t (\<lambda>cf \<sigma>. eval cf \<sigma> e)" "within C t" "calls_ok C E cf s" "slots_ok \<sigma> s mem" "eval cf \<sigma> e = Some x"
  obtains regs' where "ir_run C E args (here s regs mem) (here t regs' mem)" "value_in args regs' v x"
  using yieldsD [OF assms] that unfolding runs_def by blast


subsection \<open>Simple statements\<close>

lemma simulates_plain:
  assumes e: "scalar_expr F e" and m: "\<And>cf n \<sigma>. m cf (Suc n) \<sigma> = map_option (\<lambda>_. Normally \<sigma>) (eval cf \<sigma> e)"
    "\<And>cf \<sigma>. m cf 0 \<sigma> = None"
  shows "simulates F V (emitExpr e) m"
proof (rule simulatesI)
  fix s t C E cf args \<sigma> mem regs n r
  assume s: "ready F s" "open_at s" and t: "t = snd (run_state (emitExpr e) s)" "within C t" and cf: "calls_ok C E cf s"
    and \<sigma>: "slots_ok \<sigma> s mem" and r: "m cf n \<sigma> = Some r"
  obtain v where v: "inline F s t" "open_at t" "yields s v t (\<lambda>cf \<sigma>. eval cf \<sigma> e)"
    using run_operand [OF e s(1)] s(2) t(1) by (metis snd_conv)
  obtain x where x: "r = Normally \<sigma>" "eval cf \<sigma> e = Some x" using r m by (cases n) auto
  show "arrives C E args (here s regs mem) t r"
    using run_value [OF v(3) t(2) cf \<sigma> x(2)] v(2) vars_ok_values [OF \<sigma> inline_values [OF v(1)]] unfolding x(1) by (metis arrives.simps(1))
qed

text \<open>A store into a slot.\<close>

lemma run_store:
  assumes "within C t" "extends (appended (Store v (AllocaV a ty)) s) t" "ready F s" "value_in args regs v x"
    "ty = ll_of (scalar_type_of x)"
  obtains w where "value_rel x w"
    "ir_run C E args (here s regs mem) (here (appended (Store v (AllocaV a ty)) s) regs (mem(a \<mapsto> w)))"
proof -
  obtain w where w: "ir_operand args regs v = Some w" "value_rel x w" using assms(4) by (auto simp: value_in_def)
  have "ir_step C E args (here s regs mem) (At (em_insert s) (Suc (length (ir_text s (em_insert s)))) regs (mem(a \<mapsto> w)))"
    using step_last [OF assms(1-3)] w value_rel_type [OF w(2)] assms(5) by (intro ir_store) simp_all
  then show ?thesis using that [OF w(2)] ir_run_step here_appended [OF assms(3)] by simp
qed

lemma slot_type_scalar:
  assumes "ready F s" "value_type v = ll_of (scalar_type_of x)" "t = None \<or> scalar_of_ref t = Some (scalar_type_of x)"
  shows "slot_type s t v = ll_of (scalar_type_of x)"
proof -
  have no: "um_find (em_layouts s) ''i64'' = None" using assms(1) by (simp add: ready_def)
  have "\<not> is_array_type (ll_of y)" for y by (cases y) simp_all
  then show ?thesis using assms(2,3) no by (cases t rule: scalar_of_ref.cases) (auto simp: slot_type_def split: if_splits)
qed

lemma slots_ok_bind:
  assumes "slots_ok \<sigma> s mem" "ready F s" "\<sigma> \<noteq> []" "value_rel v w"
    "um_find (em_values t) = (um_find (em_values s))(x \<mapsto> AllocaV (em_next s) (ll_of (scalar_type_of v)))"
  shows "slots_ok (bind_var x v \<sigma>) t (mem(em_next s \<mapsto> w))"
  unfolding vars_ok_def
proof (intro allI impI conjI UNIV_I)
  fix y u assume y: "find_var (bind_var x v \<sigma>) y = Some u"
  show "\<exists>a w'. um_find (em_values t) y = Some (AllocaV a (ll_of (scalar_type_of u))) \<and> (mem(em_next s \<mapsto> w)) a = Some w' \<and> value_rel u w'"
  proof (cases "y = x")
    case True
    then show ?thesis using y assms(3-5) by (simp add: find_bind)
  next
    case False
    then obtain a w' where a: "um_find (em_values s) y = Some (AllocaV a (ll_of (scalar_type_of u)))" "mem a = Some w'" "value_rel u w'"
      using vars_okD [OF assms(1), of y u] y assms(3) by (auto simp: find_bind)
    have "a < em_next s" using ready_slot [OF assms(2) a(1)] by simp
    then show ?thesis using a False assms(5) by simp
  qed
qed

lemma slots_ok_assign:
  assumes "slots_ok \<sigma> s mem" "ready F s" "find_var \<sigma> x = Some old" "scalar_type_of v = scalar_type_of old" "value_rel v w"
    "um_find (em_values s) x = Some (AllocaV a ty)"
  shows "slots_ok (assign_var x v \<sigma>) s (mem(a \<mapsto> w))"
  unfolding vars_ok_def
proof (intro allI impI conjI UNIV_I)
  fix y u assume y: "find_var (assign_var x v \<sigma>) y = Some u"
  have ty: "ty = ll_of (scalar_type_of v)" using vars_okD [OF assms(1,3)] assms(4,6) by simp
  show "\<exists>b w'. um_find (em_values s) y = Some (AllocaV b (ll_of (scalar_type_of u))) \<and> (mem(a \<mapsto> w)) b = Some w' \<and> value_rel u w'"
  proof (cases "y = x")
    case True
    then show ?thesis using y assms(3,5,6) ty by (simp add: find_assign)
  next
    case False
    then obtain b w' where b: "um_find (em_values s) y = Some (AllocaV b (ll_of (scalar_type_of u)))" "mem b = Some w'" "value_rel u w'"
      using vars_okD [OF assms(1), of y u] y assms(3) by (auto simp: find_assign)
    have "a \<noteq> b" using assms(2,6) b(1) False unfolding ready_def by blast
    then show ?thesis using b by simp
  qed
qed

lemma alloca_text:
  assumes s: "ready F s" and t: "t = snd (run_state (createEntryAlloca name ty) s)"
  shows "ir_text t = ir_text s" "em_insert t = em_insert s"
proof -
  show "ir_text t = ir_text s"
    using s unfolding t run_entry_alloca snd_conv fun_eq_iff
    by (subst ir_text_map_code) (auto simp: ready_def ir_text_def)
  show "em_insert t = em_insert s" by (simp add: t run_entry_alloca)
qed

lemma run_bound:
  assumes s: "ready F s" and t: "t = bound x (ll_of (scalar_type_of y)) v s" and C: "within C t"
    and v: "value_in args regs v y" and \<sigma>: "slots_ok \<sigma> s mem" "\<sigma> \<noteq> []"
  obtains mem' where "ir_run C E args (here s regs mem) (here t regs mem')" "slots_ok (bind_var x y \<sigma>) t mem'"
proof -
  let ?ty = "ll_of (scalar_type_of y)"
  let ?u = "snd (run_state (createEntryAlloca x ?ty) s)" and ?i = "Store v (AllocaV (em_next s) ?ty)"
  have u: "inline F s ?u" using s by (rule inline_alloca)
  have ext: "extends (appended ?i ?u) t" by (simp add: t bound_def Let_def extends_def ir_text_def)
  obtain w where w: "value_rel y w" "ir_run C E args (here ?u regs mem) (here (appended ?i ?u) regs (mem(em_next s \<mapsto> w)))"
    using run_store [OF C ext inline_ready [OF u] v refl] by blast
  have h1: "here ?u regs mem = here s regs mem" using alloca_text [OF s refl] by simp
  have h2: "here (appended ?i ?u) regs mem' = here t regs mem'" for mem'
    by (simp add: t bound_def Let_def ir_text_def)
  have "slots_ok (bind_var x y \<sigma>) t (mem(em_next s \<mapsto> w))"
    using slots_ok_bind [OF \<sigma>(1) s \<sigma>(2) w(1)] bound_props(3) [OF s, of x "{}"] by (simp add: t)
  then show ?thesis by (rule that [OF w(2) [unfolded h1 h2]])
qed

lemma open_bound: "ready F s \<Longrightarrow> open_at (bound x ty v s)"
proof -
  assume "ready F s"
  then have "ready F (snd (run_state (createEntryAlloca x ty) s))" using inline_alloca inline_ready by blast
  from open_appended [OF this] show ?thesis
    by (simp add: bound_def Let_def open_at_def has_terminator_def)
qed

lemma simulates_binding:
  assumes e: "scalar_expr F e" and t: "ty = None \<or> scalar_of_ref ty \<noteq> None"
  shows "simulates F V (emitExpr (BindingExpr m isVar x ty (Some e))) (\<lambda>cf n \<sigma>. exec cf n \<sigma> (BindingExpr m isVar x ty (Some e)))"
proof (rule simulatesI)
  fix s t C E cf args \<sigma> mem regs n r
  assume s: "ready F s" "open_at s" and run: "t = snd (run_state (emitExpr (BindingExpr m isVar x ty (Some e))) s)"
    and C: "within C t" and cf: "calls_ok C E cf s" and i: "inside V \<sigma>" and \<sigma>: "slots_ok \<sigma> s mem"
    and r: "exec cf n \<sigma> (BindingExpr m isVar x ty (Some e)) = Some r"
  obtain v s1 where 1: "run_state (emit_operand emitExpr (Some e) (Some i64_zero)) s = (v, s1)" "inline F s s1"
    "yields s v s1 (\<lambda>cf \<sigma>. eval cf \<sigma> e)" using run_operand [OF e s(1)] by metis
  have r1: "ready F s1" using 1(2) by (rule inline_ready)
  obtain y where y: "eval cf \<sigma> e = Some y" "ty = None \<or> scalar_of_ref ty = Some (scalar_type_of y)" "r = Normally (bind_var x y \<sigma>)"
    using r by (cases n) (auto split: option.splits if_splits)
  have t': "t = bound x (slot_type s1 ty v) v s1" using run_binding [OF t 1(1)] run by simp
  have ext: "extends s1 t" unfolding t' using grown_extends [OF bound_props(2) [OF r1, of x "{}"]] by simp
  obtain regs1 where v: "ir_run C E args (here s regs mem) (here s1 regs1 mem)" "value_in args regs1 v y"
    using run_value [OF 1(3) within_extends [OF C ext] cf \<sigma> y(1)] by blast
  have st: "slot_type s1 ty v = ll_of (scalar_type_of y)" using slot_type_scalar [OF r1 _ y(2)] v(2) by (simp add: value_in_def)
  have ne: "\<sigma> \<noteq> []" using i by (simp add: inside_def)
  obtain mem' where "ir_run C E args (here s1 regs1 mem) (here t regs1 mem')" "slots_ok (bind_var x y \<sigma>) t mem'"
    using run_bound [OF r1 t' [unfolded st] C v(2) vars_ok_values [OF \<sigma> inline_values [OF 1(2)]] ne] by blast
  then show "arrives C E args (here s regs mem) t r"
    unfolding y(3) arrives.simps using ir_run_trans [OF v(1)] open_bound [OF r1] t' by blast
qed

lemma simulates_assign:
  assumes e: "scalar_expr F e"
  shows "simulates F V (emitExpr (AssignExpr m (Some (NameExpr m' x)) (Some e)))
     (\<lambda>cf n \<sigma>. exec cf n \<sigma> (AssignExpr m (Some (NameExpr m' x)) (Some e)))"
proof (rule simulatesI)
  fix s t C E cf args \<sigma> mem regs n r
  assume s: "ready F s" "open_at s" and run: "t = snd (run_state (emitExpr (AssignExpr m (Some (NameExpr m' x)) (Some e))) s)"
    and C: "within C t" and cf: "calls_ok C E cf s" and \<sigma>: "slots_ok \<sigma> s mem"
    and r: "exec cf n \<sigma> (AssignExpr m (Some (NameExpr m' x)) (Some e)) = Some r"
  obtain v s1 where 1: "run_state (emitExpr e) s = (Some v, s1)" "inline F s s1" "open_at s1"
    "yields s v s1 (\<lambda>cf \<sigma>. eval cf \<sigma> e)" using run_operand [OF e s(1)] s(2) by metis
  have r1: "ready F s1" using 1(2) by (rule inline_ready)
  obtain y old where y: "eval cf \<sigma> e = Some y" "find_var \<sigma> x = Some old" "scalar_type_of y = scalar_type_of old"
    "r = Normally (assign_var x y \<sigma>)"
    using r by (cases n) (auto split: option.splits if_splits)
  have \<sigma>1: "slots_ok \<sigma> s1 mem" using vars_ok_values [OF \<sigma> inline_values [OF 1(2)]] .
  obtain a where a: "um_find (em_values s1) x = Some (AllocaV a (ll_of (scalar_type_of y)))"
    using vars_okD [OF \<sigma>1 y(2)] y(3) by auto
  have "em_bridgeSlots s1 = []" using r1 by (simp add: ready_def)
  then have t': "t = appended (Store v (AllocaV a (ll_of (scalar_type_of y)))) s1"
    using run_assign [OF 1(1), of m m' x] a run by simp
  have ext: "extends s1 t" unfolding t' using inline_extends [OF inline_appended [OF r1]] by simp
  obtain regs1 where v: "ir_run C E args (here s regs mem) (here s1 regs1 mem)" "value_in args regs1 v y"
    using run_value [OF 1(4) within_extends [OF C ext] cf \<sigma> y(1)] by blast
  obtain w where w: "value_rel y w" "ir_run C E args (here s1 regs1 mem) (here t regs1 (mem(a \<mapsto> w)))"
    using run_store [OF C _ r1 v(2) refl, of a] unfolding t' by (metis code_extends_refl)
  have "slots_ok (assign_var x y \<sigma>) t (mem(a \<mapsto> w))"
    using slots_ok_assign [OF \<sigma>1 r1 y(2,3) w(1) a] by (simp add: t' vars_ok_def)
  moreover have "open_at t" using open_appended [OF r1] by (simp add: t')
  ultimately show "arrives C E args (here s regs mem) t r" unfolding y(4) using ir_run_trans [OF v(1) w(2)] by auto
qed

lemma simulates_return:
  assumes e: "scalar_expr F e"
  shows "simulates F V (emitExpr (ReturnExpr m (Some e))) (\<lambda>cf n \<sigma>. exec cf n \<sigma> (ReturnExpr m (Some e)))"
proof (rule simulatesI)
  fix s t C E cf args \<sigma> mem regs n r
  assume s: "ready F s" "open_at s" "result_type s \<noteq> LVoid" and run: "t = snd (run_state (emitExpr (ReturnExpr m (Some e))) s)"
    and C: "within C t" and cf: "calls_ok C E cf s" and \<sigma>: "slots_ok \<sigma> s mem"
    and r: "exec cf n \<sigma> (ReturnExpr m (Some e)) = Some r"
  obtain v s1 where 1: "run_state (emitExpr e) s = (Some v, s1)" "inline F s s1" "open_at s1"
    "yields s v s1 (\<lambda>cf \<sigma>. eval cf \<sigma> e)" using run_operand [OF e s(1)] s(2) by metis
  have r1: "ready F s1" using 1(2) by (rule inline_ready)
  obtain y where y: "eval cf \<sigma> e = Some y" "r = Returning y" using r by (cases n) auto
  let ?s1 = "s1\<lparr>em_next := Suc (em_next s1)\<rparr>"
  have t': "t = appended (Ret (Some v)) ?s1"
    using run_return [OF 1(1), of m] run s(3) result_type_grown [OF inline_grown [OF 1(2)] s(1)] by simp
  have u: "ready F ?s1" using r1 by (rule ready_next)
  have ext: "extends s1 t"
    unfolding t' using code_extends_trans [OF inline_extends [OF inline_next_used [OF r1]] inline_extends [OF inline_appended [OF u]]] by simp
  obtain regs1 where v: "ir_run C E args (here s regs mem) (here s1 regs1 mem)" "value_in args regs1 v y"
    using run_value [OF 1(4) within_extends [OF C ext] cf \<sigma> y(1)] by blast
  obtain w where w: "ir_operand args regs1 v = Some w" "value_rel y w" using v(2) by (auto simp: value_in_def)
  have "ir_step C E args (here ?s1 regs1 mem) (Done w)"
    using step_last [OF C _ u, of "Ret (Some v)"] w(1) by (intro ir_ret) (simp_all add: t')
  then show "arrives C E args (here s regs mem) t r"
    unfolding y(2) using w(2) ir_run_trans [OF v(1) ir_run_step] by auto
qed


subsection \<open>Blocks\<close>

abbreviation list_meaning :: "expr option list \<Rightarrow> calls \<Rightarrow> nat \<Rightarrow> frames \<Rightarrow> completion option" where
  "list_meaning es \<equiv> \<lambda>cf n \<sigma>. exec_list (exec cf n) \<sigma> es"

lemma simulates_nil: "simulates F V (block_statements rec v []) (list_meaning [])"
  by (rule simulatesI) (use arrives_here in fastforce)

lemma simulates_none:
  "simulates F V (block_statements rec v es) (list_meaning es) \<Longrightarrow> simulates F V (block_statements rec v (None # es)) (list_meaning (None # es))"
  unfolding simulates_def run_statements by simp

lemma simulates_cons:
  assumes x: "simulates F V (emitExpr x) (\<lambda>cf n \<sigma>. exec cf n \<sigma> x)" and sx: "scalar_stmt F V x"
    and es: "\<And>v. simulates F (V \<union> binds x) (block_statements emitExpr v es) (list_meaning es)"
    and ses: "scalar_block F (V \<union> binds x) es"
  shows "simulates F V (block_statements emitExpr v (Some x # es)) (list_meaning (Some x # es))"
proof (rule simulatesI)
  fix s u C E cf args \<sigma> mem regs n r
  assume s: "ready F s" "open_at s" "result_type s \<noteq> LVoid" and u: "u = snd (run_state (block_statements emitExpr v (Some x # es)) s)"
    and C: "within C u" and cf: "calls_ok C E cf s" and i: "inside V \<sigma>" and \<sigma>: "slots_ok \<sigma> s mem"
    and r: "list_meaning (Some x # es) cf n \<sigma> = Some r"
  define t where "t = snd (run_state (emitExpr x) s)"
  have u': "u = snd (run_state (block_statements emitExpr (fst (run_state (emitExpr x) s)) es) t)"
    using u s(2) unfolding run_statements t_def by simp
  have t: "ready F t" "grown (length (em_blocks s)) V s t"
    using stmt_growsD [OF stmt_grows_stmt(1) [OF sx] s(1) t_def order_refl subset_refl] .
  have "grown (length (em_blocks t)) {} t u"
    using stmt_growsD(2) [OF _ t(1) u' order_refl empty_subsetI] stmt_grows_stmt(2) [OF ses] by blast
  then have Ct: "within C t" using C grown_extends within_extends by blast
  obtain r1 where r1: "exec cf n \<sigma> x = Some r1" using r by (auto split: option.splits)
  have a: "arrives C E args (here s regs mem) t r1" by (rule simulatesD [OF x s t_def Ct cf i \<sigma> r1])
  show "arrives C E args (here s regs mem) u r"
  proof (cases r1)
    case (Returning w)
    then have "r = Returning w" using r r1 by simp
    then show ?thesis using a Returning arrives_returning by blast
  next
    case (Normally \<sigma>1)
    then obtain regs1 mem1 where 1: "open_at t" "ir_run C E args (here s regs mem) (here t regs1 mem1)" "slots_ok \<sigma>1 t mem1"
      using a by auto
    have "rescoped (binds x) \<sigma> \<sigma>1" using exec_scopes r1 sx i Normally unfolding scopes_kept_def by blast
    then have i1: "inside (V \<union> binds x) \<sigma>1" using i by (rule rescoped_inside)
    have rt: "result_type t \<noteq> LVoid" using result_type_grown [OF t(2) s(1)] s(3) by simp
    have "arrives C E args (here t regs1 mem1) u r"
      using r r1 Normally by (intro simulatesD [OF es t(1) 1(1) rt u' C calls_grown [OF cf t(2)] i1 1(3), of n]) simp
    then show ?thesis by (rule arrives_from [OF 1(2)])
  qed
qed

lemma simulates_block:
  assumes es: "\<And>v. simulates F V (block_statements emitExpr v es) (list_meaning es)" and ses: "scalar_block F V es"
  shows "simulates F V (emit_block_opt emitExpr (Some (BlockExpr m es))) (\<lambda>cf n \<sigma>. exec_block (exec cf n) \<sigma> es)"
  unfolding block_unfold
proof (rule simulatesI)
  fix s t C E cf args \<sigma> mem regs n r
  assume s: "ready F s" "open_at s" "result_type s \<noteq> LVoid" and t: "t = snd (run_state (block_statements emitExpr None es) s)"
    and C: "within C t" and cf: "calls_ok C E cf s" and i: "inside V \<sigma>" and \<sigma>: "slots_ok \<sigma> s mem"
    and r: "exec_block (exec cf n) \<sigma> es = Some r"
  have \<sigma>0: "slots_ok ([] # \<sigma>) s mem" using \<sigma> by (simp add: vars_ok_def)
  obtain r1 where r1: "exec_list (exec cf n) ([] # \<sigma>) es = Some r1" using r by (auto simp: exec_block_def split: option.splits)
  have a: "arrives C E args (here s regs mem) t r1"
    by (rule simulatesD [OF es s t C cf inside_block [OF i] \<sigma>0 r1])
  show "arrives C E args (here s regs mem) t r"
  proof (cases r1)
    case (Returning w)
    then have "r = Returning w" using r r1 by (simp add: exec_block_def)
    then show ?thesis using a Returning arrives_returning by blast
  next
    case (Normally \<sigma>1)
    obtain X where "rescoped X ([] # \<sigma>) \<sigma>1"
      using exec_list_scopes [OF exec_scopes _ ses inside_block [OF i]] r1 Normally by blast
    then have "scoped \<sigma>1" by (simp add: rescoped_def)
    then have "slots_ok (tl \<sigma>1) t mem'" if "slots_ok \<sigma>1 t mem'" for mem'
      using that scoped_tl unfolding vars_ok_def by blast
    moreover have "r = Normally (tl \<sigma>1)" using r r1 Normally by (simp add: exec_block_def)
    ultimately show ?thesis using a unfolding Normally arrives.simps by (metis arrives.simps(1))
  qed
qed


subsection \<open>Conditionals\<close>

definition else_meaning :: "expr option \<Rightarrow> calls \<Rightarrow> nat \<Rightarrow> frames \<Rightarrow> completion option" where
  "else_meaning els cf n \<sigma> = (case els of None \<Rightarrow> Some (Normally \<sigma>) | Some e \<Rightarrow> exec cf n \<sigma> e)"

lemma simulates_else:
  "(\<And>e. els = Some e \<Longrightarrow> simulates F V (emitExpr e) (\<lambda>cf n \<sigma>. exec cf n \<sigma> e)) \<Longrightarrow>
   simulates F V (emit_opt emitExpr els None) (else_meaning els)"
proof (cases els)
  case None
  then show ?thesis by (intro simulatesI) (use arrives_here in \<open>fastforce simp: emit_opt_def else_meaning_def\<close>)
qed (simp add: emit_opt_def else_meaning_def [abs_def])

text \<open>A branch that ends by joining the block behind the conditional.\<close>

lemma arrives_merge:
  assumes a: "arrives C E args k s r" and s: "ready F s" and t: "t = joined b b' s" "within C t" and b': "b' < length (em_blocks s)"
    and tu: "\<And>\<sigma>. r = Normally \<sigma> \<Longrightarrow> inside V \<sigma>" "grown n V s u" "em_insert u = b" "ir_text u b = []" "ready F u"
  shows "arrives C E args k u r"
proof (cases r)
  case (Normally \<sigma>)
  obtain regs mem where "ir_run C E args k (At b 0 regs mem)" "slots_ok \<sigma> s mem"
    using arrives_joined [OF _ s t b'] a Normally by metis
  then show ?thesis
    using slots_grown [OF _ tu(1) [OF Normally] tu(2)] open_empty [OF tu(5)] tu(3,4) Normally by auto
qed (use a in simp)

lemma simulates_if:
  assumes c: "scalar_expr F c" and th: "simulates F V (emit_block_opt emitExpr (Some (BlockExpr m es))) (\<lambda>cf n \<sigma>. exec_block (exec cf n) \<sigma> es)"
    and el: "simulates F V (emit_opt emitExpr els None) (else_meaning els)"
    and ses: "scalar_block F V es" and sel: "\<And>x. els = Some x \<Longrightarrow> binds x = {} \<and> scalar_stmt F V x"
    and e: "e = IfExpr k (Some c) (Some (BlockExpr m es)) els"
  shows "simulates F V (emitExpr e) (\<lambda>cf n \<sigma>. exec cf n \<sigma> e)"
proof (rule simulatesI)
  fix s t C E cf args \<sigma> mem regs n r
  assume s: "ready F s" "open_at s" "result_type s \<noteq> LVoid" and run: "t = snd (run_state (emitExpr e) s)"
    and C: "within C t" and cf: "calls_ok C E cf s" and i: "inside V \<sigma>" and \<sigma>: "slots_ok \<sigma> s mem"
    and r: "exec cf n \<sigma> e = Some r"
  obtain v s1 where 1: "run_state (emit_operand emitExpr (Some c) (Some (ConstInt LI1 0))) s = (v, s1)" "inline F s s1"
    "yields s v s1 (\<lambda>cf \<sigma>. eval cf \<sigma> c)" using run_operand [OF c s(1)] by metis
  have r1: "ready F s1" using 1(2) by (rule inline_ready)
  define b where "b = length (em_blocks s1)"
  define s2 where "s2 = forked (CondBr v b (b + 1)) ''if.then'' ''if.else'' ''if.end'' s1"
  define s3 where "s3 = snd (run_state (emit_block_opt emitExpr (Some (BlockExpr m es))) s2)"
  define s4 where "s4 = joined (b + 2) (b + 1) s3"
  define s5 where "s5 = snd (run_state (emit_opt emitExpr els None) s4)"
  have t: "t = joined (b + 2) (b + 2) s5"
    unfolding run e run_if [OF r1 1(1)] by (simp only: Let_def b_def s2_def s3_def s4_def s5_def)
  have gth: "stmt_grows F V (emit_block_opt emitExpr (Some (BlockExpr m es)))"
    using stmt_grows_stmt(2) [OF ses] by (simp add: block_unfold)
  have gel: "stmt_grows F V (emit_opt emitExpr els None)"
    using sel by (cases els) (auto simp: emit_opt_def stmt_grows_ret intro: stmt_grows_stmt)
  have na: "\<not> is_alloca (CondBr v b (b + 1))" by simp
  note p = if_states [OF r1 na b_def gth gel s2_def s3_def s4_def s5_def t]
  have w: "within C s5" "within C s4" "within C s3" "within C s2" "within C s1"
    using C p(6-10) by (meson grown_extends within_extends)+
  have g: "grown b V s s2" "grown b V s s4" "grown b V s3 t" "grown b V s5 t"
    by (rule grown_then [OF inline_grown [OF 1(2)] p(6)],
        rule grown_then [OF inline_grown [OF 1(2)] grown_then [OF p(6) grown_then [OF p(7,8)]]],
        rule grown_then [OF p(8) grown_then [OF p(9,10)]], rule p(10))
  have len: "b + 1 < length (em_blocks s3)" "b + 2 < length (em_blocks s5)"
    using forked_props(3) [OF r1 na b_def s2_def] grown_length [OF p(7)] grown_length [OF p(8)] grown_length [OF p(9)] by simp_all
  obtain n' y where y: "n = Suc n'" "eval cf \<sigma> c = Some (BoolV y)"
    "(if y then exec_block (exec cf n') \<sigma> es else else_meaning els cf n' \<sigma>) = Some r"
    using r unfolding e by (cases n) (auto simp: else_meaning_def split: option.splits scalar.splits if_splits)
  obtain regs1 where v: "ir_run C E args (here s regs mem) (here s1 regs1 mem)" "value_in args regs1 v (BoolV y)"
    using run_value [OF 1(3) w(5) cf \<sigma> y(2)] by blast
  have j: "ir_run C E args (here s1 regs1 mem) (At (if y then b else b + 1) 0 regs1 mem)"
    using run_choice [OF w(4) forked_props(7) [OF r1 na b_def s2_def] r1 v(2)] .
  have "arrives C E args (At (if y then b else b + 1) 0 regs1 mem) t r"
  proof (cases y)
    case True
    have "arrives C E args (here s2 regs1 mem) s3 r"
      using y(3) True result_type_grown [OF g(1) s(1)] s(3) p(11,14)
      by (intro simulatesD [OF th p(1) open_empty [OF p(1)] _ s3_def w(3) calls_grown [OF cf g(1)] i slots_grown [OF \<sigma> i g(1)]]) simp_all
    moreover have "inside V \<sigma>'" if "r = Normally \<sigma>'" for \<sigma>'
      using rescoped_inside [OF exec_block_scopes [OF exec_scopes _ ses i] i] y(3) True that by auto
    ultimately have "arrives C E args (here s2 regs1 mem) t r"
      using arrives_merge [OF _ p(2) s4_def w(2) len(1) _ g(3) p(13,16,5)] by blast
    then show ?thesis using True p(11,14) by simp
  next
    case False
    have "arrives C E args (here s4 regs1 mem) s5 r"
      using y(3) False result_type_grown [OF g(2) s(1)] s(3) p(12,15)
      by (intro simulatesD [OF el p(3) open_empty [OF p(3)] _ s5_def w(1) calls_grown [OF cf g(2)] i slots_grown [OF \<sigma> i g(2)]]) simp_all
    moreover have "inside V \<sigma>'" if "r = Normally \<sigma>'" for \<sigma>'
    proof (cases els)
      case None
      then show ?thesis using y(3) False that i by (simp add: else_meaning_def)
    next
      case (Some x)
      then have "exec cf n' \<sigma> x = Some (Normally \<sigma>')" using y(3) False that by (simp add: else_meaning_def)
      then have "rescoped (binds x) \<sigma> \<sigma>'" using exec_scopes sel [OF Some] i unfolding scopes_kept_def by blast
      then show ?thesis using rescoped_inside [OF _ i] sel [OF Some] by force
    qed
    ultimately have "arrives C E args (here s4 regs1 mem) t r"
      using arrives_merge [OF _ p(4) t C len(2) _ g(4) p(13,16,5)] by blast
    then show ?thesis using False p(12,15) by simp
  qed
  then show "arrives C E args (here s regs mem) t r" by (rule arrives_from [OF ir_run_trans [OF v(1) j]])
qed


subsection \<open>Loops\<close>

lemma simulates_while:
  assumes c: "scalar_expr F c" and bo: "simulates F V (emit_block_opt emitExpr (Some (BlockExpr m es))) (\<lambda>cf n \<sigma>. exec_block (exec cf n) \<sigma> es)"
    and ses: "scalar_block F V es" and e: "e = WhileExpr k (Some c) (Some (BlockExpr m es))"
  shows "simulates F V (emitExpr e) (\<lambda>cf n \<sigma>. exec cf n \<sigma> e)"
proof (rule simulatesI)
  fix s t C E cf args \<sigma> mem regs n r
  assume s: "ready F s" "open_at s" "result_type s \<noteq> LVoid" and run: "t = snd (run_state (emitExpr e) s)"
    and C: "within C t" and cf: "calls_ok C E cf s" and i: "inside V \<sigma>" and \<sigma>: "slots_ok \<sigma> s mem"
    and r: "exec cf n \<sigma> e = Some r"
  define b where "b = length (em_blocks s)"
  obtain v s1 s2 where 1: "s1 = forked (Br b) ''while.cond'' ''while.body'' ''while.end'' s" "inline F s1 s2"
    "yields s1 v s2 (\<lambda>cf \<sigma>. eval cf \<sigma> c)"
    "t = joined b (b + 2) (snd (run_state (emit_block_opt emitExpr (Some (BlockExpr m es)))
         (enter_block (b + 1) (appended (CondBr v (b + 1) (b + 2)) s2))))"
    using run_while [OF s(1) c b_def, of k "BlockExpr m es"] unfolding run e by metis
  define s3 where "s3 = enter_block (b + 1) (appended (CondBr v (b + 1) (b + 2)) s2)"
  define s4 where "s4 = snd (run_state (emit_block_opt emitExpr (Some (BlockExpr m es))) s3)"
  have t: "t = joined b (b + 2) s4" using 1(4) by (simp only: s3_def s4_def)
  have gbo: "stmt_grows F V (emit_block_opt emitExpr (Some (BlockExpr m es)))"
    using stmt_grows_stmt(2) [OF ses] by (simp add: block_unfold)
  note p = while_states [OF s(1) b_def gbo 1(1,2) s3_def s4_def t]
  have w: "within C s4" "within C s3" "within C s2" "within C s1"
    using C p(7-10) by (meson grown_extends within_extends)+
  have g: "grown b V s1 s3" "grown b V s4 t" "grown b V s1 t" "grown b V s s3" "grown b V s4 t"
    by (rule grown_then [OF p(7,8)], rule p(10), rule grown_then [OF p(7) grown_then [OF p(8) grown_then [OF p(9,10)]]],
        rule grown_then [OF p(6) grown_then [OF p(7,8)]], rule p(10))
  have na: "\<not> is_alloca (Br b)" by simp
  have len: "b + 2 < length (em_blocks s4)"
    using forked_props(3) [OF s(1) na b_def 1(1)] grown_length [OF p(7)] grown_length [OF p(8)] grown_length [OF p(9)] by simp
  have i2: "em_insert s2 = b" using inline_insert [OF 1(2)] p(11) by simp
  have ext: "extends (appended (CondBr v (b + 1) (b + 2)) s2) s3" by (simp add: s3_def extends_def)
  have cf1: "calls_ok C E cf s1" using calls_grown [OF cf p(6)] .
  have loop: "arrives C E args (At b 0 regs mem) t r"
    if "exec cf n \<sigma> e = Some r" "inside V \<sigma>" "slots_ok \<sigma> s1 mem" for n \<sigma> regs mem r
    using that
  proof (induction n arbitrary: \<sigma> regs mem)
    case (Suc n)
    obtain y where y: "eval cf \<sigma> c = Some (BoolV y)" using Suc.prems(1) unfolding e by (auto split: option.splits scalar.splits)
    have h1: "here s1 regs mem = At b 0 regs mem" using p(11,14) by simp
    obtain regs1 where v1: "ir_run C E args (here s1 regs mem) (here s2 regs1 mem)" "value_in args regs1 v (BoolV y)"
      by (rule run_value [OF 1(3) w(3) cf1 Suc.prems(3) y])
    note v = v1(1) [unfolded h1] v1(2)
    have j: "ir_run C E args (At b 0 regs mem) (At (if y then b + 1 else b + 2) 0 regs1 mem)"
      using ir_run_trans [OF v(1) run_choice [OF w(2) ext p(2) v(2)]] .
    show ?case
    proof (cases y)
      case False
      then have "r = Normally \<sigma>" using Suc.prems(1) y unfolding e by simp
      moreover have "slots_ok \<sigma> t mem" using slots_grown [OF Suc.prems(3,2) g(3)] .
      moreover have "open_at t" using open_empty [OF p(5)] p(13,16) by simp
      ultimately have "arrives C E args (here t regs1 mem) t r" using arrives_here by blast
      then show ?thesis using arrives_from [OF j] False p(13,16) by simp
    next
      case True
      obtain r1 where r1: "exec_block (exec cf n) \<sigma> es = Some r1" using Suc.prems(1) y True unfolding e by (auto split: option.splits)
      have "result_type s3 \<noteq> LVoid" using result_type_grown [OF g(4) s(1)] s(3) by simp
      moreover have "ir_text s3 (em_insert s3) = []" using p(12,15) by simp
      ultimately have "arrives C E args (here s3 regs1 mem) s4 r1"
        by (intro simulatesD [OF bo p(3) open_empty [OF p(3)] _ s4_def w(1) calls_grown [OF cf g(4)] Suc.prems(2)
              slots_grown [OF Suc.prems(3,2) g(1)] r1])
      then have a: "arrives C E args (At b 0 regs mem) s4 r1"
        using arrives_from [OF j] True p(12,15) by simp
      show ?thesis
      proof (cases r1)
        case (Returning u)
        then have "r = Returning u" using Suc.prems(1) y True r1 unfolding e by simp
        then show ?thesis using a Returning arrives_returning by blast
      next
        case (Normally \<sigma>1)
        then have r: "exec cf n \<sigma>1 e = Some r" using Suc.prems(1) y True r1 unfolding e by simp
        obtain regs2 mem2 where 2: "ir_run C E args (At b 0 regs mem) (At b 0 regs2 mem2)" "slots_ok \<sigma>1 s4 mem2"
          using arrives_joined [OF a [unfolded Normally] p(4) t C len] by blast
        have i1: "inside V \<sigma>1"
          using rescoped_inside [OF exec_block_scopes [OF exec_scopes _ ses Suc.prems(2)] Suc.prems(2)] r1 Normally by auto
        have "slots_ok \<sigma>1 s1 mem2"
          using 2(2) i1 grown_then [OF p(7) grown_then [OF p(8,9)]] unfolding vars_ok_def inside_def names_def grown_def
          by (metis (mono_tags, lifting) mem_Collect_eq option.distinct(1) subsetD)
        then show ?thesis using arrives_from [OF 2(1) Suc.IH [OF r i1]] by blast
      qed
    qed
  qed (simp add: e)
  have "extends (appended (Br b) s) s1" using forked_props(7) [OF s(1) na b_def 1(1)] .
  from run_jump [OF w(4) this s(1)] show "arrives C E args (here s regs mem) t r"
    using arrives_from loop [OF r i slots_grown [OF \<sigma> i p(6)]] by blast
qed


subsection \<open>Every statement\<close>

lemma simulates_later:
  assumes "simulates F V c m" "\<And>cf \<sigma>. m' cf 0 \<sigma> = None" "\<And>cf n \<sigma>. m' cf (Suc n) \<sigma> = m cf n \<sigma>"
  shows "simulates F V c m'"
proof (rule simulatesI)
  fix s t C E cf args \<sigma> mem regs n r
  assume "m' cf n \<sigma> = Some r" and *: "ready F s" "open_at s" "result_type s \<noteq> LVoid" "t = snd (run_state c s)" "within C t"
    "calls_ok C E cf s" "inside V \<sigma>" "slots_ok \<sigma> s mem"
  then obtain k where "m cf k \<sigma> = Some r" using assms(2,3) by (cases n) auto
  then show "arrives C E args (here s regs mem) t r" by (rule simulatesD [OF assms(1) *])
qed

lemma simulates_stmt:
  "scalar_stmt F V e \<Longrightarrow> simulates F V (emitExpr e) (\<lambda>cf n \<sigma>. exec cf n \<sigma> e)"
  "scalar_block F V es \<Longrightarrow> \<forall>v. simulates F V (block_statements emitExpr v es) (list_meaning es)"
proof (induction F V e and F V es rule: scalar_stmt_scalar_block.induct)
  case (1 F V n isVar x t e)
  then show ?case by (intro simulates_binding) simp_all
next
  case (2 F V n m x e)
  then show ?case by (intro simulates_assign) simp
next
  case (3 F V n e)
  then show ?case by (intro simulates_return) simp
next
  case (4 F V n c m es els)
  then show ?case
    by (intro simulates_if [OF _ simulates_block simulates_else _ _ refl]) (auto split: option.splits)
next
  case (5 F V n c m es)
  then show ?case by (intro simulates_while [OF _ simulates_block _ refl]) simp_all
next
  case (6 F V n es)
  then show ?case by (simp del: exec.simps) (rule simulates_later [OF simulates_block], simp_all)
qed (auto simp del: block_statements.simps exec_list.simps emitExpr.simps scalar_expr.simps scalar_args.simps
    intro!: simulates_plain simulates_nil simulates_none simulates_cons)

end
