(* ===== verification/Gura_CodeGen_Function.thy ===== *)
theory Gura_CodeGen_Function
  imports Gura_CodeGen_Simulate
begin

section \<open>The code of a function computes the function\<close>

text \<open>
  From statements to functions: the parameters are stored into their slots, the body runs, and the result is returned.
  Before that, running is deterministic, so that a result of the code is its only result.
\<close>

subsection \<open>Running is deterministic\<close>

inductive_cases ir_step_cases: "ir_step C E args (At b k regs mem) c"
inductive_cases ir_step_done: "ir_step C E args (Done w) c"
inductive_cases ir_run_done: "ir_run C E args c (Done w)"
inductive_cases ir_returns_cases: "ir_returns C E f args w"

lemma map_Some_inject: "map Some xs = map Some ys \<Longrightarrow> xs = ys"
  by (simp add: inj_map_eq_map)

lemma ir_step_call:
  assumes "ir_step C E args (At b k regs mem) d" and call: "C b ! k = Call i (Fn f) vs name"
    and vs: "map (ir_operand args regs) vs = map Some ws" and det: "\<forall>u. ir_returns C E f ws u \<longrightarrow> u = w"
  shows "d = At b (Suc k) (regs(i \<mapsto> w)) mem"
  using assms(1)
proof (rule ir_step_cases)
  fix i' f' vs' name' us u
  assume d: "d = At b (Suc k) (regs(i' \<mapsto> u)) mem" and call': "C b ! k = Call i' (Fn f') vs' name'"
    and us: "map (ir_operand args regs) vs' = map Some us" and u: "ir_returns C E f' us u"
  have eq: "i' = i" "f' = f" "vs' = vs" using call call' by simp_all
  then have "us = ws" using map_Some_inject [of us ws] us vs by simp
  then show ?thesis using d u det eq by blast
qed (use call in simp_all)

lemma ir_deterministic:
  "ir_step C E args c c' \<Longrightarrow> (\<forall>d. ir_step C E args c d \<longrightarrow> d = c')"
  "ir_run C E args c c' \<Longrightarrow> (\<forall>w v. c' = Done w \<longrightarrow> ir_run C E args c (Done v) \<longrightarrow> v = w)"
  "ir_returns C E f args w \<Longrightarrow> (\<forall>v. ir_returns C E f args v \<longrightarrow> v = w)"
proof (induction rule: ir_step_ir_run_ir_returns.inducts)
  case (ir_call k b i f vs name args regs ws w mem)
  then show ?case by (intro allI impI) (rule ir_step_call; assumption)
next
  case (ir_stay args c)
  then show ?case by (auto elim: ir_run_done ir_step_done)
next
  case (ir_next args c c' c'')
  show ?case
  proof (intro allI impI)
    fix w v assume w: "c'' = Done w" and run: "ir_run C E args c (Done v)"
    have "c \<noteq> Done v" using ir_next(1) by (auto elim: ir_step_done)
    then obtain d where "ir_step C E args c d" "ir_run C E args d (Done v)" by (metis ir_run_done [OF run])
    then show "v = w" using ir_next.IH w by blast
  qed
next
  case (ir_function args f w)
  show ?case
  proof (intro allI impI)
    fix v assume "ir_returns C E f args v"
    then have "ir_run C E args (At (E f) 0 Map.empty Map.empty) (Done v)" by (rule ir_returns_cases)
    then show "v = w" using ir_function.IH by simp
  qed
qed (auto elim!: ir_step_cases)


subsection \<open>Parameters\<close>

text \<open>The scalar types of a declaration in a module without a struct of the name of the number type.\<close>

lemma scalar_ref_types:
  assumes "scalar_of_ref t = Some ty" "um_find ls ''i64'' = None"
  shows "ll_typeFromAst ls t = ll_of ty" "parameterTypeFromAst ls t = ll_of ty" "\<not> (case t of Some ty \<Rightarrow> tr_isArray ty | None \<Rightarrow> False)"
  using assms by (cases t rule: scalar_of_ref.cases; auto simp: parameterTypeFromAst_def split: if_splits)+

lemma um_set_emplace: "\<not> um_contains m k \<Longrightarrow> um_set k v m = um_emplace k v m"
  by (induction m) (auto simp: um_emplace_def um_contains_find split: if_splits)

lemma run_bind_param:
  assumes "scalar_of_ref (pm_type p) \<noteq> None" "um_find (em_values s) (pm_name p) = None"
  shows "run_state (bind_param i t p) s = ((), bound (pm_name p) t (ArgV i t) s)"
proof -
  have "\<not> (case pm_type p of Some ty \<Rightarrow> tr_isArray ty | None \<Rightarrow> False)" using assms(1) scalar_ref_types(3) [of _ _ "[]"] by auto
  then show ?thesis
    using assms(2)
    by (simp add: bind_param_def create_store_def run_entry_alloca bound_def Let_def um_set_emplace um_contains_find appended_def map_code_def)
qed

abbreviation frame_of :: "param list \<Rightarrow> scalar list \<Rightarrow> frames \<Rightarrow> frames" where
  "frame_of ps vs \<sigma> \<equiv> fold (\<lambda>(x, v). bind_var x v) (zip (map pm_name ps) vs) \<sigma>"

lemma frame_of_params:
  "distinct (map pm_name ps) \<Longrightarrow> (\<forall>p\<in>set ps. um_find fr (pm_name p) = None) \<Longrightarrow>
   frame_of ps vs [fr] = [fr @ zip (map pm_name ps) vs]"
proof (induction ps arbitrary: fr vs)
  case (Cons p ps)
  show ?case
  proof (cases vs)
    case (Cons v vs')
    have "um_set (pm_name p) v fr = fr @ [(pm_name p, v)]"
      using Cons.prems(2) by (simp add: um_set_emplace um_emplace_def um_contains_find)
    moreover have "\<forall>q\<in>set ps. pm_name q \<noteq> pm_name p" using Cons.prems(1) by (auto simp: image_iff)
    ultimately show ?thesis
      using Cons.IH [of "fr @ [(pm_name p, v)]" vs'] Cons.prems Cons by (simp add: map_add_def)
  qed simp
qed simp

lemma bind_params_props:
  "ready F s \<Longrightarrow> distinct (map pm_name ps) \<Longrightarrow> \<forall>p\<in>set ps. scalar_of_ref (pm_type p) \<noteq> None \<and> um_find (em_values s) (pm_name p) = None \<Longrightarrow>
   t = snd (run_state (bind_params i as ps) s) \<Longrightarrow> ready F t \<and> grown n {} s t \<and> (open_at s \<longrightarrow> open_at t)"
proof (induction i as ps arbitrary: s rule: bind_params.induct)
  case (1 i a as p ps)
  let ?u = "bound (pm_name p) (snd a) (ArgV i (snd a)) s"
  have run: "run_state (bind_param i (snd a) p) s = ((), ?u)" using 1 by (intro run_bind_param) simp_all
  have u: "ready F ?u" "grown n {} s ?u" "open_at ?u"
    "um_find (em_values ?u) = (um_find (em_values s))(pm_name p \<mapsto> AllocaV (em_next s) (snd a))"
    using bound_props [OF 1(2), of "pm_name p" "{}"] open_bound [OF 1(2)] by blast+
  have "\<forall>q\<in>set ps. pm_name q \<noteq> pm_name p" using 1(3) by (auto simp: image_iff)
  then have "ready F t \<and> grown n {} ?u t \<and> (open_at ?u \<longrightarrow> open_at t)"
    using 1(3-5) run by (intro 1(1) [OF u(1)]) (simp_all add: u(4))
  then show ?case using u grown_then by blast
qed (auto simp: ready_def intro: grown_refl)

lemma bind_params_runs:
  assumes "ready F s" "distinct (map pm_name ps)"
    "\<forall>p\<in>set ps. scalar_of_ref (pm_type p) \<noteq> None \<and> um_find (em_values s) (pm_name p) = None"
    "t = snd (run_state (bind_params i as ps) s)" "within C t"
    "map snd as = map (ll_of \<circ> scalar_type_of) vs" "length ps = length vs"
    "list_all2 value_rel vs (drop i ws)" "slots_ok \<sigma> s mem" "\<sigma> \<noteq> []"
  shows "\<exists>mem'. ir_run C E ws (here s regs mem) (here t regs mem') \<and> slots_ok (frame_of ps vs \<sigma>) t mem'"
  using assms
proof (induction i as ps arbitrary: s \<sigma> vs mem rule: bind_params.induct)
  case (1 i a as p ps)
  obtain v vs' where vs: "vs = v # vs'" "snd a = ll_of (scalar_type_of v)" "map snd as = map (ll_of \<circ> scalar_type_of) vs'"
    using 1(7,8) by (cases vs) auto
  let ?u = "bound (pm_name p) (ll_of (scalar_type_of v)) (ArgV i (ll_of (scalar_type_of v))) s"
  have run: "run_state (bind_param i (snd a) p) s = ((), ?u)" using 1(4) unfolding vs(2) by (intro run_bind_param) simp_all
  have u: "ready F ?u" "um_find (em_values ?u) = (um_find (em_values s))(pm_name p \<mapsto> AllocaV (em_next s) (ll_of (scalar_type_of v)))"
    using bound_props [OF 1(2), of "pm_name p" "{}"] by blast+
  have "\<forall>q\<in>set ps. pm_name q \<noteq> pm_name p" using 1(3) by (auto simp: image_iff)
  then have ps: "\<forall>q\<in>set ps. scalar_of_ref (pm_type q) \<noteq> None \<and> um_find (em_values ?u) (pm_name q) = None"
    using 1(4) by (simp add: u(2))
  have t: "t = snd (run_state (bind_params (i + 1) as ps) ?u)" using 1(5) run by simp
  have d: "distinct (map pm_name ps)" using 1(3) by simp
  have Cu: "within C ?u" using bind_params_props [OF u(1) d ps t, of 0] 1(6) grown_extends within_extends by blast
  obtain w where w: "i < length ws" "ws ! i = w" "value_rel v w" "list_all2 value_rel vs' (drop (i + 1) ws)"
  proof (cases "i < length ws")
    case True
    then show ?thesis using that 1(9) vs(1) by (simp add: Cons_nth_drop_Suc [symmetric])
  qed (use 1(9) vs(1) in simp)
  have "value_in ws regs (ArgV i (ll_of (scalar_type_of v))) v"
    using w value_rel_type [OF w(3)] by (simp add: value_in_def)
  from run_bound [OF 1(2) refl Cu this 1(10,11)] obtain mem1 where
    m: "ir_run C E ws (here s regs mem) (here ?u regs mem1)" "slots_ok (bind_var (pm_name p) v \<sigma>) ?u mem1" by blast
  obtain mem2 where m2: "ir_run C E ws (here ?u regs mem1) (here t regs mem2)"
    "slots_ok (frame_of ps vs' (bind_var (pm_name p) v \<sigma>)) t mem2"
    using 1(1) [OF u(1) d ps t 1(6) vs(3) _ w(4) m(2) names_bind(3)] 1(8) vs(1) by auto
  then show ?case using ir_run_trans [OF m(1)] vs(1) by auto
qed (auto intro: ir_stay)


subsection \<open>Bodies\<close>

text \<open>What the declarations must say before code is emitted.\<close>

definition declared :: "string set \<Rightarrow> emitter \<Rightarrow> bool" where
  "declared F s \<longleftrightarrow> um_find (em_layouts s) ''i64'' = None \<and>
     (\<forall>f\<in>F. \<exists>i<length (em_module s). fn_index s f = Some i \<and> LPtr \<notin> snd ` set (lf_params (em_module s ! i)))"

definition declared_as :: "emitter \<Rightarrow> nat \<Rightarrow> fn_decl \<Rightarrow> bool" where
  "declared_as s i fn \<longleftrightarrow> i < length (em_module s) \<and>
     map (Some \<circ> snd) (lf_params (em_module s ! i)) = map (\<lambda>p. map_option ll_of (scalar_of_ref (pm_type p))) (fn_params fn) \<and>
     Some (lf_returnType (em_module s ! i)) = map_option ll_of (scalar_of_ref (fn_returnType fn))"

lemma ready_opened:
  assumes f: "f < length (em_module s)" "lf_blocks (em_module s ! f) = []" and d: "declared F s"
    and u: "u = snd (run_state (open_function f) s)"
  shows "ready F u" "em_insert u = length (em_blocks s)" "ir_text u (length (em_blocks s)) = []" "em_values u = []"
    "same_decls u u" "ir_entry u f = length (em_blocks s)" "em_fn u = f" "calls_ok C E cf s \<Longrightarrow> calls_ok C E cf u"
    "lf_params (em_module u ! f) = lf_params (em_module s ! f)" "lf_returnType (em_module u ! f) = lf_returnType (em_module s ! f)"
proof -
  note o = open_function_opened [OF f u]
  have heads: "lf_params (em_module u ! i) = lf_params (em_module s ! i) \<and> lf_returnType (em_module u ! i) = lf_returnType (em_module s ! i)" for i
  proof (cases "i = f")
    case True
    have "lf_params ((em_module u ! f)\<lparr>lf_blocks := []\<rparr>) = lf_params ((em_module s ! f)\<lparr>lf_blocks := []\<rparr>)"
      "lf_returnType ((em_module u ! f)\<lparr>lf_blocks := []\<rparr>) = lf_returnType ((em_module s ! f)\<lparr>lf_blocks := []\<rparr>)"
      using o(12) by simp_all
    then show ?thesis using True by simp
  qed (use o(6) in simp)
  have index: "fn_index u g = fn_index s g" for g by (rule fn_index_tables) (use o in simp_all)
  show ins: "em_insert u = length (em_blocks s)" "em_values u = []"
    by (simp_all add: u run_open_function clear_bindings_def)
  have "em_bridgeSlots u = []" by (simp add: u run_open_function clear_bindings_def)
  then show "ready F u"
    using d o(2-5,9) f(1) ins heads index unfolding declared_def ready_def by fastforce
  show "ir_text u (length (em_blocks s)) = []"
    by (simp add: u run_open_function clear_bindings_def ir_text_def add_block_def)
  show "same_decls u u" using o(2,5) by (simp add: same_decls_def)
  show "ir_entry u f = length (em_blocks s)" using o(2,5) by (simp add: ir_entry_def)
  show "em_fn u = f" by (rule o(2))
  show "lf_params (em_module u ! f) = lf_params (em_module s ! f)" "lf_returnType (em_module u ! f) = lf_returnType (em_module s ! f)"
    using heads by simp_all
  show "calls_ok C E cf u" if "calls_ok C E cf s" using that heads index o(3) unfolding calls_ok_def by simp
qed

lemma default_return_extends: "ready F s \<Longrightarrow> extends s (snd (run_state emitDefaultReturn s))"
  using inline_extends [OF inline_appended]
  by (simp add: emitDefaultReturn_def has_terminator_def return_type_def)

lemma run_emit_function:
  assumes "u = snd (run_state (open_function f) s)" "p = snd (run_state (bind_params 0 (lf_params (em_module u ! f)) (fn_params fn)) u)"
    "fn_body fn = Some b" "z = snd (run_state (emit_block_opt emitExpr (Some b)) p)"
  shows "snd (run_state (emit_function_code f fn) s) = snd (run_state emitDefaultReturn z)"
  using assms
  by (simp add: emit_function_code_def emit_body_def emitBlock_def emit_block_opt_def snd_bind del: run_state_bind)

lemma inside_params: "distinct (map pm_name ps) \<Longrightarrow> length vs = length ps \<Longrightarrow> inside (pm_name ` set ps) [zip (map pm_name ps) vs]"
  by (auto simp: inside_def names_def dest: map_of_SomeD set_zip_leftD split: option.splits)

text \<open>The code of a function, entered with arguments, returns the value of the function.\<close>

lemma function_code_runs:
  assumes f: "lf_blocks (em_module s ! f) = []" and d: "declared F s" "declared_as s f fn" and fn: "scalar_function F fn"
    and t: "t = snd (run_state (emit_function_code f fn) s)" and C: "within C t" "E f = length (em_blocks s)"
    and cf: "calls_ok C E cf s" and run: "run_function cf n fn vs = Some v" and vs: "list_all2 value_rel vs ws"
  shows "\<exists>w. ir_returns C E f ws w \<and> value_rel v w \<and> lf_returnType (em_module s ! f) = ll_of (scalar_type_of v)"
proof -
  have len: "f < length (em_module s)" using d(2) by (simp add: declared_as_def)
  define V where "V = pm_name ` set (fn_params fn)"
  have types: "map (\<lambda>p. scalar_of_ref (pm_type p)) (fn_params fn) = map (Some \<circ> scalar_type_of) vs"
    using run by (simp add: run_function_def split: if_splits)
  obtain k es where b: "fn_body fn = Some (BlockExpr k es)" "scalar_block F V es"
    using fn by (cases "fn_body fn"; cases "the (fn_body fn)") (auto simp: scalar_function_def V_def)
  have r: "exec_block (exec cf n) [zip (map pm_name (fn_params fn)) vs] es = Some (Returning v)"
    "scalar_of_ref (fn_returnType fn) = Some (scalar_type_of v)"
    using run b(1) types by (auto simp: run_function_def split: option.splits completion.splits if_splits)
  define u where "u = snd (run_state (open_function f) s)"
  note o = ready_opened [OF len f d(1) u_def]
  define p where "p = snd (run_state (bind_params 0 (lf_params (em_module u ! f)) (fn_params fn)) u)"
  define z where "z = snd (run_state (emit_block_opt emitExpr (Some (BlockExpr k es))) p)"
  have t': "t = snd (run_state emitDefaultReturn z)" unfolding t by (rule run_emit_function [OF u_def p_def b(1) z_def])
  have ps: "distinct (map pm_name (fn_params fn))"
    "\<forall>p\<in>set (fn_params fn). scalar_of_ref (pm_type p) \<noteq> None \<and> um_find (em_values u) (pm_name p) = None"
    using fn o(4) by (simp_all add: scalar_function_def)
  have ou: "open_at u" using open_empty [OF o(1)] o(2,3) by simp
  have p: "ready F p" "grown 0 {} u p" "open_at p" using bind_params_props [OF o(1) ps p_def] ou by blast+
  have gb: "stmt_grows F V (emit_block_opt emitExpr (Some (BlockExpr k es)))"
    using stmt_grows_stmt(2) [OF b(2)] by (simp add: block_unfold)
  note z = stmt_growsD [OF gb p(1) z_def order_refl subset_refl]
  have Cq: "within C z" using within_extends [OF C(1)] default_return_extends [OF z(1)] t' by simp
  have Cp: "within C p" using within_extends [OF Cq grown_extends [OF z(2)]] .
  have ll: "map snd (lf_params (em_module u ! f)) = map (ll_of \<circ> scalar_type_of) vs"
  proof -
    have "map Some (map snd (lf_params (em_module u ! f))) = map (map_option ll_of) (map (\<lambda>p. scalar_of_ref (pm_type p)) (fn_params fn))"
      using d(2) o(9) by (simp add: declared_as_def comp_def)
    also have "\<dots> = map Some (map (ll_of \<circ> scalar_type_of) vs)" unfolding types by simp
    finally show ?thesis by (rule map_Some_inject)
  qed
  have lv: "length (fn_params fn) = length vs" using types by (metis length_map)
  have empty: "slots_ok [[]] u Map.empty" "[[]] \<noteq> ([] :: frames)" "list_all2 value_rel vs (drop 0 ws)"
    using vs by (simp_all add: vars_ok_def)
  have frame: "frame_of (fn_params fn) vs [[]] = [zip (map pm_name (fn_params fn)) vs]"
    using frame_of_params [OF ps(1), of "[]" vs] by simp
  obtain mem where m: "ir_run C E ws (here u Map.empty Map.empty) (here p Map.empty mem)"
    "slots_ok [zip (map pm_name (fn_params fn)) vs] p mem"
    using bind_params_runs [OF o(1) ps p_def Cp ll lv empty(3,1,2)] unfolding frame by blast
  have rt: "result_type u = ll_of (scalar_type_of v)"
    using d(2) r(2) o(7,10) by (simp add: declared_as_def)
  have "result_type p \<noteq> LVoid" using result_type_grown [OF p(2) o(1)] rt by (cases "scalar_type_of v") simp_all
  from simulatesD [OF simulates_block [OF _ b(2)] p(1,3) this z_def Cq calls_grown [OF o(8) [OF cf] p(2)] _ m(2) r(1)]
  have "arrives C E ws (here p Map.empty mem) z (Returning v)"
    using simulates_stmt(2) [OF b(2)] inside_params [OF ps(1), of vs] lv by (simp add: V_def)
  then have "arrives C E ws (here u Map.empty Map.empty) z (Returning v)" by (rule arrives_from [OF m(1)])
  then obtain w where w: "ir_run C E ws (here u Map.empty Map.empty) (Done w)" "value_rel v w" by auto
  have "here u Map.empty Map.empty = At (E f) 0 Map.empty Map.empty" using o(2,3) C(2) by simp
  from ir_function [OF w(1) [unfolded this]] show ?thesis using w(2) rt o(7,10) by auto
qed

end
