(* ===== verification/Gura_CodeGen_Correct.thy ===== *)
theory Gura_CodeGen_Correct
  imports Gura_CodeGen_Function Gura_CodeGen_Findings
begin

section \<open>Compiled programs compute what the source means\<close>

text \<open>
  From functions to programs: the code of a function stays as it is while the rest of the module is emitted, and calls
  are resolved to the functions that the reference semantics calls.
\<close>

subsection \<open>Emitted code stays\<close>

definition same_headers :: "emitter \<Rightarrow> emitter \<Rightarrow> bool" where
  "same_headers s t \<longleftrightarrow>
     em_functions t = em_functions s \<and> em_simpleKeys t = em_simpleKeys s \<and> em_layouts t = em_layouts s \<and>
     map (\<lambda>fn. fn\<lparr>lf_blocks := []\<rparr>) (em_module t) = map (\<lambda>fn. fn\<lparr>lf_blocks := []\<rparr>) (em_module s)"

text \<open>Only the functions \<open>A\<close> got code between two states.\<close>

definition only_emitted :: "nat set \<Rightarrow> emitter \<Rightarrow> emitter \<Rightarrow> bool" where
  "only_emitted A s t \<longleftrightarrow> same_headers s t \<and> length (em_blocks s) \<le> length (em_blocks t) \<and>
     (\<forall>b<length (em_blocks s). em_blocks t ! b = em_blocks s ! b) \<and> (\<forall>i. i \<notin> A \<longrightarrow> em_module t ! i = em_module s ! i)"

lemma same_headers_length: "same_headers s t \<Longrightarrow> length (em_module t) = length (em_module s)"
  unfolding same_headers_def by (metis length_map)

lemma only_emitted_refl: "only_emitted A s s"
  by (simp add: only_emitted_def same_headers_def)

lemma only_emitted_trans: "only_emitted A s t \<Longrightarrow> only_emitted B t u \<Longrightarrow> only_emitted (A \<union> B) s u"
  unfolding only_emitted_def same_headers_def by auto

lemma emitted_only: "emitted f s t \<Longrightarrow> only_emitted {f} s t"
proof -
  assume e: "emitted f s t"
  have "(em_module t ! i)\<lparr>lf_blocks := []\<rparr> = (em_module s ! i)\<lparr>lf_blocks := []\<rparr>" for i
    using e by (cases "i = f") (auto simp: emitted_def)
  then have "map (\<lambda>fn. fn\<lparr>lf_blocks := []\<rparr>) (em_module t) = map (\<lambda>fn. fn\<lparr>lf_blocks := []\<rparr>) (em_module s)"
    using e by (intro nth_equalityI) (simp_all add: emitted_def)
  then show ?thesis using e by (auto simp: only_emitted_def same_headers_def emitted_def)
qed

lemma only_emitted_tables:
  "only_emitted A s t \<Longrightarrow> em_functions u = em_functions t \<Longrightarrow> em_simpleKeys u = em_simpleKeys t \<Longrightarrow> em_layouts u = em_layouts t \<Longrightarrow>
   em_module u = em_module t \<Longrightarrow> em_blocks u = em_blocks t \<Longrightarrow> only_emitted A s u"
  by (simp add: only_emitted_def same_headers_def)

lemma run_emitFunction:
  "um_find (em_functions s) (functionKey fn) = Some f \<Longrightarrow>
   snd (run_state (emitFunction fn) s) =
     (snd (run_state (emit_function_code f fn) (s\<lparr>em_currentDecl := Some fn\<rparr>)))\<lparr>em_currentDecl := em_currentDecl s\<rparr>"
  by (simp add: emitFunction_def snd_bind del: run_state_bind)

lemma emitFunction_only:
  assumes s: "module_inv N D s" and f: "um_find (em_functions s) (functionKey fn) = Some f" "f < N" "f \<notin> D"
    and b: "block_ok Statement (fn_body fn)"
  shows "only_emitted {f} s (snd (run_state (emitFunction fn) s))"
proof -
  let ?s = "s\<lparr>em_currentDecl := Some fn\<rparr>"
  have "emitted f ?s (snd (run_state (emit_function_code f fn) ?s))"
    using s f b by (intro emit_function_code_emitted) (auto simp: module_inv_def)
  from emitted_only [OF this] have "only_emitted {f} s (snd (run_state (emit_function_code f fn) ?s))"
    by (simp add: only_emitted_def same_headers_def)
  then show ?thesis unfolding run_emitFunction [OF f(1)] by (rule only_emitted_tables) simp_all
qed

text \<open>The functions of a list have different numbers that are still free.\<close>

definition free_functions :: "nat \<Rightarrow> nat set \<Rightarrow> (fn_decl \<Rightarrow> nat) \<Rightarrow> fn_decl list \<Rightarrow> emitter \<Rightarrow> bool" where
  "free_functions N D idf fns s \<longleftrightarrow> module_inv N D s \<and> distinct (map idf fns) \<and> D \<inter> idf ` set fns = {} \<and>
     (\<forall>fn\<in>set fns. um_find (em_functions s) (functionKey fn) = Some (idf fn) \<and> idf fn < N \<and> block_ok Statement (fn_body fn))"

lemma free_functions_step:
  assumes "free_functions N D idf (fn # fns) s" "t = snd (run_state (emitFunction fn) s)"
  shows "free_functions N (insert (idf fn) D) idf fns t" "only_emitted {idf fn} s t"
proof -
  have s: "module_inv N D s" "um_find (em_functions s) (functionKey fn) = Some (idf fn)" "idf fn < N" "idf fn \<notin> D"
    "block_ok Statement (fn_body fn)" using assms(1) by (auto simp: free_functions_def)
  show "free_functions N (insert (idf fn) D) idf fns t"
    using emitFunction_inv [OF s assms(2)] assms(1) unfolding free_functions_def by auto
  show "only_emitted {idf fn} s t" unfolding assms(2) by (rule emitFunction_only [OF s])
qed

lemma free_functions_run:
  "free_functions N D idf (xs @ ys) s \<Longrightarrow> t = snd (run_state (for_each xs emitFunction) s) \<Longrightarrow>
   free_functions N (D \<union> idf ` set xs) idf ys t \<and> only_emitted (idf ` set xs) s t"
proof (induction xs arbitrary: D s t)
  case (Cons x xs)
  let ?u = "snd (run_state (emitFunction x) s)"
  have f: "free_functions N D idf (x # (xs @ ys)) s" using Cons.prems(1) by simp
  note st = free_functions_step [OF f refl]
  have t: "t = snd (run_state (for_each xs emitFunction) ?u)" using Cons.prems(2) by (simp add: snd_bind del: run_state_bind)
  have "free_functions N (insert (idf x) D \<union> idf ` set xs) idf ys t" "only_emitted (idf ` set xs) ?u t"
    using Cons.IH [OF st(1) t] by simp_all
  then show ?case using only_emitted_trans [OF st(2)] by auto
qed (simp add: only_emitted_refl)

lemma methods_only:
  assumes "module_inv N D s" "map (ml_function \<circ> snd) ms = map Some ids" "distinct ids" "set ids \<subseteq> {..<N}" "D \<inter> set ids = {}"
    "\<And>r m. (r, m) \<in> set ms \<Longrightarrow> block_ok Statement (fn_body (ml_decl m))"
    "t = snd (run_state (for_each ms (\<lambda>(r, m). emitMethod r m)) s)"
  shows "only_emitted (set ids) s t"
  using assms
proof (induction ms arbitrary: D s t ids)
  case (Cons rm ms)
  obtain r m where rm: "rm = (r, m)" by fastforce
  obtain i js where ids: "ids = i # js" "ml_function m = Some i" "map (ml_function \<circ> snd) ms = map Some js"
    using Cons.prems(2) rm by (cases ids) (auto simp: comp_def)
  let ?u = "snd (run_state (emitMethod r m) s)"
  have i: "i < N" "i \<notin> D" "block_ok Statement (fn_body (ml_decl m))" using Cons.prems ids rm by auto
  have "emitted i s ?u"
    unfolding emitMethod_def using Cons.prems(1) i ids(2) by (simp add: module_inv_def emit_method_code_emitted)
  then have u: "only_emitted {i} s ?u" by (rule emitted_only)
  have "only_emitted (set js) ?u t"
    using Cons.prems ids rm emitMethod_inv [OF Cons.prems(1) ids(2) i refl]
    by (intro Cons.IH [of "insert i D"]) (auto simp: snd_bind simp del: run_state_bind)
  from only_emitted_trans [OF u this] show ?case by (simp add: ids)
qed (simp add: only_emitted_refl)


subsection \<open>The code of a function in the finished module\<close>

definition compiled :: "emitter \<Rightarrow> emitter \<Rightarrow> nat \<Rightarrow> fn_decl \<Rightarrow> bool" where
  "compiled d t i fn \<longleftrightarrow> (\<exists>s. same_headers d s \<and> lf_blocks (em_module s ! i) = [] \<and>
     within (ir_text t) (snd (run_state (emit_function_code i fn) s)) \<and> ir_entry t i = length (em_blocks s))"

lemma within_only: "only_emitted A s t \<Longrightarrow> within (ir_text t) s"
  by (simp add: within_def ir_text_def only_emitted_def)

lemma same_headers_trans: "same_headers s t \<Longrightarrow> same_headers t u \<Longrightarrow> same_headers s u"
  by (simp add: same_headers_def)

lemma compiledI:
  assumes d: "same_headers d s" and f: "free_functions N D idf (fn # fns) s"
    and u: "u = snd (run_state (emitFunction fn) s)" and t: "only_emitted A u t" "idf fn \<notin> A"
  shows "compiled d t (idf fn) fn"
proof -
  let ?i = "idf fn" and ?s = "s\<lparr>em_currentDecl := Some fn\<rparr>"
  let ?v = "snd (run_state (emit_function_code ?i fn) ?s)"
  have i: "um_find (em_functions s) (functionKey fn) = Some ?i" "?i < length (em_module s)" "lf_blocks (em_module s ! ?i) = []"
    using f by (auto simp: free_functions_def module_inv_def)
  have u': "em_blocks u = em_blocks ?v" "em_module u = em_module ?v" unfolding u run_emitFunction [OF i(1)] by simp_all
  have "within (ir_text t) ?v" using within_only [OF t(1)] u'(1) by (simp add: within_def ir_text_def)
  moreover have "ir_entry t ?i = length (em_blocks s)"
  proof -
    have b: "block_ok Statement (fn_body fn)" using f by (simp add: free_functions_def)
    have "emitted ?i ?s ?v" using i b by (intro emit_function_code_emitted) simp_all
    then have "hd (lf_blocks (em_module ?v ! ?i)) = length (em_blocks s)" by (simp add: emitted_def)
    then show ?thesis using t u'(2) by (simp add: ir_entry_def only_emitted_def)
  qed
  ultimately show ?thesis using d i(3) unfolding compiled_def
    by (intro exI [of _ ?s]) (simp add: same_headers_def)
qed

lemma same_headers_sym: "same_headers s t \<Longrightarrow> same_headers t s"
  by (simp add: same_headers_def)

lemma program_compiled:
  assumes ok: "program_returns_ok f" and keys: "distinct (map functionKey (plain_functions f))"
    and d: "d = snd (run_state (declare_phase f) ModuleEmitter_init)"
    and t: "t = snd (run_state (emit_module f) ModuleEmitter_init)" and i: "i < length (plain_functions f)"
  shows "compiled d t i (plain_functions f ! i)"
proof -
  let ?fns = "plain_functions f" and ?N = "length (em_module d)"
  note dp = declare_phase [OF ok keys d]
  define idf where "idf fn = the (um_find (em_functions d) (functionKey fn))" for fn
  have ids: "map idf ?fns = [0..<length ?fns]"
    using dp(3) by (intro nth_equalityI) (simp_all add: idf_def)
  have "\<forall>fn\<in>set ?fns. um_find (em_functions d) (functionKey fn) = Some (idf fn) \<and> idf fn < ?N \<and> block_ok Statement (fn_body fn)"
    using dp(2,3) ok by (auto simp: in_set_conv_nth idf_def program_returns_ok_def)
  then have free: "free_functions ?N {} idf (take i ?fns @ ?fns ! i # drop (Suc i) ?fns) d"
    using ids unemitted_inv [OF dp(1)] by (simp add: free_functions_def id_take_nth_drop [OF i, symmetric])
  define s where "s = snd (run_state (for_each (take i ?fns) emitFunction) d)"
  define u where "u = snd (run_state (emitFunction (?fns ! i)) s)"
  define v where "v = snd (run_state (for_each (drop (Suc i) ?fns) emitFunction) u)"
  note 1 = free_functions_run [OF free s_def]
  note 2 = free_functions_step [OF conjunct1 [OF 1] u_def]
  have "free_functions ?N (insert (idf (?fns ! i)) ({} \<union> idf ` set (take i ?fns))) idf (drop (Suc i) ?fns @ []) u" using 2(1) by simp
  note 3 = free_functions_run [OF this v_def]
  have idi: "idf (?fns ! i) = i" "idf ` set (drop (Suc i) ?fns) = {Suc i..<length ?fns}"
    using arg_cong [OF ids, of "\<lambda>xs. xs ! i"] arg_cong [OF ids, of "\<lambda>xs. set (drop (Suc i) xs)"] i
    by (simp_all add: drop_map drop_upt)
  have all: "insert (idf (?fns ! i)) ({} \<union> idf ` set (take i ?fns)) \<union> idf ` set (drop (Suc i) ?fns) = {..<length ?fns}"
    using arg_cong [OF ids, of "\<lambda>xs. set (take i xs)"] i idi by (auto simp: take_map)
  have inv: "module_inv ?N {..<length ?fns} v" using 3 all by (simp add: free_functions_def)
  have lay: "em_layouts v = em_layouts d" using 1 2(2) 3 by (simp add: only_emitted_def same_headers_def)
  have run: "snd (run_state (for_each ?fns emitFunction) d) = v"
    by (subst id_take_nth_drop [OF i]) (simp add: for_each_append snd_bind s_def u_def v_def del: run_state_bind)
  have t': "t = snd (run_state (for_each (all_methods (em_layouts v)) (\<lambda>(r, m). emitMethod r m)) v)"
    unfolding t emit_module_phases emitMethods_list by (simp add: snd_bind d [symmetric] run del: run_state_bind)
  have "only_emitted (set [length ?fns..<?N]) v t"
    using dp(4,5) by (intro methods_only [OF inv _ _ _ _ _ t']) (auto simp: lay)
  then have "only_emitted ({Suc i..<length ?fns} \<union> set [length ?fns..<?N]) u t"
    using 3 only_emitted_trans idi(2) by metis
  from compiledI [OF _ conjunct1 [OF 1] u_def this] show ?thesis
    using 1 idi(1) i by (simp add: only_emitted_def)
qed


subsection \<open>The declarations of a program\<close>

text \<open>Declaring keeps the functions that are declared, and makes a layout for structs only.\<close>

definition declares :: "string \<Rightarrow> emitter \<Rightarrow> emitter \<Rightarrow> bool" where
  "declares x s t \<longleftrightarrow> (um_find (em_layouts s) x = None \<longrightarrow> um_find (em_layouts t) x = None) \<and>
     (\<exists>fs. em_module t = em_module s @ fs)"

abbreviation declaring :: "string \<Rightarrow> 'a em \<Rightarrow> bool" where
  "declaring x c \<equiv> state_io_rel (declares x) c"

lemma declares_trans: "declares x s t \<Longrightarrow> declares x t u \<Longrightarrow> declares x s u"
  by (auto simp: declares_def)

lemma declaring_ret: "declaring x (ret y)" and declaring_gets: "declaring x (gets g)"
  by (simp_all add: state_io_rel_def declares_def)

lemma declaring_update:
  "(\<And>s. um_find (em_layouts s) x = None \<Longrightarrow> um_find (em_layouts (f s)) x = None) \<Longrightarrow> (\<And>s. \<exists>fs. em_module (f s) = em_module s @ fs) \<Longrightarrow>
   declaring x (update f)"
  by (simp add: state_io_rel_def declares_def)

lemma declaring_bind: "declaring x c \<Longrightarrow> (\<And>y. declaring x (f y)) \<Longrightarrow> declaring x (c \<bind> f)"
  unfolding state_io_rel_def by (auto split: prod.splits) (metis declares_trans snd_conv)

lemma declaring_for_each: "(\<And>y. y \<in> set ys \<Longrightarrow> declaring x (f y)) \<Longrightarrow> declaring x (for_each ys f)"
  by (induction ys) (auto intro!: declaring_ret declaring_bind)

lemma declaring_traverse: "(\<And>y. y \<in> set ys \<Longrightarrow> declaring x (f y)) \<Longrightarrow> declaring x (traverse_list f ys)"
  by (induction ys) (auto intro!: declaring_ret declaring_bind)

lemmas declaring_intros = declaring_ret declaring_gets declaring_bind declaring_for_each declaring_traverse

lemma add_layout_other:
  "(\<forall>sd. Some (DStruct sd) \<in> set ds \<longrightarrow> sd_name sd \<noteq> x) \<Longrightarrow>
   um_find (snd (fold add_layout ds acc)) x = um_find (snd acc) x"
proof (induction ds arbitrary: acc)
  case (Cons d ds)
  have "um_find (snd (add_layout d acc)) x = um_find (snd acc) x"
    using Cons.prems by (auto simp: add_layout_def um_find_emplace split: option.splits decl.splits)
  then show ?case using Cons by simp
qed simp

lemma declaring_structs:
  assumes "\<forall>sd. Some (DStruct sd) \<in> set (sf_declarations f) \<longrightarrow> sd_name sd \<noteq> x"
  shows "declaring x (ll_collectStructs f)"
  unfolding ll_collectStructs_def set_struct_body_def
  by (intro declaring_bind declaring_update declaring_for_each)
     (auto intro!: declaring_intros declaring_update simp: add_layout_other [OF assms] um_find_modify split: option.splits decl.splits)

lemma declaring_methods: "declaring x (ll_collectMethods f)"
  unfolding ll_collectMethods_def ll_collectMethod_def Let_def
  by (intro declaring_intros)
     (auto intro!: declaring_intros declaring_update simp: um_find_modify split: option.splits decl.splits)

lemma declaring_keys: "declaring x (for_each fns registerFunctionKey)"
  unfolding registerFunctionKey_def by (intro declaring_for_each declaring_update) simp_all

lemma declaring_declareMethod: "declaring x (declareMethod structName name r m)"
  unfolding declareMethod_def add_function_def Let_def by (intro declaring_intros declaring_update) simp_all

lemma traverse_fst:
  "(\<And>y s. fst (fst (run_state (f y) s)) = fst y) \<Longrightarrow> map fst (fst (run_state (traverse_list f ys) s)) = map fst ys"
proof (induction ys arbitrary: s)
  case (Cons y ys)
  obtain z u where z: "run_state (f y) s = (z, u)" by fastforce
  obtain zs v where zs: "run_state (traverse_list f ys) u = (zs, v)" by fastforce
  have "fst z = fst y" using Cons.prems [of y s] z by simp
  moreover have "map fst zs = map fst ys" using Cons.IH [OF Cons.prems, of u] zs by simp
  ultimately show ?case by (simp add: z zs)
qed simp

lemma um_find_keys: "um_find m x = None \<longleftrightarrow> x \<notin> set (map fst m)"
  by (induction m) auto

lemma declaring_declareMethods: "declaring x declareMethods"
proof -
  let ?step = "\<lambda>(structName, layout). do {
       ms \<leftarrow> declare_group structName True (sl_methods layout);
       as \<leftarrow> declare_group structName False (sl_associated layout);
       ret (structName, layout\<lparr>sl_methods := ms, sl_associated := as\<rparr>)}"
  have "declares x s (snd (run_state declareMethods s))" for s
  proof -
    have tr: "declaring x (traverse_list ?step (em_layouts s))"
      unfolding declare_group_def by (auto intro!: declaring_intros declaring_declareMethod)
    obtain ls u where run: "run_state (traverse_list ?step (em_layouts s)) s = (ls, u)" by fastforce
    have "declares x s (snd (run_state (traverse_list ?step (em_layouts s)) s))"
      by (rule tr [unfolded state_io_rel_def, THEN spec])
    then have "declares x s u" unfolding run snd_conv .
    moreover have "map fst (fst (run_state (traverse_list ?step (em_layouts s)) s)) = map fst (em_layouts s)"
      by (rule traverse_fst) (simp split: prod.split)
    then have "map fst ls = map fst (em_layouts s)" unfolding run fst_conv .
    then have "um_find (em_layouts s) x = None \<longleftrightarrow> um_find ls x = None" unfolding um_find_keys by simp
    ultimately show ?thesis using run by (auto simp: declareMethods_def declares_def)
  qed
  then show ?thesis by (simp add: state_io_rel_def)
qed

text \<open>The header of a declared function.\<close>

definition function_head :: "layouts \<Rightarrow> fn_decl \<Rightarrow> ll_function" where
  "function_head ls fn =
     \<lparr>lf_name = manglePath (functionKey fn), lf_returnType = ll_typeFromAst ls (fn_returnType fn),
      lf_params = map (\<lambda>p. (pm_name p, parameterTypeFromAst ls (pm_type p))) (fn_params fn), lf_blocks = []\<rparr>"

lemma declare_heads:
  "t = snd (run_state (for_each fns declareFunction) s) \<Longrightarrow>
   em_module t = em_module s @ map (function_head (em_layouts s)) fns \<and> em_layouts t = em_layouts s"
proof (induction fns arbitrary: s)
  case (Cons fn fns)
  let ?u = "snd (run_state (declareFunction fn) s)"
  have "em_module ?u = em_module s @ [function_head (em_layouts s) fn]" "em_layouts ?u = em_layouts s"
    by (simp_all add: declareFunction_def add_function_def function_head_def)
  then show ?case using Cons.IH [of ?u] Cons.prems by (simp add: snd_bind del: run_state_bind)
qed simp

lemma head_declared:
  assumes "scalar_function F fn" "um_find ls ''i64'' = None"
  shows "map (Some \<circ> snd) (lf_params (function_head ls fn)) = map (\<lambda>p. map_option ll_of (scalar_of_ref (pm_type p))) (fn_params fn)"
    "Some (lf_returnType (function_head ls fn)) = map_option ll_of (scalar_of_ref (fn_returnType fn))"
    "LPtr \<notin> snd ` set (lf_params (function_head ls fn))"
proof -
  have ps: "\<exists>ty. scalar_of_ref (pm_type p) = Some ty \<and> parameterTypeFromAst ls (pm_type p) = ll_of ty" if "p \<in> set (fn_params fn)" for p
    using that assms scalar_ref_types(2) by (force simp: scalar_function_def)
  then show "map (Some \<circ> snd) (lf_params (function_head ls fn)) = map (\<lambda>p. map_option ll_of (scalar_of_ref (pm_type p))) (fn_params fn)"
    by (fastforce simp: function_head_def)
  show "Some (lf_returnType (function_head ls fn)) = map_option ll_of (scalar_of_ref (fn_returnType fn))"
    using assms scalar_ref_types(1) by (force simp: scalar_function_def function_head_def)
  have ll: "ll_of ty \<noteq> LPtr" for ty by (cases ty) simp_all
  show "LPtr \<notin> snd ` set (lf_params (function_head ls fn))"
  proof
    assume "LPtr \<in> snd ` set (lf_params (function_head ls fn))"
    then obtain p where "p \<in> set (fn_params fn)" "parameterTypeFromAst ls (pm_type p) = LPtr"
      by (auto simp: function_head_def)
    then show False using ps ll by metis
  qed
qed

text \<open>
  The programs of the theorem: the functions \<open>fns\<close> of a file belong to the fragment and call each other only; names and
  keys are different, returns stand where the emitted code of all functions is well formed, and no struct is called like
  the number type. The file may have any other declarations.
\<close>

definition scalar_part :: "ast_file \<Rightarrow> fn_decl list \<Rightarrow> bool" where
  "scalar_part f fns \<longleftrightarrow>
     set fns \<subseteq> set (plain_functions f) \<and> list_all (scalar_function (fn_name ` set fns)) fns \<and>
     distinct (map fn_name (plain_functions f)) \<and> distinct (map functionKey (plain_functions f)) \<and>
     program_returns_ok f \<and>
     list_all (\<lambda>d. case d of Some (DStruct sd) \<Rightarrow> sd_name sd \<noteq> ''i64'' | _ \<Rightarrow> True) (sf_declarations f)"

lemma declared_module:
  assumes f: "scalar_part f fns" and d: "d = snd (run_state (declare_phase f) ModuleEmitter_init)"
  obtains ls xs where "em_module d = map (function_head ls) (plain_functions f) @ xs" "um_find ls ''i64'' = None"
    "um_find (em_layouts d) ''i64'' = None"
proof -
  define s where "s = snd (run_state (do {ll_collectStructs f; ll_collectMethods f; for_each (plain_functions f) registerFunctionKey}) ModuleEmitter_init)"
  define u where "u = snd (run_state (for_each (plain_functions f) declareFunction) s)"
  have structs: "\<forall>sd. Some (DStruct sd) \<in> set (sf_declarations f) \<longrightarrow> sd_name sd \<noteq> ''i64''"
    using f by (force simp: scalar_part_def list_all_iff)
  have "declaring ''i64'' (do {ll_collectStructs f; ll_collectMethods f; for_each (plain_functions f) registerFunctionKey})"
    by (intro declaring_bind declaring_structs [OF structs] declaring_methods declaring_keys)
  then have "declares ''i64'' ModuleEmitter_init s" unfolding s_def state_io_rel_def by blast
  then have lay: "um_find (em_layouts s) ''i64'' = None" by (simp add: declares_def ModuleEmitter_init_def)
  have "collects (\<lambda>_. True) (do {ll_collectStructs f; ll_collectMethods f; for_each_fn f registerFunctionKey})"
    by (intro collects_then collects_structs collects_all_methods collects_keys) simp
  then have "em_module s = []"
    unfolding s_def collects_def collecting_def for_each_fn_list by (simp add: ModuleEmitter_init_def layouts_all_def del: run_state_bind)
  then have u: "em_module u = map (function_head (em_layouts s)) (plain_functions f)" "em_layouts u = em_layouts s"
    using declare_heads [OF u_def] by simp_all
  have d': "d = snd (run_state declareMethods u)"
    unfolding d u_def s_def declare_phase_def for_each_fn_list by (simp add: snd_bind del: run_state_bind)
  have "declares ''i64'' u d" using declaring_declareMethods unfolding d' state_io_rel_def by blast
  then show ?thesis using that [of "em_layouts s"] u lay by (auto simp: declares_def)
qed

lemma names_index:
  assumes "distinct (map fn_name fns)" "i < length fns"
  shows "filter (\<lambda>fn. fn_name fn = fn_name (fns ! i)) fns = [fns ! i]"
  using assms
proof (induction fns arbitrary: i)
  case (Cons g fns)
  then show ?case by (cases i) (auto simp: filter_empty_conv, (metis image_eqI nth_mem)+)
qed simp

lemma program_declared:
  assumes f: "scalar_part f fns" and d: "d = snd (run_state (declare_phase f) ModuleEmitter_init)"
  shows "declared (fn_name ` set fns) d"
    and "i < length (plain_functions f) \<Longrightarrow> fn_index d (fn_name (plain_functions f ! i)) = Some i"
    and "i < length (plain_functions f) \<Longrightarrow> plain_functions f ! i \<in> set fns \<Longrightarrow> declared_as d i (plain_functions f ! i)"
proof -
  obtain ls xs where m: "em_module d = map (function_head ls) (plain_functions f) @ xs" "um_find ls ''i64'' = None"
    "um_find (em_layouts d) ''i64'' = None" using declared_module [OF f d] by metis
  have fn: "scalar_function (fn_name ` set fns) fn" if "fn \<in> set fns" for fn using that f by (simp add: scalar_part_def list_all_iff)
  have ok: "program_returns_ok f" "distinct (map functionKey (plain_functions f))" using f by (simp_all add: scalar_part_def)
  show index: "fn_index d (fn_name (plain_functions f ! i)) = Some i" if i: "i < length (plain_functions f)" for i
  proof -
    have "um_find (em_functions d) (functionKey (plain_functions f ! i)) = Some i" using declare_phase(3) [OF ok d i] .
    moreover have "(case um_find (em_simpleKeys d) (fn_name (plain_functions f ! i)) of None \<Rightarrow> [] | Some ks \<Rightarrow> ks) =
        [functionKey (plain_functions f ! i)]"
      using declared_names [of f] names_index [OF _ i] f unfolding d names_hold_def scalar_part_def by simp
    then have "um_find (em_simpleKeys d) (fn_name (plain_functions f ! i)) = Some [functionKey (plain_functions f ! i)]"
      by (simp split: option.splits)
    ultimately show ?thesis by (simp add: fn_index_def resolveFunctionKey_def)
  qed
  have nth: "em_module d ! i = function_head ls (plain_functions f ! i)" if "i < length (plain_functions f)" for i
    using that m(1) by (simp add: nth_append)
  show "declared_as d i (plain_functions f ! i)" if "i < length (plain_functions f)" "plain_functions f ! i \<in> set fns"
    using that head_declared [OF fn m(2)] nth m(1) by (simp add: declared_as_def)
  have "\<exists>i<length (em_module d). fn_index d (fn_name fn) = Some i \<and> LPtr \<notin> snd ` set (lf_params (em_module d ! i))" if g: "fn \<in> set fns" for fn
  proof -
    obtain i where "i < length (plain_functions f)" "plain_functions f ! i = fn"
      using g f by (auto simp: scalar_part_def in_set_conv_nth subset_iff)
    moreover from this have "i < length (em_module d)" using m(1) by simp
    ultimately show ?thesis using index nth head_declared(3) [OF fn [OF g] m(2)] by metis
  qed
  then show "declared (fn_name ` set fns) d" using m(3) by (simp add: declared_def)
qed


subsection \<open>The program\<close>

lemma same_headers_heads:
  assumes "same_headers d s" "i < length (em_module d)"
  shows "lf_params (em_module s ! i) = lf_params (em_module d ! i)" "lf_returnType (em_module s ! i) = lf_returnType (em_module d ! i)"
proof -
  have "(em_module s ! i)\<lparr>lf_blocks := []\<rparr> = (em_module d ! i)\<lparr>lf_blocks := []\<rparr>"
    using assms same_headers_length [OF assms(1)] unfolding same_headers_def by (metis nth_map)
  then have "lf_params ((em_module s ! i)\<lparr>lf_blocks := []\<rparr>) = lf_params ((em_module d ! i)\<lparr>lf_blocks := []\<rparr>)"
    "lf_returnType ((em_module s ! i)\<lparr>lf_blocks := []\<rparr>) = lf_returnType ((em_module d ! i)\<lparr>lf_blocks := []\<rparr>)"
    by simp_all
  then show "lf_params (em_module s ! i) = lf_params (em_module d ! i)" "lf_returnType (em_module s ! i) = lf_returnType (em_module d ! i)"
    by simp_all
qed

lemma same_headers_index: "same_headers d s \<Longrightarrow> fn_index s f = fn_index d f"
  by (intro fn_index_tables) (simp_all add: same_headers_def)

lemma same_headers_declared:
  assumes h: "same_headers d s"
  shows "declared F d \<Longrightarrow> declared F s" "declared_as d i fn \<Longrightarrow> declared_as s i fn" "calls_ok C E cf d \<Longrightarrow> calls_ok C E cf s"
proof -
  note heads = same_headers_heads [OF h] same_headers_index [OF h] same_headers_length [OF h]
  show "declared F d \<Longrightarrow> declared F s" using heads h unfolding declared_def by (fastforce simp: same_headers_def)
  show "declared_as d i fn \<Longrightarrow> declared_as s i fn" using heads by (simp add: declared_as_def)
  show "calls_ok C E cf s" if c: "calls_ok C E cf d"
    unfolding calls_ok_def
  proof (intro allI impI)
    fix f vs v ws assume "cf f vs = Some v" "list_all2 value_rel vs ws"
    then obtain i w where "fn_index d f = Some i" "i < length (em_module d)" "ir_returns C E i ws w" "value_rel v w"
      "lf_returnType (em_module d ! i) = ll_of (scalar_type_of v)" using c unfolding calls_ok_def by blast
    then show "\<exists>i w. fn_index s f = Some i \<and> i < length (em_module s) \<and> ir_returns C E i ws w \<and> value_rel v w \<and>
        lf_returnType (em_module s ! i) = ll_of (scalar_type_of v)"
      using heads by (intro exI [of _ i] exI [of _ w]) simp
  qed
qed

lemma calls_compiled:
  assumes f: "scalar_part f fns" and d: "d = snd (run_state (declare_phase f) ModuleEmitter_init)"
    and t: "t = snd (run_state (emit_module f) ModuleEmitter_init)"
  shows "calls_ok (ir_text t) (ir_entry t) (call_function_in fns k) d"
proof (induction k)
  case 0
  then show ?case by (simp add: calls_ok_def)
next
  case (Suc k)
  have ok: "program_returns_ok f" "distinct (map functionKey (plain_functions f))" using f by (simp_all add: scalar_part_def)
  show ?case
    unfolding calls_ok_def
  proof (intro allI impI)
    fix name vs v ws
    assume call: "call_function_in fns (Suc k) name vs = Some v" and vs: "list_all2 value_rel vs ws"
    then obtain fn where fn: "find (\<lambda>fn. fn_name fn = name) fns = Some fn" "run_function (call_function_in fns k) k fn vs = Some v"
      by (auto split: option.splits)
    have g: "fn \<in> set fns" "fn_name fn = name" using fn(1) by (auto simp: find_Some_iff)
    obtain i where i: "i < length (plain_functions f)" "plain_functions f ! i = fn"
      using g f by (auto simp: scalar_part_def in_set_conv_nth subset_iff)
    have sf: "scalar_function (fn_name ` set fns) fn" using g f by (simp add: scalar_part_def list_all_iff)
    obtain s where s: "same_headers d s" "lf_blocks (em_module s ! i) = []"
      "within (ir_text t) (snd (run_state (emit_function_code i fn) s))" "ir_entry t i = length (em_blocks s)"
      using program_compiled [OF ok d t i(1)] i(2) unfolding compiled_def by blast
    note pd = program_declared [OF f d]
    have as: "declared_as d i fn" using pd(3) i g(1) by blast
    obtain w where "ir_returns (ir_text t) (ir_entry t) i ws w" "value_rel v w" "lf_returnType (em_module s ! i) = ll_of (scalar_type_of v)"
      using function_code_runs [where E = "ir_entry t", OF s(2) same_headers_declared(1) [OF s(1) pd(1)] same_headers_declared(2) [OF s(1) as] sf refl
          s(3,4) same_headers_declared(3) [OF s(1) Suc.IH] fn(2) vs] by blast
    moreover have "i < length (em_module d)" using as by (simp add: declared_as_def)
    ultimately show "\<exists>i w. fn_index d name = Some i \<and> i < length (em_module d) \<and> ir_returns (ir_text t) (ir_entry t) i ws w \<and>
        value_rel v w \<and> lf_returnType (em_module d ! i) = ll_of (scalar_type_of v)"
      using pd(2) [OF i(1)] i(2) g(2) same_headers_heads(2) [OF s(1)] by auto
  qed
qed


text \<open>The witness: Euclid's algorithm in a loop, called from a function with a conditional.\<close>

abbreviation i64_ref :: "type_ref option" where
  "i64_ref \<equiv> Some (TypeRef sample_node Cap_None ''i64'' [''i64''] False False None)"

abbreviation var :: "string \<Rightarrow> expr option" where
  "var x \<equiv> Some (NameExpr sample_node x)"

abbreviation op_of :: "string \<Rightarrow> expr option \<Rightarrow> expr option \<Rightarrow> expr option" where
  "op_of op a b \<equiv> Some (BinaryExpr sample_node op a b)"

definition gcd_fn :: fn_decl where
  "gcd_fn = (fn_of [] ''gcd''
     [Some (WhileExpr sample_node (op_of ''!='' (var ''b'') (int_lit ''0'')) (Some (BlockExpr sample_node
        [let_of ''r'' (op_of ''%'' (var ''a'') (var ''b'')),
         Some (AssignExpr sample_node (var ''a'') (var ''b'')),
         Some (AssignExpr sample_node (var ''b'') (var ''r''))]))),
      return_of (var ''a'')])\<lparr>fn_params := [\<lparr>pm_name = ''a'', pm_type = i64_ref\<rparr>, \<lparr>pm_name = ''b'', pm_type = i64_ref\<rparr>]\<rparr>"

definition main_fn :: fn_decl where
  "main_fn = fn_of [] ''main''
     [let_of ''g'' (Some (CallExpr sample_node (var ''gcd'') [int_lit ''84'', int_lit ''36''])),
      Some (IfExpr sample_node (op_of ''<'' (var ''g'') (int_lit ''10'')) (Some (BlockExpr sample_node [return_of (int_lit ''0'')])) None),
      return_of (op_of ''-'' (op_of ''*'' (var ''g'') (int_lit ''2'')) (int_lit ''3''))]"


end
