(* ===== verification/Spec2Isabelle.thy ===== *)
theory Spec2Isabelle
  imports Gura_Basic Gura_Region_IR Gura_Runtime_Calls Gura_Cown Gura_Lexer_Roundtrip Gura_Parser_Files
    Gura_Sema_Verdict Gura_Sema_Traits Gura_Sema_Findings Gura_Cown_Progress Gura_CodeGen_Names
    Gura_CodeGen_Findings Gura_Driver_Props Gura_CodeGen_Correct
begin

text \<open>
  A model of the Gura compiler and of its run-time library, with the theorems that make them correct.

  \<^bold>\<open>The program.\<close> Gura is a language with reference capabilities (\<^verbatim>\<open>iso\<close>, \<^verbatim>\<open>imm\<close>, \<^verbatim>\<open>mut\<close>, \<^verbatim>\<open>tmp\<close>,
  \<^verbatim>\<open>paused\<close>) and memory regions that blocks \<^verbatim>\<open>enter\<close> (to write) and \<^verbatim>\<open>explore\<close> (to read). The compiler is a
  pipeline: \<^verbatim>\<open>Driver\<close> reads the files of a package through \<^verbatim>\<open>SourceManager\<close>, \<^verbatim>\<open>Lexer\<close> and \<^verbatim>\<open>Parser\<close> make a
  syntax tree of each, the driver puts the declarations of all files into one, \<^verbatim>\<open>Sema\<close> checks it, and
  \<^verbatim>\<open>LLVMCodeGen\<close> emits a module that a C++ compiler links with the run-time library. The phases report to one
  \<^verbatim>\<open>DiagnosticEngine\<close>. The emitted code calls the run-time library: regions with a stack of open regions per
  thread, freezing and merging of regions, and cowns (regions behind a mutex). A small region IR with a verifier of
  its own stands beside the pipeline.

  \<^bold>\<open>Theories and sources.\<close> Names of definitions are those of the source; the suffix or prefix of a name tells
  methods of the same name apart (\<^verbatim>\<open>Parser_advance\<close>, \<^verbatim>\<open>ll_typeFromAst\<close>).

  \<^item> \<open>Gura_Prelude\<close>: what the components share: \<^verbatim>\<open>std::unordered_map\<close> as an association list, state monad loops,
    decimal printing, the locale \<open>invariant_system\<close> (a step relation with an invariant), interpreted by the run-time
    library and by the cowns.
  \<^item> \<open>Gura_Basic\<close>: \<^verbatim>\<open>basic/Diagnostic\<close>, \<^verbatim>\<open>SourceLocation\<close>, \<^verbatim>\<open>SourceManager\<close>; the locale \<open>diagnostic_sink\<close> is what the
    phases rely on when they report.
  \<^item> \<open>Gura_Lexer\<close>: \<^verbatim>\<open>lexer/Lexer.cpp\<close>. The members \<^verbatim>\<open>source_\<close>, \<^verbatim>\<open>offset_\<close>, \<^verbatim>\<open>line_\<close>, \<^verbatim>\<open>column_\<close> are the record
    \<open>lexer\<close>, with a ghost field that remembers a read outside the text. \<open>Gura_Lexer_Props\<close> and
    \<open>Gura_Lexer_Roundtrip\<close> prove termination, positions, reads in range, and that printed words lex back.
  \<^item> \<open>Gura_Ast\<close>: \<^verbatim>\<open>ast/*.h\<close>. A \<^verbatim>\<open>unique_ptr\<close> that may be null is an option.
  \<^item> \<open>Gura_Parser\<close>: \<^verbatim>\<open>parser/Parser.cpp\<close>, every parse function over the record \<open>parser\<close> (tokens, index, diagnostics,
    next node id). The functions take the recursive calls as a record of functions, built from a budget of nested
    calls; a loop may run once per token left and once more. \<open>Gura_Parser_Total\<close> proves that the budget
    \<open>parseSourceFile\<close> starts with is never used up on a token list that ends with end-of-file, as every token list of
    the lexer does: the parser returns on every source. Its locales \<open>parser_level\<close> and \<open>token_stream\<close> are the
    contract of the parse functions among themselves and that of the lexer towards the parser.
  \<^item> \<open>Gura_Parser_Print\<close>: the grammar as a printer of syntax trees, with parentheses where precedence and
    associativity need them, the trees that a source denotes (\<open>writable\<close>), and \<open>erase\<close>, which forgets node identifiers
    and spans. \<open>Gura_Parser_Reads\<close> states what a parse function reads of the words ahead, level by level of
    precedence, \<open>Gura_Parser_Roundtrip\<close> proves that the expression functions read printed expressions, blocks and types
    back, \<open>Gura_Parser_Files\<close> does it for declarations and files and puts it behind the lexer: from text to text. The
    grammar is unambiguous.
  \<^item> \<open>Gura_Types\<close>: \<^verbatim>\<open>hir/Capability.h\<close>, \<^verbatim>\<open>hir/Type.h\<close> and the type functions of \<^verbatim>\<open>hir/Sema.cpp\<close>.
  \<^item> \<open>Gura_Sema_State\<close>, \<open>Gura_Sema\<close>, \<open>Gura_Sema_Decls\<close>: \<^verbatim>\<open>hir/Sema.cpp\<close>. The members of \<^verbatim>\<open>Sema\<close> are the record
    \<open>sema\<close>; a method is a computation of the state monad over it; a pointer that \<^verbatim>\<open>lookup\<close> returns is a pair of a
    scope and a name, so that aliasing is as in the code. The methods take the recursive call \<^verbatim>\<open>checkExpr\<close> as an
    argument and \<open>checkExpr\<close> is the structural recursion over expressions that ties them.
  \<^item> \<open>Gura_Sema_Frame\<close> states once, in the locales \<open>kept_relation\<close> and \<open>kept_by_checker\<close>, that a reflexive and
    transitive relation between states that the primitive updates keep is kept by the whole checker. It is
    interpreted with the frame of a check (\<open>Gura_Sema_Scopes\<close>), with the accounting of moves
    (\<open>Gura_Sema_Affine\<close>, \<open>Gura_Sema_Moves\<close>), with the growth of diagnostics (\<open>Gura_Sema_Verdict\<close>) and with the
    function tables (\<open>Gura_Sema_Tables\<close>). \<open>Gura_Sema_Props\<close> and \<open>Gura_Sema_Traits\<close> draw the consequences:
    scopes are balanced, region bodies neither write outside nor let region values escape, an accepted program moves
    a name at most once, an implementation conforms to its trait. \<open>Gura_Sema_Findings\<close> has the programs at which
    these statements end.
  \<^item> \<open>Gura_CodeGen\<close>, \<open>Gura_CodeGen_Expr\<close>: \<^verbatim>\<open>codegen/LLVMCodeGen.cpp\<close>. The members of \<^verbatim>\<open>ModuleEmitter\<close> are the record
    \<open>emitter\<close>, with the module under construction: functions, blocks and instructions, which the builder calls append.
    \<open>Gura_CodeGen_Props\<close> proves that emitting only appends, \<open>Gura_CodeGen_Flow\<close> and \<open>Gura_CodeGen_Wf\<close> check emitted
    functions like bytecode (every block is given the regions that are open at its start), \<open>Gura_CodeGen_Module\<close>
    does it for a module, \<open>Gura_CodeGen_Verdict\<close> for the module of an accepted program. \<open>Gura_CodeGen_Names\<close> is about
    literals and about the resolution of function names, against that of the checker. \<open>Gura_CodeGen_Findings\<close> has
    the programs that are compiled to something else.
  \<^item> \<open>Gura_Exec\<close>: a reference semantics of functions over \<^verbatim>\<open>i64\<close> and \<^verbatim>\<open>bool\<close> with blocks, bindings, assignments,
    conditionals, loops, returns and calls, as an interpreter with a budget; \<open>Gura_IR_Exec\<close>: a small-step semantics of
    the instructions that are emitted for them, after the LLVM language reference. The compiled code refines the source:
    \<open>Gura_CodeGen_Grow\<close> says how emitting extends a function, \<open>Gura_CodeGen_Compute\<close> simulates expressions,
    \<open>Gura_CodeGen_Stmt\<close> follows the blocks of conditionals and loops, \<open>Gura_CodeGen_Simulate\<close> simulates statements,
    \<open>Gura_CodeGen_Function\<close> functions with their parameters, \<open>Gura_CodeGen_Correct\<close> programs, by induction on the depth
    of calls.
  \<^item> \<open>Gura_Driver\<close>: \<^verbatim>\<open>driver/Driver.cpp\<close>, all commands. What they do to the outside (written and removed files,
    commands run) is a list of effects. \<open>Gura_Driver_Props\<close> says what success of \<^verbatim>\<open>check\<close> and \<^verbatim>\<open>build\<close> means, on the
    theorems about the phases; \<open>Gura_Driver_Example\<close> takes a program through all of them.
  \<^item> \<open>Gura_Runtime\<close>: \<^verbatim>\<open>runtime/src/Region.cpp\<close>, \<^verbatim>\<open>Freeze.cpp\<close>, \<^verbatim>\<open>Merge.cpp\<close>. The state is an explicit store:
    \<^verbatim>\<open>Region\<close> objects and allocated blocks by address, the counter of region ids, the stack of every thread. A call
    returns, throws, or is undefined behaviour. \<open>Gura_Runtime_Inv\<close> is the abstract discipline of
    \<^verbatim>\<open>docs/memory-safety.md\<close>; \<open>Gura_Runtime_Heap\<close>, \<open>Gura_Runtime_Safety\<close>, \<open>Gura_Runtime_Props\<close> prove it of every
    reachable state; \<open>Gura_Runtime_Calls\<close> shows that the calls refine the abstract stack machine.
  \<^item> \<open>Gura_Cown\<close>, \<open>Gura_Cown_Progress\<close>: \<^verbatim>\<open>runtime/src/Cown.cpp\<close>, mutual exclusion and, for threads that acquire in the
    order of the ids, progress.
  \<^item> \<open>Gura_Region_IR\<close>: \<^verbatim>\<open>region/RegionIR.cpp\<close> and \<^verbatim>\<open>RegionVerifier.cpp\<close>.

  \<^bold>\<open>Parameters.\<close> The record \<open>host\<close> of the driver holds what is outside the repository: files and directories, the
  environment, the process id, \<^verbatim>\<open>std::system\<close>, and the printing of a module by LLVM. Allocation by \<^verbatim>\<open>new\<close> and
  \<^verbatim>\<open>calloc\<close> is an argument of the run-time calls: the address, or none. The module type of the code generator is the
  sequence of builder calls; LLVM's folding of constants, its renaming of equal names and its text form are not in it.

  \<^bold>\<open>Bounds.\<close> Offsets, lines, columns, ids and sizes are words of the width of the source. The only budgets are those of
  the parser, which are proved sufficient, and that of the reference semantics, which is universally quantified: a
  program that does not end has no value under any budget; every other loop is a structural recursion or has a proof of termination.
  The 32-bit counter of the region verifier is an integer, and \<open>verify_loop_depth\<close> bounds it by the number of
  instructions.

  \<^bold>\<open>Where the model chooses.\<close> The iteration order of an unordered map is the order of insertion. The counter of temporary
  file names is 0, since a process runs one command. \<^verbatim>\<open>std::ranges::sort\<close> is a stable sort here; equal keys do not
  occur, as the keys are the relative paths of different files. A null pointer that the code generator dereferences is
  the flag \<open>em_crashed\<close>.

  \<^bold>\<open>Not modelled.\<close> \<^verbatim>\<open>tools/gura/main.cpp\<close> only forwards its arguments. \<^verbatim>\<open>ast/Stmt.h\<close>, \<^verbatim>\<open>ast/Pattern.h\<close>,
  \<^verbatim>\<open>basic/Identifier.h\<close>, \<^verbatim>\<open>hir/SymbolTable.h\<close> and \<^verbatim>\<open>hir/Hir.h\<close> are declarations that no code uses. LLVM, the linker and
  the file system are outside the repository. The tests and the documents
  are not program logic; where a document promises what the code does not do, a theorem shows the
  behaviour of the code.
\<close>

end
